(* ===== verification/Prelude.thy ===== *)
theory Prelude
  imports
    Main
    "HOL-Library.Char_ord"
    "HOL-Library.List_Lexorder"
    "HOL-Library.Word"
    "HOL-Library.Signed_Division"
begin

unbundle bit_operations_syntax

text \<open>
  Shared vocabulary of the development: the types that stand for Go's basic types, Go errors as
  values, 64-bit wrap-around, the collections of rewrite rules the component theories fill, and
  generic facts on lists that several components use.

  Go strings and byte slices are \<open>char list\<close>s (a \<open>char\<close> is one byte); \<open>time.Time\<close> is an
  integer count of nanoseconds whose zero value is \<open>0\<close>; \<open>time.Duration\<close> is an integer that the
  operations below keep inside the signed 64-bit range.
\<close>

section \<open>Types and rule collections\<close>

type_synonym bytes = string
type_synonym path = string
type_synonym time = int
type_synonym duration = int
type_synonym u64 = "64 word"

named_theorems path_simps "rewrite rules of the path package"
named_theorems store_simps "rewrite rules of the SQL tables"
named_theorems deliver_defs "definitions of the delivery pipeline"

section \<open>Go errors\<close>

text \<open>
  An \<open>error\<close> value carries its message and the sentinels that \<open>errors.Is\<close> finds in its chain.
  \<open>fmt.Errorf("prefix: %w", e)\<close> keeps the sentinels of the wrapped error.
\<close>

datatype os_sentinel = ErrNotExist | ErrPermission | ErrExist

record go_error =
  err_msg :: string
  err_chain :: "os_sentinel list"

definition errorf :: "string \<Rightarrow> go_error" where
  "errorf m = \<lparr>err_msg = m, err_chain = []\<rparr>"

definition wrapf :: "string \<Rightarrow> go_error \<Rightarrow> go_error" where
  "wrapf pre e = \<lparr>err_msg = pre @ err_msg e, err_chain = err_chain e\<rparr>"

definition errors_Is :: "go_error \<Rightarrow> os_sentinel \<Rightarrow> bool" where
  "errors_Is e s = (s \<in> set (err_chain e))"

lemma err_msg_errorf [simp]: "err_msg (errorf m) = m"
  by (simp add: errorf_def)

lemma err_msg_wrapf [simp]: "err_msg (wrapf pre e) = pre @ err_msg e"
  by (simp add: wrapf_def)

lemma err_chain_errorf [simp]: "err_chain (errorf m) = []"
  by (simp add: errorf_def)

lemma err_chain_wrapf [simp]: "err_chain (wrapf pre e) = err_chain e"
  by (simp add: wrapf_def)

lemma errors_Is_wrapf [simp]: "errors_Is (wrapf pre e) s = errors_Is e s"
  by (simp add: errors_Is_def)

type_synonym 'a result = "go_error + 'a"

section \<open>Signed 64-bit arithmetic\<close>

definition wrap64 :: "int \<Rightarrow> int" where
  "wrap64 x = (x + 2 ^ 63) mod 2 ^ 64 - 2 ^ 63"

definition in_int64 :: "int \<Rightarrow> bool" where
  "in_int64 x \<longleftrightarrow> - (2 ^ 63) \<le> x \<and> x < 2 ^ 63"

lemma wrap64_id [simp]: "in_int64 x \<Longrightarrow> wrap64 x = x"
  by (simp add: wrap64_def in_int64_def)

lemma in_int64_wrap64 [simp]: "in_int64 (wrap64 x)"
  by (simp add: wrap64_def in_int64_def)

section \<open>Generic list facts\<close>

lemma filter_eq_Nil_iff: "filter P xs = [] \<longleftrightarrow> (\<forall>x \<in> set xs. \<not> P x)"
  by (induction xs) auto

lemma map_of_eq_Some_distinct:
  "distinct (map fst xs) \<Longrightarrow> (k, v) \<in> set xs \<Longrightarrow> map_of xs k = Some v"
  by simp

lemma find_Some_in: "List.find P xs = Some x \<Longrightarrow> x \<in> set xs \<and> P x"
  by (induction xs) (auto split: if_splits)

lemma find_None_iff_all: "List.find P xs = None \<longleftrightarrow> (\<forall>x \<in> set xs. \<not> P x)"
  by (induction xs) auto

text \<open>A sorted list without repetitions is determined by its elements, which is why the result
  of collecting the keys of a Go map and sorting them does not depend on the iteration order.\<close>

lemma sort_remdups_set_cong:
  fixes xs ys :: "'a::linorder list"
  assumes "set xs = set ys"
  shows "sort (remdups xs) = sort (remdups ys)"
proof (rule sorted_distinct_set_unique)
  show "set (sort (remdups xs)) = set (sort (remdups ys))"
    using assms by simp
qed simp_all

section \<open>Step relations\<close>

text \<open>
  The interface of a component that runs in steps: an invariant that every step keeps, and a preorder of the states along
  which every step from a state with the invariant moves (what is once recorded stays so).
\<close>

locale stepping =
  fixes step :: "'s \<Rightarrow> 's \<Rightarrow> bool"
    and inv :: "'s \<Rightarrow> bool"
    and grows :: "'s \<Rightarrow> 's \<Rightarrow> bool"
  assumes step_inv: "step s s' \<Longrightarrow> inv s \<Longrightarrow> inv s'"
    and step_grows: "step s s' \<Longrightarrow> inv s \<Longrightarrow> grows s s'"
    and grows_refl: "grows s s"
    and grows_trans: "grows s s' \<Longrightarrow> grows s' s'' \<Longrightarrow> grows s s''"
begin

lemma run_inv: "step\<^sup>*\<^sup>* s s' \<Longrightarrow> inv s \<Longrightarrow> inv s'"
  by (induction rule: rtranclp_induct) (auto intro: step_inv)

lemma run_grows: "step\<^sup>*\<^sup>* s s' \<Longrightarrow> inv s \<Longrightarrow> grows s s'"
proof (induction rule: rtranclp_induct)
  case base
  show ?case by (rule grows_refl)
next
  case (step y z)
  then have "inv y" by (auto intro: run_inv)
  with step show ?case by (auto intro: grows_trans step_grows)
qed

end

end
