(* ===== verification/GoStrings.thy ===== *)
theory GoStrings
  imports Prelude
begin

text \<open>
  The functions of Go's packages \<open>strings\<close> and \<open>strconv\<close> that phonewave calls, on byte strings:
  prefix, suffix and substring tests, splitting at and joining with a separator, trimming of
  Unicode white space, lower-casing, decimal integers and booleans. With them the facts that the
  parsers and printers of the component theories rest on: \<open>Split\<close> inverts \<open>Join\<close>, \<open>Atoi\<close> inverts
  \<open>Itoa\<close>, \<open>TrimSpace\<close> is idempotent.
\<close>

section \<open>Prefixes, suffixes, substrings\<close>

definition HasPrefix :: "string \<Rightarrow> string \<Rightarrow> bool" where
  "HasPrefix s p = (take (length p) s = p)"

definition HasSuffix :: "string \<Rightarrow> string \<Rightarrow> bool" where
  "HasSuffix s p = (length p \<le> length s \<and> drop (length s - length p) s = p)"

fun Contains :: "string \<Rightarrow> string \<Rightarrow> bool" where
  "Contains [] p = (p = [])"
| "Contains (c # s) p = (HasPrefix (c # s) p \<or> Contains s p)"

text \<open>\<open>strings.Index\<close>, with \<open>None\<close> for \<open>-1\<close>.\<close>

fun Index :: "string \<Rightarrow> string \<Rightarrow> nat option" where
  "Index [] p = (if p = [] then Some 0 else None)"
| "Index (c # s) p = (if HasPrefix (c # s) p then Some 0 else map_option Suc (Index s p))"

lemma HasPrefix_iff: "HasPrefix s p \<longleftrightarrow> (\<exists>t. s = p @ t)"
  by (auto simp: HasPrefix_def) (metis append_take_drop_id)

lemma HasPrefix_append [simp]: "HasPrefix (p @ t) p"
  by (simp add: HasPrefix_def)

lemma HasSuffix_iff: "HasSuffix s p \<longleftrightarrow> (\<exists>t. s = t @ p)"
  by (auto simp: HasSuffix_def) (metis append_take_drop_id)

lemma Contains_iff: "Contains s p \<longleftrightarrow> (\<exists>a b. s = a @ p @ b)"
proof (induction s)
  case Nil
  show ?case by simp
next
  case (Cons c s)
  show ?case
  proof
    assume "Contains (c # s) p"
    then show "\<exists>a b. c # s = a @ p @ b"
    proof (cases "HasPrefix (c # s) p")
      case True
      then show ?thesis by (metis HasPrefix_iff append_Nil)
    next
      case False
      with \<open>Contains (c # s) p\<close> Cons.IH obtain a b where "s = a @ p @ b" by auto
      then have "c # s = (c # a) @ p @ b" by simp
      then show ?thesis by blast
    qed
  next
    assume "\<exists>a b. c # s = a @ p @ b"
    then obtain a b where eq: "c # s = a @ p @ b" by blast
    show "Contains (c # s) p"
    proof (cases a)
      case Nil
      with eq have "HasPrefix (c # s) p" by (auto simp: HasPrefix_iff)
      then show ?thesis by simp
    next
      case (Cons d a')
      with eq have "s = a' @ p @ b" by simp
      with Cons.IH show ?thesis by auto
    qed
  qed
qed

lemma Contains_appendI1: "Contains s p \<Longrightarrow> Contains (s @ t) p"
  unfolding Contains_iff by (metis append.assoc)

lemma Contains_appendI2: "Contains t p \<Longrightarrow> Contains (s @ t) p"
  unfolding Contains_iff by (metis append.assoc)

lemma Contains_self_append [simp]: "Contains (p @ t) p"
  unfolding Contains_iff by (metis append_Nil)

lemma HasPrefix_Contains: "HasPrefix s (p @ q) \<Longrightarrow> Contains s p"
  unfolding HasPrefix_iff Contains_iff by (metis append.assoc append_Nil)

section \<open>Split and Join\<close>

text \<open>\<open>strings.Split\<close> at a one-byte separator and \<open>strings.Join\<close>.\<close>

fun Split :: "char \<Rightarrow> string \<Rightarrow> string list" where
  "Split c [] = [[]]"
| "Split c (x # s) =
     (if x = c then [] # Split c s
      else (case Split c s of [] \<Rightarrow> [[x]] | p # ps \<Rightarrow> (x # p) # ps))"

fun Join :: "string \<Rightarrow> string list \<Rightarrow> string" where
  "Join sep [] = []"
| "Join sep [p] = p"
| "Join sep (p # q # ps) = p @ sep @ Join sep (q # ps)"

lemma Split_not_Nil [simp]: "Split c s \<noteq> []"
  by (induction s) (auto split: list.splits)

lemma Split_free: "p \<in> set (Split c s) \<Longrightarrow> c \<notin> set p"
  by (induction s arbitrary: p) (fastforce split: if_splits list.splits)+

lemma Split_no_sep [simp]: "c \<notin> set s \<Longrightarrow> Split c s = [s]"
  by (induction s) auto

lemma Split_append_sep: "c \<notin> set p \<Longrightarrow> Split c (p @ c # t) = p # Split c t"
  by (induction p) auto

lemma Join_Cons: "ps \<noteq> [] \<Longrightarrow> Join sep (p # ps) = p @ sep @ Join sep ps"
  by (cases ps) auto

lemma Join_snoc: "ps \<noteq> [] \<Longrightarrow> Join sep (ps @ [p]) = Join sep ps @ sep @ p"
  by (induction ps rule: induct_list012) (auto simp: Join_Cons)

lemma Split_Join:
  "ps \<noteq> [] \<Longrightarrow> \<forall>p \<in> set ps. c \<notin> set p \<Longrightarrow> Split c (Join [c] ps) = ps"
  by (induction ps rule: induct_list012) (auto simp: Split_append_sep)

lemma Join_Split: "Join [c] (Split c s) = s"
proof (induction s)
  case Nil
  show ?case by simp
next
  case (Cons x s)
  obtain p ps where p: "Split c s = p # ps" by (meson Split_not_Nil neq_Nil_conv)
  show ?case
    using Cons p by (cases ps) auto
qed

lemma Split_append: "Split c (s @ c # t) = Split c s @ Split c t"
proof (induction s)
  case Nil
  show ?case by simp
next
  case (Cons x s)
  obtain p ps where "Split c s = p # ps" by (meson Split_not_Nil neq_Nil_conv)
  with Cons show ?case by simp
qed

lemma Split_lines: "\<forall>l \<in> set ls. c \<notin> set l \<Longrightarrow> Split c (concat (map (\<lambda>l. l @ [c]) ls)) = ls @ [[]]"
  by (induction ls) (auto simp: Split_append_sep)

lemma Index_append:
  assumes "\<And>i. i < length s \<Longrightarrow> \<not> HasPrefix (drop i (s @ p @ t)) p"
  shows "Index (s @ p @ t) p = Some (length s)"
  using assms
proof (induction s)
  case Nil
  show ?case using HasPrefix_append[of p t] by (cases "p @ t") auto
next
  case (Cons c s)
  have "\<not> HasPrefix (c # s @ p @ t) p" using Cons.prems[of 0] by simp
  moreover have "Index (s @ p @ t) p = Some (length s)"
  proof (rule Cons.IH)
    show "\<not> HasPrefix (drop i (s @ p @ t)) p" if "i < length s" for i using Cons.prems[of "Suc i"] that by simp
  qed
  ultimately show ?case by simp
qed

section \<open>TrimSpace\<close>

text \<open>
  \<open>unicode.IsSpace\<close> as the UTF-8 encodings of the characters it accepts. UTF-8 is
  self-synchronising, so a string starts (ends) with a space rune exactly when it starts (ends)
  with one of these byte sequences.
\<close>

definition space_runes :: "string list" where
  "space_runes =
     [[CHR 0x09], [CHR 0x0A], [CHR 0x0B], [CHR 0x0C], [CHR 0x0D], [CHR 0x20],
      [CHR 0xC2, CHR 0x85], [CHR 0xC2, CHR 0xA0], [CHR 0xE1, CHR 0x9A, CHR 0x80],
      [CHR 0xE2, CHR 0x80, CHR 0x80], [CHR 0xE2, CHR 0x80, CHR 0x81],
      [CHR 0xE2, CHR 0x80, CHR 0x82], [CHR 0xE2, CHR 0x80, CHR 0x83],
      [CHR 0xE2, CHR 0x80, CHR 0x84], [CHR 0xE2, CHR 0x80, CHR 0x85],
      [CHR 0xE2, CHR 0x80, CHR 0x86], [CHR 0xE2, CHR 0x80, CHR 0x87],
      [CHR 0xE2, CHR 0x80, CHR 0x88], [CHR 0xE2, CHR 0x80, CHR 0x89],
      [CHR 0xE2, CHR 0x80, CHR 0x8A], [CHR 0xE2, CHR 0x80, CHR 0xA8],
      [CHR 0xE2, CHR 0x80, CHR 0xA9], [CHR 0xE2, CHR 0x80, CHR 0xAF],
      [CHR 0xE2, CHR 0x81, CHR 0x9F], [CHR 0xE3, CHR 0x80, CHR 0x80]]"

text \<open>Drop leading members of \<open>runes\<close> as long as there are any.\<close>

function strip_left :: "string list \<Rightarrow> string \<Rightarrow> string" where
  "strip_left runes s =
     (case List.find (\<lambda>r. r \<noteq> [] \<and> HasPrefix s r) runes of
        None \<Rightarrow> s
      | Some r \<Rightarrow> strip_left runes (drop (length r) s))"
  by pat_completeness auto
termination
  by (relation "measure (\<lambda>(runes, s). length s)")
     (auto dest!: find_Some_in simp: HasPrefix_def intro!: diff_less)

declare strip_left.simps [simp del]

definition strip_right :: "string list \<Rightarrow> string \<Rightarrow> string" where
  "strip_right runes s = rev (strip_left (map rev runes) (rev s))"

definition TrimSpace :: "string \<Rightarrow> string" where
  "TrimSpace s = strip_right space_runes (strip_left space_runes s)"

lemma strip_left_fixed:
  "List.find (\<lambda>r. r \<noteq> [] \<and> HasPrefix s r) runes = None \<Longrightarrow> strip_left runes s = s"
  by (simp add: strip_left.simps)

lemma strip_left_result:
  "List.find (\<lambda>r. r \<noteq> [] \<and> HasPrefix (strip_left runes s) r) runes = None"
proof (induction runes s rule: strip_left.induct)
  case (1 runes s)
  show ?case
  proof (cases "List.find (\<lambda>r. r \<noteq> [] \<and> HasPrefix s r) runes")
    case None
    then show ?thesis by (simp add: strip_left_fixed)
  next
    case (Some r)
    with 1 show ?thesis by (simp add: strip_left.simps[of runes s])
  qed
qed

lemma strip_left_suffix: "\<exists>p. s = p @ strip_left runes s"
proof (induction runes s rule: strip_left.induct)
  case (1 runes s)
  show ?case
  proof (cases "List.find (\<lambda>r. r \<noteq> [] \<and> HasPrefix s r) runes")
    case None
    then show ?thesis by (simp add: strip_left_fixed)
  next
    case (Some r)
    with 1 obtain p where "drop (length r) s = p @ strip_left runes (drop (length r) s)" by blast
    with Some have "s = (take (length r) s @ p) @ strip_left runes s"
      by (simp add: strip_left.simps[of runes s])
    then show ?thesis by blast
  qed
qed

lemma strip_left_idem [simp]: "strip_left runes (strip_left runes s) = strip_left runes s"
  by (rule strip_left_fixed) (rule strip_left_result)

lemma strip_right_idem [simp]: "strip_right runes (strip_right runes s) = strip_right runes s"
  by (simp add: strip_right_def)

lemma strip_right_prefix: "\<exists>q. s = strip_right runes s @ q"
  using strip_left_suffix[of "rev s" "map rev runes"]
  by (metis rev_append rev_rev_ident strip_right_def)

text \<open>A prefix of a string that starts with no space rune starts with no space rune.\<close>

lemma strip_left_prefix_fixed:
  assumes "strip_left runes (t @ q) = t @ q"
  shows "strip_left runes t = t"
proof (rule strip_left_fixed)
  have none: "List.find (\<lambda>r. r \<noteq> [] \<and> HasPrefix (t @ q) r) runes = None"
    using strip_left_result[of runes "t @ q"] assms by simp
  have "\<not> (r \<noteq> [] \<and> HasPrefix t r)" if "r \<in> set runes" for r
    using none that by (auto simp: find_None_iff HasPrefix_iff)
  then show "List.find (\<lambda>r. r \<noteq> [] \<and> HasPrefix t r) runes = None"
    by (simp add: find_None_iff)
qed

lemma TrimSpace_left: "strip_left space_runes (TrimSpace s) = TrimSpace s"
proof -
  obtain q where "strip_left space_runes s = TrimSpace s @ q"
    using strip_right_prefix[of "strip_left space_runes s" space_runes]
    by (auto simp: TrimSpace_def)
  then show ?thesis
    by (metis strip_left_idem strip_left_prefix_fixed)
qed

lemma TrimSpace_idem [simp]: "TrimSpace (TrimSpace s) = TrimSpace s"
  using TrimSpace_left[of s] by (simp add: TrimSpace_def)

lemma TrimSpace_set: "set (TrimSpace s) \<subseteq> set s"
proof -
  obtain p where "s = p @ strip_left space_runes s" using strip_left_suffix by blast
  moreover obtain q where "strip_left space_runes s = TrimSpace s @ q"
    using strip_right_prefix[of "strip_left space_runes s" space_runes]
    by (auto simp: TrimSpace_def)
  ultimately show ?thesis by (metis Un_upper1 Un_upper2 order_trans set_append)
qed

lemma TrimSpace_fixed_iff:
  "TrimSpace s = s \<longleftrightarrow> strip_left space_runes s = s \<and> strip_left (map rev space_runes) (rev s) = rev s"
proof
  assume t: "TrimSpace s = s"
  then have l: "strip_left space_runes s = s" using TrimSpace_left[of s] by simp
  with t have "rev (strip_left (map rev space_runes) (rev s)) = s" by (simp add: TrimSpace_def strip_right_def)
  with l show "strip_left space_runes s = s \<and> strip_left (map rev space_runes) (rev s) = rev s"
    by (simp add: rev_swap)
qed (simp add: TrimSpace_def strip_right_def)

text \<open>A character that belongs to no space rune shields what follows it.\<close>

lemma strip_left_stop:
  assumes c: "\<forall>r \<in> set runes. c \<notin> set r" and h: "strip_left runes h = h"
  shows "strip_left runes (h @ c # t) = h @ c # t"
proof (rule strip_left_fixed)
  have none: "List.find (\<lambda>r. r \<noteq> [] \<and> HasPrefix h r) runes = None"
    using strip_left_result[of runes h] h by simp
  have "HasPrefix h r" if "HasPrefix (h @ c # t) r" "c \<notin> set r" for r
  proof -
    from that(1) obtain u where u: "h @ c # t = r @ u" unfolding HasPrefix_iff by blast
    then consider v where "h = r @ v" | v where "v \<noteq> []" "r = h @ v" "c # t = v @ u"
      by (metis append_eq_append_conv2 append_Nil2)
    then show ?thesis
    proof cases
      case 1
      then show ?thesis by simp
    next
      case 2
      then have "c \<in> set r" by (cases v) auto
      with that(2) show ?thesis by simp
    qed
  qed
  with none c show "List.find (\<lambda>r. r \<noteq> [] \<and> HasPrefix (h @ c # t) r) runes = None"
    unfolding find_None_iff by blast
qed

lemma strip_left_keeps:
  assumes c: "\<forall>r \<in> set runes. c \<notin> set r"
  shows "\<exists>p. strip_left runes (h @ c # t) = p @ c # t"
proof (induction "length h" arbitrary: h rule: less_induct)
  case less
  show ?case
  proof (cases "List.find (\<lambda>r. r \<noteq> [] \<and> HasPrefix (h @ c # t) r) runes")
    case None
    then show ?thesis using strip_left_fixed by blast
  next
    case (Some r)
    then have r: "r \<in> set runes" "r \<noteq> []" "HasPrefix (h @ c # t) r" by (auto dest: find_Some_in)
    from r(3) obtain u where u: "h @ c # t = r @ u" unfolding HasPrefix_iff by blast
    obtain v where v: "h = r @ v"
    proof (cases "length r \<le> length h")
      case True
      with u show ?thesis using that by (metis append_eq_append_conv_if append_take_drop_id)
    next
      case False
      then have "r ! length h = c" using arg_cong[OF u, of "\<lambda>l. l ! length h"] by (simp add: nth_append)
      with False c r(1) show ?thesis by (metis not_le nth_mem)
    qed
    with Some have "strip_left runes (h @ c # t) = strip_left runes (v @ c # t)" by (subst strip_left.simps) simp
    moreover have "length v < length h" using v r(2) by simp
    ultimately show ?thesis using less[of v] by simp
  qed
qed

text \<open>A word that starts and ends with characters of no space rune is kept in front.\<close>

lemma TrimSpace_word:
  assumes "w \<noteq> []" and "\<forall>r \<in> set space_runes. hd w \<notin> set r" and "\<forall>r \<in> set space_runes. last w \<notin> set r"
  shows "\<exists>q u. TrimSpace (w @ t) = w @ q \<and> t = q @ u"
proof -
  obtain c v where c: "w = c # v" using assms(1) by (cases w) auto
  have "strip_left space_runes [] = []" by (simp add: strip_left_fixed find_None_iff HasPrefix_iff)
  then have "strip_left space_runes (w @ t) = w @ t" using strip_left_stop[of space_runes c "[]"] assms(2) c by simp
  then have l: "TrimSpace (w @ t) = strip_right space_runes (w @ t)" by (simp add: TrimSpace_def)
  obtain x y where y: "w = x @ [y]" using assms(1) by (cases w rule: rev_cases) auto
  have "\<forall>r \<in> set (map rev space_runes). y \<notin> set r" using assms(3) y by simp
  then obtain p where "strip_left (map rev space_runes) (rev t @ y # rev x) = p @ y # rev x" using strip_left_keeps by blast
  then have e: "strip_right space_runes (w @ t) = w @ rev p" by (simp add: strip_right_def y)
  moreover obtain u where "w @ t = strip_right space_runes (w @ t) @ u" using strip_right_prefix by blast
  ultimately show ?thesis using l by auto
qed

lemma TrimSpace_Join:
  assumes c: "\<forall>r \<in> set space_runes. c \<notin> set r" and ps: "\<forall>p \<in> set ps. TrimSpace p = p"
  shows "TrimSpace (Join [c] ps) = Join [c] ps"
  unfolding TrimSpace_fixed_iff
proof
  show "strip_left space_runes (Join [c] ps) = Join [c] ps"
    using ps by (cases ps rule: remdups_adj.cases)
      (auto simp: TrimSpace_fixed_iff strip_left_fixed[of "[]"] strip_left_stop[OF c] find_None_iff HasPrefix_iff)
  show "strip_left (map rev space_runes) (rev (Join [c] ps)) = rev (Join [c] ps)"
  proof (cases ps rule: rev_cases)
    case Nil
    then show ?thesis by (auto simp: strip_left_fixed find_None_iff HasPrefix_iff)
  next
    case (snoc qs p)
    have c': "\<forall>r \<in> set (map rev space_runes). c \<notin> set r" using c by simp
    have p: "strip_left (map rev space_runes) (rev p) = rev p"
      using ps snoc by (auto simp: TrimSpace_fixed_iff)
    show ?thesis
      using p strip_left_stop[OF c' p, of "rev (Join [c] qs)"] by (cases "qs = []") (simp_all add: snoc Join_snoc)
  qed
qed

lemma space_runes_free:
  "\<forall>r \<in> set space_runes. CHR ''>'' \<notin> set r" "\<forall>r \<in> set space_runes. CHR '','' \<notin> set r"
  by (simp_all add: space_runes_def)

lemma TrimSpace_Nil [simp]: "TrimSpace [] = []"
  using TrimSpace_set[of "[]"] by simp

section \<open>ToLower\<close>

text \<open>
  \<open>strings.ToLower\<close>, which phonewave uses only to compare with, or search for, ASCII text. Beside
  the ASCII capitals, exactly two characters have an ASCII lower case: U+0130 (as \<open>i\<close>) and the
  Kelvin sign U+212A (as \<open>k\<close>). Every other multi-byte character maps to a multi-byte character,
  which no ASCII text contains, so its bytes are kept.
\<close>

definition lower_char :: "char \<Rightarrow> char" where
  "lower_char c = (if 65 \<le> (of_char c :: nat) \<and> (of_char c :: nat) \<le> 90
                   then char_of ((of_char c :: nat) + 32) else c)"

fun ToLower :: "string \<Rightarrow> string" where
  "ToLower [] = []"
| "ToLower (c # s) =
     (if c = CHR 0xC4 \<and> HasPrefix s [CHR 0xB0] then CHR ''i'' # ToLower (drop 1 s)
      else if c = CHR 0xE2 \<and> HasPrefix s [CHR 0x84, CHR 0xAA] then CHR ''k'' # ToLower (drop 2 s)
      else lower_char c # ToLower s)"

section \<open>Integers and booleans\<close>

text \<open>\<open>strconv.Itoa\<close> and \<open>strconv.Atoi\<close> on Go's 64-bit \<open>int\<close>.\<close>

definition digit_char :: "nat \<Rightarrow> char" where
  "digit_char d = char_of (48 + d)"

definition digit_val :: "char \<Rightarrow> nat option" where
  "digit_val c = (let n = (of_char c :: nat) in if 48 \<le> n \<and> n \<le> 57 then Some (n - 48) else None)"

fun nat_digits :: "nat \<Rightarrow> string" where
  "nat_digits n = (if n < 10 then [digit_char n] else nat_digits (n div 10) @ [digit_char (n mod 10)])"

declare nat_digits.simps [simp del]

definition Itoa :: "int \<Rightarrow> string" where
  "Itoa i = (if i < 0 then CHR ''-'' # nat_digits (nat (- i)) else nat_digits (nat i))"

fun digits_val :: "nat \<Rightarrow> string \<Rightarrow> nat option" where
  "digits_val acc [] = Some acc"
| "digits_val acc (c # s) = (case digit_val c of None \<Rightarrow> None | Some d \<Rightarrow> digits_val (10 * acc + d) s)"

definition Atoi :: "string \<Rightarrow> int option" where
  "Atoi s =
     (let neg = (s \<noteq> [] \<and> hd s = CHR ''-'');
          body = (if s \<noteq> [] \<and> (hd s = CHR ''-'' \<or> hd s = CHR ''+'') then tl s else s)
      in if body = [] then None
         else (case digits_val 0 body of
                 None \<Rightarrow> None
               | Some n \<Rightarrow> let v = (if neg then - int n else int n)
                           in if in_int64 v then Some v else None))"

definition ParseBool :: "string \<Rightarrow> bool option" where
  "ParseBool s =
     (if s \<in> set [''1'', ''t'', ''T'', ''true'', ''TRUE'', ''True''] then Some True
      else if s \<in> set [''0'', ''f'', ''F'', ''false'', ''FALSE'', ''False''] then Some False
      else None)"

definition FormatBool :: "bool \<Rightarrow> string" where
  "FormatBool b = (if b then ''true'' else ''false'')"

lemma ParseBool_FormatBool [simp]: "ParseBool (FormatBool b) = Some b"
  by (simp add: ParseBool_def FormatBool_def)

lemma digit_val_char [simp]: "d < 10 \<Longrightarrow> digit_val (digit_char d) = Some d"
  by (simp add: digit_val_def digit_char_def Let_def)

lemma digits_val_append:
  "digits_val acc (s @ t) = (case digits_val acc s of None \<Rightarrow> None | Some n \<Rightarrow> digits_val n t)"
  by (induction acc s rule: digits_val.induct) (auto split: option.splits)

lemma digits_val_nat_digits [simp]: "digits_val 0 (nat_digits n) = Some n"
proof (induction n rule: nat_digits.induct)
  case (1 n)
  then show ?case
    by (subst nat_digits.simps) (auto simp: digits_val_append)
qed

lemma nat_digits_not_Nil [simp]: "nat_digits n \<noteq> []"
  by (subst nat_digits.simps) simp

lemma hd_nat_digits: "digit_val (hd (nat_digits n)) \<noteq> None"
proof (induction n rule: nat_digits.induct)
  case (1 n)
  show ?case
  proof (cases "n < 10")
    case True
    then show ?thesis by (subst nat_digits.simps) simp
  next
    case False
    with 1 show ?thesis by (subst nat_digits.simps) simp
  qed
qed

lemma hd_nat_digits_sign: "hd (nat_digits n) \<noteq> CHR ''-'' \<and> hd (nat_digits n) \<noteq> CHR ''+''"
  using hd_nat_digits[of n] by (auto simp: digit_val_def Let_def)

lemma Atoi_Itoa [simp]: "in_int64 i \<Longrightarrow> Atoi (Itoa i) = Some i"
  using hd_nat_digits_sign[of "nat i"] by (auto simp: Atoi_def Itoa_def Let_def)

lemma Itoa_not_Nil [simp]: "Itoa i \<noteq> []"
  by (simp add: Itoa_def)

section \<open>Quoting\<close>

text \<open>
  The verb \<open>%q\<close> of package \<open>fmt\<close>: double quotes, with control characters, quotes and backslashes
  escaped. Bytes from 0x80 on, which belong to non-ASCII text, are printed as they are.
\<close>

definition hex_digit :: "nat \<Rightarrow> char" where
  "hex_digit d = (if d < 10 then char_of (48 + d) else char_of (87 + d))"

definition hex_byte :: "char \<Rightarrow> string" where
  "hex_byte c = [hex_digit ((of_char c :: nat) div 16), hex_digit ((of_char c :: nat) mod 16)]"

definition bslash :: char where
  "bslash = CHR 0x5C"

definition quote_char :: "char \<Rightarrow> string" where
  "quote_char c =
     (if c = CHR 0x22 \<or> c = bslash then [bslash, c]
      else if c = CHR 0x07 then [bslash, CHR ''a'']
      else if c = CHR 0x08 then [bslash, CHR ''b'']
      else if c = CHR 0x0C then [bslash, CHR ''f'']
      else if c = CHR 0x0A then [bslash, CHR ''n'']
      else if c = CHR 0x0D then [bslash, CHR ''r'']
      else if c = CHR 0x09 then [bslash, CHR ''t'']
      else if c = CHR 0x0B then [bslash, CHR ''v'']
      else if (of_char c :: nat) < 32 \<or> c = CHR 0x7F then [bslash, CHR ''x''] @ hex_byte c
      else [c])"

definition Quote :: "string \<Rightarrow> string" where
  "Quote s = [CHR 0x22] @ concat (map quote_char s) @ [CHR 0x22]"

end
