(* ===== verification/GoPath.thy ===== *)
theory GoPath
  imports GoStrings
begin

text \<open>
  Go's package \<open>path/filepath\<close> on Unix: \<open>Clean\<close>, \<open>Join\<close>, \<open>Dir\<close>, \<open>Base\<close>, \<open>Ext\<close> and \<open>IsAbs\<close>.
  A path is split at its slashes, the components are normalised on a stack and printed again.
  The facts the courier relies on: \<open>Clean\<close> is idempotent, what \<open>Join\<close> returns is clean, and
  joining a file name to a directory is undone by \<open>Dir\<close> (up to \<open>Clean\<close>) and \<open>Base\<close>.
\<close>

section \<open>Normalising components\<close>

text \<open>The stack holds the components read so far, the last one on top.\<close>

definition push_comp :: "bool \<Rightarrow> string list \<Rightarrow> string \<Rightarrow> string list" where
  "push_comp rooted st c =
     (if c = [] \<or> c = ''.'' then st
      else if c = ''..''
        then (case st of
                [] \<Rightarrow> if rooted then [] else [c]
              | t # ts \<Rightarrow> if t = ''..'' then c # st else ts)
      else c # st)"

definition norm_comps :: "bool \<Rightarrow> string list \<Rightarrow> string list" where
  "norm_comps rooted cs = rev (foldl (push_comp rooted) [] cs)"

definition render :: "bool \<Rightarrow> string list \<Rightarrow> string" where
  "render rooted cs =
     (if rooted then CHR ''/'' # Join ''/'' cs
      else if cs = [] then ''.'' else Join ''/'' cs)"

definition rooted :: "string \<Rightarrow> bool" where
  "rooted s = HasPrefix s ''/''"

definition Clean :: "string \<Rightarrow> string" where
  "Clean s = (if s = [] then ''.'' else render (rooted s) (norm_comps (rooted s) (Split CHR ''/'' s)))"

definition dir_part :: "string \<Rightarrow> string" where
  "dir_part s = take (length s - length (last (Split CHR ''/'' s))) s"

definition Dir :: "string \<Rightarrow> string" where
  "Dir s = Clean (dir_part s)"

definition trim_slashes :: "string \<Rightarrow> string" where
  "trim_slashes s = rev (dropWhile (\<lambda>c. c = CHR ''/'') (rev s))"

definition Base :: "string \<Rightarrow> string" where
  "Base s =
     (if s = [] then ''.''
      else if trim_slashes s = [] then ''/''
      else last (Split CHR ''/'' (trim_slashes s)))"

definition Ext :: "string \<Rightarrow> string" where
  "Ext s = (let b = last (Split CHR ''/'' s)
            in if CHR ''.'' \<in> set b then CHR ''.'' # last (Split CHR ''.'' b) else [])"

definition IsAbs :: "string \<Rightarrow> bool" where
  "IsAbs s = HasPrefix s ''/''"

text \<open>\<open>filepath.Join\<close>: leading empty elements are dropped, the rest is joined and cleaned.\<close>

definition path_Join :: "string list \<Rightarrow> string" where
  "path_Join es =
     (case dropWhile (\<lambda>e. e = []) es of
        [] \<Rightarrow> []
      | ds \<Rightarrow> Clean (Join ''/'' ds))"

section \<open>Canonical component lists\<close>

definition plain_comp :: "string \<Rightarrow> bool" where
  "plain_comp c \<longleftrightarrow> c \<noteq> [] \<and> c \<noteq> ''.'' \<and> CHR ''/'' \<notin> set c"

definition canon :: "bool \<Rightarrow> string list \<Rightarrow> bool" where
  "canon r cs \<longleftrightarrow> (\<forall>c \<in> set cs. plain_comp c) \<and> (r \<longrightarrow> ''..'' \<notin> set cs) \<and>
     ''..'' \<notin> set (dropWhile (\<lambda>c. c = ''..'') cs)"

text \<open>A file name: one component that is not a reference to a directory.\<close>

definition file_name :: "string \<Rightarrow> bool" where
  "file_name f \<longleftrightarrow> plain_comp f \<and> f \<noteq> ''..''"

lemma canon_Nil [simp]: "canon r []"
  by (simp add: canon_def)

lemma dropWhile_snoc_dots:
  "(\<forall>c \<in> set cs. c = x) \<or> y \<notin> set (dropWhile (\<lambda>c. c = x) cs) \<Longrightarrow> y \<noteq> z \<Longrightarrow>
   y \<notin> set (dropWhile (\<lambda>c. c = x) (cs @ [z]))"
  by (induction cs) auto

lemma canon_butlast: "canon r (cs @ [c]) \<Longrightarrow> canon r cs"
proof -
  have "set (dropWhile P cs) \<subseteq> set (dropWhile P (cs @ [c]))" for P :: "string \<Rightarrow> bool"
    by (induction cs) auto
  then show "canon r (cs @ [c]) \<Longrightarrow> canon r cs"
    by (fastforce simp: canon_def)
qed

lemma canon_snoc_file: "canon r cs \<Longrightarrow> file_name f \<Longrightarrow> canon r (cs @ [f])"
  using dropWhile_snoc_dots[of cs "''..''" "''..''" f]
  by (auto simp: canon_def file_name_def)

text \<open>In a canonical list, everything in front of a \<open>..\<close> is a \<open>..\<close>.\<close>

lemma canon_dots_before:
  assumes "canon r (cs @ ''..'' # ds)"
  shows "\<not> r \<and> (\<forall>c \<in> set cs. c = ''..'')"
proof -
  have nr: "\<not> r" using assms by (auto simp: canon_def)
  have "\<forall>c \<in> set cs. c = ''..''"
  proof (rule ccontr)
    assume "\<not> (\<forall>c \<in> set cs. c = ''..'')"
    then have "dropWhile (\<lambda>c. c = ''..'') (cs @ ''..'' # ds) = dropWhile (\<lambda>c. c = ''..'') cs @ ''..'' # ds"
      by (auto simp: dropWhile_append1)
    with assms show False by (simp add: canon_def)
  qed
  with nr show ?thesis by simp
qed

lemma canon_all_dots:
  assumes "\<forall>c \<in> set cs. c = ''..''"
  shows "canon False cs"
proof -
  have e: "dropWhile (\<lambda>c. c = ''..'') cs = []"
    using assms by (simp only: dropWhile_eq_Nil_conv)
  show ?thesis unfolding canon_def e using assms by (auto simp: plain_comp_def)
qed

lemma canon_push:
  assumes "canon r (rev st)" and "CHR ''/'' \<notin> set c"
  shows "canon r (rev (push_comp r st c))"
proof -
  consider "c = [] \<or> c = ''.''" | "c = ''..''" | "file_name c"
    using assms(2) by (auto simp: file_name_def plain_comp_def)
  then show ?thesis
  proof cases
    case 1
    with assms show ?thesis by (auto simp: push_comp_def)
  next
    case 2
    show ?thesis
    proof (cases st)
      case Nil
      with 2 show ?thesis by (auto simp: push_comp_def canon_def plain_comp_def)
    next
      case (Cons t ts)
      with assms 2 have "t = ''..'' \<Longrightarrow> \<not> r \<and> (\<forall>c \<in> set ts. c = ''..'')"
        using canon_dots_before[of r "rev ts" "[]"] by simp
      then show ?thesis
      proof (cases "t = ''..''")
        case True
        have "push_comp r st c = ''..'' # ''..'' # ts"
          using True Cons 2 by (simp add: push_comp_def)
        with True \<open>t = ''..'' \<Longrightarrow> _\<close> canon_all_dots[of "rev (''..'' # ''..'' # ts)"]
        show ?thesis by simp
      next
        case False
        with Cons assms 2 canon_butlast[of r "rev ts" t] show ?thesis
          by (simp add: push_comp_def)
      qed
    qed
  next
    case 3
    then have "push_comp r st c = c # st"
      by (auto simp: push_comp_def file_name_def plain_comp_def)
    with 3 assms show ?thesis by (simp add: canon_snoc_file)
  qed
qed

lemma canon_foldl:
  "canon r (rev st) \<Longrightarrow> \<forall>c \<in> set cs. CHR ''/'' \<notin> set c \<Longrightarrow> canon r (rev (foldl (push_comp r) st cs))"
  by (induction cs arbitrary: st) (auto intro: canon_push)

lemma canon_norm_Split: "canon r (norm_comps r (Split CHR ''/'' s))"
  using canon_foldl[of r "[]" "Split CHR ''/'' s"] Split_free[of _ "CHR ''/''" s]
  by (auto simp: norm_comps_def)

lemma foldl_push_canon:
  "canon r (rev st @ cs) \<Longrightarrow> foldl (push_comp r) st cs = rev cs @ st"
proof (induction cs arbitrary: st)
  case Nil
  then show ?case by simp
next
  case (Cons c cs)
  have "plain_comp c" using Cons.prems by (simp add: canon_def)
  moreover have "c = ''..'' \<Longrightarrow> \<not> r \<and> (\<forall>d \<in> set st. d = ''..'')"
    using Cons.prems canon_dots_before[of r "rev st" cs] by auto
  ultimately have "push_comp r st c = c # st"
    by (cases st) (auto simp: push_comp_def plain_comp_def)
  with Cons show ?case by simp
qed

lemma norm_comps_canon [path_simps]: "canon r cs \<Longrightarrow> norm_comps r cs = cs"
  using foldl_push_canon[of r "[]" cs] by (simp add: norm_comps_def)

lemma norm_comps_skip [path_simps]: "norm_comps r ([] # cs) = norm_comps r cs"
  "norm_comps r (''.'' # cs) = norm_comps r cs" "norm_comps r (cs @ [[]]) = norm_comps r cs"
  by (simp_all add: norm_comps_def push_comp_def)

lemma norm_comps_snoc_file [path_simps]:
  "file_name f \<Longrightarrow> norm_comps r (cs @ [f]) = norm_comps r cs @ [f]"
  by (simp add: norm_comps_def push_comp_def file_name_def plain_comp_def)

section \<open>Printing and reading back\<close>

lemma canon_slash_free: "canon r cs \<Longrightarrow> \<forall>c \<in> set cs. CHR ''/'' \<notin> set c"
  by (auto simp: canon_def plain_comp_def)

lemma Join_canon_hd:
  assumes "canon r cs" and "cs \<noteq> []"
  shows "Join ''/'' cs \<noteq> [] \<and> hd (Join ''/'' cs) \<noteq> CHR ''/''"
proof -
  obtain c cs' where cs: "cs = c # cs'" using assms(2) by (cases cs) auto
  with assms(1) have c: "c \<noteq> []" "CHR ''/'' \<notin> set c"
    by (auto simp: canon_def plain_comp_def)
  then have "hd c \<noteq> CHR ''/''" by (metis list.set_sel(1))
  note c this
  with cs show ?thesis by (cases cs') auto
qed

lemma rooted_iff: "rooted s \<longleftrightarrow> s \<noteq> [] \<and> hd s = CHR ''/''"
  by (cases s) (auto simp: rooted_def HasPrefix_def)

lemma render_not_Nil [simp]: "canon r cs \<Longrightarrow> render r cs \<noteq> []"
  using Join_canon_hd[of r cs] by (auto simp: render_def)

lemma rooted_render [simp]: "canon r cs \<Longrightarrow> rooted (render r cs) = r"
  using Join_canon_hd[of r cs] by (auto simp: render_def rooted_iff)

lemma Split_render:
  assumes "canon r cs"
  shows "Split CHR ''/'' (render r cs) =
    (if r then [] # (if cs = [] then [[]] else cs) else if cs = [] then [''.''] else cs)"
  using Split_Join[of cs "CHR ''/''"] canon_slash_free[OF assms] by (auto simp: render_def)

lemma norm_Split_render [path_simps]:
  assumes "canon r cs"
  shows "norm_comps r (Split CHR ''/'' (render r cs)) = cs"
proof (cases "cs = []")
  case True
  have "norm_comps b [[], []] = []" "norm_comps b [''.''] = []" for b
    by (simp_all add: norm_comps_def push_comp_def)
  with True show ?thesis using Split_render[OF assms] by simp
next
  case False
  then have "norm_comps r (Split CHR ''/'' (render r cs)) = norm_comps r cs"
    by (auto simp: Split_render[OF assms] norm_comps_skip)
  then show ?thesis by (simp add: norm_comps_canon[OF assms])
qed

lemma Clean_render [path_simps]: "canon r cs \<Longrightarrow> Clean (render r cs) = render r cs"
  by (simp add: Clean_def norm_Split_render)

lemma Clean_eq_render:
  "\<exists>cs. canon (rooted s) cs \<and> Clean s = render (rooted s) cs"
proof (cases "s = []")
  case True
  then show ?thesis by (auto simp: Clean_def render_def rooted_def HasPrefix_def intro!: exI[of _ "[]"])
next
  case False
  then show ?thesis using canon_norm_Split[of "rooted s" s] by (auto simp: Clean_def)
qed

lemma Clean_idem [simp]: "Clean (Clean s) = Clean s"
proof -
  obtain cs where "canon (rooted s) cs" "Clean s = render (rooted s) cs"
    using Clean_eq_render by blast
  then show ?thesis by (simp add: Clean_render)
qed

lemma Clean_not_Nil [simp]: "Clean s \<noteq> []"
  using Clean_eq_render[of s] render_not_Nil by metis

text \<open>\<open>Join\<close> returns a clean path, unless every element is empty.\<close>

lemma Clean_path_Join: "path_Join es \<noteq> [] \<Longrightarrow> Clean (path_Join es) = path_Join es"
  by (cases "dropWhile (\<lambda>e. e = []) es") (simp_all add: path_Join_def del: dropWhile_eq_Nil_conv)

lemma path_Join_Cons: "d \<noteq> [] \<Longrightarrow> path_Join (d # es) = Clean (Join ''/'' (d # es))"
  by (simp add: path_Join_def)

lemma path_Join_file:
  assumes "file_name f"
  shows "\<exists>r cs. canon r cs \<and> Clean d = render r cs \<and> path_Join [d, f] = render r (cs @ [f])"
proof (cases "d = []")
  case True
  have f: "f \<noteq> []" "CHR ''/'' \<notin> set f" using assms by (auto simp: file_name_def plain_comp_def)
  then have "\<not> rooted f" by (metis list.set_sel(1) rooted_iff)
  then have "path_Join [d, f] = render False ([] @ [f])"
    using True f assms norm_comps_snoc_file[of f False "[]"]
    by (simp add: path_Join_def Clean_def norm_comps_def)
  moreover have "Clean d = render False []"
    using True by (simp add: Clean_def render_def)
  ultimately show ?thesis using canon_Nil by blast
next
  case False
  have f: "CHR ''/'' \<notin> set f" using assms by (simp add: file_name_def plain_comp_def)
  have r: "rooted (d @ CHR ''/'' # f) = rooted d" using False by (simp add: rooted_iff)
  let ?cs = "norm_comps (rooted d) (Split CHR ''/'' d)"
  have "path_Join [d, f] = render (rooted d) (?cs @ [f])"
    using False f assms r
    by (simp add: path_Join_def Clean_def Split_append norm_comps_snoc_file)
  moreover have "Clean d = render (rooted d) ?cs" using False by (simp add: Clean_def)
  ultimately show ?thesis using canon_norm_Split by blast
qed

lemma dir_part_snoc: "CHR ''/'' \<notin> set f \<Longrightarrow> dir_part (d @ CHR ''/'' # f) = d @ ''/''"
  by (simp add: dir_part_def Split_append)

lemma Clean_slash: "d \<noteq> [] \<Longrightarrow> Clean (d @ ''/'') = Clean d"
  by (simp add: Clean_def Split_append norm_comps_skip rooted_iff)

lemma render_snoc:
  "render r (cs @ [f]) =
    (if cs = [] then (if r then CHR ''/'' # f else f) else render r cs @ CHR ''/'' # f)"
  by (simp add: render_def Join_snoc)

lemma Dir_render:
  assumes "canon r (cs @ [f])"
  shows "Dir (render r (cs @ [f])) = render r cs"
proof -
  have f: "CHR ''/'' \<notin> set f" using canon_slash_free[OF assms] by simp
  have "canon r cs" using canon_butlast[OF assms] .
  show ?thesis
  proof (cases "cs = []")
    case True
    have "dir_part f = []" using f by (simp add: dir_part_def)
    moreover have "dir_part (CHR ''/'' # f) = ''/''" using dir_part_snoc[of f "[]"] f by simp
    moreover have "Clean ''/'' = ''/''" using Clean_render[of True "[]"] by (simp add: render_def)
    ultimately show ?thesis using True by (simp add: Dir_def render_snoc) (simp add: Clean_def render_def)
  next
    case False
    then show ?thesis
      using \<open>canon r cs\<close> f by (simp add: Dir_def render_snoc dir_part_snoc Clean_slash Clean_render)
  qed
qed

lemma Dir_render_snoc: "canon r cs \<Longrightarrow> file_name f \<Longrightarrow> Dir (render r (cs @ [f])) = render r cs"
  by (rule Dir_render) (rule canon_snoc_file)

text \<open>Going up ends at the root or at the working directory.\<close>

lemma Dir_render_Nil: "Dir (render r []) = render r []"
  by (cases r) (simp_all add: render_def Dir_def dir_part_def Clean_def rooted_def HasPrefix_def norm_comps_def push_comp_def)

lemma Dir_reaches_top: "\<exists>n. Dir ((Dir ^^ n) d) = (Dir ^^ n) d"
proof -
  have up: "canon r cs \<Longrightarrow> (Dir ^^ length cs) (render r cs) = render r []" for r cs
  proof (induction cs rule: rev_induct)
    case (snoc c cs)
    then show ?case using Dir_render[OF snoc.prems] canon_butlast[OF snoc.prems] by (simp add: funpow_swap1 del: funpow.simps(2) add: funpow_Suc_right)
  qed simp
  obtain r cs where "canon r cs" "Dir d = render r cs" using Clean_eq_render[of "dir_part d"] by (auto simp: Dir_def)
  with up[of r cs] have "(Dir ^^ Suc (length cs)) d = render r []" by (simp add: funpow_swap1)
  then show ?thesis using Dir_render_Nil by metis
qed

theorem Dir_path_Join_file [path_simps]: "file_name f \<Longrightarrow> Dir (path_Join [d, f]) = Clean d"
  using path_Join_file[of f d] Dir_render_snoc by metis

lemma trim_slashes_noop: "s \<noteq> [] \<Longrightarrow> last s \<noteq> CHR ''/'' \<Longrightarrow> trim_slashes s = s"
  by (cases s rule: rev_cases) (auto simp: trim_slashes_def)

lemma file_name_last: "file_name f \<Longrightarrow> f \<noteq> [] \<and> last f \<noteq> CHR ''/''"
  by (auto simp: file_name_def plain_comp_def) (metis last_in_set)

theorem Base_path_Join_file [path_simps]:
  assumes "file_name f"
  shows "Base (path_Join [d, f]) = f"
proof -
  have f: "f \<noteq> []" "last f \<noteq> CHR ''/''" "CHR ''/'' \<notin> set f"
    using assms file_name_last by (auto simp: file_name_def plain_comp_def)
  obtain r cs where cs: "canon r cs" "path_Join [d, f] = render r (cs @ [f])"
    using path_Join_file[OF assms] by blast
  have "render r (cs @ [f]) \<noteq> []" "last (render r (cs @ [f])) = last f"
    using f by (auto simp: render_snoc)
  then have "trim_slashes (render r (cs @ [f])) = render r (cs @ [f])"
    using f by (simp add: trim_slashes_noop)
  moreover have "last (Split CHR ''/'' (render r (cs @ [f]))) = f"
    using canon_snoc_file[OF cs(1) assms] by (simp add: Split_render)
  ultimately show ?thesis
    using cs(2) \<open>render r (cs @ [f]) \<noteq> []\<close> by (simp add: Base_def)
qed

text \<open>Splitting a path at its last component and joining again gives the path back when it is
  clean, which is how the retry path of the daemon rebuilds the original location.\<close>

lemma path_Join_file_inject:
  assumes "file_name f" "file_name g" "path_Join [d, f] = path_Join [e, g]"
  shows "f = g \<and> Clean d = Clean e"
  using assms Base_path_Join_file Dir_path_Join_file by metis

text \<open>Joining a clean relative path, given by its components, to a directory.\<close>

lemma path_Join_comps:
  assumes "d \<noteq> []" and "cs \<noteq> []" and "\<forall>c \<in> set cs. CHR ''/'' \<notin> set c"
  shows "path_Join [d, Join ''/'' cs] = render (rooted d) (rev (foldl (push_comp (rooted d)) [] (Split CHR ''/'' d @ cs)))"
proof -
  have "Split CHR ''/'' (d @ CHR ''/'' # Join ''/'' cs) = Split CHR ''/'' d @ cs"
    using Split_Join[of cs "CHR ''/''"] assms(2,3) by (simp add: Split_append)
  moreover have "rooted (d @ CHR ''/'' # Join ''/'' cs) = rooted d" using assms(1) by (simp add: rooted_iff)
  ultimately show ?thesis using assms(1) by (simp add: path_Join_def Clean_def norm_comps_def)
qed

lemma path_Join_render:
  assumes "canon r cs" and "ds \<noteq> []" and "\<forall>c \<in> set ds. CHR ''/'' \<notin> set c"
  shows "path_Join [render r cs, Join ''/'' ds] = render r (rev (foldl (push_comp r) (rev cs) ds))"
proof -
  have "rev (foldl (push_comp r) [] (Split CHR ''/'' (render r cs))) = cs"
    using norm_Split_render[OF assms(1)] by (simp add: norm_comps_def)
  then have "foldl (push_comp r) [] (Split CHR ''/'' (render r cs)) = rev cs" by (simp add: rev_swap)
  then show ?thesis using path_Join_comps[OF render_not_Nil[OF assms(1)] assms(2,3)] rooted_render[OF assms(1)] by simp
qed

lemma render_inject: "canon r cs \<Longrightarrow> canon r' cs' \<Longrightarrow> render r cs = render r' cs' \<Longrightarrow> r = r' \<and> cs = cs'"
  by (metis norm_Split_render rooted_render)

lemma path_Join_Clean:
  assumes "file_name g"
  shows "path_Join [Clean d, g] = path_Join [d, g]"
proof -
  obtain r cs where a: "canon r cs" "Clean d = render r cs" "path_Join [d, g] = render r (cs @ [g])" using path_Join_file[OF assms] by blast
  obtain r' cs' where b: "canon r' cs'" "Clean (Clean d) = render r' cs'" "path_Join [Clean d, g] = render r' (cs' @ [g])"
    using path_Join_file[OF assms] by blast
  have "r = r' \<and> cs = cs'" using render_inject[OF a(1) b(1)] a(2) b(2) Clean_render[OF a(1)] by simp
  with a(3) b(3) show ?thesis by simp
qed

lemma path_Join_three:
  assumes "file_name f" and "file_name g"
  shows "path_Join [d, f, g] = path_Join [path_Join [d, f], g]"
proof -
  have f: "f \<noteq> []" using assms(1) by (simp add: file_name_def plain_comp_def)
  let ?e = "Join ''/'' (if d = [] then [f] else [d, f])"
  have "?e \<noteq> []" using f by auto
  then have "path_Join [d, f, g] = path_Join [?e, g]" "path_Join [d, f] = Clean ?e" using f by (simp_all add: path_Join_def)
  then show ?thesis using path_Join_Clean[OF assms(2)] by simp
qed

section \<open>Relative paths\<close>

text \<open>\<open>filepath.Rel\<close> on Unix, on the components of the cleaned paths.\<close>

definition comps :: "string \<Rightarrow> string list" where
  "comps s = norm_comps (rooted s) (Split CHR ''/'' s)"

fun strip_common :: "string list \<Rightarrow> string list \<Rightarrow> string list \<times> string list" where
  "strip_common (b # bs) (t # ts) = (if b = t then strip_common bs ts else (b # bs, t # ts))"
| "strip_common bs ts = (bs, ts)"

definition Rel :: "path \<Rightarrow> path \<Rightarrow> path result" where
  "Rel basepath targpath =
     (let base = Clean basepath; targ = Clean targpath;
          err = Inl (errorf (''Rel: can'' @ [CHR 0x27] @ ''t make '' @ targpath @ '' relative to '' @ basepath))
      in if targ = base then Inr ''.''
         else if rooted base \<noteq> rooted targ then err
         else case strip_common (comps base) (if targ = ''.'' then [''.''] else comps targ) of
                (bs, ts) \<Rightarrow> if bs \<noteq> [] \<and> ts \<noteq> [] \<and> hd bs = ''..'' then err
                             else Inr (Join ''/'' (replicate (length bs) ''..'' @ ts)))"

lemma strip_common_split: "strip_common bs ts = (bs', ts') \<Longrightarrow> \<exists>p. bs = p @ bs' \<and> ts = p @ ts'"
proof (induction bs ts rule: strip_common.induct)
  case (1 b bs t ts)
  show ?case
  proof (cases "b = t")
    case True
    with 1 obtain p where "bs = p @ bs'" "ts = p @ ts'" by auto
    with True have "b # bs = (b # p) @ bs' \<and> t # ts = (b # p) @ ts'" by simp
    then show ?thesis by blast
  qed (use 1 in auto)
qed auto

lemma pop_dots: "''..'' \<notin> set xs \<Longrightarrow> foldl (push_comp True) (rev (p @ xs)) (replicate (length xs) ''..'') = rev p"
proof (induction xs rule: rev_induct)
  case (snoc x xs)
  have "push_comp True (rev (p @ xs @ [x])) ''..'' = rev (p @ xs)" using snoc.prems by (auto simp: push_comp_def)
  then show ?case using snoc by simp
qed simp

text \<open>Between absolute paths there is always a relative path, and joining it to the base gives the target back.\<close>

lemma Rel_abs:
  assumes "rooted base" and "rooted targ"
  shows "\<exists>rel. Rel base targ = Inr rel \<and> rel \<noteq> [] \<and> \<not> rooted rel \<and> path_Join [base, rel] = Clean targ"
proof -
  obtain bs where bs: "canon True bs" "Clean base = render True bs" using Clean_eq_render[of base] assms(1) by auto
  obtain ts where ts: "canon True ts" "Clean targ = render True ts" using Clean_eq_render[of targ] assms(2) by auto
  have base: "base \<noteq> []" "targ \<noteq> []" using assms by (auto simp: rooted_iff)
  have cb: "comps (Clean base) = bs" "comps (Clean targ) = ts"
    unfolding bs(2) ts(2) comps_def rooted_render[OF bs(1)] rooted_render[OF ts(1)]
    by (simp_all add: norm_Split_render[OF bs(1)] norm_Split_render[OF ts(1)])
  have nb: "rev (foldl (push_comp True) [] (Split CHR ''/'' base)) = bs"
  proof -
    have "render True (norm_comps True (Split CHR ''/'' base)) = render True bs"
      using bs(2) base(1) assms(1) by (simp add: Clean_def)
    then have "norm_comps True (Split CHR ''/'' base) = bs"
      using norm_Split_render[OF bs(1)] norm_Split_render[OF canon_norm_Split[of True base]] by metis
    then show ?thesis by (simp add: norm_comps_def)
  qed
  then have nb': "foldl (push_comp True) [] (Split CHR ''/'' base) = rev bs" by (simp add: rev_swap)
  show ?thesis
  proof (cases "Clean targ = Clean base")
    case True
    have "path_Join [base, ''.''] = Clean targ"
      using path_Join_comps[of base "[''.'']"] base(1) assms(1) nb' True bs(2) by (simp add: push_comp_def)
    then show ?thesis using True by (auto simp: Rel_def rooted_iff)
  next
    case False
    obtain bs' ts' where st: "strip_common bs ts = (bs', ts')" by fastforce
    then obtain p where p: "bs = p @ bs'" "ts = p @ ts'" using strip_common_split by blast
    let ?cs = "replicate (length bs') ''..'' @ ts'"
    have nd: "''..'' \<notin> set bs'" "Clean targ \<noteq> ''.''" using bs(1) ts p by (auto simp: canon_def render_def)
    have ne: "?cs \<noteq> []" using False bs(2) ts(2) p by auto
    have sl: "\<forall>c \<in> set ?cs. CHR ''/'' \<notin> set c" using canon_slash_free[OF ts(1)] p(2) by auto
    have rel: "Rel base targ = Inr (Join ''/'' ?cs)"
      using False nd bs(2) ts(2) st cb rooted_render[OF bs(1)] rooted_render[OF ts(1)]
      by (auto simp: Rel_def Let_def dest: hd_in_set)
    have "foldl (push_comp True) (rev bs) ?cs = rev ts"
      using pop_dots[OF nd(1), of p] foldl_push_canon[of True "rev p" ts'] ts(1) p by simp
    then have j: "path_Join [base, Join ''/'' ?cs] = Clean targ"
      using path_Join_comps[OF base(1) ne sl] assms(1) nb' ts(2) by simp
    have "Join ''/'' ?cs \<noteq> [] \<and> \<not> rooted (Join ''/'' ?cs)"
    proof -
      have "hd ?cs \<noteq> [] \<and> CHR ''/'' \<notin> set (hd ?cs)"
        using ne sl ts(1) p(2) by (cases bs') (auto simp: canon_def plain_comp_def)
      then show ?thesis using ne by (cases ?cs; cases "tl ?cs") (auto simp: rooted_iff hd_append dest: hd_in_set)
    qed
    then show ?thesis using rel j by blast
  qed
qed

end
