(* ===== verification/GoTime.thy ===== *)
theory GoTime
  imports GoStrings
begin

text \<open>
  What the program uses of Go's \<open>time\<close> package: instants are counts of nanoseconds since
  January 1 of year 1 UTC, whose count \<open>0\<close> is Go's zero time, and the layouts it formats them
  with, in UTC. Years, months and days come from the proleptic Gregorian calendar, computed on years
  that start on March 1 in cycles of 400 years.
\<close>

definition second :: duration where "second = 1000000000"
definition minute :: duration where "minute = 60 * second"
definition hour :: duration where "hour = 60 * minute"

definition IsZero :: "time \<Rightarrow> bool" where
  "IsZero t = (t = 0)"

definition civil_of_days :: "int \<Rightarrow> int \<times> int \<times> int" where
  "civil_of_days days =
     (let z = days + 306;
          era = z div 146097;
          doe = z mod 146097;
          yoe = (doe - doe div 1460 + doe div 36524 - doe div 146096) div 365;
          doy = doe - (365 * yoe + yoe div 4 - yoe div 100);
          mp = (5 * doy + 2) div 153;
          d = doy - (153 * mp + 2) div 5 + 1;
          m = (if mp < 10 then mp + 3 else mp - 9);
          y = yoe + era * 400 + (if m \<le> 2 then 1 else 0)
      in (y, m, d))"

definition pad0 :: "nat \<Rightarrow> int \<Rightarrow> string" where
  "pad0 w i = (let s = Itoa i in replicate (w - length s) CHR ''0'' @ s)"

definition date_of :: "time \<Rightarrow> int \<times> int \<times> int" where
  "date_of t = civil_of_days (t div (24 * hour))"

definition clock_of :: "time \<Rightarrow> int \<times> int \<times> int \<times> int" where
  "clock_of t =
     (let n = t mod (24 * hour) in (n div hour, n mod hour div minute, n mod minute div second, n mod second))"

text \<open>The layout \<open>2006-01-02\<close>.\<close>

definition format_date :: "time \<Rightarrow> string" where
  "format_date t = (case date_of t of (y, m, d) \<Rightarrow> pad0 4 y @ ''-'' @ pad0 2 m @ ''-'' @ pad0 2 d)"

text \<open>\<open>time.RFC3339\<close> of an instant in UTC.\<close>

definition format_RFC3339 :: "time \<Rightarrow> string" where
  "format_RFC3339 t =
     (case clock_of t of (h, mi, s, _) \<Rightarrow>
        format_date t @ ''T'' @ pad0 2 h @ '':'' @ pad0 2 mi @ '':'' @ pad0 2 s @ ''Z'')"

text \<open>The same in a location with the given offset from UTC, of whole minutes.\<close>

definition clock_text :: "time \<Rightarrow> string" where
  "clock_text t = (case clock_of t of (h, mi, s, _) \<Rightarrow> format_date t @ ''T'' @ pad0 2 h @ '':'' @ pad0 2 mi @ '':'' @ pad0 2 s)"

definition zone_text :: "duration \<Rightarrow> string" where
  "zone_text off =
     (if off = 0 then ''Z''
      else let zone = \<bar>off\<bar> div minute
           in (if off < 0 then ''-'' else ''+'') @ pad0 2 (zone div 60) @ '':'' @ pad0 2 (zone mod 60))"

definition format_RFC3339_zone :: "duration \<Rightarrow> time \<Rightarrow> string" where
  "format_RFC3339_zone off t = clock_text (t + off) @ zone_text off"

lemma format_RFC3339_eq: "format_RFC3339 t = clock_text t @ ''Z''"
  by (simp add: format_RFC3339_def clock_text_def split: prod.splits)

text \<open>The layout \<open>2006-01-02T150405.000000000\<close> of the names in the error queue.\<close>

definition format_nano_name :: "time \<Rightarrow> string" where
  "format_nano_name t =
     (case clock_of t of (h, mi, s, ns) \<Rightarrow>
        format_date t @ ''T'' @ pad0 2 h @ pad0 2 mi @ pad0 2 s @ ''.'' @ pad0 9 ns)"

text \<open>The layout \<open>20060102T150405\<close>.\<close>

definition format_compact :: "time \<Rightarrow> string" where
  "format_compact t =
     (case date_of t of (y, m, d) \<Rightarrow> case clock_of t of (h, mi, s, _) \<Rightarrow>
        pad0 4 y @ pad0 2 m @ pad0 2 d @ ''T'' @ pad0 2 h @ pad0 2 mi @ pad0 2 s)"

lemma set_nat_digits: "c \<in> set (nat_digits n) \<Longrightarrow> digit_val c \<noteq> None"
proof (induction n rule: nat_digits.induct)
  case (1 n)
  show ?case
  proof (cases "n < 10")
    case True
    then have "c = digit_char n" using "1.prems" nat_digits.simps[of n] by simp
    with True show ?thesis by simp
  next
    case False
    then have "c \<in> set (nat_digits (n div 10)) \<or> c = digit_char (n mod 10)"
      using "1.prems" nat_digits.simps[of n] by auto
    with 1(1)[OF False] show ?thesis by auto
  qed
qed

lemma pad0_chars: "c \<in> set (pad0 w i) \<Longrightarrow> c = CHR ''0'' \<or> c = CHR ''-'' \<or> digit_val c \<noteq> None"
  using set_nat_digits by (auto simp: pad0_def Let_def Itoa_def split: if_splits)

text \<open>No timestamp of a log line contains the space that ends it.\<close>

lemma format_RFC3339_no_space: "CHR '' '' \<notin> set (format_RFC3339 t)"
proof -
  have "digit_val CHR '' '' = None" by (simp add: digit_val_def Let_def)
  then have "CHR '' '' \<notin> set (pad0 w i)" for w i using pad0_chars[of "CHR '' ''" w i] by auto
  then show ?thesis
    by (simp add: format_RFC3339_def format_date_def split: prod.splits)
qed

lemma format_RFC3339_no_newline: "CHR 0x0A \<notin> set (format_RFC3339 t)"
proof -
  have "digit_val CHR 0x0A = None" by (simp add: digit_val_def Let_def)
  then have "CHR 0x0A \<notin> set (pad0 w i)" for w i using pad0_chars[of "CHR 0x0A" w i] by auto
  then show ?thesis
    by (simp add: format_RFC3339_def format_date_def split: prod.splits)
qed

lemma length_format_RFC3339: "20 \<le> length (format_RFC3339 t)"
proof -
  have "w \<le> length (pad0 w i)" for w i by (simp add: pad0_def Let_def)
  note four = this[of 4] and two = this[of 2]
  obtain y m d h mi sec ns where e: "date_of t = (y, m, d)" "clock_of t = (h, mi, sec, ns)" by (metis prod.exhaust)
  show ?thesis
    using four[of y] two[of m] two[of d] two[of h] two[of mi] two[of sec] by (simp add: format_RFC3339_def format_date_def e)
qed

section \<open>Reading instants\<close>

text \<open>Days since January 1 of year 1 of a date, on the same years from March.\<close>

definition days_of_civil :: "int \<Rightarrow> int \<Rightarrow> int \<Rightarrow> int" where
  "days_of_civil y m d =
     (let y' = (if m \<le> 2 then y - 1 else y);
          era = y' div 400;
          yoe = y' mod 400;
          mp = (m + 9) mod 12;
          doy = (153 * mp + 2) div 5 + d - 1;
          doe = yoe * 365 + yoe div 4 - yoe div 100 + doy
      in era * 146097 + doe - 306)"

definition is_leap :: "int \<Rightarrow> bool" where
  "is_leap y \<longleftrightarrow> y mod 4 = 0 \<and> (y mod 100 \<noteq> 0 \<or> y mod 400 = 0)"

definition days_in :: "int \<Rightarrow> int \<Rightarrow> int" where
  "days_in m y = (if m = 2 then (if is_leap y then 29 else 28) else if m \<in> {4, 6, 9, 11} then 30 else 31)"

text \<open>\<open>getnum\<close>: two digits, or one when the width is not fixed.\<close>

definition getnum :: "string \<Rightarrow> bool \<Rightarrow> (int \<times> string) option" where
  "getnum s fixed =
     (case s of
        [] \<Rightarrow> None
      | c # s1 \<Rightarrow>
          (case digit_val c of
             None \<Rightarrow> None
           | Some a \<Rightarrow>
               (case s1 of
                  c' # s2 \<Rightarrow>
                    (case digit_val c' of
                       Some b \<Rightarrow> Some (int (10 * a + b), s2)
                     | None \<Rightarrow> if fixed then None else Some (int a, s1))
                | [] \<Rightarrow> if fixed then None else Some (int a, []))))"

definition get_year :: "string \<Rightarrow> (int \<times> string) option" where
  "get_year s = (if length s < 4 \<or> \<not> list_all (\<lambda>c. digit_val c \<noteq> None) (take 4 s) then None
                 else map_option (\<lambda>n. (int n, drop 4 s)) (digits_val 0 (take 4 s)))"

definition skip_char :: "char \<Rightarrow> string \<Rightarrow> string option" where
  "skip_char c s = (if s \<noteq> [] \<and> hd s = c then Some (tl s) else None)"

text \<open>A fraction may follow the seconds although the layout has none; digits beyond the ninth are dropped.\<close>

definition get_fraction :: "string \<Rightarrow> int \<times> string" where
  "get_fraction s =
     (if 2 \<le> length s \<and> (hd s = CHR ''.'' \<or> hd s = CHR '','') \<and> digit_val (s ! 1) \<noteq> None
      then let ds = takeWhile (\<lambda>c. digit_val c \<noteq> None) (tl s)
           in (case digits_val 0 (take 9 (ds @ replicate 9 CHR ''0'')) of None \<Rightarrow> 0 | Some n \<Rightarrow> int n,
               dropWhile (\<lambda>c. digit_val c \<noteq> None) (tl s))
      else (0, s))"

definition get_zone :: "string \<Rightarrow> (duration \<times> string) option" where
  "get_zone s =
     (case skip_char CHR ''Z'' s of
        Some r \<Rightarrow> Some (0, r)
      | None \<Rightarrow>
          if length s < 6 \<or> s ! 3 \<noteq> CHR '':'' \<or> (hd s \<noteq> CHR ''+'' \<and> hd s \<noteq> CHR ''-'') then None
          else (case (getnum (take 2 (drop 1 s)) True, getnum (take 2 (drop 4 s)) True) of
                  (Some (h, _), Some (m, _)) \<Rightarrow>
                    if h > 24 \<or> m > 60 then None
                    else Some ((if hd s = CHR ''-'' then - 1 else 1) * (h * hour + m * minute), drop 6 s)
                | _ \<Rightarrow> None))"

text \<open>\<open>time.Parse(time.RFC3339, s)\<close>, as an instant.\<close>

definition parse_RFC3339 :: "string \<Rightarrow> time option" where
  "parse_RFC3339 s =
     Option.bind (get_year s) (\<lambda>(y, s). Option.bind (skip_char CHR ''-'' s) (\<lambda>s.
     Option.bind (getnum s True) (\<lambda>(mo, s). Option.bind (skip_char CHR ''-'' s) (\<lambda>s.
     Option.bind (getnum s True) (\<lambda>(d, s). Option.bind (skip_char CHR ''T'' s) (\<lambda>s.
     Option.bind (getnum s False) (\<lambda>(h, s). Option.bind (skip_char CHR '':'' s) (\<lambda>s.
     Option.bind (getnum s True) (\<lambda>(mi, s). Option.bind (skip_char CHR '':'' s) (\<lambda>s.
     Option.bind (getnum s True) (\<lambda>(sec, s). (case get_fraction s of (ns, s) \<Rightarrow>
     Option.bind (get_zone s) (\<lambda>(off, s).
       if s \<noteq> [] \<or> mo < 1 \<or> mo > 12 \<or> h > 23 \<or> mi > 59 \<or> sec > 59 \<or> d < 1 \<or> d > days_in mo y then None
       else Some (days_of_civil y mo d * (24 * hour) + h * hour + mi * minute + sec * second + ns - off))))))))))))))"

section \<open>Durations\<close>

text \<open>\<open>Time.Sub\<close> stays within 64 bits.\<close>

definition time_Sub :: "time \<Rightarrow> time \<Rightarrow> duration" where
  "time_Sub t u = max (- (2 ^ 63)) (min (2 ^ 63 - 1) (t - u))"

text \<open>\<open>fmtFrac\<close>: the value with its last \<open>prec\<close> digits as a fraction without trailing zeros.\<close>

definition strip_zeros :: "string \<Rightarrow> string" where
  "strip_zeros s = rev (dropWhile (\<lambda>c. c = CHR ''0'') (rev s))"

definition fmt_frac :: "nat \<Rightarrow> int \<Rightarrow> string" where
  "fmt_frac prec v =
     (let f = strip_zeros (pad0 prec (v mod 10 ^ prec))
      in Itoa (v div 10 ^ prec) @ (if f = [] then [] else CHR ''.'' # f))"

definition micro_sign :: string where "micro_sign = [CHR 0xC2, CHR 0xB5]"

definition Duration_String :: "duration \<Rightarrow> string" where
  "Duration_String d =
     (let u = \<bar>d\<bar>;
          body = (if u = 0 then ''0s''
                  else if u < 1000 then Itoa u @ ''ns''
                  else if u < 1000000 then fmt_frac 3 u @ micro_sign @ ''s''
                  else if u < second then fmt_frac 6 u @ ''ms''
                  else let h = u div hour; m = u mod hour div minute; s = fmt_frac 9 (u mod minute) @ ''s''
                       in if h > 0 then Itoa h @ ''h'' @ Itoa m @ ''m'' @ s
                          else if m > 0 then Itoa m @ ''m'' @ s else s)
      in if d < 0 then CHR ''-'' # body else body)"

section \<open>Reading back what was written\<close>

text \<open>The day of a cycle on which a year from March starts, and the count the year is computed from.\<close>

definition year_start :: "int \<Rightarrow> int" where "year_start y = 365 * y + y div 4 - y div 100"

definition year_count :: "int \<Rightarrow> int" where "year_count doe = doe - doe div 1460 + doe div 36524 - doe div 146096"

lemma year_count_mono:
  assumes "a \<le> b" shows "year_count a \<le> year_count b"
proof -
  have step: "year_count x \<le> year_count (x + 1)" for x
  proof -
    have four: "y div 146096 = y div 36524 div 4" for y :: int using zdiv_zmult2_eq[of 4 y 36524] by simp
    have "x div 36524 \<le> (x + 1) div 36524" by (rule zdiv_mono1) simp_all
    moreover have "(x + 1) div 36524 \<le> x div 36524 + 1" "(x + 1) div 1460 \<le> x div 1460 + 1" by linarith+
    moreover have "q - q div 4 \<le> q' - q' div 4" if "q \<le> q'" "q' \<le> q + 1" for q q' :: int using that by presburger
    ultimately show ?thesis unfolding year_count_def four by fastforce
  qed
  have "year_count a \<le> year_count (a + int n)" for n
  proof (induction n)
    case (Suc n)
    then show ?case using step[of "a + int n"] by (simp add: algebra_simps)
  qed simp
  from this[of "nat (b - a)"] assms show ?thesis by simp
qed

lemma year_table:
  "list_all (\<lambda>y. 365 * y \<le> year_count (year_start y) \<and> year_count ((if y = 399 then 146097 else year_start (y + 1)) - 1) < 365 * (y + 1) \<and>
     (if y = 399 then 146097 else year_start (y + 1)) - year_start y = (if is_leap (y + 1) then 366 else 365)) [0..399]"
  by code_simp

lemma month_table:
  "list_all (\<lambda>doy. let mp = (5 * doy + 2) div 153; d = doy - (153 * mp + 2) div 5 + 1 in
     0 \<le> mp \<and> mp \<le> 11 \<and> 1 \<le> d \<and> (mp = 11 \<longrightarrow> d \<le> (if doy < 365 then 28 else 29)) \<and>
     (mp < 10 \<longrightarrow> d \<le> days_in (mp + 3) 1) \<and> (mp = 10 \<longrightarrow> d \<le> 31)) [0..365]"
  by code_simp

lemma civil_of_cycle:
  assumes "0 \<le> doe" and "doe < 146097"
  defines "y \<equiv> year_count doe div 365"
  shows "0 \<le> y" and "y \<le> 399" and "0 \<le> doe - year_start y" and "doe - year_start y \<le> (if is_leap (y + 1) then 365 else 364)"
proof -
  have tab: "365 * x \<le> year_count (year_start x)" "year_count ((if x = 399 then 146097 else year_start (x + 1)) - 1) < 365 * (x + 1)"
    "(if x = 399 then 146097 else year_start (x + 1)) - year_start x = (if is_leap (x + 1) then 366 else 365)" if "0 \<le> x" "x \<le> 399" for x
    using year_table that by (simp_all add: list_all_iff)
  have "year_count 0 = 0" "year_count 146096 = 145999" by code_simp+
  then have b: "0 \<le> year_count doe" "year_count doe \<le> 145999"
    using year_count_mono[of 0 doe] year_count_mono[of doe 146096] assms(1,2) by linarith+
  then show y: "0 \<le> y" "y \<le> 399" unfolding y_def by linarith+
  have c: "365 * y \<le> year_count doe" "year_count doe < 365 * (y + 1)" unfolding y_def by presburger+
  show "0 \<le> doe - year_start y"
  proof (rule ccontr)
    assume "\<not> 0 \<le> doe - year_start y"
    then have lt: "doe \<le> year_start y - 1" by simp
    have "y \<noteq> 0" using lt assms(1) by (auto simp: year_start_def)
    then have "year_count (year_start y - 1) < 365 * y" using tab(2)[of "y - 1"] y by simp
    with year_count_mono[OF lt] c(1) show False by linarith
  qed
  show "doe - year_start y \<le> (if is_leap (y + 1) then 365 else 364)"
  proof (rule ccontr)
    assume "\<not> doe - year_start y \<le> (if is_leap (y + 1) then 365 else 364)"
    with tab(3)[OF y] have ge: "(if y = 399 then 146097 else year_start (y + 1)) \<le> doe" by (auto split: if_splits)
    then have ge': "year_start (y + 1) \<le> doe" "y \<noteq> 399" using assms(2) by (auto split: if_splits)
    with tab(1)[of "y + 1"] year_count_mono[OF ge'(1)] y c(2) show False by simp
  qed
qed

lemma civil_of_days_inverse:
  assumes "civil_of_days days = (y, m, d)"
  shows "days_of_civil y m d = days" and "1 \<le> m" "m \<le> 12" and "1 \<le> d" "d \<le> days_in m y"
proof -
  define era doe where "era = (days + 306) div 146097" and "doe = (days + 306) mod 146097"
  define yoe where "yoe = year_count doe div 365"
  define doy where "doy = doe - year_start yoe"
  define mp where "mp = (5 * doy + 2) div 153"
  have range: "0 \<le> doe" "doe < 146097" by (simp_all add: doe_def)
  note cyc = civil_of_cycle[OF this, folded yoe_def, folded doy_def]
  have m: "m = (if mp < 10 then mp + 3 else mp - 9)" and d: "d = doy - (153 * mp + 2) div 5 + 1"
    and y: "y = yoe + era * 400 + (if m \<le> 2 then 1 else 0)"
    using assms unfolding civil_of_days_def Let_def prod.inject era_def[symmetric] doe_def[symmetric] year_count_def[symmetric]
      yoe_def[symmetric] year_start_def[symmetric] doy_def[symmetric] mp_def[symmetric] by blast+
  have doy: "0 \<le> doy" "doy \<le> 365" using cyc by (auto split: if_splits)
  then have "doy \<in> set [0..365]" by simp
  from month_table[unfolded list_all_iff, rule_format, OF this, unfolded Let_def, folded mp_def, folded d]
  have tab: "0 \<le> mp" "mp \<le> 11" "1 \<le> d" "mp = 11 \<Longrightarrow> d \<le> (if doy < 365 then 28 else 29)" "mp < 10 \<Longrightarrow> d \<le> days_in (mp + 3) 1" "mp = 10 \<Longrightarrow> d \<le> 31"
    by blast+
  show "1 \<le> m" "m \<le> 12" "1 \<le> d" using tab m by auto
  have mp: "(m + 9) mod 12 = mp" using m tab(1,2) by (auto simp: mod_pos_pos_trivial)
  have y': "(if m \<le> 2 then y - 1 else y) = yoe + era * 400" using y by simp
  have "(yoe + era * 400) div 400 = era" "(yoe + era * 400) mod 400 = yoe" using cyc by auto
  then have "days_of_civil y m d = era * 146097 + doe - 306"
    unfolding days_of_civil_def Let_def y' mp using d doy_def by (simp add: year_start_def)
  then show "days_of_civil y m d = days" unfolding era_def doe_def by simp
  show "d \<le> days_in m y"
  proof (cases "mp = 11")
    case True
    have "is_leap (yoe + 1) \<longleftrightarrow> is_leap y" if "m = 2"
    proof -
      have "y = yoe + 1 + era * 400" using y that by simp
      then have "y mod 4 = (yoe + 1 + era * 100 * 4) mod 4" "y mod 100 = (yoe + 1 + era * 4 * 100) mod 100"
        "y mod 400 = (yoe + 1 + era * 400) mod 400" by (simp_all add: mult.commute)
      then have "y mod 4 = (yoe + 1) mod 4" "y mod 100 = (yoe + 1) mod 100" "y mod 400 = (yoe + 1) mod 400"
        by (simp_all only: mod_mult_self1)
      then show ?thesis by (simp add: is_leap_def)
    qed
    then show ?thesis using True tab(4) m cyc(4) by (auto simp: days_in_def split: if_splits)
  next
    case False
    then show ?thesis using tab m by (cases "mp = 10") (auto simp: days_in_def split: if_splits)
  qed
qed

lemma digit_zero: "digit_char 0 = CHR ''0''" "digit_val CHR ''0'' = Some 0"
  by code_simp+

lemma nat_digits_2: "n < 100 \<Longrightarrow> pad0 2 (int n) = [digit_char (n div 10), digit_char (n mod 10)]"
  by (cases "n < 10") (simp_all add: pad0_def Itoa_def nat_digits.simps[of n] nat_digits.simps[of "n div 10"] numeral_2_eq_2 digit_zero)

lemma getnum_pad0: "0 \<le> i \<Longrightarrow> i < 100 \<Longrightarrow> getnum (pad0 2 i @ rest) fixed = Some (i, rest)"
  using nat_digits_2[of "nat i"] by (simp add: getnum_def)

lemma length_nat_digits: "0 < k \<Longrightarrow> n < 10 ^ k \<Longrightarrow> length (nat_digits n) \<le> k"
proof (induction n arbitrary: k rule: nat_digits.induct)
  case (1 n)
  show ?case
  proof (cases "n < 10")
    case True
    then show ?thesis using "1.prems" nat_digits.simps[of n] by simp
  next
    case False
    then obtain j where k: "k = Suc j" "0 < j" using "1.prems" by (cases k; cases "k - 1") auto
    have "n div 10 < 10 ^ j" using "1.prems" k by (simp add: less_mult_imp_div_less mult.commute)
    with 1(1)[OF False k(2)] have "length (nat_digits (n div 10)) \<le> j" by simp
    then show ?thesis using False k nat_digits.simps[of n] by simp
  qed
qed

lemma digits_val_zeros: "digits_val 0 (replicate k CHR ''0'' @ s) = digits_val 0 s"
  by (induction k) (simp_all add: digit_zero)

lemma get_year_pad0:
  assumes "0 \<le> y" and "y \<le> 9999"
  shows "get_year (pad0 4 y @ rest) = Some (y, rest)"
proof -
  have len: "length (pad0 4 y) = 4" using assms length_nat_digits[of 4 "nat y"] by (simp add: pad0_def Let_def Itoa_def)
  have "digits_val 0 (pad0 4 y) = Some (nat y)" using assms by (simp add: pad0_def Let_def Itoa_def digits_val_zeros)
  moreover have "list_all (\<lambda>c. digit_val c \<noteq> None) (pad0 4 y)"
    using assms set_nat_digits by (auto simp: list_all_iff pad0_def Let_def Itoa_def digit_zero)
  ultimately show ?thesis using len assms by (simp add: get_year_def)
qed

lemma length_pad0_4: "0 \<le> y \<Longrightarrow> y \<le> 9999 \<Longrightarrow> length (pad0 4 y) = 4"
  using length_nat_digits[of 4 "nat y"] by (simp add: pad0_def Let_def Itoa_def)

lemma length_pad0_2: "0 \<le> i \<Longrightarrow> i < 100 \<Longrightarrow> length (pad0 2 i) = 2"
  using nat_digits_2[of "nat i"] by simp

lemma units: "hour = 3600000000000" "minute = 60000000000" "second = 1000000000"
  by (simp_all add: hour_def minute_def second_def)

lemma clock_of_range:
  assumes "clock_of t = (h, mi, s, ns)"
  shows "0 \<le> h" "h < 24" "0 \<le> mi" "mi < 60" "0 \<le> s" "s < 60"
proof -
  have e: "h = t mod (24 * hour) div hour" "mi = t mod (24 * hour) mod hour div minute" "s = t mod (24 * hour) mod minute div second"
    using assms unfolding clock_of_def Let_def prod.inject by (elim conjE, simp)+
  show "0 \<le> h" "h < 24" "0 \<le> mi" "mi < 60" "0 \<le> s" "s < 60"
    unfolding e units by (simp_all add: div_less_iff_less_mult)
qed

lemma days_in_le: "days_in m y \<le> 31"
  by (simp add: days_in_def)

lemma length_format_RFC3339_eq:
  assumes "fst (date_of t) \<in> {0..9999}"
  shows "length (format_RFC3339 t) = 20"
proof -
  obtain y m d h mi s ns where e: "date_of t = (y, m, d)" "clock_of t = (h, mi, s, ns)" by (metis prod.exhaust)
  note civil_of_days_inverse[OF e(1)[unfolded date_of_def]] clock_of_range[OF e(2)] days_in_le[of m y]
  then show ?thesis using assms by (simp add: format_RFC3339_def format_date_def e length_pad0_4 length_pad0_2)
qed

text \<open>Every instant of the years 0 to 9999 is read back from its RFC 3339 text, to the second, in every location.\<close>

lemma parse_clock_text:
  assumes "fst (date_of t) \<in> {0..9999}" and "get_zone z = Some (off, [])" and "hd z \<notin> {CHR ''.'', CHR '',''}"
  shows "parse_RFC3339 (clock_text t @ z) = Some (t - t mod second - off)"
proof -
  obtain y m d where date: "date_of t = (y, m, d)" by (metis prod.exhaust)
  note cal = civil_of_days_inverse[OF date[unfolded date_of_def]]
  define n where "n = t mod (24 * hour)"
  define h mi s where "h = n div hour" and "mi = n mod hour div minute" and "s = n mod minute div second"
  have clock: "clock_of t = (h, mi, s, n mod second)" by (simp add: clock_of_def Let_def n_def h_def mi_def s_def)
  note hms = clock_of_range[OF clock]
  have dr: "d \<le> 31" using cal(5) days_in_le[of m y] by linarith
  have yr: "0 \<le> y" "y \<le> 9999" using assms date by auto
  have sum: "days_of_civil y m d * (24 * hour) + h * hour + mi * minute + s * second = t - t mod second"
  proof -
    have dvd: "second dvd minute" "minute dvd hour" "second dvd 24 * hour" by (simp_all add: units)
    have "n = h * hour + (mi * minute + (s * second + n mod second))"
      unfolding h_def mi_def s_def using mod_mod_cancel[OF dvd(1), of n] mod_mod_cancel[OF dvd(2), of n]
      by (metis div_mult_mod_eq)
    moreover have "t mod second = n mod second" unfolding n_def using mod_mod_cancel[OF dvd(3)] by simp
    moreover have "t = t div (24 * hour) * (24 * hour) + n" unfolding n_def by (simp only: div_mult_mod_eq)
    ultimately show ?thesis unfolding cal(1) by linarith
  qed
  have "get_fraction z = (0, z)" using assms(3) by (simp add: get_fraction_def)
  then show ?thesis
    unfolding parse_RFC3339_def clock_text_def format_date_def date clock prod.case append_assoc
    using yr hms cal(2-5) dr sum assms(2)
    by (simp add: get_year_pad0 getnum_pad0 skip_char_def)
qed

lemma parse_format_RFC3339: "fst (date_of t) \<in> {0..9999} \<Longrightarrow> parse_RFC3339 (format_RFC3339 t) = Some (t - t mod second)"
  using parse_clock_text[of t "''Z''" 0] by (simp add: format_RFC3339_eq get_zone_def skip_char_def)

lemma get_zone_text:
  assumes "minute dvd off" and "\<bar>off\<bar> < 24 * hour"
  shows "get_zone (zone_text off) = Some (off, [])" and "hd (zone_text off) \<notin> {CHR ''.'', CHR '',''}"
proof -
  let ?z = "\<bar>off\<bar> div minute"
  have z: "?z * minute = \<bar>off\<bar>" using assms(1) by simp
  have "?z * minute < 1440 * minute" unfolding z using assms(2) by (simp add: units)
  then have "?z < 1440" by (simp add: units)
  moreover have "0 \<le> ?z" by (simp add: units pos_imp_zdiv_nonneg_iff)
  ultimately have r: "0 \<le> ?z div 60" "?z div 60 < 24" "0 \<le> ?z mod 60" "?z mod 60 < 60" by (simp_all add: div_less_iff_less_mult)
  have len: "length (pad0 2 (?z div 60)) = 2" "length (pad0 2 (?z mod 60)) = 2" using r by (simp_all add: length_pad0_2)
  have val: "?z div 60 * hour + ?z mod 60 * minute = \<bar>off\<bar>"
  proof -
    have "?z div 60 * hour + ?z mod 60 * minute = (?z div 60 * 60 + ?z mod 60) * minute" unfolding hour_def distrib_right by (simp only: mult.assoc)
    then show ?thesis using z by simp
  qed
  obtain a b c d where ab: "pad0 2 (?z div 60) = [a, b]" and cd: "pad0 2 (?z mod 60) = [c, d]"
    using len by (auto simp: length_Suc_conv numeral_2_eq_2)
  have g: "getnum [a, b] True = Some (?z div 60, [])" "getnum [c, d] True = Some (?z mod 60, [])"
    using getnum_pad0[of "?z div 60" "[]" True] getnum_pad0[of "?z mod 60" "[]" True] r ab cd by simp_all
  show "get_zone (zone_text off) = Some (off, [])"
  proof (cases "off = 0")
    case True
    then show ?thesis by (simp add: zone_text_def get_zone_def skip_char_def)
  next
    case False
    have zt: "zone_text off = (if off < 0 then CHR ''-'' else CHR ''+'') # [a, b, CHR '':'', c, d]"
      using False by (simp add: zone_text_def Let_def ab cd)
    have "\<not> ?z div 60 > 24" "\<not> ?z mod 60 > 60" using r by linarith+
    then have "get_zone (zone_text off) = Some ((if off < 0 then - 1 else 1) * (?z div 60 * hour + ?z mod 60 * minute), [])"
      unfolding zt get_zone_def skip_char_def by (simp add: g del: minus_div_mult_eq_mod)
    then show ?thesis unfolding val by simp
  qed
  show "hd (zone_text off) \<notin> {CHR ''.'', CHR '',''}" by (simp add: zone_text_def Let_def)
qed

lemma parse_format_zone:
  assumes "fst (date_of (t + off)) \<in> {0..9999}" and "minute dvd off" and "\<bar>off\<bar> < 24 * hour"
  shows "parse_RFC3339 (format_RFC3339_zone off t) = Some (t - t mod second)"
proof -
  have "second dvd off" using assms(2) by (rule dvd_trans[rotated]) (simp add: units)
  then have "(t + off) mod second = t mod second" by (auto simp: dvd_def)
  then show ?thesis
    using parse_clock_text[OF assms(1) get_zone_text[OF assms(2,3)]] by (simp add: format_RFC3339_zone_def)
qed

end
