(* ===== verification/DMail.thy ===== *)
theory DMail
  imports GoPath GoTime
begin

text \<open>
  The D-Mail data model (\<open>src/internal/domain/delivery.go\<close>, \<open>dmail_filter.go\<close>): kinds, the
  frontmatter of a D-Mail file, how its extent is found in the file, the validation of the schema
  version and the kind, and which file names are D-Mails. The YAML decoder of
  \<open>gopkg.in/yaml.v3\<close> is the parameter \<open>yaml\<close>.
\<close>

section \<open>Kinds\<close>

type_synonym dmail_kind = string

definition KindSpecification :: dmail_kind where "KindSpecification = ''specification''"
definition KindReport :: dmail_kind where "KindReport = ''report''"
definition KindDesignFeedback :: dmail_kind where "KindDesignFeedback = ''design-feedback''"
definition KindImplFeedback :: dmail_kind where "KindImplFeedback = ''implementation-feedback''"
definition KindConvergence :: dmail_kind where "KindConvergence = ''convergence''"
definition KindCIResult :: dmail_kind where "KindCIResult = ''ci-result''"
definition KindStallEscalation :: dmail_kind where "KindStallEscalation = ''stall-escalation''"

definition UnknownKind :: dmail_kind where "UnknownKind = ''unknown''"

definition SupportedDMailSchemaVersion :: string where "SupportedDMailSchemaVersion = ''1''"

definition validDMailKinds :: "dmail_kind list" where
  "validDMailKinds = [KindSpecification, KindReport, KindDesignFeedback, KindImplFeedback,
                      KindConvergence, KindCIResult, KindStallEscalation]"

lemmas kind_defs = KindSpecification_def KindReport_def KindDesignFeedback_def KindImplFeedback_def
  KindConvergence_def KindCIResult_def KindStallEscalation_def UnknownKind_def

definition IsValidDMailKind :: "dmail_kind \<Rightarrow> bool" where
  "IsValidDMailKind kind = List.member validDMailKinds kind"

definition ErrDMailKindInvalid :: go_error where
  "ErrDMailKindInvalid = errorf ''dmail: invalid kind''"

definition ParseDMailKind :: "string \<Rightarrow> dmail_kind result" where
  "ParseDMailKind raw =
     (if \<not> IsValidDMailKind raw
      then Inl (wrapf (''invalid D-Mail kind '' @ Quote raw @ '': '') ErrDMailKindInvalid)
      else Inr raw)"

section \<open>Records\<close>

text \<open>Go's \<open>map[string]string\<close> is an association list with the map's keys; reading an absent key
  gives the empty string.\<close>

type_synonym meta_map = "(string \<times> string) list"

definition mget :: "meta_map \<Rightarrow> string \<Rightarrow> string" where
  "mget m k = (case map_of m k of None \<Rightarrow> [] | Some v \<Rightarrow> v)"

definition mput :: "string \<Rightarrow> string \<Rightarrow> meta_map \<Rightarrow> meta_map" where
  "mput k v m = (k, v) # filter (\<lambda>(k', _). k' \<noteq> k) m"

lemma mget_mput [simp]: "mget (mput k v m) k' = (if k' = k then v else mget m k')"
proof -
  have "map_of (filter (\<lambda>(k', _). k' \<noteq> k) m) k' = map_of m k'" if "k' \<noteq> k"
    using that by (induction m) auto
  then show ?thesis by (simp add: mget_def mput_def)
qed

lemma mput_not_Nil [simp]: "mput k v m \<noteq> []"
  by (simp add: mput_def)

lemma distinct_mput: "distinct (map fst m) \<Longrightarrow> distinct (map fst (mput k v m))"
proof -
  assume "distinct (map fst m)"
  then have "distinct (map fst (filter P m))" for P by (rule distinct_map_filter)
  then show ?thesis by (auto simp: mput_def)
qed

record dmail_frontmatter =
  fm_SchemaVersion :: string
  fm_Name :: string
  fm_Kind :: dmail_kind
  fm_Description :: string
  fm_Action :: string
  fm_Priority :: int
  fm_Targets :: "string list"
  fm_Metadata :: meta_map

record error_metadata =
  em_SourceOutbox :: path
  em_Kind :: dmail_kind
  em_OriginalName :: string
  em_Attempts :: int
  em_Error :: string
  em_Timestamp :: time

record delivery_flushed =
  df_DMailPath :: path
  df_Target :: path

record staged_delivery =
  sd_DMailPath :: path
  sd_Target :: path
  sd_Data :: bytes

record resolved_route =
  rr_Kind :: dmail_kind
  rr_FromOutbox :: path
  rr_ToInboxes :: "path list"

record delivery_result =
  dr_SourcePath :: path
  dr_Kind :: dmail_kind
  dr_DeliveredTo :: "path list"

type_synonym yaml_decoder = "bytes \<Rightarrow> dmail_frontmatter result"

section \<open>Frontmatter\<close>

text \<open>The loop of \<open>findFrontmatterEnd\<close> over the text after the opening dashes; \<open>i\<close> counts the
  bytes passed. The closing line must follow a newline.\<close>

fun find_close :: "string \<Rightarrow> int \<Rightarrow> int" where
  "find_close [] i = -1"
| "find_close (c # s) i =
     (if c = CHR 0x0A \<and> HasPrefix s ''---'' then 3 + i + 1 else find_close s (i + 1))"

definition findFrontmatterEnd :: "string \<Rightarrow> int" where
  "findFrontmatterEnd content =
     (if length content < 4 \<or> take 3 content \<noteq> ''---'' then -1 else find_close (drop 3 content) 0)"

text \<open>\<open>content[lo:hi]\<close> for offsets inside the string.\<close>

definition slice :: "string \<Rightarrow> nat \<Rightarrow> nat \<Rightarrow> string" where
  "slice s lo hi = take (hi - lo) (drop lo s)"

definition ParseDMailFrontmatter :: "yaml_decoder \<Rightarrow> bytes \<Rightarrow> dmail_frontmatter result" where
  "ParseDMailFrontmatter yaml data =
     (let idx = findFrontmatterEnd data
      in if idx < 0
         then Inl (errorf ''no YAML frontmatter found: file must start with ---'')
         else yaml (slice data 3 (nat idx)))"

definition ExtractDMailKind :: "yaml_decoder \<Rightarrow> bytes \<Rightarrow> dmail_kind result" where
  "ExtractDMailKind yaml data =
     (case ParseDMailFrontmatter yaml data of
        Inl e \<Rightarrow> Inl e
      | Inr fm \<Rightarrow>
          if fm_SchemaVersion fm = []
          then Inl (errorf ''D-Mail missing required 'dmail-schema-version' field'')
          else if fm_SchemaVersion fm \<noteq> SupportedDMailSchemaVersion
          then Inl (errorf (''unsupported dmail-schema-version '' @ Quote (fm_SchemaVersion fm)
                             @ '': only '' @ Quote ''1'' @ '' is supported''))
          else if fm_Kind fm = []
          then Inl (errorf ''D-Mail missing required 'kind' field'')
          else ParseDMailKind (fm_Kind fm))"

section \<open>File names\<close>

definition IsDMailFile :: "string \<Rightarrow> bool" where
  "IsDMailFile name =
     (let base = Base name
      in if base = [] \<or> base = ''.'' then False
         else Ext base = ''.md'' \<and> \<not> HasPrefix base ''.phonewave-tmp-'')"

section \<open>Lemmas\<close>

lemma IsValidDMailKind_iff: "IsValidDMailKind k \<longleftrightarrow> k \<in> set validDMailKinds"
  by (simp add: IsValidDMailKind_def)

lemma IsValid_not_Nil: "IsValidDMailKind k \<Longrightarrow> k \<noteq> [] \<and> k \<noteq> UnknownKind"
  by (auto simp: IsValidDMailKind_iff validDMailKinds_def kind_defs)

lemma ParseDMailKind_Inr [simp]: "ParseDMailKind raw = Inr k \<longleftrightarrow> k = raw \<and> IsValidDMailKind raw"
  by (auto simp: ParseDMailKind_def)

lemma ParseDMailKind_cases:
  "(IsValidDMailKind raw \<and> ParseDMailKind raw = Inr raw) \<or>
   (\<not> IsValidDMailKind raw \<and> (\<exists>e. ParseDMailKind raw = Inl e))"
  by (auto simp: ParseDMailKind_def)

text \<open>The scan stops at the first newline that is followed by three dashes.\<close>

lemma HasPrefix_dashes_before_newline:
  "HasPrefix (s @ CHR 0x0A # t) ''---'' \<Longrightarrow> HasPrefix s ''---''"
proof (cases "length s < 3")
  case True
  assume "HasPrefix (s @ CHR 0x0A # t) ''---''"
  then obtain u where eq: "s @ CHR 0x0A # t = ''---'' @ u" by (auto simp: HasPrefix_iff)
  have "CHR 0x0A = (s @ CHR 0x0A # t) ! length s" by (simp only: nth_append_length)
  also have "\<dots> = (''---'' @ u) ! length s" by (simp only: eq)
  also have "\<dots> = CHR ''-''" using True by (auto simp: less_Suc_eq numeral_3_eq_3)
  finally show ?thesis by simp
next
  case False
  assume "HasPrefix (s @ CHR 0x0A # t) ''---''"
  with False show ?thesis by (simp add: HasPrefix_def)
qed

lemma find_close_hit:
  "\<not> Contains body (CHR 0x0A # ''---'') \<Longrightarrow> HasPrefix rest ''---'' \<Longrightarrow>
   find_close (body @ CHR 0x0A # rest) i = 3 + i + int (length body) + 1"
proof (induction body arbitrary: i)
  case Nil
  then show ?case by simp
next
  case (Cons c body)
  have "\<not> (c = CHR 0x0A \<and> HasPrefix (body @ CHR 0x0A # rest) ''---'')"
  proof
    assume "c = CHR 0x0A \<and> HasPrefix (body @ CHR 0x0A # rest) ''---''"
    then have "HasPrefix (c # body) (CHR 0x0A # ''---'')"
      using HasPrefix_dashes_before_newline[of body rest] by (auto simp: HasPrefix_iff)
    with Cons.prems show False by simp
  qed
  with Cons show ?case by auto
qed

lemma find_close_range:
  "find_close s i = -1 \<or> (3 + i + 1 \<le> find_close s i \<and> find_close s i + 3 \<le> 3 + i + int (length s))"
proof (induction s i rule: find_close.induct)
  case (1 i)
  show ?case by simp
next
  case (2 c s i)
  show ?case
  proof (cases "c = CHR 0x0A \<and> HasPrefix s ''---''")
    case True
    then have "3 \<le> length s" by (auto simp: HasPrefix_iff)
    with True show ?thesis by simp
  next
    case False
    with 2 show ?thesis by auto
  qed
qed

text \<open>When an end offset is found, the slice between the delimiters lies inside the file: the
  Go slice expression cannot be out of range.\<close>

lemma findFrontmatterEnd_bounds:
  "0 \<le> findFrontmatterEnd content \<Longrightarrow>
   4 \<le> findFrontmatterEnd content \<and> findFrontmatterEnd content + 3 \<le> int (length content)"
  using find_close_range[of "drop 3 content" 0]
  by (auto simp: findFrontmatterEnd_def split: if_splits)

lemma findFrontmatterEnd_closed:
  assumes "\<not> Contains body (CHR 0x0A # ''---'')"
  shows "findFrontmatterEnd (''---'' @ body @ CHR 0x0A # ''---'' @ rest) = 4 + int (length body)"
  using find_close_hit[OF assms, of "''---'' @ rest" 0]
  by (simp add: findFrontmatterEnd_def HasPrefix_def)

lemma slice_frontmatter:
  "slice (''---'' @ body @ CHR 0x0A # ''---'' @ rest) 3 (nat (4 + int (length body))) = body @ [CHR 0x0A]"
proof -
  have "nat (4 + int (length body)) - 3 = length body + 1" by simp
  then show ?thesis by (simp add: slice_def)
qed

lemma ParseDMailFrontmatter_wellformed:
  "\<not> Contains body (CHR 0x0A # ''---'') \<Longrightarrow>
   ParseDMailFrontmatter yaml (''---'' @ body @ CHR 0x0A # ''---'' @ rest) = yaml (body @ [CHR 0x0A])"
  unfolding ParseDMailFrontmatter_def Let_def
  by (subst findFrontmatterEnd_closed, assumption)+ (subst slice_frontmatter, simp)

lemma ExtractDMailKind_valid: "ExtractDMailKind yaml data = Inr k \<Longrightarrow> IsValidDMailKind k"
  by (auto simp: ExtractDMailKind_def split: sum.splits if_splits)

text \<open>The name of a temporary file of \<open>atomicWrite\<close> is never a D-Mail, whatever random text
  \<open>os.CreateTemp\<close> appends.\<close>

lemma IsDMailFile_Join:
  "file_name f \<Longrightarrow> IsDMailFile (path_Join [d, f]) = (Ext f = ''.md'' \<and> \<not> HasPrefix f ''.phonewave-tmp-'')"
  by (auto simp: IsDMailFile_def Base_path_Join_file file_name_def plain_comp_def Let_def)

section \<open>Properties\<close>

text \<open>Whatever the file contains, the slice that \<open>ParseDMailFrontmatter\<close> takes lies inside it
  (when an end offset is found it is at least 4 and three bytes before the end of the file), and for
  a file that opens with dashes and whose body up to a newline followed by dashes contains no earlier one,
  the decoder is given exactly that body.\<close>

theorem ParseDMailFrontmatter_extent:
  "(0 \<le> findFrontmatterEnd content \<longrightarrow>
      4 \<le> findFrontmatterEnd content \<and> findFrontmatterEnd content + 3 \<le> int (length content)) \<and>
   (\<not> Contains body (CHR 0x0A # ''---'') \<longrightarrow>
      ParseDMailFrontmatter yaml (''---'' @ body @ CHR 0x0A # ''---'' @ rest) = yaml (body @ [CHR 0x0A]))"
  using findFrontmatterEnd_bounds ParseDMailFrontmatter_wellformed by blast

definition sample_fm :: dmail_frontmatter where
  "sample_fm = \<lparr>fm_SchemaVersion = ''1'', fm_Name = ''n'', fm_Kind = KindReport, fm_Description = [],
     fm_Action = [], fm_Priority = 0, fm_Targets = [], fm_Metadata = []\<rparr>"

theorem ParseDMailFrontmatter_extent_witness:
  "ParseDMailFrontmatter (\<lambda>b. if b = CHR 0x0A # ''kind: report'' @ [CHR 0x0A] then Inr sample_fm else Inl (errorf []))
     (''---'' @ (CHR 0x0A # ''kind: report'') @ CHR 0x0A # ''---'' @ [CHR 0x0A]) = Inr sample_fm \<and>
   findFrontmatterEnd (''---'' @ (CHR 0x0A # ''kind: report'') @ CHR 0x0A # ''---'') + 3 \<le>
     int (length (''---'' @ (CHR 0x0A # ''kind: report'') @ CHR 0x0A # ''---''))"
proof
  have "\<not> Contains (CHR 0x0A # ''kind: report'') (CHR 0x0A # ''---'')" by (simp add: HasPrefix_def)
  then show "ParseDMailFrontmatter (\<lambda>b. if b = CHR 0x0A # ''kind: report'' @ [CHR 0x0A] then Inr sample_fm else Inl (errorf []))
     (''---'' @ (CHR 0x0A # ''kind: report'') @ CHR 0x0A # ''---'' @ [CHR 0x0A]) = Inr sample_fm"
    by (subst ParseDMailFrontmatter_extent[THEN conjunct2, rule_format]) simp_all
  have "0 \<le> findFrontmatterEnd (''---'' @ (CHR 0x0A # ''kind: report'') @ CHR 0x0A # ''---'')"
    by (simp add: findFrontmatterEnd_def HasPrefix_def)
  then show "findFrontmatterEnd (''---'' @ (CHR 0x0A # ''kind: report'') @ CHR 0x0A # ''---'') + 3 \<le>
     int (length (''---'' @ (CHR 0x0A # ''kind: report'') @ CHR 0x0A # ''---''))"
    by (rule ParseDMailFrontmatter_extent[THEN conjunct1, rule_format, THEN conjunct2])
qed

text \<open>\<open>ExtractDMailKind\<close> accepts a file exactly when its frontmatter decodes, declares schema
  version 1 and a kind of the canonical set, and then returns that kind; in every other case it
  returns an error.\<close>

theorem ExtractDMailKind_iff:
  "(ExtractDMailKind yaml data = Inr k \<longleftrightarrow>
     (\<exists>fm. ParseDMailFrontmatter yaml data = Inr fm \<and> fm_SchemaVersion fm = ''1'' \<and>
           fm_Kind fm = k \<and> IsValidDMailKind k)) \<and>
   (isl (ExtractDMailKind yaml data) \<longleftrightarrow>
     (\<forall>fm. ParseDMailFrontmatter yaml data \<noteq> Inr fm \<or> fm_SchemaVersion fm \<noteq> ''1'' \<or>
           \<not> IsValidDMailKind (fm_Kind fm)))"
proof (cases "ParseDMailFrontmatter yaml data")
  case (Inl e)
  then show ?thesis by (simp add: ExtractDMailKind_def)
next
  case (Inr fm)
  then show ?thesis
    using IsValid_not_Nil[of "fm_Kind fm"]
    by (auto simp: ExtractDMailKind_def SupportedDMailSchemaVersion_def ParseDMailKind_def split: if_splits)
qed

theorem ExtractDMailKind_iff_witness:
  "ExtractDMailKind (\<lambda>b. Inr sample_fm) (''---'' @ CHR 0x0A # ''---'') = Inr KindReport"
proof -
  have "\<exists>fm. ParseDMailFrontmatter (\<lambda>b. Inr sample_fm) (''---'' @ CHR 0x0A # ''---'') = Inr fm \<and>
      fm_SchemaVersion fm = ''1'' \<and> fm_Kind fm = KindReport \<and> IsValidDMailKind KindReport"
    by (simp add: ParseDMailFrontmatter_def findFrontmatterEnd_def HasPrefix_def sample_fm_def
        IsValidDMailKind_iff validDMailKinds_def)
  then show ?thesis using ExtractDMailKind_iff by blast
qed

end
