(* ===== verification/Routing.thy ===== *)
theory Routing
  imports DMail
begin

text \<open>
  The configuration and the routing table: \<open>src/internal/domain/config.go\<close> (repositories,
  endpoints, adding and removing them, re-deriving routes), \<open>src/internal/domain/router.go\<close>
  (\<open>DeriveRoutes\<close>, \<open>DetectOrphans\<close>) and \<open>src/internal/session/daemon_setup.go\<close>
  (\<open>ResolveRoutes\<close>, \<open>CollectOutboxDirs\<close>). A Go map that is only built to be looked up or iterated
  over is a function or a list of its keys; the results that depend on iteration are sorted by the
  code, so the order of iteration does not matter.
\<close>

section \<open>Records\<close>

record endpoint =
  ep_Dir :: string
  ep_Produces :: "string list"
  ep_Consumes :: "string list"

record route =
  rt_Kind :: string
  rt_From :: path
  rt_To :: "path list"
  rt_Scope :: string

record orphan_report =
  or_UnconsumedKinds :: "string list"
  or_UnproducedKinds :: "string list"

record repo_config =
  rp_Path :: path
  rp_Endpoints :: "endpoint list"

record route_config =
  rc_Kind :: string
  rc_From :: path
  rc_To :: "path list"
  rc_Scope :: string
  rc_RepoPath :: path

record config =
  cfg_LastSynced :: time
  cfg_Repositories :: "repo_config list"
  cfg_Routes :: "route_config list"

section \<open>Deriving routes\<close>

text \<open>The consumer index: \<open>consumers[kind] = append(consumers[kind], ep.Dir)\<close> for every consumed
  kind, in the order of the endpoints.\<close>

definition add_consumer :: "string \<Rightarrow> string \<Rightarrow> (string \<Rightarrow> string list) \<Rightarrow> (string \<Rightarrow> string list)" where
  "add_consumer dir kind m = m(kind := m kind @ [dir])"

definition consumer_index :: "endpoint list \<Rightarrow> string \<Rightarrow> string list" where
  "consumer_index eps =
     fold (\<lambda>ep m. fold (add_consumer (ep_Dir ep)) (ep_Consumes ep) m) eps (\<lambda>_. [])"

definition derive_route :: "(string \<Rightarrow> string list) \<Rightarrow> endpoint \<Rightarrow> string \<Rightarrow> route option" where
  "derive_route consumers ep kind =
     (let targets = consumers kind
      in if targets = [] then None
         else let to = map (\<lambda>d. path_Join [d, ''inbox'']) (filter (\<lambda>d. d \<noteq> ep_Dir ep) targets)
              in if to = [] then None
                 else Some \<lparr>rt_Kind = kind, rt_From = path_Join [ep_Dir ep, ''outbox''],
                            rt_To = to, rt_Scope = ''same_repository''\<rparr>)"

definition DeriveRoutes :: "endpoint list \<Rightarrow> route list" where
  "DeriveRoutes eps =
     (let consumers = consumer_index eps
      in concat (map (\<lambda>ep. List.map_filter (derive_route consumers ep) (ep_Produces ep)) eps))"

section \<open>Orphans\<close>

text \<open>The sets \<open>producers[kind]\<close> and \<open>consumers[kind]\<close> of endpoint directories.\<close>

definition producer_dirs :: "endpoint list \<Rightarrow> string \<Rightarrow> string list" where
  "producer_dirs eps kind = remdups (map ep_Dir (filter (\<lambda>ep. kind \<in> set (ep_Produces ep)) eps))"

definition consumer_dirs :: "endpoint list \<Rightarrow> string \<Rightarrow> string list" where
  "consumer_dirs eps kind = remdups (map ep_Dir (filter (\<lambda>ep. kind \<in> set (ep_Consumes ep)) eps))"

definition has_external_route :: "endpoint list \<Rightarrow> string \<Rightarrow> bool" where
  "has_external_route eps kind =
     list_ex (\<lambda>p. list_ex (\<lambda>c. p \<noteq> c) (consumer_dirs eps kind)) (producer_dirs eps kind)"

definition DetectOrphans :: "endpoint list \<Rightarrow> orphan_report" where
  "DetectOrphans eps =
     (let produced = remdups (concat (map ep_Produces eps));
          consumed = remdups (concat (map ep_Consumes eps))
      in \<lparr>or_UnconsumedKinds =
            sort (filter (\<lambda>kind. consumer_dirs eps kind = [] \<or> \<not> has_external_route eps kind) produced),
          or_UnproducedKinds =
            sort (filter (\<lambda>kind. producer_dirs eps kind = []) consumed)\<rparr>)"

definition DetectOrphansPerRepo :: "config \<Rightarrow> orphan_report" where
  "DetectOrphansPerRepo cfg =
     (let reports = map (\<lambda>repo. DetectOrphans (rp_Endpoints repo)) (cfg_Repositories cfg)
      in \<lparr>or_UnconsumedKinds = sort (remdups (concat (map or_UnconsumedKinds reports))),
          or_UnproducedKinds = sort (remdups (concat (map or_UnproducedKinds reports)))\<rparr>)"

section \<open>Operations on the configuration\<close>

definition AddRepository :: "config \<Rightarrow> path \<Rightarrow> endpoint list \<Rightarrow> config" where
  "AddRepository c p eps =
     c\<lparr>cfg_Repositories := cfg_Repositories c @ [\<lparr>rp_Path = p, rp_Endpoints = eps\<rparr>]\<rparr>"

fun remove_first_repo :: "path \<Rightarrow> repo_config list \<Rightarrow> repo_config list option" where
  "remove_first_repo p [] = None"
| "remove_first_repo p (r # rs) =
     (if rp_Path r = p then Some rs else map_option ((#) r) (remove_first_repo p rs))"

text \<open>The boolean of the Go method and the updated configuration.\<close>

definition RemoveRepository :: "config \<Rightarrow> path \<Rightarrow> bool \<times> config" where
  "RemoveRepository c p =
     (case remove_first_repo p (cfg_Repositories c) of
        None \<Rightarrow> (False, c)
      | Some rs \<Rightarrow> (True, c\<lparr>cfg_Repositories := rs\<rparr>))"

definition route_config_of :: "path \<Rightarrow> route \<Rightarrow> route_config" where
  "route_config_of repoPath r =
     \<lparr>rc_Kind = rt_Kind r, rc_From = rt_From r, rc_To = rt_To r, rc_Scope = rt_Scope r,
      rc_RepoPath = repoPath\<rparr>"

definition UpdateRoutes :: "config \<Rightarrow> config" where
  "UpdateRoutes c =
     c\<lparr>cfg_Routes := concat (map (\<lambda>repo. map (route_config_of (rp_Path repo))
                                             (DeriveRoutes (rp_Endpoints repo)))
                                (cfg_Repositories c))\<rparr>"

section \<open>Absolute routes\<close>

definition findRepoForRoute :: "config \<Rightarrow> path \<Rightarrow> repo_config result" where
  "findRepoForRoute cfg fromPath =
     (let dotDir = hd (Split CHR ''/'' fromPath)
      in case List.find (\<lambda>repo. list_ex (\<lambda>ep. ep_Dir ep = dotDir) (rp_Endpoints repo))
                        (cfg_Repositories cfg) of
           Some repo \<Rightarrow> Inr repo
         | None \<Rightarrow> Inl (errorf (''no repository found for route from '' @ Quote fromPath)))"

definition resolve_route :: "config \<Rightarrow> route_config \<Rightarrow> resolved_route result" where
  "resolve_route cfg r =
     (case (if rc_RepoPath r = [] then map_sum id rp_Path (findRepoForRoute cfg (rc_From r))
            else Inr (rc_RepoPath r)) of
        Inl e \<Rightarrow> Inl e
      | Inr repoPath \<Rightarrow>
          Inr \<lparr>rr_Kind = rc_Kind r, rr_FromOutbox = path_Join [repoPath, rc_From r],
               rr_ToInboxes = map (\<lambda>to. path_Join [repoPath, to]) (rc_To r)\<rparr>)"

fun resolve_all :: "config \<Rightarrow> route_config list \<Rightarrow> resolved_route list result" where
  "resolve_all cfg [] = Inr []"
| "resolve_all cfg (r # rs) =
     (case resolve_route cfg r of
        Inl e \<Rightarrow> Inl e
      | Inr rr \<Rightarrow> map_sum id ((#) rr) (resolve_all cfg rs))"

definition ResolveRoutes :: "config \<Rightarrow> resolved_route list result" where
  "ResolveRoutes cfg = resolve_all cfg (cfg_Routes cfg)"

definition CollectOutboxDirs :: "config \<Rightarrow> path list" where
  "CollectOutboxDirs cfg =
     concat (map (\<lambda>repo. map (\<lambda>ep. path_Join [rp_Path repo, ep_Dir ep, ''outbox''])
                             (filter (\<lambda>ep. ep_Produces ep \<noteq> []) (rp_Endpoints repo)))
                 (cfg_Repositories cfg))"

section \<open>Lemmas on routes\<close>

lemma fold_add_consumer:
  "fold (add_consumer d) ks m k = m k @ replicate (count_list ks k) d"
  by (induction ks arbitrary: m) (auto simp: add_consumer_def replicate_app_Cons_same)

lemma consumer_index_fold:
  "fold (\<lambda>ep m. fold (add_consumer (ep_Dir ep)) (ep_Consumes ep) m) eps m k =
   m k @ concat (map (\<lambda>ep. replicate (count_list (ep_Consumes ep) k) (ep_Dir ep)) eps)"
  by (induction eps arbitrary: m) (auto simp: fold_add_consumer)

lemma consumer_index_eq:
  "consumer_index eps k = concat (map (\<lambda>ep. replicate (count_list (ep_Consumes ep) k) (ep_Dir ep)) eps)"
  by (simp add: consumer_index_def consumer_index_fold)

lemma set_consumer_index:
  "d \<in> set (consumer_index eps k) \<longleftrightarrow> (\<exists>ep \<in> set eps. ep_Dir ep = d \<and> k \<in> set (ep_Consumes ep))"
proof -
  have "count_list ks k \<noteq> 0 \<longleftrightarrow> k \<in> set ks" for ks :: "string list"
    by (simp add: count_list_0_iff)
  then show ?thesis by (auto simp: consumer_index_eq set_replicate_conv_if)
qed

lemma derive_route_Some:
  "derive_route (consumer_index eps) ep k = Some r \<longleftrightarrow>
   (\<exists>d \<in> set (consumer_index eps k). d \<noteq> ep_Dir ep) \<and>
   r = \<lparr>rt_Kind = k, rt_From = path_Join [ep_Dir ep, ''outbox''],
        rt_To = map (\<lambda>d. path_Join [d, ''inbox'']) (filter (\<lambda>d. d \<noteq> ep_Dir ep) (consumer_index eps k)),
        rt_Scope = ''same_repository''\<rparr>"
  by (auto simp: derive_route_def Let_def filter_empty_conv)

lemma set_DeriveRoutes:
  "r \<in> set (DeriveRoutes eps) \<longleftrightarrow>
   (\<exists>ep \<in> set eps. \<exists>k \<in> set (ep_Produces ep). derive_route (consumer_index eps) ep k = Some r)"
  by (auto simp: DeriveRoutes_def Let_def List.map_filter_def image_iff)
     (metis option.sel option.distinct(1))+

text \<open>A kind has a route exactly when an endpoint produces it and an endpoint with another
  directory consumes it.\<close>

lemma DeriveRoutes_kind_iff:
  "(\<exists>r \<in> set (DeriveRoutes eps). rt_Kind r = k) \<longleftrightarrow>
   (\<exists>p \<in> set eps. \<exists>c \<in> set eps. k \<in> set (ep_Produces p) \<and> k \<in> set (ep_Consumes c) \<and> ep_Dir c \<noteq> ep_Dir p)"
proof
  assume "\<exists>r \<in> set (DeriveRoutes eps). rt_Kind r = k"
  then obtain r p where "p \<in> set eps" "k \<in> set (ep_Produces p)"
    "derive_route (consumer_index eps) p k = Some r"
    unfolding set_DeriveRoutes derive_route_Some Bex_def by fastforce
  then show "\<exists>p \<in> set eps. \<exists>c \<in> set eps. k \<in> set (ep_Produces p) \<and> k \<in> set (ep_Consumes c) \<and>
      ep_Dir c \<noteq> ep_Dir p"
    unfolding derive_route_Some Bex_def set_consumer_index by blast
next
  assume "\<exists>p \<in> set eps. \<exists>c \<in> set eps. k \<in> set (ep_Produces p) \<and> k \<in> set (ep_Consumes c) \<and>
      ep_Dir c \<noteq> ep_Dir p"
  then obtain p c where pc: "p \<in> set eps" "k \<in> set (ep_Produces p)" "ep_Dir c \<noteq> ep_Dir p"
    and "c \<in> set eps" "k \<in> set (ep_Consumes c)" by blast
  moreover from this have "ep_Dir c \<in> set (consumer_index eps k)"
    unfolding set_consumer_index by blast
  ultimately have "\<exists>r. derive_route (consumer_index eps) p k = Some r \<and> rt_Kind r = k"
    unfolding derive_route_Some by auto
  with pc show "\<exists>r \<in> set (DeriveRoutes eps). rt_Kind r = k"
    unfolding Bex_def set_DeriveRoutes by blast
qed

lemma producer_dirs_iff: "d \<in> set (producer_dirs eps k) \<longleftrightarrow> (\<exists>ep \<in> set eps. ep_Dir ep = d \<and> k \<in> set (ep_Produces ep))"
  by (auto simp: producer_dirs_def)

lemma consumer_dirs_iff: "d \<in> set (consumer_dirs eps k) \<longleftrightarrow> (\<exists>ep \<in> set eps. ep_Dir ep = d \<and> k \<in> set (ep_Consumes ep))"
  by (auto simp: consumer_dirs_def)

lemma producer_dirs_Nil: "producer_dirs eps k = [] \<longleftrightarrow> (\<forall>ep \<in> set eps. k \<notin> set (ep_Produces ep))"
  by (auto simp: producer_dirs_def filter_empty_conv)

lemma consumer_dirs_Nil: "consumer_dirs eps k = [] \<longleftrightarrow> (\<forall>ep \<in> set eps. k \<notin> set (ep_Consumes ep))"
  by (auto simp: consumer_dirs_def filter_empty_conv)

lemma has_external_route_iff:
  "has_external_route eps k \<longleftrightarrow> (\<exists>r \<in> set (DeriveRoutes eps). rt_Kind r = k)"
  unfolding has_external_route_def list_ex_iff DeriveRoutes_kind_iff
  unfolding Bex_def producer_dirs_iff consumer_dirs_iff by metis

lemma set_or_UnconsumedKinds:
  "k \<in> set (or_UnconsumedKinds (DetectOrphans eps)) \<longleftrightarrow>
   (\<exists>ep \<in> set eps. k \<in> set (ep_Produces ep)) \<and> \<not> (\<exists>r \<in> set (DeriveRoutes eps). rt_Kind r = k)"
proof -
  have "consumer_dirs eps k = [] \<Longrightarrow> \<not> has_external_route eps k"
    by (simp add: has_external_route_def list_ex_iff)
  then show ?thesis
    by (auto simp: DetectOrphans_def Let_def has_external_route_iff)
qed

lemma set_or_UnproducedKinds:
  "k \<in> set (or_UnproducedKinds (DetectOrphans eps)) \<longleftrightarrow>
   (\<exists>ep \<in> set eps. k \<in> set (ep_Consumes ep)) \<and> (\<forall>ep \<in> set eps. k \<notin> set (ep_Produces ep))"
  by (auto simp: DetectOrphans_def Let_def producer_dirs_Nil)

lemma DetectOrphans_sorted_distinct:
  "sorted (or_UnconsumedKinds (DetectOrphans eps)) \<and> distinct (or_UnconsumedKinds (DetectOrphans eps)) \<and>
   sorted (or_UnproducedKinds (DetectOrphans eps)) \<and> distinct (or_UnproducedKinds (DetectOrphans eps))"
  by (simp add: DetectOrphans_def Let_def)

section \<open>Lemmas on the configuration\<close>

lemma remove_first_repo_None: "remove_first_repo p rs = None \<longleftrightarrow> (\<forall>r \<in> set rs. rp_Path r \<noteq> p)"
  by (induction rs) auto

lemma remove_first_repo_Some:
  "remove_first_repo p rs = Some rs' \<Longrightarrow>
   \<exists>pre r post. rs = pre @ r # post \<and> rp_Path r = p \<and> (\<forall>q \<in> set pre. rp_Path q \<noteq> p) \<and> rs' = pre @ post"
proof (induction rs arbitrary: rs')
  case Nil
  then show ?case by simp
next
  case (Cons q rs)
  show ?case
  proof (cases "rp_Path q = p")
    case True
    with Cons.prems show ?thesis by (auto intro!: exI[of _ "[]"])
  next
    case False
    with Cons obtain rs'' where "remove_first_repo p rs = Some rs''" "rs' = q # rs''" by auto
    with Cons.IH obtain pre r post where "rs = pre @ r # post" "rp_Path r = p"
      "\<forall>q \<in> set pre. rp_Path q \<noteq> p" "rs' = q # pre @ post" by blast
    with False show ?thesis by (intro exI[of _ "q # pre"]) auto
  qed
qed

lemma UpdateRoutes_idem [simp]: "UpdateRoutes (UpdateRoutes c) = UpdateRoutes c"
  by (simp add: UpdateRoutes_def)

lemma UpdateRoutes_repos [simp]: "cfg_Repositories (UpdateRoutes c) = cfg_Repositories c"
  by (simp add: UpdateRoutes_def)

lemma set_UpdateRoutes:
  "r \<in> set (cfg_Routes (UpdateRoutes c)) \<longleftrightarrow>
   (\<exists>repo \<in> set (cfg_Repositories c). \<exists>rt \<in> set (DeriveRoutes (rp_Endpoints repo)).
      r = route_config_of (rp_Path repo) rt)"
  by (auto simp: UpdateRoutes_def)

lemma resolve_all_Inr:
  "resolve_all cfg rs = Inr rrs \<longleftrightarrow> list_all2 (\<lambda>r rr. resolve_route cfg r = Inr rr) rs rrs"
proof (induction rs arbitrary: rrs)
  case Nil
  then show ?case by auto
next
  case (Cons r rs)
  then show ?case
    by (cases rrs; cases "resolve_route cfg r"; cases "resolve_all cfg rs") auto
qed

lemma resolve_all_total:
  "\<forall>r \<in> set rs. rc_RepoPath r \<noteq> [] \<Longrightarrow> \<exists>rrs. resolve_all cfg rs = Inr rrs"
  by (induction rs) (auto simp: resolve_route_def)

text \<open>Joining a relative outbox to the repository path is joining the three components.\<close>

lemma path_Join_rel:
  assumes "file_name d" and "file_name f"
  shows "path_Join [d, f] = d @ CHR ''/'' # f"
proof -
  have "canon False [d]" using canon_snoc_file[OF canon_Nil assms(1)] by simp
  then have "canon False ([d] @ [f])" using assms(2) by (rule canon_snoc_file)
  then have "Clean (render False [d, f]) = render False [d, f]" by (simp add: Clean_render)
  moreover have "d \<noteq> []" using assms(1) by (simp add: file_name_def plain_comp_def)
  ultimately show ?thesis by (simp add: path_Join_def render_def)
qed

lemma path_Join_assoc:
  assumes "file_name d" and "file_name f"
  shows "path_Join [r, path_Join [d, f]] = path_Join [r, d, f]"
proof -
  have "d \<noteq> []" "f \<noteq> []" using assms by (simp_all add: file_name_def plain_comp_def)
  then show ?thesis unfolding path_Join_rel[OF assms] by (simp add: path_Join_def)
qed

lemma file_name_mailboxes [simp]: "file_name ''inbox''" "file_name ''outbox''"
  by (simp_all add: file_name_def plain_comp_def)

text \<open>A configuration whose endpoints are named by plain directory names, as the scanner finds
  them, and whose repository paths are set.\<close>

definition wf_config :: "config \<Rightarrow> bool" where
  "wf_config c \<longleftrightarrow> (\<forall>repo \<in> set (cfg_Repositories c). rp_Path repo \<noteq> [] \<and>
                       (\<forall>ep \<in> set (rp_Endpoints repo). file_name (ep_Dir ep)))"

lemma resolved_route_origin:
  assumes wf: "wf_config c" and res: "ResolveRoutes (UpdateRoutes c) = Inr rrs" and rr: "rr \<in> set rrs"
  shows "\<exists>repo \<in> set (cfg_Repositories c). \<exists>ep \<in> set (rp_Endpoints repo).
           rr_Kind rr \<in> set (ep_Produces ep) \<and>
           rr_FromOutbox rr = path_Join [rp_Path repo, ep_Dir ep, ''outbox''] \<and>
           rr_ToInboxes rr = map (\<lambda>d. path_Join [rp_Path repo, d, ''inbox''])
             (filter (\<lambda>d. d \<noteq> ep_Dir ep) (consumer_index (rp_Endpoints repo) (rr_Kind rr))) \<and>
           rr_ToInboxes rr \<noteq> []"
proof -
  let ?c = "UpdateRoutes c"
  have l: "list_all2 (\<lambda>r rr. resolve_route ?c r = Inr rr) (cfg_Routes ?c) rrs"
    using res by (simp add: ResolveRoutes_def resolve_all_Inr)
  then obtain r where r: "r \<in> set (cfg_Routes ?c)" "resolve_route ?c r = Inr rr"
    using rr unfolding list_all2_conv_all_nth in_set_conv_nth by fastforce
  then obtain repo rt where repo: "repo \<in> set (cfg_Repositories c)"
    and rt: "rt \<in> set (DeriveRoutes (rp_Endpoints repo))" and req: "r = route_config_of (rp_Path repo) rt"
    by (auto simp: set_UpdateRoutes)
  from rt obtain ep k where ep: "ep \<in> set (rp_Endpoints repo)" "k \<in> set (ep_Produces ep)"
    and d: "derive_route (consumer_index (rp_Endpoints repo)) ep k = Some rt"
    by (auto simp: set_DeriveRoutes)
  have p: "rp_Path repo \<noteq> []" and fe: "file_name (ep_Dir ep)"
    using wf repo ep(1) by (auto simp: wf_config_def)
  have fd: "file_name x" if "x \<in> set (consumer_index (rp_Endpoints repo) k)" for x
    using that wf repo by (auto simp: set_consumer_index wf_config_def)
  from d have rteq: "rt = \<lparr>rt_Kind = k, rt_From = path_Join [ep_Dir ep, ''outbox''],
        rt_To = map (\<lambda>d. path_Join [d, ''inbox''])
          (filter (\<lambda>d. d \<noteq> ep_Dir ep) (consumer_index (rp_Endpoints repo) k)),
        rt_Scope = ''same_repository''\<rparr>"
    and ne: "\<exists>x \<in> set (consumer_index (rp_Endpoints repo) k). x \<noteq> ep_Dir ep"
    by (simp_all add: derive_route_Some)
  have "rr = \<lparr>rr_Kind = k, rr_FromOutbox = path_Join [rp_Path repo, path_Join [ep_Dir ep, ''outbox'']],
      rr_ToInboxes = map (\<lambda>to. path_Join [rp_Path repo, to]) (rt_To rt)\<rparr>"
    using r(2) p by (simp add: req rteq resolve_route_def route_config_of_def)
  then have fields: "rr_Kind rr = k"
    "rr_FromOutbox rr = path_Join [rp_Path repo, path_Join [ep_Dir ep, ''outbox'']]"
    "rr_ToInboxes rr = map (\<lambda>to. path_Join [rp_Path repo, to]) (rt_To rt)" by simp_all
  have from_eq: "rr_FromOutbox rr = path_Join [rp_Path repo, ep_Dir ep, ''outbox'']"
    using fields(2) path_Join_assoc[OF fe file_name_mailboxes(2)] by simp
  have to_eq: "rr_ToInboxes rr = map (\<lambda>d. path_Join [rp_Path repo, d, ''inbox''])
      (filter (\<lambda>d. d \<noteq> ep_Dir ep) (consumer_index (rp_Endpoints repo) k))"
    unfolding fields(3) rteq route.simps map_map comp_def
    by (rule map_cong[OF refl]) (simp add: path_Join_assoc fd)
  moreover have "filter (\<lambda>d. d \<noteq> ep_Dir ep) (consumer_index (rp_Endpoints repo) k) \<noteq> []"
    using ne unfolding filter_empty_conv by blast
  ultimately show ?thesis
    using repo ep from_eq fields(1) by (intro bexI[of _ repo] bexI[of _ ep]) simp_all
qed

section \<open>Properties\<close>

text \<open>\<open>DetectOrphans\<close> agrees with \<open>DeriveRoutes\<close>: a kind is reported as unconsumed exactly when
  some endpoint produces it and no derived route carries it (an endpoint that is the only consumer
  of its own kind counts as no consumer), it is reported as unproduced exactly when it is consumed and
  never produced, and both reports are sorted and free of duplicates.\<close>

theorem orphans_are_the_unrouted_kinds:
  "(k \<in> set (or_UnconsumedKinds (DetectOrphans eps)) \<longleftrightarrow>
      k \<in> (\<Union>ep \<in> set eps. set (ep_Produces ep)) \<and> k \<notin> rt_Kind ` set (DeriveRoutes eps)) \<and>
   (k \<in> set (or_UnproducedKinds (DetectOrphans eps)) \<longleftrightarrow>
      k \<in> (\<Union>ep \<in> set eps. set (ep_Consumes ep)) \<and> k \<notin> (\<Union>ep \<in> set eps. set (ep_Produces ep))) \<and>
   sorted (or_UnconsumedKinds (DetectOrphans eps)) \<and> distinct (or_UnconsumedKinds (DetectOrphans eps)) \<and>
   sorted (or_UnproducedKinds (DetectOrphans eps)) \<and> distinct (or_UnproducedKinds (DetectOrphans eps))"
  using DetectOrphans_sorted_distinct[of eps]
  unfolding set_or_UnconsumedKinds set_or_UnproducedKinds by blast

text \<open>C36: After \<open>UpdateRoutes\<close>, on a configuration whose endpoints are plain directory names,
  \<open>ResolveRoutes\<close> succeeds, and every resolved route starts in an outbox that
  \<open>CollectOutboxDirs\<close> gives the watcher, has at least one inbox, carries a kind that its producer declares, and
  delivers only to inboxes of consumers of that kind in the same repository, never back to the producer.\<close>

theorem resolved_routes_are_watched_and_local:
  assumes "wf_config c"
  shows "\<exists>rrs. ResolveRoutes (UpdateRoutes c) = Inr rrs \<and>
    (\<forall>rr \<in> set rrs. rr_FromOutbox rr \<in> set (CollectOutboxDirs c) \<and> rr_ToInboxes rr \<noteq> [] \<and>
      (\<exists>repo \<in> set (cfg_Repositories c). \<exists>p \<in> set (rp_Endpoints repo).
         rr_Kind rr \<in> set (ep_Produces p) \<and>
         rr_FromOutbox rr = path_Join [rp_Path repo, ep_Dir p, ''outbox''] \<and>
         set (rr_ToInboxes rr) =
           {path_Join [rp_Path repo, ep_Dir q, ''inbox''] | q.
              q \<in> set (rp_Endpoints repo) \<and> rr_Kind rr \<in> set (ep_Consumes q) \<and> ep_Dir q \<noteq> ep_Dir p}))"
proof -
  have "\<forall>r \<in> set (cfg_Routes (UpdateRoutes c)). rc_RepoPath r \<noteq> []"
    using assms by (auto simp: set_UpdateRoutes route_config_of_def wf_config_def)
  then obtain rrs where rrs: "ResolveRoutes (UpdateRoutes c) = Inr rrs"
    unfolding ResolveRoutes_def using resolve_all_total by blast
  moreover have "rr_FromOutbox rr \<in> set (CollectOutboxDirs c) \<and> rr_ToInboxes rr \<noteq> [] \<and>
      (\<exists>repo \<in> set (cfg_Repositories c). \<exists>p \<in> set (rp_Endpoints repo).
         rr_Kind rr \<in> set (ep_Produces p) \<and>
         rr_FromOutbox rr = path_Join [rp_Path repo, ep_Dir p, ''outbox''] \<and>
         set (rr_ToInboxes rr) =
           {path_Join [rp_Path repo, ep_Dir q, ''inbox''] | q.
              q \<in> set (rp_Endpoints repo) \<and> rr_Kind rr \<in> set (ep_Consumes q) \<and> ep_Dir q \<noteq> ep_Dir p})"
    if "rr \<in> set rrs" for rr
  proof -
    from resolved_route_origin[OF assms rrs that] obtain repo p
      where rp: "repo \<in> set (cfg_Repositories c)" "p \<in> set (rp_Endpoints repo)"
        "rr_Kind rr \<in> set (ep_Produces p)"
        "rr_FromOutbox rr = path_Join [rp_Path repo, ep_Dir p, ''outbox'']"
      and to: "rr_ToInboxes rr = map (\<lambda>d. path_Join [rp_Path repo, d, ''inbox''])
             (filter (\<lambda>d. d \<noteq> ep_Dir p) (consumer_index (rp_Endpoints repo) (rr_Kind rr)))"
        "rr_ToInboxes rr \<noteq> []" by blast
    have "ep_Produces p \<noteq> []" using rp(3) by auto
    then have "rr_FromOutbox rr \<in> set (CollectOutboxDirs c)"
      using rp(1,2) unfolding rp(4) CollectOutboxDirs_def by auto
    moreover have "set (rr_ToInboxes rr) =
        {path_Join [rp_Path repo, ep_Dir q, ''inbox''] | q.
           q \<in> set (rp_Endpoints repo) \<and> rr_Kind rr \<in> set (ep_Consumes q) \<and> ep_Dir q \<noteq> ep_Dir p}"
      unfolding to(1) set_map set_filter set_consumer_index by blast
    ultimately show ?thesis using rp to(2) by blast
  qed
  ultimately show ?thesis by blast
qed

definition sample_config :: config where
  "sample_config = \<lparr>cfg_LastSynced = 0, cfg_Repositories =
     [\<lparr>rp_Path = ''/r'', rp_Endpoints =
        [\<lparr>ep_Dir = ''.siren'', ep_Produces = [''specification''], ep_Consumes = [''feedback'']\<rparr>,
         \<lparr>ep_Dir = ''.expedition'', ep_Produces = [''report''], ep_Consumes = [''specification'']\<rparr>]\<rparr>],
     cfg_Routes = []\<rparr>"

theorem resolved_routes_are_watched_and_local_witness:
  "\<exists>rrs. ResolveRoutes (UpdateRoutes sample_config) = Inr rrs \<and>
     (\<forall>rr \<in> set rrs. rr_FromOutbox rr \<in> set (CollectOutboxDirs sample_config) \<and> rr_ToInboxes rr \<noteq> [])"
proof -
  have "wf_config sample_config"
    by (simp add: wf_config_def sample_config_def file_name_def plain_comp_def)
  from resolved_routes_are_watched_and_local[OF this] show ?thesis by blast
qed

text \<open>\<open>RemoveRepository\<close> undoes \<open>AddRepository\<close> of a path that was not registered, reports a
  path that is not registered and then changes nothing, and otherwise drops exactly the first repository with that
  path; neither operation touches the derived routes.\<close>

theorem RemoveRepository_correct:
  "(p \<notin> rp_Path ` set (cfg_Repositories c) \<longrightarrow>
      RemoveRepository (AddRepository c p eps) p = (True, c) \<and> RemoveRepository c p = (False, c)) \<and>
   (p \<in> rp_Path ` set (cfg_Repositories c) \<longrightarrow>
      (\<exists>pre r post. cfg_Repositories c = pre @ r # post \<and> rp_Path r = p \<and> p \<notin> rp_Path ` set pre \<and>
         RemoveRepository c p = (True, c\<lparr>cfg_Repositories := pre @ post\<rparr>)))"
proof (intro conjI impI)
  assume n: "p \<notin> rp_Path ` set (cfg_Repositories c)"
  have "remove_first_repo p (rs @ [\<lparr>rp_Path = p, rp_Endpoints = eps\<rparr>]) = Some rs"
    if "p \<notin> rp_Path ` set rs" for rs using that by (induction rs) auto
  with n show "RemoveRepository (AddRepository c p eps) p = (True, c)"
    by (simp add: RemoveRepository_def AddRepository_def)
  have "remove_first_repo p (cfg_Repositories c) = None"
    unfolding remove_first_repo_None using n by blast
  then show "RemoveRepository c p = (False, c)" by (simp add: RemoveRepository_def)
next
  assume "p \<in> rp_Path ` set (cfg_Repositories c)"
  then have "remove_first_repo p (cfg_Repositories c) \<noteq> None"
    unfolding remove_first_repo_None by blast
  then obtain rs where rs: "remove_first_repo p (cfg_Repositories c) = Some rs" by blast
  from remove_first_repo_Some[OF rs] rs
  show "\<exists>pre r post. cfg_Repositories c = pre @ r # post \<and> rp_Path r = p \<and> p \<notin> rp_Path ` set pre \<and>
         RemoveRepository c p = (True, c\<lparr>cfg_Repositories := pre @ post\<rparr>)"
    unfolding RemoveRepository_def by fastforce
qed

theorem RemoveRepository_correct_witness:
  "RemoveRepository (AddRepository sample_config ''/q'' []) ''/q'' = (True, sample_config)"
  using RemoveRepository_correct[of "''/q''" sample_config "[]"] by (simp add: sample_config_def)

end
