(* ===== verification/Improvement.thy ===== *)
theory Improvement
  imports DMail
begin

text \<open>
  The improvement metadata of a D-Mail and the choice of the inboxes it selects:
  \<open>src/internal/domain/improvement.go\<close>, \<open>provider_state.go\<close>, \<open>routing_policy.go\<close> and
  \<open>src/internal/harness/policy/delivery.go\<close>. The string types of the Go code (severity, routing
  mode, outcome, provider state) stay strings, since the code accepts and forwards unknown values.
\<close>

section \<open>Vocabulary\<close>

definition canonical_in :: "string list \<Rightarrow> string \<Rightarrow> string" where
  "canonical_in vs s = (if List.member vs (ToLower s) then ToLower s else s)"

definition severities :: "string list" where "severities = [''low'', ''medium'', ''high'']"
definition routing_modes :: "string list" where "routing_modes = [''retry'', ''reroute'', ''escalate'']"
definition improvement_outcomes :: "string list" where
  "improvement_outcomes = [''pending'', ''resolved'', ''escalated'', ''failed_again'', ''ignored'']"
definition provider_states :: "string list" where
  "provider_states = [''active'', ''waiting'', ''degraded'', ''paused'']"

lemmas vocabulary_defs = severities_def routing_modes_def improvement_outcomes_def provider_states_def

definition NormalizeSeverity :: "string \<Rightarrow> string" where
  "NormalizeSeverity s = canonical_in severities s"

definition IsKnownSeverity :: "string \<Rightarrow> bool" where
  "IsKnownSeverity s = List.member severities (NormalizeSeverity s)"

definition NormalizeRoutingMode :: "string \<Rightarrow> string" where
  "NormalizeRoutingMode mode = canonical_in routing_modes mode"

definition IsKnownRoutingMode :: "string \<Rightarrow> bool" where
  "IsKnownRoutingMode mode = List.member routing_modes (NormalizeRoutingMode mode)"

definition NormalizeImprovementOutcome :: "string \<Rightarrow> string" where
  "NormalizeImprovementOutcome oc = canonical_in improvement_outcomes oc"

definition IsKnownImprovementOutcome :: "string \<Rightarrow> bool" where
  "IsKnownImprovementOutcome oc = List.member improvement_outcomes (NormalizeImprovementOutcome oc)"

definition NormalizeProviderState :: "string \<Rightarrow> string" where
  "NormalizeProviderState st = canonical_in provider_states st"

definition IsKnownProviderState :: "string \<Rightarrow> bool" where
  "IsKnownProviderState st = List.member provider_states (NormalizeProviderState st)"

lemmas normalize_defs = NormalizeSeverity_def NormalizeRoutingMode_def NormalizeImprovementOutcome_def
  NormalizeProviderState_def

section \<open>Routing and owner history\<close>

definition appendImprovementHistory :: "string list \<Rightarrow> string \<Rightarrow> string list" where
  "appendImprovementHistory history value =
     (let v = TrimSpace value
      in if v = [] then history
         else if history \<noteq> [] \<and> last history = v then history
         else history @ [v])"

definition normalizeImprovementHistory :: "string list \<Rightarrow> string list" where
  "normalizeImprovementHistory values = fold (\<lambda>v out. appendImprovementHistory out v) values []"

definition parseImprovementHistory :: "string \<Rightarrow> string list" where
  "parseImprovementHistory raw0 =
     (let raw = TrimSpace raw0
      in if raw = [] then []
         else let delimiter = (if \<not> Contains raw ''>'' \<and> Contains raw '','' then CHR '','' else CHR ''>'')
              in fold (\<lambda>p out. let part = TrimSpace p
                               in if part = [] then out else appendImprovementHistory out part)
                   (Split delimiter raw) [])"

definition formatImprovementHistory :: "string list \<Rightarrow> string" where
  "formatImprovementHistory values =
     (if values = [] then [] else Join ''>'' (normalizeImprovementHistory values))"

section \<open>Correction metadata\<close>

record correction_metadata =
  cm_SchemaVersion :: string
  cm_FailureType :: string
  cm_Severity :: string
  cm_SecondaryType :: string
  cm_TargetAgent :: string
  cm_RoutingMode :: string
  cm_RoutingHistory :: "string list"
  cm_OwnerHistory :: "string list"
  cm_RecurrenceCount :: int
  cm_CorrectiveAction :: string
  cm_RetryAllowed :: "bool option"
  cm_EscalationReason :: string
  cm_CorrelationID :: string
  cm_TraceID :: string
  cm_ProviderState :: string
  cm_ProviderReason :: string
  cm_ProviderRetryBudget :: int
  cm_ProviderResumeAt :: string
  cm_ProviderResumeWhen :: string
  cm_Outcome :: string

definition ImprovementSchemaVersion :: string where "ImprovementSchemaVersion = ''1''"

definition empty_correction :: correction_metadata where
  "empty_correction =
     \<lparr>cm_SchemaVersion = [], cm_FailureType = [], cm_Severity = [], cm_SecondaryType = [],
      cm_TargetAgent = [], cm_RoutingMode = [], cm_RoutingHistory = [], cm_OwnerHistory = [],
      cm_RecurrenceCount = 0, cm_CorrectiveAction = [], cm_RetryAllowed = None,
      cm_EscalationReason = [], cm_CorrelationID = [], cm_TraceID = [], cm_ProviderState = [],
      cm_ProviderReason = [], cm_ProviderRetryBudget = 0, cm_ProviderResumeAt = [],
      cm_ProviderResumeWhen = [], cm_Outcome = []\<rparr>"

definition IsImprovement :: "correction_metadata \<Rightarrow> bool" where
  "IsImprovement m \<longleftrightarrow>
     cm_SchemaVersion m \<noteq> [] \<or> cm_FailureType m \<noteq> [] \<or> cm_Severity m \<noteq> [] \<or>
     cm_SecondaryType m \<noteq> [] \<or> cm_TargetAgent m \<noteq> [] \<or> cm_RoutingMode m \<noteq> [] \<or>
     length (cm_RoutingHistory m) > 0 \<or> length (cm_OwnerHistory m) > 0 \<or> cm_RecurrenceCount m > 0 \<or>
     cm_CorrectiveAction m \<noteq> [] \<or> cm_RetryAllowed m \<noteq> None \<or> cm_EscalationReason m \<noteq> [] \<or>
     cm_CorrelationID m \<noteq> [] \<or> cm_TraceID m \<noteq> [] \<or> cm_Outcome m \<noteq> []"

definition ConsumerSchemaVersion :: "correction_metadata \<Rightarrow> string" where
  "ConsumerSchemaVersion m =
     (if cm_SchemaVersion m \<noteq> [] then cm_SchemaVersion m
      else if IsImprovement m then ImprovementSchemaVersion else [])"

definition HasSupportedVocabulary :: "correction_metadata \<Rightarrow> bool" where
  "HasSupportedVocabulary m \<longleftrightarrow>
     (cm_Severity m = [] \<or> IsKnownSeverity (cm_Severity m)) \<and>
     (cm_RoutingMode m = [] \<or> IsKnownRoutingMode (cm_RoutingMode m)) \<and>
     (cm_ProviderState m = [] \<or> IsKnownProviderState (cm_ProviderState m)) \<and>
     (cm_Outcome m = [] \<or> IsKnownImprovementOutcome (cm_Outcome m))"

text \<open>An integer field: absent, empty or malformed text reads as zero.\<close>

definition int_field :: "string \<Rightarrow> int" where
  "int_field raw = (if raw \<noteq> [] then (case Atoi raw of Some v \<Rightarrow> v | None \<Rightarrow> 0) else 0)"

definition CorrectionMetadataFromMap :: "meta_map \<Rightarrow> correction_metadata" where
  "CorrectionMetadataFromMap meta =
     (if meta = [] then empty_correction
      else
        \<lparr>cm_SchemaVersion = mget meta ''improvement_schema_version'',
         cm_FailureType = mget meta ''failure_type'',
         cm_Severity = NormalizeSeverity (mget meta ''severity''),
         cm_SecondaryType = mget meta ''secondary_type'',
         cm_TargetAgent = mget meta ''target_agent'',
         cm_RoutingMode = NormalizeRoutingMode (mget meta ''routing_mode''),
         cm_RoutingHistory = parseImprovementHistory (mget meta ''routing_history''),
         cm_OwnerHistory = parseImprovementHistory (mget meta ''owner_history''),
         cm_RecurrenceCount = int_field (mget meta ''recurrence_count''),
         cm_CorrectiveAction = mget meta ''corrective_action'',
         cm_RetryAllowed = (let raw = mget meta ''retry_allowed''
                            in if raw \<noteq> [] then ParseBool raw else None),
         cm_EscalationReason = mget meta ''escalation_reason'',
         cm_CorrelationID = mget meta ''correlation_id'',
         cm_TraceID = mget meta ''trace_id'',
         cm_ProviderState = NormalizeProviderState (mget meta ''provider_state''),
         cm_ProviderReason = mget meta ''provider_reason'',
         cm_ProviderRetryBudget = int_field (mget meta ''provider_retry_budget''),
         cm_ProviderResumeAt = mget meta ''provider_resume_at'',
         cm_ProviderResumeWhen = mget meta ''provider_resume_when'',
         cm_Outcome = NormalizeImprovementOutcome (mget meta ''outcome'')\<rparr>)"

definition mput_when :: "bool \<Rightarrow> string \<Rightarrow> string \<Rightarrow> meta_map \<Rightarrow> meta_map" where
  "mput_when b k v m = (if b then mput k v m else m)"

definition schema_or_default :: "string \<Rightarrow> string" where
  "schema_or_default v = (if v = [] then ImprovementSchemaVersion else v)"

text \<open>The whole of \<open>Apply\<close>: each assignment to the copy \<open>cp\<close>, in the order of the code.\<close>

definition Apply :: "correction_metadata \<Rightarrow> meta_map \<Rightarrow> meta_map" where
  "Apply m meta =
     (let cp = mput ''improvement_schema_version'' (schema_or_default (cm_SchemaVersion m)) meta;
          cp = mput_when (cm_FailureType m \<noteq> []) ''failure_type'' (cm_FailureType m) cp;
          cp = mput_when (cm_Severity m \<noteq> []) ''severity'' (NormalizeSeverity (cm_Severity m)) cp;
          cp = mput_when (cm_SecondaryType m \<noteq> []) ''secondary_type'' (cm_SecondaryType m) cp;
          cp = mput_when (cm_TargetAgent m \<noteq> []) ''target_agent'' (cm_TargetAgent m) cp;
          cp = mput_when (cm_RoutingMode m \<noteq> []) ''routing_mode'' (NormalizeRoutingMode (cm_RoutingMode m)) cp;
          cp = mput_when (cm_RoutingHistory m \<noteq> []) ''routing_history''
                 (formatImprovementHistory (cm_RoutingHistory m)) cp;
          cp = mput_when (cm_OwnerHistory m \<noteq> []) ''owner_history''
                 (formatImprovementHistory (cm_OwnerHistory m)) cp;
          cp = mput_when (cm_RecurrenceCount m > 0) ''recurrence_count'' (Itoa (cm_RecurrenceCount m)) cp;
          cp = mput_when (cm_CorrectiveAction m \<noteq> []) ''corrective_action'' (cm_CorrectiveAction m) cp;
          cp = (case cm_RetryAllowed m of None \<Rightarrow> cp | Some b \<Rightarrow> mput ''retry_allowed'' (FormatBool b) cp);
          cp = mput_when (cm_EscalationReason m \<noteq> []) ''escalation_reason'' (cm_EscalationReason m) cp;
          cp = mput_when (cm_CorrelationID m \<noteq> []) ''correlation_id'' (cm_CorrelationID m) cp;
          cp = mput_when (cm_TraceID m \<noteq> []) ''trace_id'' (cm_TraceID m) cp;
          cp = mput_when (cm_ProviderState m \<noteq> []) ''provider_state''
                 (NormalizeProviderState (cm_ProviderState m)) cp;
          cp = mput_when (cm_ProviderReason m \<noteq> []) ''provider_reason'' (cm_ProviderReason m) cp;
          cp = mput_when (cm_ProviderState m \<noteq> [] \<or> cm_ProviderReason m \<noteq> [] \<or>
                          cm_ProviderRetryBudget m \<noteq> 0 \<or> cm_ProviderResumeAt m \<noteq> [] \<or>
                          cm_ProviderResumeWhen m \<noteq> [])
                 ''provider_retry_budget'' (Itoa (cm_ProviderRetryBudget m)) cp;
          cp = mput_when (cm_ProviderResumeAt m \<noteq> []) ''provider_resume_at'' (cm_ProviderResumeAt m) cp;
          cp = mput_when (cm_ProviderResumeWhen m \<noteq> []) ''provider_resume_when'' (cm_ProviderResumeWhen m) cp
      in mput_when (cm_Outcome m \<noteq> []) ''outcome'' (cm_Outcome m) cp)"

text \<open>\<open>ImprovementEvent\<close> has the fields of the metadata.\<close>

definition ImprovementEvent :: "correction_metadata \<Rightarrow> correction_metadata" where
  "ImprovementEvent m =
     m\<lparr>cm_SchemaVersion := schema_or_default (cm_SchemaVersion m),
       cm_Severity := NormalizeSeverity (cm_Severity m),
       cm_RoutingMode := NormalizeRoutingMode (cm_RoutingMode m),
       cm_ProviderState := NormalizeProviderState (cm_ProviderState m)\<rparr>"

definition ForwardForRecheck :: "correction_metadata \<Rightarrow> correction_metadata" where
  "ForwardForRecheck m =
     (if \<not> IsImprovement m then m
      else m\<lparr>cm_SchemaVersion := schema_or_default (cm_SchemaVersion m),
             cm_TargetAgent := [], cm_RoutingMode := [],
             cm_Outcome := (if cm_Outcome m = [] then ''pending'' else cm_Outcome m)\<rparr>)"

section \<open>Choosing inboxes\<close>

definition DefaultImprovementTargetAgent :: "dmail_kind \<Rightarrow> string" where
  "DefaultImprovementTargetAgent kind =
     (if kind = KindDesignFeedback then ''sightjack''
      else if kind = KindImplFeedback then ''paintress'' else [])"

definition PreferredImprovementTargetAgent :: "dmail_kind \<Rightarrow> correction_metadata \<Rightarrow> string" where
  "PreferredImprovementTargetAgent kind meta =
     (if cm_TargetAgent meta \<noteq> [] then cm_TargetAgent meta
      else if \<not> IsImprovement meta then []
      else if cm_Outcome meta = ''escalated'' then []
      else if cm_RetryAllowed meta = Some False then []
      else let mode = NormalizeRoutingMode (cm_RoutingMode meta)
           in if mode = [] \<or> mode = ''retry'' then DefaultImprovementTargetAgent kind else [])"

definition inboxMatchesTargetAgent :: "path \<Rightarrow> string \<Rightarrow> bool" where
  "inboxMatchesTargetAgent inbox targetAgent = List.member (Split CHR ''/'' (Clean inbox)) targetAgent"

definition FilterInboxesByTargetAgent :: "path list \<Rightarrow> string \<Rightarrow> path list" where
  "FilterInboxesByTargetAgent inboxes targetAgent =
     (if targetAgent = [] then []
      else filter (\<lambda>inbox. inboxMatchesTargetAgent inbox targetAgent) inboxes)"

definition FilterInboxesByTargets :: "path list \<Rightarrow> string list \<Rightarrow> path list" where
  "FilterInboxesByTargets inboxes targets =
     (if targets = [] then []
      else filter (\<lambda>inbox. list_ex (inboxMatchesTargetAgent inbox) targets) inboxes)"

definition SelectDeliveryInboxes ::
  "dmail_kind \<Rightarrow> path list \<Rightarrow> string list \<Rightarrow> correction_metadata \<Rightarrow> path list" where
  "SelectDeliveryInboxes kind inboxes targets metadata =
     (let filtered = FilterInboxesByTargets inboxes targets;
          selected = (if filtered \<noteq> [] then filtered else inboxes);
          filtered' = FilterInboxesByTargetAgent selected (PreferredImprovementTargetAgent kind metadata)
      in if filtered' \<noteq> [] then filtered' else selected)"

section \<open>Provider state and retry budget\<close>

record provider_state_snapshot =
  ps_State :: string
  ps_Reason :: string
  ps_RetryBudget :: int
  ps_ResumeAt :: time
  ps_ResumeCondition :: string

definition ActiveProviderState :: provider_state_snapshot where
  "ActiveProviderState =
     \<lparr>ps_State = ''active'', ps_Reason = [], ps_RetryBudget = 1, ps_ResumeAt = 0,
      ps_ResumeCondition = ''provider-available''\<rparr>"

definition ApplyMetadata :: "provider_state_snapshot \<Rightarrow> meta_map \<Rightarrow> meta_map" where
  "ApplyMetadata s meta =
     (let state = (if ps_State s = [] then ''active'' else NormalizeProviderState (ps_State s));
          cp = mput ''provider_state'' state meta;
          cp = mput ''provider_retry_budget'' (Itoa (ps_RetryBudget s)) cp;
          cp = mput_when (ps_Reason s \<noteq> []) ''provider_reason'' (ps_Reason s) cp;
          cp = mput_when (\<not> IsZero (ps_ResumeAt s)) ''provider_resume_at''
                 (format_RFC3339 (ps_ResumeAt s)) cp
      in mput_when (ps_ResumeCondition s \<noteq> []) ''provider_resume_when'' (ps_ResumeCondition s) cp)"

record retry_budget_tracker =
  rb_initial :: int
  rb_consumed :: int

definition NewRetryBudgetTracker :: "int \<Rightarrow> retry_budget_tracker" where
  "NewRetryBudgetTracker initial = \<lparr>rb_initial = (if initial < 0 then 0 else initial), rb_consumed = 0\<rparr>"

definition rb_Consume :: "retry_budget_tracker \<Rightarrow> bool \<times> retry_budget_tracker" where
  "rb_Consume t =
     (if rb_consumed t \<ge> rb_initial t then (False, t)
      else (True, t\<lparr>rb_consumed := wrap64 (rb_consumed t + 1)\<rparr>))"

definition rb_Remaining :: "retry_budget_tracker \<Rightarrow> int" where
  "rb_Remaining t = (let r = wrap64 (rb_initial t - rb_consumed t) in if r < 0 then 0 else r)"

definition rb_Exhausted :: "retry_budget_tracker \<Rightarrow> bool" where
  "rb_Exhausted t = (rb_consumed t \<ge> rb_initial t)"

definition rb_Reset :: "int \<Rightarrow> retry_budget_tracker \<Rightarrow> retry_budget_tracker" where
  "rb_Reset initial t = t\<lparr>rb_initial := (if initial < 0 then 0 else initial), rb_consumed := 0\<rparr>"

definition rb_Snapshot :: "retry_budget_tracker \<Rightarrow> int" where
  "rb_Snapshot t = rb_Remaining t"

section \<open>Routing policy\<close>

record routing_policy =
  rpol_RecurrenceThreshold :: int
  rpol_SeverityActionMap :: "string \<rightharpoonup> string"
  rpol_TargetAgentMap :: "string \<rightharpoonup> string"

definition DefaultRoutingPolicy :: routing_policy where
  "DefaultRoutingPolicy =
     \<lparr>rpol_RecurrenceThreshold = 2,
      rpol_SeverityActionMap = [''high'' \<mapsto> ''escalate'', ''medium'' \<mapsto> ''retry'', ''low'' \<mapsto> ''retry''],
      rpol_TargetAgentMap =
        [''scope_violation'' \<mapsto> ''sightjack'', ''missing_acceptance_criteria'' \<mapsto> ''sightjack'',
         ''execution_failure'' \<mapsto> ''paintress'', ''provider_failure'' \<mapsto> ''paintress'',
         ''routing_failure'' \<mapsto> ''paintress'']\<rparr>"

definition LookupSeverityAction :: "routing_policy \<Rightarrow> string \<Rightarrow> string" where
  "LookupSeverityAction p sev =
     (case rpol_SeverityActionMap p (NormalizeSeverity sev) of Some action \<Rightarrow> action | None \<Rightarrow> ''retry'')"

definition LookupTargetAgent :: "routing_policy \<Rightarrow> string \<Rightarrow> string" where
  "LookupTargetAgent p ft = (case rpol_TargetAgentMap p ft of Some a \<Rightarrow> a | None \<Rightarrow> [])"

section \<open>Lemmas on the vocabulary\<close>

lemma ToLower_vocabulary:
  "\<forall>v \<in> set severities. ToLower v = v" "\<forall>v \<in> set routing_modes. ToLower v = v"
  "\<forall>v \<in> set improvement_outcomes. ToLower v = v" "\<forall>v \<in> set provider_states. ToLower v = v"
  by (simp_all add: vocabulary_defs lower_char_def)

lemma canonical_in_member:
  "\<forall>v \<in> set vs. ToLower v = v \<Longrightarrow> canonical_in vs s \<in> set vs \<longleftrightarrow> ToLower s \<in> set vs"
  by (auto simp: canonical_in_def)

lemma canonical_in_idem:
  "\<forall>v \<in> set vs. ToLower v = v \<Longrightarrow> canonical_in vs (canonical_in vs s) = canonical_in vs s"
  by (auto simp: canonical_in_def)

lemma normalize_idem [simp]:
  "NormalizeSeverity (NormalizeSeverity s) = NormalizeSeverity s"
  "NormalizeRoutingMode (NormalizeRoutingMode s) = NormalizeRoutingMode s"
  "NormalizeImprovementOutcome (NormalizeImprovementOutcome s) = NormalizeImprovementOutcome s"
  "NormalizeProviderState (NormalizeProviderState s) = NormalizeProviderState s"
  unfolding normalize_defs by (simp_all add: canonical_in_idem ToLower_vocabulary)

lemma canonical_in_Nil: "[] \<notin> set vs \<Longrightarrow> canonical_in vs [] = []"
  by (simp add: canonical_in_def)

lemma normalize_Nil [simp]:
  "NormalizeSeverity [] = []" "NormalizeRoutingMode [] = []" "NormalizeImprovementOutcome [] = []"
  "NormalizeProviderState [] = []"
  unfolding normalize_defs by (simp_all add: canonical_in_Nil vocabulary_defs)

section \<open>Lemmas on histories\<close>

text \<open>A history in normal form: trimmed, non-empty entries, no two equal ones in a row.\<close>

definition history_normal :: "string list \<Rightarrow> bool" where
  "history_normal hs \<longleftrightarrow> (\<forall>h \<in> set hs. h \<noteq> [] \<and> TrimSpace h = h) \<and> successively (\<noteq>) hs"

lemma history_normal_append: "history_normal hs \<Longrightarrow> history_normal (appendImprovementHistory hs v)"
  by (auto simp: history_normal_def appendImprovementHistory_def Let_def successively_append_iff)

lemma append_normal:
  "history_normal (hs @ [v]) \<Longrightarrow> appendImprovementHistory hs v = hs @ [v]"
  by (auto simp: history_normal_def appendImprovementHistory_def Let_def successively_append_iff)

lemma fold_append_normal_form:
  "history_normal acc \<Longrightarrow> history_normal (fold (\<lambda>v out. appendImprovementHistory out v) hs acc)"
  by (induction hs arbitrary: acc) (simp_all add: history_normal_append)

lemma fold_append_normal:
  "history_normal (acc @ hs) \<Longrightarrow> fold (\<lambda>v out. appendImprovementHistory out v) hs acc = acc @ hs"
proof (induction hs arbitrary: acc)
  case (Cons h hs)
  then have n: "history_normal ((acc @ [h]) @ hs)" by simp
  then have "history_normal (acc @ [h])"
    unfolding history_normal_def successively_append_iff by auto
  with Cons.IH[OF n] show ?case by (simp add: append_normal)
qed simp

lemma history_normal_Nil [simp]: "history_normal []"
  by (simp add: history_normal_def)

lemma normalize_history_normal: "history_normal (normalizeImprovementHistory hs)"
  unfolding normalizeImprovementHistory_def by (rule fold_append_normal_form) simp

lemma normalize_history_fixed: "history_normal hs \<Longrightarrow> normalizeImprovementHistory hs = hs"
  unfolding normalizeImprovementHistory_def by (simp add: fold_append_normal)

lemma Contains_char: "Contains s [c] \<longleftrightarrow> c \<in> set s"
  unfolding Contains_iff by (auto simp: in_set_conv_decomp)

lemma set_Join: "set (Join sep ps) \<subseteq> set sep \<union> (\<Union>p \<in> set ps. set p)"
  by (induction ps rule: induct_list012) auto

lemma Join_has_sep: "2 \<le> length ps \<Longrightarrow> c \<in> set (Join [c] ps)"
  by (cases ps rule: remdups_adj.cases) auto

text \<open>The parser skips blank parts, which \<open>appendImprovementHistory\<close> would skip too.\<close>

lemma fold_parse_parts:
  "fold (\<lambda>p out. let part = TrimSpace p
                 in if part = [] then out else appendImprovementHistory out part) ps acc =
   fold (\<lambda>v out. appendImprovementHistory out v) ps acc"
  by (induction ps arbitrary: acc) (simp_all add: appendImprovementHistory_def Let_def)

text \<open>A history can be written with the separator \<open>>\<close> and read back when no entry contains it and a
  single entry contains no comma, which the reader takes for the old separator.\<close>

definition history_printable :: "string list \<Rightarrow> bool" where
  "history_printable hs \<longleftrightarrow> history_normal hs \<and> (\<forall>h \<in> set hs. CHR ''>'' \<notin> set h) \<and>
     (length hs = 1 \<longrightarrow> CHR '','' \<notin> set (hd hs))"

lemma parse_format_history:
  assumes "history_printable hs"
  shows "parseImprovementHistory (formatImprovementHistory hs) = hs"
proof (cases "hs = []")
  case True
  then show ?thesis by (simp add: formatImprovementHistory_def parseImprovementHistory_def)
next
  case False
  let ?raw = "Join [CHR ''>''] hs"
  have n: "history_normal hs" and g: "\<forall>h \<in> set hs. CHR ''>'' \<notin> set h"
    using assms by (simp_all add: history_printable_def)
  have raw: "formatImprovementHistory hs = ?raw"
    using False n by (simp add: formatImprovementHistory_def normalize_history_fixed)
  have ne: "?raw \<noteq> []"
    using False n by (cases hs rule: remdups_adj.cases) (auto simp: history_normal_def)
  have trim: "TrimSpace ?raw = ?raw"
    using n by (intro TrimSpace_Join[OF space_runes_free(1)]) (simp add: history_normal_def)
  have "\<not> (\<not> Contains ?raw ''>'' \<and> Contains ?raw '','')"
  proof (cases "length hs = 1")
    case True
    then obtain h where "hs = [h]" by (auto simp: length_Suc_conv)
    with assms show ?thesis by (simp add: history_printable_def Contains_char)
  next
    case False
    with \<open>hs \<noteq> []\<close> have "2 \<le> length hs" by (cases hs rule: remdups_adj.cases) auto
    then show ?thesis by (simp add: Contains_char Join_has_sep)
  qed
  then have "parseImprovementHistory ?raw = fold (\<lambda>v out. appendImprovementHistory out v) (Split CHR ''>'' ?raw) []"
    using ne by (auto simp: parseImprovementHistory_def trim fold_parse_parts[unfolded Let_def] Let_def)
  also have "\<dots> = hs" using n by (simp add: Split_Join[OF False g] fold_append_normal)
  finally show ?thesis by (simp add: raw)
qed

lemma parse_history_normal: "history_normal (parseImprovementHistory raw)"
  by (simp add: parseImprovementHistory_def Let_def fold_parse_parts[unfolded Let_def] fold_append_normal_form)

section \<open>Lemmas on the metadata map\<close>

lemma mget_mput_when [simp]: "mget (mput_when b k v m) k' = (if b \<and> k' = k then v else mget m k')"
  by (simp add: mput_when_def)

lemma mput_when_not_Nil [simp]: "m \<noteq> [] \<Longrightarrow> mput_when b k v m \<noteq> []"
  by (simp add: mput_when_def)

lemma int_field_Itoa [simp]: "in_int64 i \<Longrightarrow> int_field (Itoa i) = i"
  by (simp add: int_field_def)

lemma int_field_Nil [simp]: "int_field [] = 0"
  by (simp add: int_field_def)

definition improvement_keys :: "string list" where
  "improvement_keys =
     [''improvement_schema_version'', ''failure_type'', ''severity'', ''secondary_type'', ''target_agent'',
      ''routing_mode'', ''routing_history'', ''owner_history'', ''recurrence_count'', ''corrective_action'',
      ''retry_allowed'', ''escalation_reason'', ''correlation_id'', ''trace_id'', ''provider_state'',
      ''provider_reason'', ''provider_retry_budget'', ''provider_resume_at'', ''provider_resume_when'',
      ''outcome'']"

lemma Apply_not_Nil: "Apply m meta \<noteq> []"
  by (cases "cm_RetryAllowed m") (simp_all add: Apply_def Let_def)

lemma Apply_other_keys: "k \<notin> set improvement_keys \<Longrightarrow> mget (Apply m meta) k = mget meta k"
  by (cases "cm_RetryAllowed m") (simp_all add: Apply_def Let_def improvement_keys_def)

section \<open>Properties\<close>

text \<open>Writing correction metadata into a metadata map and reading it back gives the same metadata with the
  default schema version filled in and the vocabulary in canonical spelling, provided no improvement key
  is in the map yet, the histories are printable, the counters fit in Go's \<open>int\<close> and the recurrence count is
  not negative; every other key of the map is kept.\<close>

theorem correction_metadata_roundtrip:
  assumes "\<forall>k \<in> set improvement_keys. mget meta k = []"
    and "history_printable (cm_RoutingHistory m)" and "history_printable (cm_OwnerHistory m)"
    and "0 \<le> cm_RecurrenceCount m" and "in_int64 (cm_RecurrenceCount m)"
    and "in_int64 (cm_ProviderRetryBudget m)"
  shows "CorrectionMetadataFromMap (Apply m meta) =
           m\<lparr>cm_SchemaVersion := (if cm_SchemaVersion m = [] then ''1'' else cm_SchemaVersion m),
             cm_Severity := NormalizeSeverity (cm_Severity m),
             cm_RoutingMode := NormalizeRoutingMode (cm_RoutingMode m),
             cm_ProviderState := NormalizeProviderState (cm_ProviderState m),
             cm_Outcome := NormalizeImprovementOutcome (cm_Outcome m)\<rparr> \<and>
         (\<forall>k. k \<notin> set improvement_keys \<longrightarrow> mget (Apply m meta) k = mget meta k)"
proof
  have rc: "\<not> 0 < cm_RecurrenceCount m \<longrightarrow> cm_RecurrenceCount m = 0" using assms(4) by simp
  note keys = assms(1)[unfolded improvement_keys_def, simplified]
  show "CorrectionMetadataFromMap (Apply m meta) =
           m\<lparr>cm_SchemaVersion := (if cm_SchemaVersion m = [] then ''1'' else cm_SchemaVersion m),
             cm_Severity := NormalizeSeverity (cm_Severity m),
             cm_RoutingMode := NormalizeRoutingMode (cm_RoutingMode m),
             cm_ProviderState := NormalizeProviderState (cm_ProviderState m),
             cm_Outcome := NormalizeImprovementOutcome (cm_Outcome m)\<rparr>"
    unfolding CorrectionMetadataFromMap_def if_not_P[OF Apply_not_Nil]
    by (rule correction_metadata.equality; simp;
        cases "cm_RetryAllowed m";
        simp add: Apply_def Let_def keys schema_or_default_def ImprovementSchemaVersion_def
          parse_format_history[OF assms(2)] parse_format_history[OF assms(3)] parseImprovementHistory_def[of "[]"]
          assms(4-6) rc FormatBool_def ParseBool_def)
  show "\<forall>k. k \<notin> set improvement_keys \<longrightarrow> mget (Apply m meta) k = mget meta k"
    by (simp add: Apply_other_keys)
qed

definition sample_correction :: correction_metadata where
  "sample_correction = empty_correction\<lparr>cm_FailureType := ''recurrence'', cm_Severity := ''HIGH'',
     cm_RoutingHistory := [''sightjack'', ''paintress''], cm_RecurrenceCount := 3,
     cm_RetryAllowed := Some False\<rparr>"

lemma TrimSpace_ascii:
  "s \<noteq> [] \<Longrightarrow> (of_char (hd s) :: nat) \<in> {33..126} \<Longrightarrow> (of_char (last s) :: nat) \<in> {33..126} \<Longrightarrow> TrimSpace s = s"
proof -
  assume s: "s \<noteq> []" and h: "(of_char (hd s) :: nat) \<in> {33..126}" and l: "(of_char (last s) :: nat) \<in> {33..126}"
  have no: "hd r \<noteq> c \<and> last r \<noteq> c" if "r \<in> set space_runes" "(of_char c :: nat) \<in> {33..126}" for r c
    using that by (auto simp: space_runes_def)
  have ne: "r \<noteq> []" if "r \<in> set space_runes" for r using that by (auto simp: space_runes_def)
  have "strip_left space_runes s = s"
    using no[OF _ h] s ne by (intro strip_left_fixed) (fastforce simp: find_None_iff HasPrefix_iff neq_Nil_conv)
  moreover have "strip_left (map rev space_runes) (rev s) = rev s"
  proof (intro strip_left_fixed)
    have "\<not> HasPrefix (rev s) (rev r)" if "r \<in> set space_runes" for r
    proof
      assume "HasPrefix (rev s) (rev r)"
      then obtain u where "rev s = rev r @ u" by (auto simp: HasPrefix_iff)
      then have "s = rev u @ r" by (metis rev_append rev_rev_ident)
      then have "last s = last r" using ne[OF that] by simp
      with no[OF that l] show False by simp
    qed
    then show "List.find (\<lambda>r. r \<noteq> [] \<and> HasPrefix (rev s) r) (map rev space_runes) = None"
      unfolding find_None_iff by auto
  qed
  ultimately show ?thesis by (simp add: TrimSpace_fixed_iff)
qed

theorem correction_metadata_roundtrip_witness:
  "CorrectionMetadataFromMap (Apply sample_correction [(''x'', ''y'')]) =
     sample_correction\<lparr>cm_SchemaVersion := ''1'', cm_Severity := ''high''\<rparr>"
proof -
  have "TrimSpace ''sightjack'' = ''sightjack''" "TrimSpace ''paintress'' = ''paintress''"
    by (simp_all add: TrimSpace_ascii)
  then have p: "history_printable (cm_RoutingHistory sample_correction)"
      "history_printable (cm_OwnerHistory sample_correction)"
    by (simp_all add: history_printable_def history_normal_def sample_correction_def empty_correction_def)
  have k: "\<forall>k \<in> set improvement_keys. mget [(''x'', ''y'')] k = []"
    by (simp add: improvement_keys_def mget_def)
  have n: "0 \<le> cm_RecurrenceCount sample_correction" "in_int64 (cm_RecurrenceCount sample_correction)"
      "in_int64 (cm_ProviderRetryBudget sample_correction)"
    by (simp_all add: sample_correction_def empty_correction_def in_int64_def)
  have "NormalizeSeverity ''HIGH'' = ''high''"
    by code_simp
  then show ?thesis
    using correction_metadata_roundtrip[OF k p n, THEN conjunct1]
    by (simp add: sample_correction_def empty_correction_def)
qed

text \<open>\<open>SelectDeliveryInboxes\<close> only narrows the fan-out of a route: its result is a filtered copy of the route's
  inboxes in their order, it is empty only when the route has no inbox, inboxes on the path of an
  explicit target win over all others, and among the remaining ones those of the preferred agent win.\<close>

theorem SelectDeliveryInboxes_narrows:
  fixes inboxes targets meta kind
  defines "by_targets \<equiv> filter (\<lambda>i. \<exists>t \<in> set targets. t \<in> set (Split CHR ''/'' (Clean i))) inboxes"
  defines "pool \<equiv> if by_targets = [] then inboxes else by_targets"
  defines "agent \<equiv> PreferredImprovementTargetAgent kind meta"
  defines "by_agent \<equiv> filter (\<lambda>i. agent \<noteq> [] \<and> agent \<in> set (Split CHR ''/'' (Clean i))) pool"
  shows "SelectDeliveryInboxes kind inboxes targets meta = (if by_agent = [] then pool else by_agent) \<and>
         (\<exists>P. SelectDeliveryInboxes kind inboxes targets meta = filter P inboxes) \<and>
         (SelectDeliveryInboxes kind inboxes targets meta = [] \<longleftrightarrow> inboxes = [])"
proof -
  have bt: "FilterInboxesByTargets inboxes targets = by_targets"
    by (auto simp: FilterInboxesByTargets_def by_targets_def inboxMatchesTargetAgent_def list_ex_iff)
  have ba: "FilterInboxesByTargetAgent pool agent = by_agent"
    by (auto simp: FilterInboxesByTargetAgent_def by_agent_def inboxMatchesTargetAgent_def)
  have eq: "SelectDeliveryInboxes kind inboxes targets meta = (if by_agent = [] then pool else by_agent)"
    using ba by (auto simp: SelectDeliveryInboxes_def bt Let_def agent_def pool_def)
  have "inboxes = filter (\<lambda>_. True) inboxes" by simp
  moreover have "pool = inboxes \<or> pool = by_targets" by (simp add: pool_def)
  ultimately have "\<exists>P. pool = filter P inboxes" unfolding by_targets_def by metis
  then obtain P where P: "pool = filter P inboxes" by blast
  then have "by_agent = filter (\<lambda>i. P i \<and> agent \<noteq> [] \<and> agent \<in> set (Split CHR ''/'' (Clean i))) inboxes"
    unfolding by_agent_def by (simp add: conj_commute)
  with P eq have "\<exists>P. SelectDeliveryInboxes kind inboxes targets meta = filter P inboxes" by auto
  moreover have "pool = [] \<longleftrightarrow> inboxes = []" by (auto simp: pool_def by_targets_def)
  ultimately show ?thesis using eq by (auto simp: by_agent_def)
qed

text \<open>A retry budget tracker created with a budget of \<open>n\<close> lets exactly the first \<open>n\<close> calls of \<open>Consume\<close>
  succeed (none when \<open>n\<close> is negative), always reports the number of retries left, and says it is
  exhausted exactly when none is left.\<close>

theorem RetryBudgetTracker_counts:
  fixes n :: int and k :: nat
  assumes "in_int64 n"
  defines "t \<equiv> ((\<lambda>t. snd (rb_Consume t)) ^^ k) (NewRetryBudgetTracker n)"
  shows "rb_Remaining t = max 0 (max 0 n - int k) \<and> fst (rb_Consume t) = (int k < n) \<and>
         rb_Exhausted t = (rb_Remaining t = 0)"
proof -
  have n: "n \<le> 2 ^ 63 - 1" using assms(1) by (simp add: in_int64_def)
  have "t = \<lparr>rb_initial = max 0 n, rb_consumed = min (max 0 n) (int k)\<rparr>"
    unfolding t_def
  proof (induction k)
    case 0
    then show ?case by (simp add: NewRetryBudgetTracker_def max_def)
  next
    case (Suc k)
    have "wrap64 (int k + 1) = int k + 1" if "int k < max 0 n"
      using that n by (intro wrap64_id) (auto simp: in_int64_def max_def split: if_splits)
    with Suc show ?case by (auto simp: rb_Consume_def)
  qed
  moreover have "wrap64 (max 0 n - min (max 0 n) (int k)) = max 0 n - min (max 0 n) (int k)"
    using n by (intro wrap64_id) (auto simp: in_int64_def)
  ultimately show ?thesis
    by (auto simp: rb_Remaining_def rb_Consume_def rb_Exhausted_def Let_def)
qed

theorem RetryBudgetTracker_counts_witness:
  "rb_Remaining (((\<lambda>t. snd (rb_Consume t)) ^^ 2) (NewRetryBudgetTracker 3)) = 1"
  using RetryBudgetTracker_counts[of 3 2] by (simp add: in_int64_def)

end
