(* ===== verification/CircuitBreaker.thy ===== *)
theory CircuitBreaker
  imports Improvement
begin

text \<open>
  The delivery circuit breaker (\<open>src/internal/platform/circuit_breaker.go\<close>) and the classified
  delivery errors that drive it (\<open>src/internal/domain/delivery_error.go\<close>). The mutex makes every
  method atomic except \<open>Allow\<close>, which releases it while it waits: \<open>Allow\<close> is a loop over the
  observations it makes, each with the clock readings of one iteration, the way the select ended and the
  effect of the calls other goroutines made in between.
\<close>

section \<open>Classified errors\<close>

datatype delivery_error_kind = DeliveryErrorNone | DeliveryErrorTransient | DeliveryErrorPersistent

record delivery_error_info =
  de_Kind :: delivery_error_kind
  de_ResetAt :: time
  de_Err :: "go_error option"

definition IsTrip :: "delivery_error_info \<Rightarrow> bool" where
  "IsTrip i = (de_Kind i = DeliveryErrorTransient)"

section \<open>State and operations\<close>

datatype circuit_state = circuitClosed | circuitOpen | circuitHalfOpen

record circuit_breaker =
  cb_state :: circuit_state
  cb_resetAt :: time
  cb_backoffCurrent :: duration
  cb_tripped :: int
  cb_lastTrip :: time
  cb_lastReason :: string
  cb_generation :: nat  \<comment> \<open>which notify channel is current\<close>

definition defaultBackoffBase :: duration where "defaultBackoffBase = 30 * second"
definition defaultBackoffMax :: duration where "defaultBackoffMax = 10 * minute"

definition NewCircuitBreaker :: circuit_breaker where
  "NewCircuitBreaker =
     \<lparr>cb_state = circuitClosed, cb_resetAt = 0, cb_backoffCurrent = defaultBackoffBase,
      cb_tripped = 0, cb_lastTrip = 0, cb_lastReason = [], cb_generation = 0\<rparr>"

text \<open>Closing the notify channel and making a new one.\<close>

definition stateChanged :: "circuit_breaker \<Rightarrow> circuit_breaker" where
  "stateChanged cb = cb\<lparr>cb_generation := cb_generation cb + 1\<rparr>"

text \<open>\<open>time.Time.Sub\<close> saturates at the ends of the 64-bit range.\<close>

definition time_Sub :: "time \<Rightarrow> time \<Rightarrow> duration" where
  "time_Sub a b = max (- (2 ^ 63)) (min (2 ^ 63 - 1) (a - b))"

datatype allow_result = Permit | Wait duration

text \<open>One pass through the loop of \<open>Allow\<close>: \<open>now\<close> is the clock at the checks and \<open>now'\<close> at the
  computation of the wait.\<close>

definition allow_pass :: "circuit_breaker \<Rightarrow> time \<Rightarrow> time \<Rightarrow> allow_result \<times> circuit_breaker" where
  "allow_pass cb now now' =
     (case cb_state cb of
        circuitClosed \<Rightarrow> (Permit, cb)
      | circuitHalfOpen \<Rightarrow> (Permit, cb)
      | circuitOpen \<Rightarrow>
          if \<not> IsZero (cb_resetAt cb) \<and> now > cb_resetAt cb
          then (Permit, cb\<lparr>cb_state := circuitHalfOpen\<rparr>)
          else if IsZero (cb_resetAt cb) \<and> time_Sub now (cb_lastTrip cb) > cb_backoffCurrent cb
          then (Permit, cb\<lparr>cb_state := circuitHalfOpen\<rparr>)
          else let waitDur = (if \<not> IsZero (cb_resetAt cb) then time_Sub (cb_resetAt cb) now'
                              else wrap64 (cb_backoffCurrent cb - time_Sub now' (cb_lastTrip cb)))
               in (Wait (if waitDur \<le> 0 then second else waitDur), cb))"

text \<open>What one iteration observes: the error of the context at its start, the two clock readings, whether the
  context ended the wait (with which error), and what the other goroutines did to the breaker
  before the loop takes the mutex again. The timer and the notification both lead to the next iteration.\<close>

record observation =
  ob_ctxErr :: "go_error option"
  ob_now :: time
  ob_now' :: time
  ob_done :: "go_error option"
  ob_others :: "circuit_breaker \<Rightarrow> circuit_breaker"

text \<open>\<open>None\<close>: the observations ended while the call was still blocked.\<close>

fun Allow :: "observation list \<Rightarrow> circuit_breaker \<Rightarrow> unit result option \<times> circuit_breaker" where
  "Allow [] cb = (None, cb)"
| "Allow (ob # obs) cb =
     (case ob_ctxErr ob of
        Some e \<Rightarrow> (Some (Inl e), cb)
      | None \<Rightarrow>
          (case allow_pass cb (ob_now ob) (ob_now' ob) of
             (Permit, cb') \<Rightarrow> (Some (Inr ()), cb')
           | (Wait _, cb') \<Rightarrow>
               (case ob_done ob of
                  Some e \<Rightarrow> (Some (Inl e), ob_others ob cb')
                | None \<Rightarrow> Allow obs (ob_others ob cb'))))"

definition deliveryPauseReason :: "delivery_error_kind \<Rightarrow> string" where
  "deliveryPauseReason kind =
     (if kind = DeliveryErrorTransient then ''delivery_retry_backoff'' else ''delivery_error'')"

definition RecordDeliveryError :: "time \<Rightarrow> delivery_error_info \<Rightarrow> circuit_breaker \<Rightarrow> circuit_breaker" where
  "RecordDeliveryError now info cb =
     (if \<not> IsTrip info then cb
      else let cb = cb\<lparr>cb_state := circuitOpen, cb_tripped := wrap64 (cb_tripped cb + 1),
                       cb_lastTrip := now, cb_backoffCurrent := wrap64 (cb_backoffCurrent cb * 2)\<rparr>;
               cb = (if cb_backoffCurrent cb > defaultBackoffMax
                     then cb\<lparr>cb_backoffCurrent := defaultBackoffMax\<rparr> else cb);
               cb = cb\<lparr>cb_resetAt := de_ResetAt info, cb_lastReason := deliveryPauseReason (de_Kind info)\<rparr>
           in stateChanged cb)"

definition CB_RecordSuccess :: "circuit_breaker \<Rightarrow> circuit_breaker" where
  "CB_RecordSuccess cb =
     (let cb = (if cb_state cb \<noteq> circuitClosed
                then stateChanged (cb\<lparr>cb_backoffCurrent := defaultBackoffBase\<rparr>) else cb)
      in cb\<lparr>cb_state := circuitClosed, cb_resetAt := 0, cb_lastReason := []\<rparr>)"

definition IsOpen :: "circuit_breaker \<Rightarrow> bool" where
  "IsOpen cb = (cb_state cb = circuitOpen)"

text \<open>\<open>fmt\<close> renders a time with the layout \<open>15:04 MST\<close> in the local zone.\<close>

definition CB_String :: "(time \<Rightarrow> string) \<Rightarrow> circuit_breaker \<Rightarrow> string" where
  "CB_String fmt cb =
     (case cb_state cb of
        circuitClosed \<Rightarrow> ''CLOSED''
      | circuitOpen \<Rightarrow> if \<not> IsZero (cb_resetAt cb) then ''OPEN (resets at '' @ fmt (cb_resetAt cb) @ '')''
                       else ''OPEN (backoff)''
      | circuitHalfOpen \<Rightarrow> ''HALF_OPEN'')"

definition CB_Snapshot :: "circuit_breaker \<Rightarrow> provider_state_snapshot" where
  "CB_Snapshot cb =
     (case cb_state cb of
        circuitClosed \<Rightarrow> ActiveProviderState
      | circuitHalfOpen \<Rightarrow>
          \<lparr>ps_State = ''degraded'', ps_Reason = ''probe'', ps_RetryBudget = 1, ps_ResumeAt = 0,
           ps_ResumeCondition = ''probe-succeeds''\<rparr>
      | circuitOpen \<Rightarrow>
          if \<not> IsZero (cb_resetAt cb)
          then \<lparr>ps_State = ''paused'', ps_Reason = cb_lastReason cb, ps_RetryBudget = 0,
                ps_ResumeAt = cb_resetAt cb, ps_ResumeCondition = ''provider-reset-window''\<rparr>
          else \<lparr>ps_State = ''waiting'', ps_Reason = cb_lastReason cb, ps_RetryBudget = 0,
                ps_ResumeAt = 0, ps_ResumeCondition = ''backoff-elapses''\<rparr>)"

section \<open>Reachable states\<close>

text \<open>The transitions that the methods make under the mutex.\<close>

inductive cb_step :: "circuit_breaker \<Rightarrow> circuit_breaker \<Rightarrow> bool" where
  pass: "allow_pass cb now now' = (r, cb') \<Longrightarrow> cb_step cb cb'"
| fail: "cb_step cb (RecordDeliveryError now info cb)"
| ok: "cb_step cb (CB_RecordSuccess cb)"

inductive_cases cb_stepE: "cb_step cb cb'"

inductive cb_reachable :: "circuit_breaker \<Rightarrow> bool" where
  init: "cb_reachable NewCircuitBreaker"
| step: "cb_reachable cb \<Longrightarrow> cb_step cb cb' \<Longrightarrow> cb_reachable cb'"

definition cb_inv :: "circuit_breaker \<Rightarrow> bool" where
  "cb_inv cb \<longleftrightarrow>
     defaultBackoffBase \<le> cb_backoffCurrent cb \<and> cb_backoffCurrent cb \<le> defaultBackoffMax \<and>
     (cb_state cb = circuitClosed \<longrightarrow> cb_backoffCurrent cb = defaultBackoffBase \<and> cb_resetAt cb = 0 \<and>
        cb_lastReason cb = []) \<and>
     (cb_state cb \<noteq> circuitClosed \<longrightarrow> 2 * defaultBackoffBase \<le> cb_backoffCurrent cb \<and>
        cb_lastReason cb = ''delivery_retry_backoff'')"

lemmas backoff_consts = defaultBackoffBase_def defaultBackoffMax_def minute_def second_def

lemma cb_inv_init: "cb_inv NewCircuitBreaker"
  by (simp add: cb_inv_def NewCircuitBreaker_def backoff_consts)

lemma allow_pass_cases:
  "allow_pass cb now now' = (r, cb') \<Longrightarrow>
   cb' = cb \<or> (r = Permit \<and> cb_state cb = circuitOpen \<and> cb' = cb\<lparr>cb_state := circuitHalfOpen\<rparr>)"
  by (auto simp: allow_pass_def Let_def split: circuit_state.splits if_splits)

lemma cb_inv_step: "cb_step cb cb' \<Longrightarrow> cb_inv cb \<Longrightarrow> cb_inv cb'"
proof (induction rule: cb_step.induct)
  case (pass cb now now' r cb')
  then show ?case using allow_pass_cases[OF pass(1)] by (auto simp: cb_inv_def)
next
  case (fail cb now info)
  have w: "wrap64 (cb_backoffCurrent cb * 2) = cb_backoffCurrent cb * 2"
    using fail by (intro wrap64_id) (simp add: cb_inv_def in_int64_def backoff_consts)
  show ?case
    using fail by (auto simp: RecordDeliveryError_def cb_inv_def Let_def stateChanged_def w
        deliveryPauseReason_def IsTrip_def backoff_consts)
next
  case (ok cb)
  then show ?case
    by (auto simp: CB_RecordSuccess_def cb_inv_def Let_def stateChanged_def backoff_consts)
qed

lemma cb_reachable_inv: "cb_reachable cb \<Longrightarrow> cb_inv cb"
  by (induction rule: cb_reachable.induct) (auto intro: cb_inv_init cb_inv_step)

section \<open>Waiting\<close>

lemma time_Sub_less: "0 \<le> d \<Longrightarrow> d < 2 ^ 63 - 1 \<Longrightarrow> a - b > d \<Longrightarrow> time_Sub a b > d"
  by (simp add: time_Sub_def)

lemma time_Sub_greater: "a - b \<le> d \<Longrightarrow> - (2 ^ 63) \<le> d \<Longrightarrow> time_Sub a b \<le> d"
  by (simp add: time_Sub_def)

text \<open>An open breaker lets the next call through once its reset time or its backoff has passed.\<close>

definition resume_time :: "circuit_breaker \<Rightarrow> time" where
  "resume_time cb =
     (if IsZero (cb_resetAt cb) then cb_lastTrip cb + cb_backoffCurrent cb else cb_resetAt cb)"

lemma allow_pass_open:
  assumes "cb_inv cb" and "cb_state cb = circuitOpen"
  shows "(fst (allow_pass cb now now') = Permit) \<longleftrightarrow> resume_time cb < now"
proof -
  have b: "0 \<le> cb_backoffCurrent cb" "cb_backoffCurrent cb < 2 ^ 63 - 1"
    using assms(1) by (simp_all add: cb_inv_def backoff_consts)
  have "time_Sub now (cb_lastTrip cb) > cb_backoffCurrent cb \<longleftrightarrow> cb_lastTrip cb + cb_backoffCurrent cb < now"
    using b by (auto simp: time_Sub_def)
  then show ?thesis using assms(2) by (simp add: allow_pass_def resume_time_def Let_def)
qed

lemma Allow_undisturbed:
  assumes "cb_inv cb" and "cb_state cb = circuitOpen"
    and "\<forall>ob \<in> set obs. ob_ctxErr ob = None \<and> ob_done ob = None \<and> ob_others ob = id"
  shows "Allow obs cb = (if \<exists>ob \<in> set obs. resume_time cb < ob_now ob
                          then (Some (Inr ()), cb\<lparr>cb_state := circuitHalfOpen\<rparr>) else (None, cb))"
  using assms(3)
proof (induction obs)
  case (Cons ob obs)
  obtain r cb' where p: "allow_pass cb (ob_now ob) (ob_now' ob) = (r, cb')" by (cases "allow_pass cb (ob_now ob) (ob_now' ob)")
  have iff: "r = Permit \<longleftrightarrow> resume_time cb < ob_now ob"
    using allow_pass_open[OF assms(1,2), of "ob_now ob" "ob_now' ob"] p by simp
  show ?case
  proof (cases r)
    case Permit
    then have "cb' = cb\<lparr>cb_state := circuitHalfOpen\<rparr>"
      using p assms(2) by (auto simp: allow_pass_def Let_def split: if_splits)
    with Permit iff Cons.prems p show ?thesis by simp
  next
    case (Wait d)
    then have "cb' = cb" using allow_pass_cases[OF p] by auto
    with Wait iff Cons p show ?thesis by simp
  qed
qed simp

lemma trips_backoff:
  fixes infos :: "(time \<times> delivery_error_info) list"
  assumes "\<forall>(t, i) \<in> set infos. de_Kind i = DeliveryErrorTransient"
  shows "cb_backoffCurrent (fold (\<lambda>(t, i). RecordDeliveryError t i) infos NewCircuitBreaker) =
           min (2 ^ length infos * defaultBackoffBase) defaultBackoffMax"
  using assms
proof (induction infos rule: rev_induct)
  case Nil
  then show ?case by (simp add: NewCircuitBreaker_def backoff_consts)
next
  case (snoc x infos)
  obtain t i where x: "x = (t, i)" by (cases x)
  let ?cb = "fold (\<lambda>(t, i). RecordDeliveryError t i) infos NewCircuitBreaker"
  have b: "cb_backoffCurrent ?cb = min (2 ^ length infos * defaultBackoffBase) defaultBackoffMax"
    using snoc by simp
  have "0 < cb_backoffCurrent ?cb" "cb_backoffCurrent ?cb \<le> defaultBackoffMax"
    unfolding b by (simp_all add: backoff_consts)
  then have w: "wrap64 (cb_backoffCurrent ?cb * 2) = cb_backoffCurrent ?cb * 2"
    by (intro wrap64_id) (simp add: in_int64_def backoff_consts)
  have "cb_backoffCurrent (RecordDeliveryError t i ?cb) = min (cb_backoffCurrent ?cb * 2) defaultBackoffMax"
    using snoc.prems x w by (auto simp: RecordDeliveryError_def IsTrip_def Let_def stateChanged_def)
  also have "\<dots> = min (2 ^ Suc (length infos) * defaultBackoffBase) defaultBackoffMax"
    unfolding b by (auto simp: min_def defaultBackoffBase_def defaultBackoffMax_def minute_def second_def)
  finally show ?case using x by simp
qed

section \<open>Properties\<close>

text \<open>C37: In every state reachable through any sequence of \<open>Allow\<close> passes, recorded errors and successes,
  the backoff lies between 30 seconds and 10 minutes, the published snapshot is active exactly when the
  breaker is closed and has an empty retry budget exactly when it is open, and success from any
  such state closes the breaker and resets the backoff, the reset time and the reason.\<close>

theorem circuit_breaker_safe:
  assumes "cb_reachable cb"
  shows "30 * second \<le> cb_backoffCurrent cb \<and> cb_backoffCurrent cb \<le> 600 * second \<and>
         (ps_State (CB_Snapshot cb) = ''active'' \<longleftrightarrow> cb_state cb = circuitClosed) \<and>
         (ps_RetryBudget (CB_Snapshot cb) = 0 \<longleftrightarrow> IsOpen cb) \<and>
         (IsOpen cb \<longrightarrow> ps_Reason (CB_Snapshot cb) = ''delivery_retry_backoff'') \<and>
         cb_state (CB_RecordSuccess cb) = circuitClosed \<and>
         cb_backoffCurrent (CB_RecordSuccess cb) = 30 * second \<and>
         cb_resetAt (CB_RecordSuccess cb) = 0 \<and> cb_lastReason (CB_RecordSuccess cb) = [] \<and>
         CB_Snapshot (CB_RecordSuccess cb) = ActiveProviderState"
  using cb_reachable_inv[OF assms]
  by (cases "cb_state cb")
     (auto simp: cb_inv_def CB_Snapshot_def ActiveProviderState_def IsOpen_def CB_RecordSuccess_def
        stateChanged_def Let_def backoff_consts)

definition transient_info :: delivery_error_info where
  "transient_info = \<lparr>de_Kind = DeliveryErrorTransient, de_ResetAt = 0, de_Err = None\<rparr>"

lemma cb_reachable_tripped: "cb_reachable (RecordDeliveryError t i NewCircuitBreaker)"
  by (rule cb_reachable.step[OF cb_reachable.init cb_step.fail])

theorem circuit_breaker_safe_witness:
  "cb_backoffCurrent (RecordDeliveryError 5 transient_info NewCircuitBreaker) \<le> 600 * second \<and>
   ps_Reason (CB_Snapshot (RecordDeliveryError 5 transient_info NewCircuitBreaker)) = ''delivery_retry_backoff''"
  using circuit_breaker_safe[OF cb_reachable_tripped[of 5 transient_info]]
  by (simp add: IsOpen_def RecordDeliveryError_def transient_info_def IsTrip_def Let_def stateChanged_def)

text \<open>C38: A call of \<open>Allow\<close> on an open breaker that is neither cancelled nor disturbed stays blocked as long
  as it wakes up at or before the resume time, returns as soon as it wakes up after it, and then leaves
  the breaker half-open; without a reset time the resume time is at most 10 minutes after the last trip.\<close>

theorem Allow_blocks_until_resume:
  assumes "cb_reachable cb" and "cb_state cb = circuitOpen"
    and "\<forall>ob \<in> set obs. ob_ctxErr ob = None \<and> ob_done ob = None \<and> ob_others ob = id"
  shows "Allow obs cb = (if \<exists>ob \<in> set obs. resume_time cb < ob_now ob
                          then (Some (Inr ()), cb\<lparr>cb_state := circuitHalfOpen\<rparr>) else (None, cb)) \<and>
         (cb_resetAt cb = 0 \<longrightarrow> resume_time cb \<le> cb_lastTrip cb + 600 * second)"
  using Allow_undisturbed[OF cb_reachable_inv[OF assms(1)] assms(2,3)] cb_reachable_inv[OF assms(1)]
  by (simp add: resume_time_def cb_inv_def IsZero_def backoff_consts)

definition wake :: "time \<Rightarrow> observation" where
  "wake t = \<lparr>ob_ctxErr = None, ob_now = t, ob_now' = t, ob_done = None, ob_others = id\<rparr>"

theorem Allow_blocks_until_resume_witness:
  "Allow [wake (10 * second), wake (61 * second)] (RecordDeliveryError 0 transient_info NewCircuitBreaker) =
     (Some (Inr ()), (RecordDeliveryError 0 transient_info NewCircuitBreaker)\<lparr>cb_state := circuitHalfOpen\<rparr>)"
proof -
  let ?cb = "RecordDeliveryError 0 transient_info NewCircuitBreaker"
  have o: "cb_state ?cb = circuitOpen"
    by (simp add: RecordDeliveryError_def transient_info_def IsTrip_def Let_def stateChanged_def)
  have "wrap64 (30 * second * 2) = 60 * second" by (subst wrap64_id) (simp_all add: in_int64_def second_def)
  then have "resume_time ?cb = 60 * second"
    by (simp add: resume_time_def RecordDeliveryError_def transient_info_def IsTrip_def Let_def stateChanged_def
        NewCircuitBreaker_def defaultBackoffBase_def defaultBackoffMax_def minute_def IsZero_def second_def)
  moreover have "\<forall>ob \<in> set [wake (10 * second), wake (61 * second)].
      ob_ctxErr ob = None \<and> ob_done ob = None \<and> ob_others ob = id" by (simp add: wake_def)
  ultimately show ?thesis
    using Allow_blocks_until_resume[OF cb_reachable_tripped o, of "[wake (10 * second), wake (61 * second)]"]
    by (simp add: wake_def second_def)
qed

text \<open>C39: Only transient errors change the breaker; after \<open>n\<close> transient errors in a row on a fresh
  breaker it is open and its backoff is 30 seconds doubled \<open>n\<close> times, capped at 10 minutes, so
  the first pause is already 60 seconds.\<close>

theorem RecordDeliveryError_backoff:
  fixes infos :: "(time \<times> delivery_error_info) list"
  assumes "\<forall>(t, i) \<in> set infos. de_Kind i = DeliveryErrorTransient"
  defines "cb \<equiv> fold (\<lambda>(t, i). RecordDeliveryError t i) infos NewCircuitBreaker"
  shows "cb_backoffCurrent cb = min (2 ^ length infos * (30 * second)) (600 * second) \<and>
         (IsOpen cb \<longleftrightarrow> infos \<noteq> []) \<and>
         (de_Kind i' \<noteq> DeliveryErrorTransient \<longrightarrow> RecordDeliveryError t' i' cb = cb)"
proof (intro conjI)
  show "cb_backoffCurrent cb = min (2 ^ length infos * (30 * second)) (600 * second)"
    using trips_backoff[OF assms(1)] by (simp add: cb_def defaultBackoffBase_def defaultBackoffMax_def minute_def)
  show "IsOpen cb \<longleftrightarrow> infos \<noteq> []"
    using assms(1) by (cases infos rule: rev_cases)
      (auto simp: cb_def IsOpen_def NewCircuitBreaker_def RecordDeliveryError_def IsTrip_def Let_def stateChanged_def)
  show "de_Kind i' \<noteq> DeliveryErrorTransient \<longrightarrow> RecordDeliveryError t' i' cb = cb"
    by (simp add: RecordDeliveryError_def IsTrip_def)
qed

theorem RecordDeliveryError_backoff_witness:
  "cb_backoffCurrent (RecordDeliveryError 5 transient_info NewCircuitBreaker) = 60 * second"
proof -
  have "\<forall>(t, i) \<in> set [(5 :: time, transient_info)]. de_Kind i = DeliveryErrorTransient"
    by (simp add: transient_info_def)
  from RecordDeliveryError_backoff[OF this] show ?thesis by (simp add: second_def)
qed

end
