(* ===== verification/Sql.thy ===== *)
theory Sql
  imports GoStrings
begin

text \<open>
  What the SQLite stores of \<open>src/internal/session\<close> share. SQLite itself is not code of the
  repository: a table is the list of its rows in scan order, and whether the driver reports an error at
  one of the calls is an argument. \<open>in_tx\<close> is the pattern of every write method: take a connection,
  \<open>BEGIN IMMEDIATE\<close>, execute, \<open>COMMIT\<close>, with the deferred \<open>ROLLBACK\<close> on every early return. A table is its committed contents, and
  the model relies on the documented behaviour of a transaction: without a commit they are as before. The code
  ignores the error of the \<open>ROLLBACK\<close> and runs it with the caller's context, which may be cancelled; then the connection goes back to
  the pool with the transaction open. The committed contents are the same then, but what later calls see on such a connection is
  not modelled: a \<open>ROLLBACK\<close> is taken to have effect.
\<close>

record tx_io =
  tx_conn :: "go_error option"
  tx_begin :: "go_error option"
  tx_exec :: "go_error option"
  tx_commit :: "go_error option"

definition tx_ok :: tx_io where
  "tx_ok = \<lparr>tx_conn = None, tx_begin = None, tx_exec = None, tx_commit = None\<rparr>"

text \<open>The prefixes the method wraps the errors of the four calls with.\<close>

record tx_names =
  tn_conn :: string
  tn_begin :: string
  tn_exec :: string
  tn_commit :: string

definition in_tx :: "tx_names \<Rightarrow> tx_io \<Rightarrow> ('t \<Rightarrow> 'a \<times> 't) \<Rightarrow> 't \<Rightarrow> 'a result \<times> 't" where
  "in_tx n io body t =
     (case tx_conn io of Some e \<Rightarrow> (Inl (wrapf (tn_conn n) e), t) | None \<Rightarrow>
      case tx_begin io of Some e \<Rightarrow> (Inl (wrapf (tn_begin n) e), t) | None \<Rightarrow>
      case tx_exec io of Some e \<Rightarrow> (Inl (wrapf (tn_exec n) e), t) | None \<Rightarrow>
      case tx_commit io of Some e \<Rightarrow> (Inl (wrapf (tn_commit n) e), t) | None \<Rightarrow>
      (case body t of (a, t') \<Rightarrow> (Inr a, t')))"

lemma in_tx_ok [simp]: "in_tx n tx_ok body t = (case body t of (a, t') \<Rightarrow> (Inr a, t'))"
  by (simp add: in_tx_def tx_ok_def)

text \<open>A write method is atomic: it reports an error and leaves the table alone, or takes full effect.\<close>

lemma in_tx_atomic:
  "(\<exists>e. in_tx n io body t = (Inl e, t)) \<or> (\<exists>a t'. body t = (a, t') \<and> in_tx n io body t = (Inr a, t'))"
  by (cases "body t") (auto simp: in_tx_def split: option.splits)

lemma in_tx_Inr: "in_tx n io body t = (Inr a, t') \<Longrightarrow> body t = (a, t')"
  using in_tx_atomic[of n io body t] by auto

lemma in_tx_Inl: "in_tx n io body t = (Inl e, t') \<Longrightarrow> t' = t"
  using in_tx_atomic[of n io body t] by auto

lemma in_tx_invariant: "(\<And>a t'. body t = (a, t') \<Longrightarrow> P t') \<Longrightarrow> P t \<Longrightarrow> P (snd (in_tx n io body t))"
  using in_tx_atomic[of n io body t] by (metis snd_conv)

text \<open>A read query: an error of the driver, or the rows.\<close>

definition query :: "string \<Rightarrow> go_error option \<Rightarrow> 'a \<Rightarrow> 'a result" where
  "query pre err rows = (case err of Some e \<Rightarrow> Inl (wrapf pre e) | None \<Rightarrow> Inr rows)"

lemma query_Inr [simp]: "query pre err rows = Inr r \<longleftrightarrow> err = None \<and> r = rows"
  by (auto simp: query_def split: option.splits)

section \<open>INSERT OR IGNORE\<close>

text \<open>
  The contract of a table whose rows are inserted with \<open>INSERT OR IGNORE\<close>: \<open>lookup\<close> gives the row of a
  primary key, and an insert changes the table only when the key is new. The delivery log and the error queue
  are such tables.
\<close>

locale insert_or_ignore =
  fixes ins :: "'r \<Rightarrow> 't \<Rightarrow> 't"
    and key :: "'r \<Rightarrow> 'k"
    and lookup :: "'t \<Rightarrow> 'k \<Rightarrow> 'r option"
  assumes lookup_ins: "lookup (ins r t) k = (if k = key r \<and> lookup t k = None then Some r else lookup t k)"
begin

lemma ins_keeps: "lookup t k = Some r' \<Longrightarrow> lookup (ins r t) k = Some r'"
  by (simp add: lookup_ins)

lemma ins_present: "lookup (ins r t) (key r) \<noteq> None"
  by (simp add: lookup_ins)

lemma ins_twice: "lookup (ins r (ins r t)) = lookup (ins r t)"
  by (rule ext) (auto simp: lookup_ins)

lemma first_wins: "key r = key r' \<Longrightarrow> lookup (ins r' (ins r t)) = lookup (ins r t)"
  by (rule ext) (auto simp: lookup_ins)

lemma fold_ins_keeps: "lookup t k = Some r' \<Longrightarrow> lookup (fold ins rs t) k = Some r'"
  by (induction rs arbitrary: t) (simp_all add: ins_keeps)

lemma fold_ins_present:
  "lookup (fold ins rs t) k \<noteq> None \<longleftrightarrow> lookup t k \<noteq> None \<or> k \<in> key ` set rs"
proof (induction rs arbitrary: t)
  case (Cons r rs)
  then show ?case by (auto simp: lookup_ins)
qed simp

lemma fold_ins_origin:
  "lookup (fold ins rs t) k = Some r \<Longrightarrow> lookup t k = Some r \<or> (r \<in> set rs \<and> key r = k)"
proof (induction rs arbitrary: t)
  case (Cons x rs)
  then show ?case by (fastforce simp: lookup_ins split: if_splits)
qed simp

end

text \<open>Tables as lists of rows with a key.\<close>

definition row_of :: "('r \<Rightarrow> 'k) \<Rightarrow> 'r list \<Rightarrow> 'k \<Rightarrow> 'r option" where
  "row_of key t k = List.find (\<lambda>r. key r = k) t"

definition insert_ignore :: "('r \<Rightarrow> 'k) \<Rightarrow> 'r \<Rightarrow> 'r list \<Rightarrow> 'r list" where
  "insert_ignore key r t = (if row_of key t (key r) = None then t @ [r] else t)"

lemma row_of_append: "row_of key (t @ u) k = (case row_of key t k of None \<Rightarrow> row_of key u k | Some r \<Rightarrow> Some r)"
  by (induction t) (auto simp: row_of_def)

lemma row_of_insert_ignore:
  "row_of key (insert_ignore key r t) k = (if k = key r \<and> row_of key t k = None then Some r else row_of key t k)"
proof -
  have "row_of key [r] k = (if key r = k then Some r else None)" by (simp add: row_of_def)
  then show ?thesis by (auto simp: insert_ignore_def row_of_append split: option.splits)
qed

lemma row_of_Some_iff: "distinct (map key t) \<Longrightarrow> row_of key t k = Some r \<longleftrightarrow> r \<in> set t \<and> key r = k"
  by (induction t) (auto simp: row_of_def)

lemma row_of_SomeD: "row_of key t k = Some r \<Longrightarrow> r \<in> set t \<and> key r = k"
  by (induction t) (auto simp: row_of_def split: if_splits)

lemma row_of_unique: "distinct (map key t) \<Longrightarrow> row_of key t k = Some r \<Longrightarrow> s \<in> set t \<Longrightarrow> key s = k \<Longrightarrow> s = r"
  by (metis option.inject row_of_Some_iff)

lemma row_of_None_iff: "row_of key t k = None \<longleftrightarrow> k \<notin> key ` set t"
  by (induction t) (auto simp: row_of_def)

lemma distinct_insert_ignore: "distinct (map key t) \<Longrightarrow> distinct (map key (insert_ignore key r t))"
  by (auto simp: insert_ignore_def row_of_None_iff)

text \<open>\<open>UPDATE ... WHERE\<close> that keeps the primary key.\<close>

definition update_where :: "('r \<Rightarrow> bool) \<Rightarrow> ('r \<Rightarrow> 'r) \<Rightarrow> 'r list \<Rightarrow> 'r list" where
  "update_where P f t = map (\<lambda>r. if P r then f r else r) t"

lemma update_where_keys: "(\<And>r. key (f r) = key r) \<Longrightarrow> map key (update_where P f t) = map key t"
  by (induction t) (simp_all add: update_where_def)

lemma row_of_update_where:
  assumes "\<And>r. key (f r) = key r"
  shows "row_of key (update_where P f t) k = map_option (\<lambda>r. if P r then f r else r) (row_of key t k)"
  using assms by (induction t) (auto simp: row_of_def update_where_def)

lemma row_of_update_other:
  "(\<And>r. key (f r) = key r) \<Longrightarrow> k \<noteq> n \<Longrightarrow> row_of key (update_where (\<lambda>r. key r = n) f t) k = row_of key t k"
  using row_of_SomeD[of key t k] by (auto simp: row_of_update_where[of key f] intro!: option.map_ident_strong)

lemma set_update_where: "set (update_where P f t) = (\<lambda>r. if P r then f r else r) ` set t"
  by (simp add: update_where_def)

end
