(* ===== verification/FileSys.thy ===== *)
theory FileSys
  imports DMail
begin

text \<open>
  The files that delivery touches and the calls of package \<open>os\<close> it makes, with the error the operating
  system reports, if any, as an argument. The state also keeps the history of the renames that put a
  D-Mail in place: inboxes are emptied by their readers, so "was delivered" is a statement about the past.
\<close>

record disk =
  dk_files :: "path \<rightharpoonup> bytes"
  dk_renamed :: "(path \<times> bytes) list"

definition not_exist :: "string \<Rightarrow> path \<Rightarrow> go_error" where
  "not_exist op p = \<lparr>err_msg = op @ '' '' @ p @ '': no such file or directory'', err_chain = [ErrNotExist]\<rparr>"

definition os_ReadFile :: "go_error option \<Rightarrow> path \<Rightarrow> disk \<Rightarrow> bytes result" where
  "os_ReadFile err p d =
     (case dk_files d p of
        None \<Rightarrow> Inl (not_exist ''open'' p)
      | Some b \<Rightarrow> (case err of Some e \<Rightarrow> Inl e | None \<Rightarrow> Inr b))"

definition os_Remove :: "go_error option \<Rightarrow> path \<Rightarrow> disk \<Rightarrow> unit result \<times> disk" where
  "os_Remove err p d =
     (case dk_files d p of
        None \<Rightarrow> (Inl (not_exist ''remove'' p), d)
      | Some _ \<Rightarrow>
          (case err of
             Some e \<Rightarrow> (Inl e, d)
           | None \<Rightarrow> (Inr (), d\<lparr>dk_files := (dk_files d)(p := None)\<rparr>)))"

text \<open>\<open>os.WriteFile\<close> truncates before it writes: next to an error comes what it left of the file, if it got to open it.\<close>

type_synonym write_fault = "(go_error \<times> bytes option) option"

definition os_WriteFile :: "write_fault \<Rightarrow> path \<Rightarrow> bytes \<Rightarrow> disk \<Rightarrow> unit result \<times> disk" where
  "os_WriteFile fault p b d =
     (case fault of
        None \<Rightarrow> (Inr (), d\<lparr>dk_files := (dk_files d)(p \<mapsto> b)\<rparr>)
      | Some (e, None) \<Rightarrow> (Inl e, d)
      | Some (e, Some part) \<Rightarrow> (Inl e, d\<lparr>dk_files := (dk_files d)(p \<mapsto> part)\<rparr>))"

lemma os_WriteFile_renamed [simp]: "dk_renamed (snd (os_WriteFile e p b d)) = dk_renamed d"
  by (auto simp: os_WriteFile_def split: option.splits)

lemma os_WriteFile_other [simp]: "q \<noteq> p \<Longrightarrow> dk_files (snd (os_WriteFile e p b d)) q = dk_files d q"
  by (auto simp: os_WriteFile_def split: option.splits)

lemma os_WriteFile_ok: "os_WriteFile fault p b d = (Inr u, d') \<Longrightarrow> d' = d\<lparr>dk_files := (dk_files d)(p \<mapsto> b)\<rparr>"
  by (auto simp: os_WriteFile_def split: option.splits)

text \<open>What can go wrong in \<open>atomicWrite\<close>: the random part of the temporary name, the errors of
  the four calls, the bytes a failed write left, and whether the clean-up fails.\<close>

record write_io =
  wi_suffix :: string
  wi_create :: "go_error option"
  wi_write :: "go_error option"
  wi_partial :: bytes
  wi_close :: "go_error option"
  wi_remove :: "go_error option"
  wi_rename :: "go_error option"

definition tmp_path :: "write_io \<Rightarrow> path \<Rightarrow> path" where
  "tmp_path io targetPath = path_Join [Dir targetPath, ''.phonewave-tmp-'' @ wi_suffix io]"

definition put_file :: "path \<Rightarrow> bytes \<Rightarrow> disk \<Rightarrow> disk" where
  "put_file p b d = d\<lparr>dk_files := (dk_files d)(p \<mapsto> b)\<rparr>"

definition atomicWrite :: "write_io \<Rightarrow> path \<Rightarrow> bytes \<Rightarrow> disk \<Rightarrow> unit result \<times> disk" where
  "atomicWrite io targetPath data d =
     (case wi_create io of
        Some e \<Rightarrow> (Inl e, d)
      | None \<Rightarrow>
          let tmpPath = tmp_path io targetPath
          in case wi_write io of
               Some e \<Rightarrow> (Inl e, snd (os_Remove (wi_remove io) tmpPath (put_file tmpPath (wi_partial io) d)))
             | None \<Rightarrow>
                 let d = put_file tmpPath data d
                 in case wi_close io of
                      Some e \<Rightarrow> (Inl e, snd (os_Remove (wi_remove io) tmpPath d))
                    | None \<Rightarrow>
                        (case wi_rename io of
                           Some e \<Rightarrow> (Inl e, d)
                         | None \<Rightarrow> (Inr (), d\<lparr>dk_files := (dk_files d)(tmpPath := None, targetPath \<mapsto> data),
                                             dk_renamed := dk_renamed d @ [(targetPath, data)]\<rparr>)))"

definition write_ok :: write_io where
  "write_ok = \<lparr>wi_suffix = ''1'', wi_create = None, wi_write = None, wi_partial = [], wi_close = None,
     wi_remove = None, wi_rename = None\<rparr>"

definition write_fails :: "write_io \<Rightarrow> bool" where
  "write_fails io \<longleftrightarrow> wi_create io \<noteq> None \<or> wi_write io \<noteq> None \<or> wi_close io \<noteq> None \<or> wi_rename io \<noteq> None"

lemma write_ok_ok [simp]: "\<not> write_fails write_ok"
  by (simp add: write_ok_def write_fails_def)

section \<open>Lemmas\<close>

lemma os_Remove_renamed [simp]: "dk_renamed (snd (os_Remove e p d)) = dk_renamed d"
  by (simp add: os_Remove_def split: option.splits)

lemma os_Remove_other: "q \<noteq> p \<Longrightarrow> dk_files (snd (os_Remove e p d)) q = dk_files d q"
  by (simp add: os_Remove_def split: option.splits)

lemma atomicWrite_result: "isl (fst (atomicWrite io t b d)) = write_fails io"
  by (simp add: atomicWrite_def write_fails_def Let_def split: option.splits)

lemma atomicWrite_success:
  "\<not> write_fails io \<Longrightarrow> atomicWrite io t b d =
     (Inr (), d\<lparr>dk_files := (dk_files d)(tmp_path io t := None, t \<mapsto> b), dk_renamed := dk_renamed d @ [(t, b)]\<rparr>)"
  by (simp add: atomicWrite_def write_fails_def Let_def put_file_def)

text \<open>A failed write changes no file but its own temporary one.\<close>

lemma atomicWrite_failure:
  assumes "write_fails io"
  shows "(\<exists>e. fst (atomicWrite io t b d) = Inl e) \<and> dk_renamed (snd (atomicWrite io t b d)) = dk_renamed d \<and>
         (p \<noteq> tmp_path io t \<longrightarrow> dk_files (snd (atomicWrite io t b d)) p = dk_files d p)"
  using assms
  by (auto simp: atomicWrite_def write_fails_def Let_def put_file_def os_Remove_def split: option.splits)

lemma atomicWrite_renamed:
  "dk_renamed (snd (atomicWrite io t b d)) = dk_renamed d @ (if write_fails io then [] else [(t, b)])"
  using atomicWrite_success atomicWrite_failure by (cases "write_fails io") auto

text \<open>Neither the temporary file nor any other file but the target is taken for a D-Mail that changed.\<close>

lemma tmp_path_not_dmail:
  assumes "CHR ''/'' \<notin> set (wi_suffix io)"
  shows "\<not> IsDMailFile (tmp_path io t)"
proof -
  have "file_name (''.phonewave-tmp-'' @ wi_suffix io)"
    using assms by (simp add: file_name_def plain_comp_def)
  then show ?thesis
    unfolding tmp_path_def by (simp add: IsDMailFile_Join HasPrefix_def)
qed

lemma atomicWrite_other_files:
  assumes "CHR ''/'' \<notin> set (wi_suffix io)" and "IsDMailFile p" and "p \<noteq> t"
  shows "dk_files (snd (atomicWrite io t b d)) p = dk_files d p"
proof -
  have "p \<noteq> tmp_path io t" using tmp_path_not_dmail[OF assms(1)] assms(2) by blast
  then show ?thesis
    using assms(3) atomicWrite_failure[of io t b d p] atomicWrite_success[of io t b d]
    by (cases "write_fails io") auto
qed

section \<open>Properties\<close>

text \<open>\<open>atomicWrite\<close> either succeeds and the target then holds exactly the data, or fails and every file other
  than its temporary one, the target included, is as before; the temporary file is never mistaken
  for a D-Mail, and after a failed rename it stays in the inbox directory.\<close>

theorem atomicWrite_all_or_nothing:
  assumes "CHR ''/'' \<notin> set (wi_suffix io)" and "tmp_path io t \<noteq> t"
  shows "(\<not> write_fails io \<longrightarrow> fst (atomicWrite io t b d) = Inr () \<and>
            dk_files (snd (atomicWrite io t b d)) = (dk_files d)(tmp_path io t := None, t \<mapsto> b)) \<and>
         (write_fails io \<longrightarrow> isl (fst (atomicWrite io t b d)) \<and>
            (\<forall>p. p \<noteq> tmp_path io t \<longrightarrow> dk_files (snd (atomicWrite io t b d)) p = dk_files d p)) \<and>
         \<not> IsDMailFile (tmp_path io t) \<and>
         (wi_create io = None \<and> wi_write io = None \<and> wi_close io = None \<and> wi_rename io \<noteq> None \<longrightarrow>
            dk_files (snd (atomicWrite io t b d)) (tmp_path io t) = Some b)"
proof (intro conjI impI allI)
  assume "wi_create io = None \<and> wi_write io = None \<and> wi_close io = None \<and> wi_rename io \<noteq> None"
  then show "dk_files (snd (atomicWrite io t b d)) (tmp_path io t) = Some b"
    by (auto simp: atomicWrite_def Let_def put_file_def)
qed (use atomicWrite_failure tmp_path_not_dmail[OF assms(1)] in \<open>auto simp: atomicWrite_success atomicWrite_result\<close>)

theorem atomicWrite_all_or_nothing_witness:
  "fst (atomicWrite write_ok ''/r/.gate/inbox/a.md'' ''x'' \<lparr>dk_files = Map.empty, dk_renamed = []\<rparr>) = Inr ()"
proof (rule atomicWrite_all_or_nothing[THEN conjunct1, THEN mp, THEN conjunct1])
  show "CHR ''/'' \<notin> set (wi_suffix write_ok)" by (simp add: write_ok_def)
  show "tmp_path write_ok ''/r/.gate/inbox/a.md'' \<noteq> ''/r/.gate/inbox/a.md''" by code_simp
qed simp

end
