(* ===== verification/DeliveryStore.thy ===== *)
theory DeliveryStore
  imports Sql FileSys
begin

text \<open>
  The delivery store (\<open>src/internal/session/delivery_store.go\<close>): the table \<open>staged_delivery\<close> with
  primary key \<open>(dmail_path, target)\<close>, staging, the two-phase flush, and the bookkeeping of flushed rows and
  dead letters. The order in which \<open>SELECT\<close> yields rows is the order of the list.
\<close>

section \<open>Rows\<close>

record staged_row =
  sr_dmail_path :: path
  sr_target :: path
  sr_data :: bytes
  sr_flushed :: bool
  sr_retry_count :: int

type_synonym staged_table = "staged_row list"

definition sr_key :: "staged_row \<Rightarrow> path \<times> path" where
  "sr_key r = (sr_dmail_path r, sr_target r)"

definition maxDeliveryRetryCount :: int where "maxDeliveryRetryCount = 3"

section \<open>Staging\<close>

text \<open>The upsert: insert a new row, or on conflict update it where \<open>flushed = 0 OR data != excluded.data\<close>.\<close>

definition stage_row :: "path \<Rightarrow> bytes \<Rightarrow> path \<Rightarrow> staged_table \<Rightarrow> staged_table" where
  "stage_row dmailPath data target t =
     (if row_of sr_key t (dmailPath, target) = None
      then t @ [\<lparr>sr_dmail_path = dmailPath, sr_target = target, sr_data = data, sr_flushed = False,
                 sr_retry_count = 0\<rparr>]
      else update_where (\<lambda>r. sr_key r = (dmailPath, target) \<and> (\<not> sr_flushed r \<or> sr_data r \<noteq> data))
             (\<lambda>r. r\<lparr>sr_data := data, sr_flushed := False, sr_retry_count := 0\<rparr>) t)"

record stage_io =
  sg_conn :: "go_error option"
  sg_begin :: "go_error option"
  sg_exec :: "path \<Rightarrow> go_error option"
  sg_commit :: "go_error option"

definition arrow :: string where "arrow = [CHR 0x20, CHR 0xE2, CHR 0x86, CHR 0x92, CHR 0x20]"

text \<open>The loop over the targets inside the transaction.\<close>

fun stage_loop :: "stage_io \<Rightarrow> path \<Rightarrow> bytes \<Rightarrow> path list \<Rightarrow> staged_table \<Rightarrow> staged_table result" where
  "stage_loop io dmailPath data [] t = Inr t"
| "stage_loop io dmailPath data (target # ts) t =
     (case sg_exec io target of
        Some e \<Rightarrow> Inl (wrapf (''delivery store: stage '' @ dmailPath @ arrow @ target @ '': '') e)
      | None \<Rightarrow> stage_loop io dmailPath data ts (stage_row dmailPath data target t))"

definition StageDelivery ::
  "stage_io \<Rightarrow> path \<Rightarrow> bytes \<Rightarrow> path list \<Rightarrow> staged_table \<Rightarrow> unit result \<times> staged_table" where
  "StageDelivery io dmailPath data targets t =
     (case sg_conn io of Some e \<Rightarrow> (Inl (wrapf ''delivery store: get conn: '' e), t) | None \<Rightarrow>
      case sg_begin io of Some e \<Rightarrow> (Inl (wrapf ''delivery store: begin immediate: '' e), t) | None \<Rightarrow>
      case stage_loop io dmailPath data targets t of
        Inl e \<Rightarrow> (Inl e, t)
      | Inr t' \<Rightarrow>
          (case sg_commit io of
             Some e \<Rightarrow> (Inl (wrapf ''delivery store: commit stage: '' e), t)
           | None \<Rightarrow> (Inr (), t')))"

section \<open>Flushing\<close>

definition collectUnflushed :: "go_error option \<Rightarrow> staged_table \<Rightarrow> staged_delivery list result" where
  "collectUnflushed err t =
     query ''delivery store: select unflushed: '' err
       (map (\<lambda>r. \<lparr>sd_DMailPath = sr_dmail_path r, sd_Target = sr_target r, sd_Data = sr_data r\<rparr>)
          (filter (\<lambda>r. \<not> sr_flushed r \<and> sr_retry_count r < maxDeliveryRetryCount) t))"

definition plain_tx :: tx_names where
  "plain_tx = \<lparr>tn_conn = [], tn_begin = [], tn_exec = [], tn_commit = []\<rparr>"

definition markFlushed :: "tx_io \<Rightarrow> path \<Rightarrow> path \<Rightarrow> staged_table \<Rightarrow> unit result \<times> staged_table" where
  "markFlushed io dmailPath target =
     in_tx plain_tx io (\<lambda>t. ((), update_where (\<lambda>r. sr_key r = (dmailPath, target)) (\<lambda>r. r\<lparr>sr_flushed := True\<rparr>) t))"

definition incrementRetryCount :: "tx_io \<Rightarrow> path \<Rightarrow> path \<Rightarrow> staged_table \<Rightarrow> unit result \<times> staged_table" where
  "incrementRetryCount io dmailPath target =
     in_tx plain_tx io (\<lambda>t. ((), update_where (\<lambda>r. sr_key r = (dmailPath, target))
                                   (\<lambda>r. r\<lparr>sr_retry_count := sr_retry_count r + 1\<rparr>) t))"

text \<open>What the outside world answers during one flush, per \<open>(dmail_path, target)\<close>.\<close>

record flush_io =
  fl_select :: "go_error option"
  fl_write :: "path \<times> path \<Rightarrow> write_io"
  fl_mark :: "path \<times> path \<Rightarrow> tx_io"
  fl_inc :: "path \<times> path \<Rightarrow> tx_io"

text \<open>The body of the loop of phases 2 and 3 for one item: the error it returns with, if any, and what it
  appends to the slice \<open>flushed\<close>.\<close>

definition flush_one ::
  "flush_io \<Rightarrow> staged_delivery \<Rightarrow> staged_table \<Rightarrow> disk \<Rightarrow> go_error option \<times> delivery_flushed list \<times> staged_table \<times> disk" where
  "flush_one io item t d =
     (let p = sd_DMailPath item; x = sd_Target item
      in case atomicWrite (fl_write io (p, x)) x (sd_Data item) d of
           (Inl _, d') \<Rightarrow>
             (case incrementRetryCount (fl_inc io (p, x)) p x t of
                (Inl e, t') \<Rightarrow> (Some (wrapf ''delivery store: increment retry: '' e), [], t', d')
              | (Inr _, t') \<Rightarrow> (None, [], t', d'))
         | (Inr _, d') \<Rightarrow>
             (case markFlushed (fl_mark io (p, x)) p x t of
                (Inl e, t') \<Rightarrow> (Some (wrapf ''delivery store: mark flushed: '' e), [], t', d')
              | (Inr _, t') \<Rightarrow> (None, [\<lparr>df_DMailPath = p, df_Target = x\<rparr>], t', d')))"

fun flush_loop ::
  "flush_io \<Rightarrow> staged_delivery list \<Rightarrow> delivery_flushed list \<Rightarrow> staged_table \<Rightarrow> disk \<Rightarrow>
   delivery_flushed list \<times> go_error option \<times> staged_table \<times> disk" where
  "flush_loop io [] flushed t d = (flushed, None, t, d)"
| "flush_loop io (item # items) flushed t d =
     (case flush_one io item t d of
        (Some e, _, t', d') \<Rightarrow> (flushed, Some e, t', d')
      | (None, f, t', d') \<Rightarrow> flush_loop io items (flushed @ f) t' d')"

definition FlushDeliveries ::
  "flush_io \<Rightarrow> staged_table \<Rightarrow> disk \<Rightarrow> delivery_flushed list \<times> go_error option \<times> staged_table \<times> disk" where
  "FlushDeliveries io t d =
     (case collectUnflushed (fl_select io) t of
        Inl e \<Rightarrow> ([], Some e, t, d)
      | Inr items \<Rightarrow> if items = [] then ([], None, t, d) else flush_loop io items [] t d)"

section \<open>Queries and clean-up\<close>

definition RecoverUnflushed :: "go_error option \<Rightarrow> staged_table \<Rightarrow> staged_delivery list result" where
  "RecoverUnflushed err t =
     query ''delivery store: recover unflushed: '' err
       (map (\<lambda>r. \<lparr>sd_DMailPath = sr_dmail_path r, sd_Target = sr_target r, sd_Data = sr_data r\<rparr>)
          (filter (\<lambda>r. \<not> sr_flushed r) t))"

definition AllFlushedFor :: "go_error option \<Rightarrow> path \<Rightarrow> staged_table \<Rightarrow> bool result" where
  "AllFlushedFor err dmailPath t =
     query ''delivery store: all flushed check: '' err
       (length (filter (\<lambda>r. sr_dmail_path r = dmailPath \<and> \<not> sr_flushed r) t) = 0)"

definition deleteFlushedRows :: "tx_io \<Rightarrow> go_error option \<Rightarrow> staged_table \<Rightarrow> int result \<times> staged_table" where
  "deleteFlushedRows io rowsErr =
     in_tx \<lparr>tn_conn = ''delivery store: get conn: '', tn_begin = ''delivery store: begin immediate: '',
            tn_exec = ''delivery store: delete flushed: '', tn_commit = ''delivery store: commit prune: ''\<rparr> io
       (\<lambda>t. (case rowsErr of Some _ \<Rightarrow> 0 | None \<Rightarrow> int (length (filter sr_flushed t)),
             filter (\<lambda>r. \<not> sr_flushed r) t))"

definition PruneFlushed ::
  "tx_io \<Rightarrow> go_error option \<Rightarrow> go_error option \<Rightarrow> staged_table \<Rightarrow> (int \<times> go_error option) \<times> staged_table" where
  "PruneFlushed io rowsErr vacuumErr t =
     (case deleteFlushedRows io rowsErr t of
        (Inl e, t') \<Rightarrow> ((0, Some e), t')
      | (Inr affected, t') \<Rightarrow>
          (case vacuumErr of
             Some e \<Rightarrow> ((affected, Some (wrapf ''delivery store: vacuum: '' e)), t')
           | None \<Rightarrow> ((affected, None), t')))"

definition is_dead_letter :: "staged_row \<Rightarrow> bool" where
  "is_dead_letter r = (\<not> sr_flushed r \<and> sr_retry_count r \<ge> maxDeliveryRetryCount)"

definition DeadLetterCount :: "go_error option \<Rightarrow> staged_table \<Rightarrow> int result" where
  "DeadLetterCount err t =
     query ''delivery store: dead letter count: '' err (int (length (filter is_dead_letter t)))"

definition PurgeDeadLetters :: "go_error option \<Rightarrow> go_error option \<Rightarrow> staged_table \<Rightarrow> int result \<times> staged_table" where
  "PurgeDeadLetters err rowsErr t =
     (case err of
        Some e \<Rightarrow> (Inl (wrapf ''delivery store: purge dead letters: '' e), t)
      | None \<Rightarrow>
          let t' = filter (\<lambda>r. \<not> is_dead_letter r) t
          in (case rowsErr of
                Some e \<Rightarrow> (Inl (wrapf ''delivery store: rows affected: '' e), t')
              | None \<Rightarrow> (Inr (int (length (filter is_dead_letter t))), t')))"

section \<open>The invariant of the table\<close>

text \<open>
  Keys are unique, retry counts are between 0 and the maximum, and a flushed row's data was renamed
  onto its target at some point in the past.
\<close>

definition staged_inv :: "disk \<Rightarrow> staged_table \<Rightarrow> bool" where
  "staged_inv d t \<longleftrightarrow> distinct (map sr_key t) \<and>
     (\<forall>r \<in> set t. 0 \<le> sr_retry_count r \<and> sr_retry_count r \<le> maxDeliveryRetryCount \<and>
        (sr_flushed r \<longrightarrow> (sr_target r, sr_data r) \<in> set (dk_renamed d)))"

lemma staged_inv_Nil [simp]: "staged_inv d []"
  by (simp add: staged_inv_def)

lemma staged_inv_renamed: "staged_inv d t \<Longrightarrow> set (dk_renamed d) \<subseteq> set (dk_renamed d') \<Longrightarrow> staged_inv d' t"
  by (auto simp: staged_inv_def)

lemma sr_key_update [simp]:
  "sr_key (r\<lparr>sr_data := b\<rparr>) = sr_key r"
  "sr_key (r\<lparr>sr_flushed := f\<rparr>) = sr_key r" "sr_key (r\<lparr>sr_retry_count := c\<rparr>) = sr_key r"
  by (simp_all add: sr_key_def)

lemma row_of_stage_row:
  "row_of sr_key (stage_row p b x t) k =
     (if k = (p, x)
      then (case row_of sr_key t k of
              None \<Rightarrow> Some \<lparr>sr_dmail_path = p, sr_target = x, sr_data = b, sr_flushed = False, sr_retry_count = 0\<rparr>
            | Some r \<Rightarrow> Some (if sr_flushed r \<and> sr_data r = b then r
                             else r\<lparr>sr_data := b, sr_flushed := False, sr_retry_count := 0\<rparr>))
      else row_of sr_key t k)"
proof (cases "row_of sr_key t (p, x)")
  case None
  have "row_of sr_key [\<lparr>sr_dmail_path = p, sr_target = x, sr_data = b, sr_flushed = False, sr_retry_count = 0\<rparr>] k =
     (if k = (p, x) then Some \<lparr>sr_dmail_path = p, sr_target = x, sr_data = b, sr_flushed = False, sr_retry_count = 0\<rparr>
      else None)" by (auto simp: row_of_def sr_key_def)
  with None show ?thesis
    by (auto simp: stage_row_def row_of_append split: option.splits)
next
  case (Some r)
  then have "row_of sr_key (stage_row p b x t) k =
      map_option (\<lambda>r. if sr_key r = (p, x) \<and> (\<not> sr_flushed r \<or> sr_data r \<noteq> b)
                      then r\<lparr>sr_data := b, sr_flushed := False, sr_retry_count := 0\<rparr> else r) (row_of sr_key t k)"
    by (simp add: stage_row_def) (rule row_of_update_where, simp)
  with Some show ?thesis
    by (cases "row_of sr_key t k") (auto dest: row_of_SomeD)
qed

lemma staged_inv_stage_row: "staged_inv d t \<Longrightarrow> staged_inv d (stage_row p b x t)"
proof -
  assume inv: "staged_inv d t"
  show ?thesis
  proof (cases "row_of sr_key t (p, x) = None")
    case True
    then have "(p, x) \<notin> sr_key ` set t" by (simp add: row_of_None_iff)
    with True inv show ?thesis
      by (auto simp: staged_inv_def stage_row_def sr_key_def maxDeliveryRetryCount_def)
  next
    case False
    then show ?thesis
      using inv by (auto simp: staged_inv_def stage_row_def update_where_keys[of sr_key] set_update_where
          maxDeliveryRetryCount_def)
  qed
qed

lemma stage_loop_eq:
  "stage_loop io p b xs t = Inr t' \<Longrightarrow> t' = fold (stage_row p b) xs t"
  by (induction xs arbitrary: t) (auto split: option.splits)

lemma StageDelivery_cases:
  "(\<exists>e. StageDelivery io p b xs t = (Inl e, t)) \<or> StageDelivery io p b xs t = (Inr (), fold (stage_row p b) xs t)"
  using stage_loop_eq[of io p b xs t] by (auto simp: StageDelivery_def split: option.splits sum.splits)

lemma staged_inv_fold: "staged_inv d t \<Longrightarrow> staged_inv d (fold (stage_row p b) xs t)"
  by (induction xs arbitrary: t) (simp_all add: staged_inv_stage_row)

lemma staged_inv_Stage: "staged_inv d t \<Longrightarrow> staged_inv d (snd (StageDelivery io p b xs t))"
  using StageDelivery_cases[of io p b xs t] staged_inv_fold by (metis snd_conv)

text \<open>Rows after staging: one for each target, flushed only if it already was with the same data.\<close>

lemma row_of_fold_stage:
  "row_of sr_key (fold (stage_row p b) xs t) k =
     (if fst k = p \<and> snd k \<in> set xs
      then (case row_of sr_key t k of
              None \<Rightarrow> Some \<lparr>sr_dmail_path = p, sr_target = snd k, sr_data = b, sr_flushed = False, sr_retry_count = 0\<rparr>
            | Some r \<Rightarrow> Some (if sr_flushed r \<and> sr_data r = b then r
                             else r\<lparr>sr_data := b, sr_flushed := False, sr_retry_count := 0\<rparr>))
      else row_of sr_key t k)"
proof (induction xs arbitrary: t)
  case (Cons x xs)
  show ?case
    by (auto simp: Cons.IH row_of_stage_row prod_eq_iff split: option.splits)
qed simp

section \<open>Lemmas on flushing\<close>

lemma markFlushed_cases:
  "(\<exists>e. markFlushed io p x t = (Inl e, t)) \<or>
   markFlushed io p x t = (Inr (), update_where (\<lambda>r. sr_key r = (p, x)) (\<lambda>r. r\<lparr>sr_flushed := True\<rparr>) t)"
  using in_tx_atomic[of plain_tx io "\<lambda>t. ((), update_where (\<lambda>r. sr_key r = (p, x)) (\<lambda>r. r\<lparr>sr_flushed := True\<rparr>) t)" t]
  by (auto simp: markFlushed_def)

lemma incrementRetryCount_cases:
  "(\<exists>e. incrementRetryCount io p x t = (Inl e, t)) \<or>
   incrementRetryCount io p x t =
     (Inr (), update_where (\<lambda>r. sr_key r = (p, x)) (\<lambda>r. r\<lparr>sr_retry_count := sr_retry_count r + 1\<rparr>) t)"
  using in_tx_atomic[of plain_tx io "\<lambda>t. ((), update_where (\<lambda>r. sr_key r = (p, x)) (\<lambda>r. r\<lparr>sr_retry_count := sr_retry_count r + 1\<rparr>) t)" t]
  by (auto simp: incrementRetryCount_def)

text \<open>
  What holds between the collected items that are still to come and the table: each is the row of its
  key, unflushed and below the maximum, and no key comes twice.
\<close>

definition item_key :: "staged_delivery \<Rightarrow> path \<times> path" where
  "item_key i = (sd_DMailPath i, sd_Target i)"

definition items_ok :: "staged_delivery list \<Rightarrow> staged_table \<Rightarrow> bool" where
  "items_ok items t \<longleftrightarrow> distinct (map item_key items) \<and>
     (\<forall>i \<in> set items. \<exists>r. row_of sr_key t (item_key i) = Some r \<and> sr_data r = sd_Data i \<and>
        \<not> sr_flushed r \<and> sr_retry_count r < maxDeliveryRetryCount)"

lemma row_of_mark:
  "row_of sr_key (update_where (\<lambda>r. sr_key r = k0) (\<lambda>r. r\<lparr>sr_flushed := True\<rparr>) t) k =
   (if k = k0 then map_option (\<lambda>r. r\<lparr>sr_flushed := True\<rparr>) (row_of sr_key t k) else row_of sr_key t k)"
  by (subst row_of_update_where, simp, cases "row_of sr_key t k") (auto dest: row_of_SomeD)

lemma row_of_inc:
  "row_of sr_key (update_where (\<lambda>r. sr_key r = k0) (\<lambda>r. r\<lparr>sr_retry_count := sr_retry_count r + 1\<rparr>) t) k =
   (if k = k0 then map_option (\<lambda>r. r\<lparr>sr_retry_count := sr_retry_count r + 1\<rparr>) (row_of sr_key t k)
    else row_of sr_key t k)"
  by (subst row_of_update_where, simp, cases "row_of sr_key t k") (auto dest: row_of_SomeD)

lemma items_ok_tail:
  "items_ok (i # items) t \<Longrightarrow> (\<forall>k. k \<noteq> item_key i \<longrightarrow> row_of sr_key t' k = row_of sr_key t k) \<Longrightarrow> items_ok items t'"
proof -
  assume ok: "items_ok (i # items) t" and same: "\<forall>k. k \<noteq> item_key i \<longrightarrow> row_of sr_key t' k = row_of sr_key t k"
  have "row_of sr_key t' (item_key j) = row_of sr_key t (item_key j)" if "j \<in> set items" for j
  proof -
    have "item_key i \<notin> item_key ` set items" using ok by (simp add: items_ok_def)
    moreover have "item_key j \<in> item_key ` set items" using that by (rule imageI)
    ultimately have "item_key j \<noteq> item_key i" by metis
    then show ?thesis using same by blast
  qed
  with ok show "items_ok items t'" by (simp add: items_ok_def)
qed

lemma staged_inv_mark:
  assumes inv: "staged_inv d t" and row: "row_of sr_key t (p, x) = Some r"
    and ren: "(x, sr_data r) \<in> set (dk_renamed d)"
  shows "staged_inv d (update_where (\<lambda>r. sr_key r = (p, x)) (\<lambda>r. r\<lparr>sr_flushed := True\<rparr>) t)"
proof -
  have d: "distinct (map sr_key t)" using inv by (simp add: staged_inv_def)
  have "s = r" if "s \<in> set t" "sr_key s = (p, x)" for s
    using row_of_unique[OF d row] that by blast
  then show ?thesis
    using inv ren d by (auto simp: staged_inv_def update_where_keys[of sr_key] set_update_where sr_key_def)
qed

lemma staged_inv_inc:
  assumes inv: "staged_inv d t" and row: "row_of sr_key t k = Some r" and lt: "sr_retry_count r < maxDeliveryRetryCount"
  shows "staged_inv d (update_where (\<lambda>r. sr_key r = k) (\<lambda>r. r\<lparr>sr_retry_count := sr_retry_count r + 1\<rparr>) t)"
proof -
  have d: "distinct (map sr_key t)" using inv by (simp add: staged_inv_def)
  have "s = r" if "s \<in> set t" "sr_key s = k" for s
    using row_of_unique[OF d row] that by blast
  then show ?thesis
    using inv lt d by (auto simp: staged_inv_def update_where_keys[of sr_key] set_update_where)
qed

lemma dk_renamed_grows: "set (dk_renamed d) \<subseteq> set (dk_renamed (snd (atomicWrite io x b d)))"
  by (auto simp: atomicWrite_renamed)

text \<open>One item of the flush, as a case distinction on what the outside world answers.\<close>

lemma flush_one_cases:
  fixes io i t d
  defines "w \<equiv> fl_write io (item_key i)"
  defines "d' \<equiv> snd (atomicWrite w (sd_Target i) (sd_Data i) d)"
  shows "(\<exists>e. flush_one io i t d = (Some e, [], t, d')) \<or>
    (write_fails w \<and> flush_one io i t d =
       (None, [], update_where (\<lambda>r. sr_key r = item_key i) (\<lambda>r. r\<lparr>sr_retry_count := sr_retry_count r + 1\<rparr>) t, d')) \<or>
    (\<not> write_fails w \<and> flush_one io i t d =
       (None, [\<lparr>df_DMailPath = sd_DMailPath i, df_Target = sd_Target i\<rparr>],
        update_where (\<lambda>r. sr_key r = item_key i) (\<lambda>r. r\<lparr>sr_flushed := True\<rparr>) t, d'))"
proof -
  obtain res where w: "atomicWrite w (sd_Target i) (sd_Data i) d = (res, d')"
    unfolding d'_def by (metis prod.exhaust_sel)
  then have f: "isl res = write_fails w"
    using atomicWrite_result[of w "sd_Target i" "sd_Data i" d] by simp
  show ?thesis
  proof (cases res)
    case (Inl e)
    with w f incrementRetryCount_cases[of "fl_inc io (item_key i)" "sd_DMailPath i" "sd_Target i" t] show ?thesis
      unfolding w_def by (auto simp: flush_one_def item_key_def Let_def)
  next
    case (Inr u)
    with w f markFlushed_cases[of "fl_mark io (item_key i)" "sd_DMailPath i" "sd_Target i" t] show ?thesis
      unfolding w_def by (auto simp: flush_one_def item_key_def Let_def)
  qed
qed

lemma flush_one_inv:
  assumes inv: "staged_inv d t" and ok: "items_ok (i # items) t" and f: "flush_one io i t d = (e, f, t', d')"
  shows "staged_inv d' t' \<and> set (dk_renamed d) \<subseteq> set (dk_renamed d') \<and> items_ok items t' \<and>
         (\<forall>k. k \<noteq> item_key i \<longrightarrow> row_of sr_key t' k = row_of sr_key t k)"
proof -
  let ?w = "fl_write io (item_key i)"
  let ?d = "snd (atomicWrite ?w (sd_Target i) (sd_Data i) d)"
  obtain r where r: "row_of sr_key t (item_key i) = Some r" "sr_data r = sd_Data i" "\<not> sr_flushed r"
      "sr_retry_count r < maxDeliveryRetryCount"
    using ok by (auto simp: items_ok_def)
  have inv': "staged_inv ?d t" by (rule staged_inv_renamed[OF inv dk_renamed_grows])
  consider (stop) "t' = t" "d' = ?d"
    | (bad) "t' = update_where (\<lambda>r. sr_key r = item_key i) (\<lambda>r. r\<lparr>sr_retry_count := sr_retry_count r + 1\<rparr>) t" "d' = ?d"
    | (good) "\<not> write_fails ?w" "t' = update_where (\<lambda>r. sr_key r = item_key i) (\<lambda>r. r\<lparr>sr_flushed := True\<rparr>) t" "d' = ?d"
    using flush_one_cases[of io i t d] f by auto
  then have "staged_inv d' t' \<and> d' = ?d \<and> (\<forall>k. k \<noteq> item_key i \<longrightarrow> row_of sr_key t' k = row_of sr_key t k)"
  proof cases
    case stop
    then show ?thesis using inv' by simp
  next
    case bad
    then show ?thesis using staged_inv_inc[OF inv' r(1,4)] by (simp add: row_of_inc)
  next
    case good
    have "(sd_Target i, sr_data r) \<in> set (dk_renamed ?d)"
      using good(1) r(2) by (simp add: atomicWrite_renamed)
    then show ?thesis
      using good staged_inv_mark[OF inv' r(1)[unfolded item_key_def]] by (simp add: row_of_mark item_key_def)
  qed
  then show ?thesis using dk_renamed_grows items_ok_tail[OF ok] by blast
qed

lemma flush_loop_inv:
  "staged_inv d t \<Longrightarrow> items_ok items t \<Longrightarrow> flush_loop io items fl t d = (fl', e, t', d') \<Longrightarrow>
   staged_inv d' t' \<and> set (dk_renamed d) \<subseteq> set (dk_renamed d')"
proof (induction items arbitrary: fl t d)
  case (Cons i items)
  obtain e1 f1 t1 d1 where f: "flush_one io i t d = (e1, f1, t1, d1)" by (cases "flush_one io i t d")
  note one = flush_one_inv[OF Cons.prems(1,2) f]
  show ?case
  proof (cases e1)
    case None
    then have "flush_loop io items (fl @ f1) t1 d1 = (fl', e, t', d')" using Cons.prems(3) f by simp
    with Cons.IH one show ?thesis by blast
  next
    case (Some x)
    then show ?thesis using Cons.prems(3) f one by auto
  qed
qed auto

lemma items_ok_collect:
  assumes "staged_inv d t" and "collectUnflushed e t = Inr items"
  shows "items_ok items t"
proof -
  let ?P = "\<lambda>r. \<not> sr_flushed r \<and> sr_retry_count r < maxDeliveryRetryCount"
  have d: "distinct (map sr_key t)" using assms(1) by (simp add: staged_inv_def)
  have items: "items = map (\<lambda>r. \<lparr>sd_DMailPath = sr_dmail_path r, sd_Target = sr_target r, sd_Data = sr_data r\<rparr>) (filter ?P t)"
    using assms(2) by (simp add: collectUnflushed_def)
  have "map item_key items = map sr_key (filter ?P t)" by (simp add: items item_key_def sr_key_def)
  then have "distinct (map item_key items)" using distinct_map_filter[OF d] by simp
  moreover have "row_of sr_key t (sr_key r) = Some r" if "r \<in> set t" for r
    using that by (simp add: row_of_Some_iff[OF d])
  ultimately show ?thesis by (auto simp: items_ok_def items item_key_def sr_key_def)
qed

lemma FlushDeliveries_inv:
  assumes "staged_inv d t" and "FlushDeliveries io t d = (fl, e, t', d')"
  shows "staged_inv d' t' \<and> set (dk_renamed d) \<subseteq> set (dk_renamed d')"
proof (cases "collectUnflushed (fl_select io) t")
  case (Inl x)
  then show ?thesis using assms by (auto simp: FlushDeliveries_def)
next
  case (Inr items)
  then show ?thesis
    using assms flush_loop_inv[OF assms(1) items_ok_collect[OF assms(1) Inr]]
    by (auto simp: FlushDeliveries_def split: if_splits)
qed

text \<open>Without a database error the flush does exactly this: the rows it collected are marked flushed when
  their write succeeded and counted as retried otherwise, the others stay.\<close>

definition flush_row :: "flush_io \<Rightarrow> staged_row \<Rightarrow> staged_row" where
  "flush_row io r = (if write_fails (fl_write io (sr_key r)) then r\<lparr>sr_retry_count := sr_retry_count r + 1\<rparr>
                     else r\<lparr>sr_flushed := True\<rparr>)"

lemma flush_one_ok:
  assumes "flush_one io i t d = (None, f, t', d')" and "row_of sr_key t (item_key i) = Some r"
  shows "row_of sr_key t' k = (if k = item_key i then Some (flush_row io r) else row_of sr_key t k) \<and>
         f = (if write_fails (fl_write io (item_key i)) then []
              else [\<lparr>df_DMailPath = sd_DMailPath i, df_Target = sd_Target i\<rparr>]) \<and>
         dk_renamed d' = dk_renamed d @ (if write_fails (fl_write io (item_key i)) then [] else [(sd_Target i, sd_Data i)])"
proof -
  have "sr_key r = item_key i" using row_of_SomeD[OF assms(2)] by simp
  then show ?thesis
    using flush_one_cases[of io i t d] assms
    by (auto simp: row_of_mark row_of_inc flush_row_def atomicWrite_renamed)
qed

definition flushed_of :: "flush_io \<Rightarrow> staged_delivery list \<Rightarrow> staged_delivery list" where
  "flushed_of io items = filter (\<lambda>i. \<not> write_fails (fl_write io (item_key i))) items"

lemma flush_loop_ok:
  assumes "staged_inv d t" and "items_ok items t" and "flush_loop io items fl t d = (fl', None, t', d')"
  shows "(\<forall>k. row_of sr_key t' k =
              (if k \<in> item_key ` set items then map_option (flush_row io) (row_of sr_key t k) else row_of sr_key t k)) \<and>
         fl' = fl @ map (\<lambda>i. \<lparr>df_DMailPath = sd_DMailPath i, df_Target = sd_Target i\<rparr>) (flushed_of io items) \<and>
         dk_renamed d' = dk_renamed d @ map (\<lambda>i. (sd_Target i, sd_Data i)) (flushed_of io items)"
  using assms
proof (induction items arbitrary: fl t d)
  case Nil
  then show ?case by (simp add: flushed_of_def)
next
  case (Cons i items)
  obtain e1 f1 t1 d1 where f: "flush_one io i t d = (e1, f1, t1, d1)" by (cases "flush_one io i t d")
  with Cons.prems(3) have e1: "e1 = None" and rest: "flush_loop io items (fl @ f1) t1 d1 = (fl', None, t', d')"
    by (auto split: option.splits)
  obtain r where r: "row_of sr_key t (item_key i) = Some r" using Cons.prems(2) by (auto simp: items_ok_def)
  note one = flush_one_ok[OF f[unfolded e1] r]
  have inv: "staged_inv d1 t1" "items_ok items t1" using flush_one_inv[OF Cons.prems(1,2) f] by blast+
  have notin: "item_key i \<notin> item_key ` set items" using Cons.prems(2) by (simp add: items_ok_def)
  note ih = Cons.IH[OF inv rest]
  have "row_of sr_key t' k = (if k \<in> item_key ` set (i # items) then map_option (flush_row io) (row_of sr_key t k)
          else row_of sr_key t k)" for k
    using ih[THEN conjunct1, rule_format, of k] one[of k, THEN conjunct1] r notin by (cases "k = item_key i") auto
  then show ?case using ih one by (simp add: flushed_of_def)
qed

lemma FlushDeliveries_items:
  assumes "FlushDeliveries io t d = (fl, None, t', d')"
  obtains items where "collectUnflushed (fl_select io) t = Inr items" "flush_loop io items [] t d = (fl, None, t', d')"
    "items = map (\<lambda>r. \<lparr>sd_DMailPath = sr_dmail_path r, sd_Target = sr_target r, sd_Data = sr_data r\<rparr>)
               (filter (\<lambda>r. \<not> sr_flushed r \<and> sr_retry_count r < 3) t)"
proof -
  obtain items where items: "collectUnflushed (fl_select io) t = Inr items"
    using assms by (auto simp: FlushDeliveries_def split: sum.splits)
  then have "items = map (\<lambda>r. \<lparr>sd_DMailPath = sr_dmail_path r, sd_Target = sr_target r, sd_Data = sr_data r\<rparr>)
               (filter (\<lambda>r. \<not> sr_flushed r \<and> sr_retry_count r < 3) t)"
    by (simp add: collectUnflushed_def maxDeliveryRetryCount_def)
  moreover have "flush_loop io items [] t d = (fl, None, t', d')"
    using assms items by (auto simp: FlushDeliveries_def split: if_splits)
  ultimately show thesis using items that by blast
qed

lemma FlushDeliveries_rows:
  assumes "staged_inv d t" and "FlushDeliveries io t d = (fl, None, t', d')"
  shows "row_of sr_key t' k = map_option (\<lambda>r. if \<not> sr_flushed r \<and> sr_retry_count r < 3 then flush_row io r else r)
           (row_of sr_key t k)"
proof -
  let ?tried = "filter (\<lambda>r. \<not> sr_flushed r \<and> sr_retry_count r < 3) t"
  obtain items where items: "collectUnflushed (fl_select io) t = Inr items" "flush_loop io items [] t d = (fl, None, t', d')"
    and eq: "items = map (\<lambda>r. \<lparr>sd_DMailPath = sr_dmail_path r, sd_Target = sr_target r, sd_Data = sr_data r\<rparr>) ?tried"
    using FlushDeliveries_items[OF assms(2)] by blast
  have dist: "distinct (map sr_key t)" using assms(1) by (simp add: staged_inv_def)
  have keys: "item_key ` set items = sr_key ` set ?tried" by (force simp: eq item_key_def sr_key_def)
  note ok = flush_loop_ok[OF assms(1) items_ok_collect[OF assms(1) items(1)] items(2), unfolded keys, THEN conjunct1, rule_format, of k]
  show ?thesis
  proof (cases "row_of sr_key t k")
    case None
    then show ?thesis using ok by simp
  next
    case (Some r)
    then have r: "r \<in> set t" "sr_key r = k" by (auto dest: row_of_SomeD)
    have "s = r" if "s \<in> set t" "k = sr_key s" for s using row_of_unique[OF dist Some] that by simp
    then have "k \<in> sr_key ` set ?tried \<longleftrightarrow> \<not> sr_flushed r \<and> sr_retry_count r < 3"
      using r unfolding image_iff Bex_def set_filter mem_Collect_eq by metis
    then show ?thesis using ok Some by simp
  qed
qed

lemma FlushDeliveries_sent:
  assumes "staged_inv d t" and "FlushDeliveries io t d = (fl, None, t', d')"
  defines "sent \<equiv> filter (\<lambda>r. \<not> write_fails (fl_write io (sr_key r))) (filter (\<lambda>r. \<not> sr_flushed r \<and> sr_retry_count r < 3) t)"
  shows "map (\<lambda>f. (df_DMailPath f, df_Target f)) fl = map sr_key sent"
    and "dk_renamed d' = dk_renamed d @ map (\<lambda>r. (sr_target r, sr_data r)) sent"
proof -
  let ?tried = "filter (\<lambda>r. \<not> sr_flushed r \<and> sr_retry_count r < 3) t"
  obtain items where items: "collectUnflushed (fl_select io) t = Inr items" "flush_loop io items [] t d = (fl, None, t', d')"
    and eq: "items = map (\<lambda>r. \<lparr>sd_DMailPath = sr_dmail_path r, sd_Target = sr_target r, sd_Data = sr_data r\<rparr>) ?tried"
    using FlushDeliveries_items[OF assms(2)] by blast
  have fo: "flushed_of io items =
      map (\<lambda>r. \<lparr>sd_DMailPath = sr_dmail_path r, sd_Target = sr_target r, sd_Data = sr_data r\<rparr>) sent"
    by (simp add: flushed_of_def eq sent_def filter_map comp_def item_key_def sr_key_def)
  note ok = flush_loop_ok[OF assms(1) items_ok_collect[OF assms(1) items(1)] items(2), unfolded fo]
  show "map (\<lambda>f. (df_DMailPath f, df_Target f)) fl = map sr_key sent"
    using ok by (simp add: comp_def sr_key_def)
  show "dk_renamed d' = dk_renamed d @ map (\<lambda>r. (sr_target r, sr_data r)) sent"
    using ok by (simp add: comp_def)
qed

text \<open>Whatever the errors: data stay, flushed rows stay as they are, and what is reported is flushed.\<close>

definition row_grows :: "staged_table \<Rightarrow> staged_table \<Rightarrow> bool" where
  "row_grows t t' \<longleftrightarrow> (\<forall>k. rel_option (\<lambda>r r'. sr_data r' = sr_data r \<and> (sr_flushed r \<longrightarrow> sr_flushed r'))
                           (row_of sr_key t k) (row_of sr_key t' k))"

lemma row_grows_refl [simp]: "row_grows t t"
  by (auto simp: row_grows_def intro: option.rel_refl)

lemma row_grows_trans: "row_grows t u \<Longrightarrow> row_grows u v \<Longrightarrow> row_grows t v"
proof -
  assume a: "row_grows t u" "row_grows u v"
  show ?thesis
    unfolding row_grows_def
  proof
    fix k
    show "rel_option (\<lambda>r r'. sr_data r' = sr_data r \<and> (sr_flushed r \<longrightarrow> sr_flushed r'))
            (row_of sr_key t k) (row_of sr_key v k)"
      using a[unfolded row_grows_def, rule_format, of k]
      by (cases "row_of sr_key t k"; cases "row_of sr_key u k"; cases "row_of sr_key v k") auto
  qed
qed

definition row_flushed :: "staged_table \<Rightarrow> path \<times> path \<Rightarrow> bool" where
  "row_flushed t k \<longleftrightarrow> (\<exists>r. row_of sr_key t k = Some r \<and> sr_flushed r)"

lemma row_flushed_grows: "row_flushed t k \<Longrightarrow> row_grows t t' \<Longrightarrow> row_flushed t' k"
proof -
  assume "row_flushed t k" "row_grows t t'"
  then show ?thesis
    unfolding row_flushed_def row_grows_def
    by (metis (no_types, lifting) option.rel_cases option.distinct(1) option.inject)
qed

lemma flush_one_grows:
  assumes "items_ok (i # items) t" and "flush_one io i t d = (e, f, t', d')"
  shows "row_grows t t' \<and> (\<forall>x \<in> set f. row_flushed t' (df_DMailPath x, df_Target x))"
proof -
  obtain r where r: "row_of sr_key t (item_key i) = Some r" using assms(1) by (auto simp: items_ok_def)
  have inc: "row_grows t (update_where (\<lambda>r. sr_key r = item_key i) (\<lambda>r. r\<lparr>sr_retry_count := sr_retry_count r + 1\<rparr>) t)"
    unfolding row_grows_def row_of_inc using r by (auto intro: option.rel_refl)
  have mark: "row_grows t (update_where (\<lambda>r. sr_key r = item_key i) (\<lambda>r. r\<lparr>sr_flushed := True\<rparr>) t)"
    unfolding row_grows_def row_of_mark using r by (auto intro: option.rel_refl)
  have "row_flushed (update_where (\<lambda>r. sr_key r = item_key i) (\<lambda>r. r\<lparr>sr_flushed := True\<rparr>) t) (item_key i)"
    unfolding row_flushed_def row_of_mark using r by simp
  then show ?thesis
    using flush_one_cases[of io i t d] assms(2) inc mark by (auto simp: item_key_def)
qed

lemma flush_loop_grows:
  "staged_inv d t \<Longrightarrow> items_ok items t \<Longrightarrow> flush_loop io items fl t d = (fl', e, t', d') \<Longrightarrow>
   row_grows t t' \<and> (\<forall>x \<in> set fl'. x \<in> set fl \<or> row_flushed t' (df_DMailPath x, df_Target x))"
proof (induction items arbitrary: fl t d)
  case (Cons i items)
  obtain e1 f1 t1 d1 where f: "flush_one io i t d = (e1, f1, t1, d1)" by (cases "flush_one io i t d")
  note inv = flush_one_inv[OF Cons.prems(1,2) f]
  note grows = flush_one_grows[OF Cons.prems(2) f]
  show ?case
  proof (cases e1)
    case None
    then have rest: "flush_loop io items (fl @ f1) t1 d1 = (fl', e, t', d')" using Cons.prems(3) f by simp
    with Cons.IH inv have "row_grows t1 t'" and "\<forall>x \<in> set fl'. x \<in> set (fl @ f1) \<or> row_flushed t' (df_DMailPath x, df_Target x)"
      by blast+
    then show ?thesis using grows row_grows_trans row_flushed_grows by (auto, blast)
  next
    case (Some x)
    then show ?thesis using Cons.prems(3) f grows by auto
  qed
qed auto

lemma FlushDeliveries_grows:
  assumes "staged_inv d t" and "FlushDeliveries io t d = (fl, e, t', d')"
  shows "row_grows t t' \<and> (\<forall>x \<in> set fl. row_flushed t' (df_DMailPath x, df_Target x))"
proof (cases "collectUnflushed (fl_select io) t")
  case (Inl x)
  then show ?thesis using assms by (auto simp: FlushDeliveries_def)
next
  case (Inr items)
  then show ?thesis
    using assms flush_loop_grows[OF assms(1) items_ok_collect[OF assms(1) Inr], of io "[]" fl e t' d']
    by (auto simp: FlushDeliveries_def split: if_splits)
qed

text \<open>Only collected items are reported.\<close>

lemma flush_loop_reported:
  "flush_loop io items fl t d = (fl', e, t', d') \<Longrightarrow>
   \<forall>x \<in> set fl'. x \<in> set fl \<or> (df_DMailPath x, df_Target x) \<in> item_key ` set items"
proof (induction items arbitrary: fl t d)
  case (Cons i items)
  obtain e1 f1 t1 d1 where f: "flush_one io i t d = (e1, f1, t1, d1)" by (cases "flush_one io i t d")
  have f1: "\<forall>x \<in> set f1. (df_DMailPath x, df_Target x) = item_key i"
    using flush_one_cases[of io i t d] f by (auto simp: item_key_def)
  show ?case
  proof (cases e1)
    case None
    then have "flush_loop io items (fl @ f1) t1 d1 = (fl', e, t', d')" using Cons.prems f by simp
    from Cons.IH[OF this] f1 show ?thesis by auto
  next
    case (Some x)
    then show ?thesis using Cons.prems f by auto
  qed
qed auto

lemma FlushDeliveries_reported:
  assumes "FlushDeliveries io t d = (fl, e, t', d')" and "x \<in> set fl"
  shows "\<exists>r \<in> set t. sr_key r = (df_DMailPath x, df_Target x) \<and> \<not> sr_flushed r"
proof -
  obtain items where items: "collectUnflushed (fl_select io) t = Inr items" "flush_loop io items [] t d = (fl, e, t', d')"
    using assms by (auto simp: FlushDeliveries_def split: sum.splits if_splits)
  then have "(df_DMailPath x, df_Target x) \<in> item_key ` set items"
    using flush_loop_reported[OF items(2)] assms(2) by auto
  then obtain i where "i \<in> set items" "item_key i = (df_DMailPath x, df_Target x)" by (metis imageE)
  with items(1) show ?thesis by (auto simp: collectUnflushed_def item_key_def sr_key_def)
qed

text \<open>A flush removes no D-Mail file: its temporary files are none.\<close>

definition suffixes_ok :: "flush_io \<Rightarrow> bool" where
  "suffixes_ok io \<longleftrightarrow> (\<forall>k. CHR ''/'' \<notin> set (wi_suffix (fl_write io k)))"

lemma atomicWrite_keeps_dmail:
  "CHR ''/'' \<notin> set (wi_suffix io) \<Longrightarrow> IsDMailFile p \<Longrightarrow> dk_files d p \<noteq> None \<Longrightarrow>
   dk_files (snd (atomicWrite io x b d)) p \<noteq> None"
  using atomicWrite_other_files[of io p x b d] atomicWrite_success[of io x b d] atomicWrite_failure[of io x b d p]
    tmp_path_not_dmail[of io x] by (cases "p = x"; cases "write_fails io") auto

lemma flush_loop_keeps_dmail:
  "suffixes_ok io \<Longrightarrow> IsDMailFile p \<Longrightarrow> dk_files d p \<noteq> None \<Longrightarrow> flush_loop io items fl t d = (fl', e, t', d') \<Longrightarrow>
   dk_files d' p \<noteq> None"
proof (induction items arbitrary: fl t d)
  case (Cons i items)
  obtain e1 f1 t1 d1 where f: "flush_one io i t d = (e1, f1, t1, d1)" by (cases "flush_one io i t d")
  have "d1 = snd (atomicWrite (fl_write io (item_key i)) (sd_Target i) (sd_Data i) d)"
    using flush_one_cases[of io i t d] f by auto
  then have "dk_files d1 p \<noteq> None"
    using Cons.prems(1-3) atomicWrite_keeps_dmail unfolding suffixes_ok_def by blast
  with Cons f show ?case by (cases e1) auto
qed simp

lemma FlushDeliveries_keeps_dmail:
  "suffixes_ok io \<Longrightarrow> IsDMailFile p \<Longrightarrow> dk_files d p \<noteq> None \<Longrightarrow> FlushDeliveries io t d = (fl, e, t', d') \<Longrightarrow>
   dk_files d' p \<noteq> None"
proof (cases "collectUnflushed (fl_select io) t")
  case (Inr items)
  assume a: "suffixes_ok io" "IsDMailFile p" "dk_files d p \<noteq> None" "FlushDeliveries io t d = (fl, e, t', d')"
  show ?thesis
  proof (cases "items = []")
    case True
    then show ?thesis using a(3,4) Inr by (simp add: FlushDeliveries_def)
  next
    case False
    then have "flush_loop io items [] t d = (fl, e, t', d')" using a(4) Inr by (simp add: FlushDeliveries_def)
    then show ?thesis by (rule flush_loop_keeps_dmail[OF a(1-3)])
  qed
qed (simp add: FlushDeliveries_def)

text \<open>Without errors of the database the flush runs to its end.\<close>

definition db_ok :: "flush_io \<Rightarrow> bool" where
  "db_ok io \<longleftrightarrow> fl_select io = None \<and> (\<forall>k. fl_mark io k = tx_ok \<and> fl_inc io k = tx_ok)"

lemma flush_loop_db_ok: "db_ok io \<Longrightarrow> flush_loop io items fl t d = (fl', e, t', d') \<Longrightarrow> e = None"
proof (induction items arbitrary: fl t d)
  case (Cons i items)
  obtain e1 f1 t1 d1 where f: "flush_one io i t d = (e1, f1, t1, d1)" by (cases "flush_one io i t d")
  have tx: "fl_inc io k = tx_ok" "fl_mark io k = tx_ok" for k
    using Cons.prems(1) unfolding db_ok_def by blast+
  have "fst (flush_one io i t d) = None"
    unfolding flush_one_def Let_def incrementRetryCount_def markFlushed_def tx in_tx_ok
    by (simp split: prod.splits sum.splits)
  then have "e1 = None" using f by simp
  with Cons f show ?case by auto
qed simp

lemma FlushDeliveries_db_ok: "db_ok io \<Longrightarrow> FlushDeliveries io t d = (fl, e, t', d') \<Longrightarrow> e = None"
  unfolding FlushDeliveries_def using flush_loop_db_ok[of io _ "[]" t d fl e t' d']
  by (auto simp: collectUnflushed_def query_def db_ok_def split: if_splits)

section \<open>The contract of the store\<close>

text \<open>
  What the delivery pipeline relies on: the store is a map from \<open>(dmail_path, target)\<close> to the data and whether they
  were delivered. Staging keeps an entry that was delivered with the same data and otherwise (re)opens it.
\<close>

locale staging_store =
  fixes stage :: "path \<Rightarrow> bytes \<Rightarrow> path \<Rightarrow> 't \<Rightarrow> 't"
    and mark :: "path \<times> path \<Rightarrow> 't \<Rightarrow> 't"
    and state :: "'t \<Rightarrow> path \<times> path \<Rightarrow> (bytes \<times> bool) option"
  assumes state_stage: "state (stage p b x t) k =
            (if k = (p, x) then Some (b, state t k = Some (b, True)) else state t k)"
    and state_mark: "state (mark k t) k' = (if k' = k then map_option (\<lambda>(b, _). (b, True)) (state t k) else state t k')"
begin

lemma stage_all:
  "state (fold (stage p b) xs t) k =
     (if fst k = p \<and> snd k \<in> set xs then Some (b, state t k = Some (b, True)) else state t k)"
proof (induction xs arbitrary: t)
  case (Cons x xs)
  show ?case by (auto simp: Cons.IH state_stage prod_eq_iff)
qed simp

lemma mark_all:
  "state (fold mark ks t) k = (if k \<in> set ks then map_option (\<lambda>(b, _). (b, True)) (state t k) else state t k)"
proof (induction ks arbitrary: t)
  case (Cons k' ks)
  show ?case by (cases "state t k") (auto simp: Cons.IH state_mark)
qed simp

lemma stage_idem: "state (fold (stage p b) xs (fold (stage p b) xs t)) = state (fold (stage p b) xs t)"
  by (rule ext) (simp add: stage_all)

lemma stage_mark_delivered:
  "x \<in> set xs \<Longrightarrow> state (fold mark (map (Pair p) xs) (fold (stage p b) xs t)) (p, x) = Some (b, True)"
  by (simp add: mark_all stage_all)

lemma restage_delivered_noop:
  "\<forall>x \<in> set xs. state t (p, x) = Some (b, True) \<Longrightarrow> state (fold (stage p b) xs t) = state t"
  by (rule ext) (auto simp: stage_all prod_eq_iff)

end

definition staged_state :: "staged_table \<Rightarrow> path \<times> path \<Rightarrow> (bytes \<times> bool) option" where
  "staged_state t k = map_option (\<lambda>r. (sr_data r, sr_flushed r)) (row_of sr_key t k)"

definition mark_row :: "path \<times> path \<Rightarrow> staged_table \<Rightarrow> staged_table" where
  "mark_row k t = update_where (\<lambda>r. sr_key r = k) (\<lambda>r. r\<lparr>sr_flushed := True\<rparr>) t"

interpretation staged: staging_store stage_row mark_row staged_state
proof
  fix p b x t k
  show "staged_state (stage_row p b x t) k =
          (if k = (p, x) then Some (b, staged_state t k = Some (b, True)) else staged_state t k)"
    by (auto simp: staged_state_def row_of_stage_row split: option.splits)
next
  fix k k' t
  show "staged_state (mark_row k t) k' =
          (if k' = k then map_option (\<lambda>(b, _). (b, True)) (staged_state t k) else staged_state t k')"
    by (cases "row_of sr_key t k") (auto simp: staged_state_def mark_row_def row_of_mark)
qed

lemma staged_state_grows:
  "row_grows t t' \<Longrightarrow> staged_state t k = Some (b, True) \<Longrightarrow> staged_state t' k = Some (b, True)"
proof -
  assume "row_grows t t'" and s: "staged_state t k = Some (b, True)"
  then have "rel_option (\<lambda>r r'. sr_data r' = sr_data r \<and> (sr_flushed r \<longrightarrow> sr_flushed r'))
      (row_of sr_key t k) (row_of sr_key t' k)" unfolding row_grows_def by blast
  with s show ?thesis
    by (cases "row_of sr_key t k"; cases "row_of sr_key t' k") (auto simp: staged_state_def)
qed

section \<open>Properties\<close>

text \<open>C33: \<open>StageDelivery\<close> is one transaction: it reports an error and the table is unchanged, or it succeeds and
  each target has an entry with the new data that counts as delivered only if it already was with
  the same data, while the entries of all other D-Mails and targets are unchanged.\<close>

theorem StageDelivery_transaction:
  "case StageDelivery io p b xs t of
     (Inl e, t') \<Rightarrow> t' = t
   | (Inr _, t') \<Rightarrow>
       staged_state t' = (\<lambda>k. if fst k = p \<and> snd k \<in> set xs then Some (b, staged_state t k = Some (b, True))
                              else staged_state t k)"
  using StageDelivery_cases[of io p b xs t] by (auto simp: staged.stage_all fun_eq_iff)

text \<open>C32: \<open>FlushDeliveries\<close> without a database error, from any state that satisfies the table invariant:
  exactly the unflushed rows below the retry limit are tried; those whose write succeeds become flushed,
  are reported, and their data are renamed onto their target; the others gain one retry; no other row changes;
  and the invariant still holds.\<close>

theorem FlushDeliveries_exact:
  assumes "staged_inv d t" and "FlushDeliveries io t d = (fl, None, t', d')"
  defines "tried \<equiv> filter (\<lambda>r. \<not> sr_flushed r \<and> sr_retry_count r < 3) t"
  defines "sent \<equiv> filter (\<lambda>r. \<not> write_fails (fl_write io (sr_key r))) tried"
  shows "row_of sr_key t' k = map_option (\<lambda>r. if \<not> sr_flushed r \<and> sr_retry_count r < 3
            then (if write_fails (fl_write io k) then r\<lparr>sr_retry_count := sr_retry_count r + 1\<rparr> else r\<lparr>sr_flushed := True\<rparr>)
            else r) (row_of sr_key t k) \<and>
         map (\<lambda>f. (df_DMailPath f, df_Target f)) fl = map sr_key sent \<and>
         dk_renamed d' = dk_renamed d @ map (\<lambda>r. (sr_target r, sr_data r)) sent \<and>
         staged_inv d' t'"
  using FlushDeliveries_rows[OF assms(1,2), of k] FlushDeliveries_sent[OF assms(1,2)] FlushDeliveries_inv[OF assms(1,2)]
  unfolding tried_def sent_def
  by (cases "row_of sr_key t k") (auto simp: flush_row_def dest: row_of_SomeD)

definition all_writes_ok :: flush_io where
  "all_writes_ok = \<lparr>fl_select = None, fl_write = (\<lambda>_. write_ok), fl_mark = (\<lambda>_. tx_ok), fl_inc = (\<lambda>_. tx_ok)\<rparr>"

definition sample_row :: staged_row where
  "sample_row = \<lparr>sr_dmail_path = ''/r/.siren/outbox/a.md'', sr_target = ''/r/.gate/inbox/a.md'', sr_data = ''x'',
     sr_flushed = False, sr_retry_count = 2\<rparr>"

definition empty_disk :: disk where
  "empty_disk = \<lparr>dk_files = Map.empty, dk_renamed = []\<rparr>"

theorem FlushDeliveries_exact_witness:
  "\<exists>fl t' d'. FlushDeliveries all_writes_ok [sample_row] empty_disk = (fl, None, t', d') \<and>
     dk_renamed d' = [(''/r/.gate/inbox/a.md'', ''x'')] \<and> staged_inv d' t'"
proof -
  have inv: "staged_inv empty_disk [sample_row]"
    by (simp add: staged_inv_def sample_row_def maxDeliveryRetryCount_def)
  obtain fl e t' d' where f: "FlushDeliveries all_writes_ok [sample_row] empty_disk = (fl, e, t', d')"
    by (cases "FlushDeliveries all_writes_ok [sample_row] empty_disk")
  have "e = None"
    using f by (simp add: FlushDeliveries_def collectUnflushed_def query_def all_writes_ok_def sample_row_def
        maxDeliveryRetryCount_def flush_one_def atomicWrite_success markFlushed_def Let_def)
  then have f': "FlushDeliveries all_writes_ok [sample_row] empty_disk = (fl, None, t', d')" using f by simp
  from FlushDeliveries_exact[OF inv f'] have
    "dk_renamed d' = [(''/r/.gate/inbox/a.md'', ''x'')] \<and> staged_inv d' t'"
    by (simp add: sample_row_def all_writes_ok_def empty_disk_def)
  with f' show ?thesis by blast
qed

text \<open>Dead letters are exactly the unflushed rows the flush no longer tries: their number and the number of
  rows a flush collects add up to the rows \<open>RecoverUnflushed\<close> reports, purging removes all of them and
  nothing else, and pruning removes exactly the flushed rows.\<close>

theorem dead_letters_partition:
  "(\<exists>n items rec. DeadLetterCount None t = Inr n \<and> collectUnflushed None t = Inr items \<and>
      RecoverUnflushed None t = Inr rec \<and> n + int (length items) = int (length rec)) \<and>
   PurgeDeadLetters None None t =
     (DeadLetterCount None t, filter (\<lambda>r. sr_flushed r \<or> sr_retry_count r < 3) t) \<and>
   DeadLetterCount None (snd (PurgeDeadLetters None None t)) = Inr 0 \<and>
   PruneFlushed tx_ok None None t = ((int (length (filter sr_flushed t)), None), filter (\<lambda>r. \<not> sr_flushed r) t)"
proof (intro conjI)
  have "length (filter is_dead_letter t) + length (filter (\<lambda>r. \<not> sr_flushed r \<and> sr_retry_count r < 3) t) =
        length (filter (\<lambda>r. \<not> sr_flushed r) t)"
    by (induction t) (auto simp: is_dead_letter_def maxDeliveryRetryCount_def)
  then show "\<exists>n items rec. DeadLetterCount None t = Inr n \<and> collectUnflushed None t = Inr items \<and>
      RecoverUnflushed None t = Inr rec \<and> n + int (length items) = int (length rec)"
    by (simp add: DeadLetterCount_def collectUnflushed_def RecoverUnflushed_def query_def maxDeliveryRetryCount_def)
  have "(\<not> is_dead_letter r) = (sr_flushed r \<or> sr_retry_count r < 3)" for r
    by (auto simp: is_dead_letter_def maxDeliveryRetryCount_def)
  then show "PurgeDeadLetters None None t =
     (DeadLetterCount None t, filter (\<lambda>r. sr_flushed r \<or> sr_retry_count r < 3) t)"
    by (simp add: PurgeDeadLetters_def DeadLetterCount_def query_def Let_def)
  show "DeadLetterCount None (snd (PurgeDeadLetters None None t)) = Inr 0"
    by (simp add: PurgeDeadLetters_def DeadLetterCount_def query_def Let_def)
  show "PruneFlushed tx_ok None None t = ((int (length (filter sr_flushed t)), None), filter (\<lambda>r. \<not> sr_flushed r) t)"
    by (simp add: PruneFlushed_def deleteFlushedRows_def)
qed

end
