(* ===== verification/DedupStore.thy ===== *)
theory DedupStore
  imports Sql DMail
begin

text \<open>
  The exact deduplication of deliveries (\<open>src/internal/session/delivery_dedup_store.go\<close>): the table
  \<open>delivery_log\<close> with primary key \<open>(idempotency_key, target)\<close>. The instant is kept instead of its text.
\<close>

record dedup_row =
  dl_idempotency_key :: string
  dl_target :: path
  dl_delivered_at :: time

type_synonym dedup_table = "dedup_row list"

definition dl_key :: "dedup_row \<Rightarrow> string \<times> path" where
  "dl_key r = (dl_idempotency_key r, dl_target r)"

definition HasDelivered :: "go_error option \<Rightarrow> string \<Rightarrow> path \<Rightarrow> dedup_table \<Rightarrow> bool result" where
  "HasDelivered err idempotencyKey target t =
     query ''delivery dedup: has delivered: '' err
       (length (filter (\<lambda>r. dl_key r = (idempotencyKey, target)) t) > 0)"

definition RecordDelivery :: "go_error option \<Rightarrow> time \<Rightarrow> string \<Rightarrow> path \<Rightarrow> dedup_table \<Rightarrow> unit result \<times> dedup_table" where
  "RecordDelivery err now idempotencyKey target t =
     (case err of
        Some e \<Rightarrow> (Inl (wrapf ''delivery dedup: record: '' e), t)
      | None \<Rightarrow> (Inr (), insert_ignore dl_key
                   \<lparr>dl_idempotency_key = idempotencyKey, dl_target = target, dl_delivered_at = now\<rparr> t))"

interpretation dedup: insert_or_ignore "insert_ignore dl_key" dl_key "row_of dl_key"
  by unfold_locales (rule row_of_insert_ignore)

text \<open>The pairs on record.\<close>

definition recorded :: "dedup_table \<Rightarrow> (string \<times> path) set" where
  "recorded t = dl_key ` set t"

lemma HasDelivered_iff: "HasDelivered err k x t = Inr b \<longleftrightarrow> err = None \<and> b = ((k, x) \<in> recorded t)"
proof -
  have "(0 < length (filter (\<lambda>r. dl_key r = (k, x)) t)) = ((k, x) \<in> recorded t)"
    unfolding recorded_def length_greater_0_conv filter_empty_conv image_iff by metis
  then show ?thesis by (simp add: HasDelivered_def)
qed

lemma HasDelivered_None: "HasDelivered None k x t = Inr ((k, x) \<in> recorded t)"
  by (simp add: HasDelivered_iff)

lemma recorded_insert: "recorded (insert_ignore dl_key r t) = insert (dl_key r) (recorded t)"
  unfolding recorded_def insert_ignore_def by (auto simp: row_of_None_iff)

lemma recorded_RecordDelivery:
  "recorded (snd (RecordDelivery err now k x t)) = (if err = None then insert (k, x) (recorded t) else recorded t)"
  by (auto simp: RecordDelivery_def recorded_insert dl_key_def split: option.splits)

lemma RecordDelivery_result: "isl (fst (RecordDelivery err now k x t)) \<longleftrightarrow> err \<noteq> None"
  by (auto simp: RecordDelivery_def split: option.splits)

end
