(* ===== verification/Sha256.thy ===== *)
theory Sha256
  imports GoStrings
begin

text \<open>
  Go's \<open>crypto/sha256.Sum256\<close> and \<open>encoding/hex.EncodeToString\<close> (FIPS 180-4, on 32-bit words),
  and the idempotency key phonewave computes with them
  (\<open>src/internal/domain/idempotency_key.go\<close>).
\<close>

type_synonym u32 = "32 word"
type_synonym sha_state = "u32 \<times> u32 \<times> u32 \<times> u32 \<times> u32 \<times> u32 \<times> u32 \<times> u32"

text \<open>
  The constants are computed from their definition: the first 32 bits of the fractional parts of the cube
  roots of the first 64 primes, and of the square roots of the first eight.
\<close>

fun root_from :: "nat \<Rightarrow> nat \<Rightarrow> nat \<Rightarrow> nat \<Rightarrow> nat" where
  "root_from e n 0 acc = acc"
| "root_from e n (Suc b) acc = (let c = acc + 2 ^ b in root_from e n b (if c ^ e \<le> n then c else acc))"

definition root_fraction :: "nat \<Rightarrow> nat \<Rightarrow> u32" where
  "root_fraction e p = word_of_nat (root_from e (p * 2 ^ (32 * e)) 40 0)"

definition small_primes :: "nat list" where
  "small_primes = filter (\<lambda>n. list_all (\<lambda>d. n mod d \<noteq> 0) [2..<n]) [2..<312]"

definition sha_K :: "u32 list" where
  "sha_K = map (root_fraction 3) small_primes"

definition sha_H0 :: sha_state where
  "sha_H0 = (let h = root_fraction 2 in (h 2, h 3, h 5, h 7, h 11, h 13, h 17, h 19))"

definition be_bytes :: "nat list \<Rightarrow> 'a::len word \<Rightarrow> bytes" where
  "be_bytes shifts x = map (\<lambda>i. char_of (unat (drop_bit i x AND 255))) shifts"

definition sha_pad :: "bytes \<Rightarrow> bytes" where
  "sha_pad m = m @ [CHR 0x80] @ replicate ((119 - length m mod 64) mod 64) (CHR 0x00)
                 @ be_bytes [56, 48, 40, 32, 24, 16, 8, 0] (8 * of_nat (length m) :: u64)"

fun be_words :: "bytes \<Rightarrow> u32 list" where
  "be_words (a # b # c # d # s) =
     (push_bit 24 (of_char a) OR push_bit 16 (of_char b) OR push_bit 8 (of_char c) OR of_char d)
       # be_words s"
| "be_words _ = []"

text \<open>The message schedule, with the latest word first.\<close>

definition sched_step :: "u32 list \<Rightarrow> u32 list" where
  "sched_step ws =
     (let w2 = ws ! 1; w15 = ws ! 14;
          s0 = word_rotr 7 w15 XOR word_rotr 18 w15 XOR drop_bit 3 w15;
          s1 = word_rotr 17 w2 XOR word_rotr 19 w2 XOR drop_bit 10 w2
      in (s1 + ws ! 6 + s0 + ws ! 15) # ws)"

definition sha_schedule :: "u32 list \<Rightarrow> u32 list" where
  "sha_schedule block = rev ((sched_step ^^ 48) (rev block))"

fun sha_round :: "sha_state \<Rightarrow> u32 \<times> u32 \<Rightarrow> sha_state" where
  "sha_round (a, b, c, d, e, f, g, h) (k, w) =
     (let s1 = word_rotr 6 e XOR word_rotr 11 e XOR word_rotr 25 e;
          ch = (e AND f) XOR (NOT e AND g);
          t1 = h + s1 + ch + k + w;
          s0 = word_rotr 2 a XOR word_rotr 13 a XOR word_rotr 22 a;
          maj = (a AND b) XOR (a AND c) XOR (b AND c);
          t2 = s0 + maj
      in (t1 + t2, a, b, c, d + t1, e, f, g))"

fun sha_add :: "sha_state \<Rightarrow> sha_state \<Rightarrow> sha_state" where
  "sha_add (a, b, c, d, e, f, g, h) (a', b', c', d', e', f', g', h') =
     (a + a', b + b', c + c', d + d', e + e', f + f', g + g', h + h')"

definition sha_block :: "sha_state \<Rightarrow> u32 list \<Rightarrow> sha_state" where
  "sha_block st block = sha_add st (foldl sha_round st (zip sha_K (sha_schedule block)))"

function sha_blocks :: "sha_state \<Rightarrow> u32 list \<Rightarrow> sha_state" where
  "sha_blocks st ws = (if length ws < 16 then st else sha_blocks (sha_block st (take 16 ws)) (drop 16 ws))"
  by pat_completeness auto
termination
  by (relation "measure (\<lambda>(st, ws). length ws)") auto

declare sha_blocks.simps [simp del]

fun sha_out :: "sha_state \<Rightarrow> u32 list" where
  "sha_out (a, b, c, d, e, f, g, h) = [a, b, c, d, e, f, g, h]"

definition Sum256 :: "bytes \<Rightarrow> bytes" where
  "Sum256 m = concat (map (\<lambda>w. be_bytes [24, 16, 8, 0] w) (sha_out (sha_blocks sha_H0 (be_words (sha_pad m)))))"

definition EncodeToString :: "bytes \<Rightarrow> string" where
  "EncodeToString bs = concat (map hex_byte bs)"

definition ContentIdempotencyKey :: "bytes \<Rightarrow> string" where
  "ContentIdempotencyKey data = EncodeToString (Sum256 data)"

text \<open>A key always has 64 hexadecimal characters, so taking its first eight never fails.\<close>

lemma length_be_bytes [simp]: "length (be_bytes shifts x) = length shifts"
  by (simp add: be_bytes_def)

lemma length_Sum256 [simp]: "length (Sum256 m) = 32"
proof -
  obtain a b c d e f g h where "sha_blocks sha_H0 (be_words (sha_pad m)) = (a, b, c, d, e, f, g, h)"
    by (cases "sha_blocks sha_H0 (be_words (sha_pad m))") auto
  then show ?thesis by (simp add: Sum256_def)
qed

lemma length_ContentIdempotencyKey [simp]: "length (ContentIdempotencyKey m) = 64"
proof -
  have "length (EncodeToString bs) = 2 * length bs" for bs
    by (induction bs) (auto simp: EncodeToString_def hex_byte_def)
  then show ?thesis by (simp add: ContentIdempotencyKey_def)
qed

end
