(* ===== verification/Deliver.thy ===== *)
theory Deliver
  imports Routing Improvement CircuitBreaker DeliveryStore DedupStore Sha256
begin

text \<open>
  Delivery of one D-Mail (\<open>src/internal/session/deliver.go\<close>) and the classification of its errors
  (\<open>classify_delivery_error.go\<close>): parse and validate, find the route, select the inboxes, skip those that already
  have the content, stage, flush, record, and remove the source. The state is the staged table, the
  delivery log and the disk; what the database and the file system answer is the argument \<open>io\<close>.
\<close>

section \<open>State\<close>

record pipeline =
  pl_staged :: staged_table
  pl_dedup :: dedup_table
  pl_disk :: disk

record deliver_io =
  di_has :: "path \<Rightarrow> go_error option"
  di_stage :: stage_io
  di_flush :: flush_io
  di_all :: "go_error option"
  di_record :: "path \<Rightarrow> go_error option"
  di_now :: time
  di_remove :: "go_error option"

section \<open>The steps of the handler\<close>

definition parse_dmail :: "yaml_decoder \<Rightarrow> path \<Rightarrow> bytes \<Rightarrow> dmail_frontmatter result" where
  "parse_dmail yaml dmailPath data =
     (case ParseDMailFrontmatter yaml data of
        Inl e \<Rightarrow> Inl (wrapf (''parse D-Mail '' @ dmailPath @ '': '') e)
      | Inr fm \<Rightarrow>
          if fm_SchemaVersion fm = []
          then Inl (errorf (''parse D-Mail '' @ dmailPath @ '': D-Mail missing required 'dmail-schema-version' field''))
          else if fm_SchemaVersion fm \<noteq> SupportedDMailSchemaVersion
          then Inl (errorf (''parse D-Mail '' @ dmailPath @ '': unsupported dmail-schema-version ''
                      @ Quote (fm_SchemaVersion fm) @ '': only '' @ Quote SupportedDMailSchemaVersion @ '' is supported''))
          else if fm_Kind fm = []
          then Inl (errorf (''parse D-Mail '' @ dmailPath @ '': D-Mail missing required 'kind' field''))
          else (case ParseDMailKind (fm_Kind fm) of
                  Inl e \<Rightarrow> Inl (wrapf (''parse D-Mail '' @ dmailPath @ '': '') e)
                | Inr _ \<Rightarrow> Inr fm))"

definition find_route :: "resolved_route list \<Rightarrow> dmail_kind \<Rightarrow> path \<Rightarrow> resolved_route option" where
  "find_route routes kind sourceDir = List.find (\<lambda>r. rr_Kind r = kind \<and> rr_FromOutbox r = sourceDir) routes"

text \<open>The loop that keeps the inboxes without a record; a read error aborts it.\<close>

fun undelivered :: "deliver_io \<Rightarrow> string \<Rightarrow> dedup_table \<Rightarrow> path list \<Rightarrow> path list result" where
  "undelivered io key t [] = Inr []"
| "undelivered io key t (inbox # inboxes) =
     (case HasDelivered (di_has io inbox) key inbox t of
        Inl e \<Rightarrow> Inl (wrapf (''dedup read '' @ inbox @ '': '') e)
      | Inr delivered \<Rightarrow>
          (case undelivered io key t inboxes of
             Inl e \<Rightarrow> Inl e
           | Inr remaining \<Rightarrow> Inr (if delivered then remaining else inbox # remaining)))"

fun recordDedupForTargets :: "deliver_io \<Rightarrow> string \<Rightarrow> path list \<Rightarrow> dedup_table \<Rightarrow> bool \<times> dedup_table" where
  "recordDedupForTargets io key [] t = (True, t)"
| "recordDedupForTargets io key (inbox # inboxes) t =
     (case RecordDelivery (di_record io inbox) (di_now io) key inbox t of
        (r, t') \<Rightarrow> (case recordDedupForTargets io key inboxes t' of
                     (ok, t'') \<Rightarrow> (\<not> isl r \<and> ok, t'')))"

text \<open>The targets of this D-Mail among the flushed items, and the inboxes to record: those just flushed and,
  when all rows are flushed, those that were flushed before.\<close>

definition delivered_to :: "path \<Rightarrow> delivery_flushed list \<Rightarrow> path list" where
  "delivered_to dmailPath flushed = map df_Target (filter (\<lambda>f. df_DMailPath f = dmailPath) flushed)"

definition all_done :: "deliver_io \<Rightarrow> path \<Rightarrow> staged_table \<Rightarrow> bool" where
  "all_done io dmailPath t = (case AllFlushedFor (di_all io) dmailPath t of Inl _ \<Rightarrow> False | Inr b \<Rightarrow> b)"

definition dedup_targets :: "bool \<Rightarrow> path list \<Rightarrow> path list \<Rightarrow> path list" where
  "dedup_targets allDone deliveredTo targetInboxes =
     (let newly = map Dir deliveredTo
      in newly @ (if allDone then filter (\<lambda>inbox. inbox \<notin> set newly) targetInboxes else []))"

definition record_dedup :: "deliver_io \<Rightarrow> bool \<Rightarrow> string \<Rightarrow> path list \<Rightarrow> dedup_table \<Rightarrow> bool \<times> dedup_table" where
  "record_dedup io dedup key targets l = (if dedup then recordDedupForTargets io key targets l else (True, l))"

definition remove_source ::
  "deliver_io \<Rightarrow> path \<Rightarrow> delivery_result \<Rightarrow> pipeline \<Rightarrow> (delivery_result option \<times> go_error option) \<times> pipeline" where
  "remove_source io dmailPath result s =
     (case os_Remove (di_remove io) dmailPath (pl_disk s) of
        (Inl e, d) \<Rightarrow>
          if errors_Is e ErrNotExist then ((Some result, None), s\<lparr>pl_disk := d\<rparr>)
          else ((Some result, Some (wrapf (''remove source '' @ dmailPath @ '': '') e)), s\<lparr>pl_disk := d\<rparr>)
      | (Inr _, d) \<Rightarrow> ((Some result, None), s\<lparr>pl_disk := d\<rparr>))"

text \<open>Staging, flushing, recording and removing the source, for the inboxes that are left.\<close>

definition stage_and_flush ::
  "deliver_io \<Rightarrow> bool \<Rightarrow> string \<Rightarrow> delivery_result \<Rightarrow> path \<Rightarrow> bytes \<Rightarrow> path list \<Rightarrow> pipeline \<Rightarrow>
   (delivery_result option \<times> go_error option) \<times> pipeline" where
  "stage_and_flush io dedup key result dmailPath data targetInboxes s =
     (let targetPaths = map (\<lambda>inbox. path_Join [inbox, Base dmailPath]) targetInboxes
      in case StageDelivery (di_stage io) dmailPath data targetPaths (pl_staged s) of
           (Inl e, t) \<Rightarrow> ((None, Some (wrapf (''stage delivery '' @ dmailPath @ '': '') e)), s\<lparr>pl_staged := t\<rparr>)
         | (Inr _, t) \<Rightarrow>
             (case FlushDeliveries (di_flush io) t (pl_disk s) of
                (flushed, flushErr, t, d) \<Rightarrow>
                  let result = result\<lparr>dr_DeliveredTo := delivered_to dmailPath flushed\<rparr>;
                      allDone = all_done io dmailPath t
                  in (case record_dedup io dedup key
                             (dedup_targets allDone (dr_DeliveredTo result) targetInboxes) (pl_dedup s) of
                        (allRecorded, log) \<Rightarrow>
                          let s = s\<lparr>pl_staged := t, pl_dedup := log, pl_disk := d\<rparr>
                          in if allDone \<and> allRecorded then remove_source io dmailPath result s
                             else ((Some result, None), s))))"

definition DeliverData ::
  "yaml_decoder \<Rightarrow> deliver_io \<Rightarrow> path \<Rightarrow> bytes \<Rightarrow> resolved_route list \<Rightarrow> bool \<Rightarrow> pipeline \<Rightarrow>
   (delivery_result option \<times> go_error option) \<times> pipeline" where
  "DeliverData yaml io dmailPath data routes dedup s =
     (case parse_dmail yaml dmailPath data of
        Inl e \<Rightarrow> ((None, Some e), s)
      | Inr fm \<Rightarrow>
          let kind = fm_Kind fm;
              metadata = CorrectionMetadataFromMap (fm_Metadata fm);
              sourceDir = Dir dmailPath
          in case find_route routes kind sourceDir of
               None \<Rightarrow> ((None, Some (errorf (''no route for kind='' @ Quote kind @ '' from '' @ sourceDir))), s)
             | Some route \<Rightarrow>
                 let result = \<lparr>dr_SourcePath = dmailPath, dr_Kind = kind, dr_DeliveredTo = []\<rparr>;
                     targetInboxes = SelectDeliveryInboxes kind (rr_ToInboxes route) (fm_Targets fm) metadata;
                     key = ContentIdempotencyKey data
                 in if dedup
                    then (case undelivered io key (pl_dedup s) targetInboxes of
                            Inl e \<Rightarrow> ((None, Some e), s)
                          | Inr [] \<Rightarrow> ((Some result, None),
                                      s\<lparr>pl_disk := snd (os_Remove (di_remove io) dmailPath (pl_disk s))\<rparr>)
                          | Inr remaining \<Rightarrow> stage_and_flush io dedup key result dmailPath data remaining s)
                    else stage_and_flush io dedup key result dmailPath data targetInboxes s)"

text \<open>\<open>Deliver\<close> reads the file first and delivers without a delivery log.\<close>

definition Deliver ::
  "yaml_decoder \<Rightarrow> go_error option \<Rightarrow> deliver_io \<Rightarrow> path \<Rightarrow> resolved_route list \<Rightarrow> pipeline \<Rightarrow>
   (delivery_result option \<times> go_error option) \<times> pipeline" where
  "Deliver yaml readErr io dmailPath routes s =
     (case os_ReadFile readErr dmailPath (pl_disk s) of
        Inl e \<Rightarrow> ((None, Some (wrapf ''read D-Mail: '' e)), s)
      | Inr data \<Rightarrow> DeliverData yaml io dmailPath data routes False s)"

section \<open>Classification of errors\<close>

definition ClassifyDeliveryError :: "go_error option \<Rightarrow> delivery_error_info" where
  "ClassifyDeliveryError err =
     (case err of
        None \<Rightarrow> \<lparr>de_Kind = DeliveryErrorNone, de_ResetAt = 0, de_Err = None\<rparr>
      | Some e \<Rightarrow>
          if Contains (err_msg e) ''parse D-Mail'' \<or> Contains (err_msg e) ''unsupported dmail-schema-version'' \<or>
             Contains (err_msg e) ''missing required''
          then \<lparr>de_Kind = DeliveryErrorPersistent, de_ResetAt = 0, de_Err = Some e\<rparr>
          else if errors_Is e ErrPermission \<or> errors_Is e ErrNotExist \<or> Contains (err_msg e) ''no space left'' \<or>
             Contains (err_msg e) ''read-only file system''
          then \<lparr>de_Kind = DeliveryErrorTransient, de_ResetAt = 0, de_Err = Some e\<rparr>
          else \<lparr>de_Kind = DeliveryErrorTransient, de_ResetAt = 0, de_Err = Some e\<rparr>)"

section \<open>Lemmas\<close>

lemma parse_dmail_Inl:
  "parse_dmail yaml p data = Inl e \<Longrightarrow> HasPrefix (err_msg e) (''parse D-Mail '' @ p @ '': '')"
  by (auto simp: parse_dmail_def HasPrefix_def split: sum.splits if_splits)

lemma parse_dmail_Inr:
  "parse_dmail yaml p data = Inr fm \<longleftrightarrow>
   ParseDMailFrontmatter yaml data = Inr fm \<and> fm_SchemaVersion fm = SupportedDMailSchemaVersion \<and> IsValidDMailKind (fm_Kind fm)"
  using IsValid_not_Nil[of "fm_Kind fm"]
  by (auto simp: parse_dmail_def ParseDMailKind_def SupportedDMailSchemaVersion_def split: sum.splits if_splits)

lemma parse_dmail_iff_kind: "parse_dmail yaml p data = Inr fm \<Longrightarrow> ExtractDMailKind yaml data = Inr (fm_Kind fm)"
  using IsValid_not_Nil[of "fm_Kind fm"]
  by (auto simp: parse_dmail_Inr ExtractDMailKind_def SupportedDMailSchemaVersion_def)

lemma undelivered_Inr:
  "undelivered io key t xs = Inr ys \<Longrightarrow> ys = filter (\<lambda>x. (key, x) \<notin> recorded t) xs"
proof (induction xs arbitrary: ys)
  case (Cons x xs)
  then obtain b zs where h: "HasDelivered (di_has io x) key x t = Inr b" "undelivered io key t xs = Inr zs"
    "ys = (if b then zs else x # zs)" by (auto split: sum.splits)
  have "b = ((key, x) \<in> recorded t)" using h(1) by (simp add: HasDelivered_iff)
  with Cons.IH[OF h(2)] h(3) show ?case by simp
qed simp

lemma undelivered_ok:
  "\<forall>x \<in> set xs. di_has io x = None \<Longrightarrow> undelivered io key t xs = Inr (filter (\<lambda>x. (key, x) \<notin> recorded t) xs)"
  by (induction xs) (simp_all add: HasDelivered_None)

lemma recordDedup_recorded:
  "recordDedupForTargets io key xs t = (ok, t') \<Longrightarrow>
   recorded t \<subseteq> recorded t' \<and> recorded t' \<subseteq> recorded t \<union> Pair key ` set xs \<and> (ok \<longrightarrow> Pair key ` set xs \<subseteq> recorded t')"
proof (induction xs arbitrary: t t' ok)
  case (Cons x xs)
  obtain r t1 where r: "RecordDelivery (di_record io x) (di_now io) key x t = (r, t1)"
    by (cases "RecordDelivery (di_record io x) (di_now io) key x t")
  obtain ok1 t2 where rest: "recordDedupForTargets io key xs t1 = (ok1, t2)"
    by (cases "recordDedupForTargets io key xs t1")
  have eq: "ok = (\<not> isl r \<and> ok1)" "t' = t2" using Cons.prems r rest by auto
  have "recorded t1 = (if di_record io x = None then insert (key, x) (recorded t) else recorded t)"
    using recorded_RecordDelivery[of "di_record io x" "di_now io" key x t] r by simp
  moreover have "isl r \<longleftrightarrow> di_record io x \<noteq> None"
    using RecordDelivery_result[of "di_record io x" "di_now io" key x t] r by simp
  ultimately show ?case using Cons.IH[OF rest] eq by (auto split: if_splits)
qed simp

lemma recordDedup_ok: "\<forall>x \<in> set xs. di_record io x = None \<Longrightarrow> fst (recordDedupForTargets io key xs t) = True"
proof (induction xs arbitrary: t)
  case (Cons x xs)
  then show ?case by (simp add: RecordDelivery_def split: prod.splits)
qed simp

section \<open>The stages of a delivery\<close>

text \<open>
  The invariant of the pipeline: the one of the staged table, and for every record of the delivery log
  some file with that content was put into that inbox.
\<close>

definition log_justified :: "dedup_table \<Rightarrow> disk \<Rightarrow> bool" where
  "log_justified l d \<longleftrightarrow> (\<forall>k \<in> recorded l. \<exists>x b. fst k = ContentIdempotencyKey b \<and> (x, b) \<in> set (dk_renamed d) \<and>
     (Dir x = snd k \<or> (\<exists>name. x = path_Join [snd k, name])))"

definition pipeline_inv :: "pipeline \<Rightarrow> bool" where
  "pipeline_inv s \<longleftrightarrow> staged_inv (pl_disk s) (pl_staged s) \<and> log_justified (pl_dedup s) (pl_disk s)"

text \<open>No row of this D-Mail waits with other data than the given ones.\<close>

definition no_stale :: "path \<Rightarrow> bytes \<Rightarrow> staged_table \<Rightarrow> bool" where
  "no_stale p data t \<longleftrightarrow> (\<forall>r \<in> set t. sr_dmail_path r = p \<and> \<not> sr_flushed r \<longrightarrow> sr_data r = data)"

lemma AllFlushed_row:
  assumes "AllFlushedFor err p t = Inr True" and "row_of sr_key t (p, x) = Some r"
  shows "sr_flushed r"
proof -
  have "r \<in> set t" "sr_dmail_path r = p" using row_of_SomeD[OF assms(2)] by (auto simp: sr_key_def)
  with assms(1) show ?thesis by (auto simp: AllFlushedFor_def filter_empty_conv)
qed

lemma remove_source_cases:
  "\<exists>e. remove_source io p res s = ((Some res, e), s\<lparr>pl_disk := snd (os_Remove (di_remove io) p (pl_disk s))\<rparr>) \<and>
       (e \<noteq> None \<longrightarrow> di_remove io \<noteq> None)"
  by (auto simp: remove_source_def os_Remove_def not_exist_def errors_Is_def split: option.splits)

text \<open>The intermediate values of \<open>stage_and_flush\<close> after staging succeeded.\<close>

record flush_outcome =
  fo_flushed :: "delivery_flushed list"
  fo_table :: staged_table
  fo_disk :: disk
  fo_allDone :: bool
  fo_recorded :: bool
  fo_log :: dedup_table

definition flush_outcome_of ::
  "deliver_io \<Rightarrow> bool \<Rightarrow> string \<Rightarrow> path \<Rightarrow> bytes \<Rightarrow> path list \<Rightarrow> pipeline \<Rightarrow> flush_outcome" where
  "flush_outcome_of io dedup key p data inboxes s =
     (case FlushDeliveries (di_flush io)
             (fold (stage_row p data) (map (\<lambda>inbox. path_Join [inbox, Base p]) inboxes) (pl_staged s)) (pl_disk s) of
        (fl, _, t, d) \<Rightarrow>
          (case record_dedup io dedup key (dedup_targets (all_done io p t) (delivered_to p fl) inboxes) (pl_dedup s) of
             (ok, log) \<Rightarrow> \<lparr>fo_flushed = fl, fo_table = t, fo_disk = d, fo_allDone = all_done io p t,
                          fo_recorded = ok, fo_log = log\<rparr>))"

lemma stage_and_flush_cases:
  assumes run: "stage_and_flush io dedup key res p data inboxes s = ((r, e), s')"
  defines "oc \<equiv> flush_outcome_of io dedup key p data inboxes s"
  obtains (stage) e0 where "r = None" "e = Some (wrapf (''stage delivery '' @ p @ '': '') e0)" "s' = s"
        "fst (StageDelivery (di_stage io) p data (map (\<lambda>inbox. path_Join [inbox, Base p]) inboxes) (pl_staged s)) = Inl e0"
    | (flush) "r = Some (res\<lparr>dr_DeliveredTo := delivered_to p (fo_flushed oc)\<rparr>)"
        "pl_staged s' = fo_table oc" "pl_dedup s' = fo_log oc"
        "pl_disk s' = (if fo_allDone oc \<and> fo_recorded oc then snd (os_Remove (di_remove io) p (fo_disk oc)) else fo_disk oc)"
        "e \<noteq> None \<longrightarrow> fo_allDone oc \<and> fo_recorded oc \<and> di_remove io \<noteq> None"
        "fst (StageDelivery (di_stage io) p data (map (\<lambda>inbox. path_Join [inbox, Base p]) inboxes) (pl_staged s)) = Inr ()"
proof -
  let ?xs = "map (\<lambda>inbox. path_Join [inbox, Base p]) inboxes"
  consider (err) e0 where "StageDelivery (di_stage io) p data ?xs (pl_staged s) = (Inl e0, pl_staged s)"
    | (ok) "StageDelivery (di_stage io) p data ?xs (pl_staged s) = (Inr (), fold (stage_row p data) ?xs (pl_staged s))"
    using StageDelivery_cases by blast
  then show thesis
  proof cases
    case err
    then show thesis using run stage[of e0] by (simp add: stage_and_flush_def Let_def)
  next
    case ok
    obtain fl fe t d where fl: "FlushDeliveries (di_flush io) (fold (stage_row p data) ?xs (pl_staged s)) (pl_disk s) = (fl, fe, t, d)"
      by (metis prod_cases4)
    obtain rec log where rec: "record_dedup io dedup key (dedup_targets (all_done io p t) (delivered_to p fl) inboxes) (pl_dedup s) = (rec, log)"
      by (metis surj_pair)
    have oc: "oc = \<lparr>fo_flushed = fl, fo_table = t, fo_disk = d, fo_allDone = all_done io p t, fo_recorded = rec, fo_log = log\<rparr>"
      by (simp add: oc_def flush_outcome_of_def fl rec)
    let ?res = "res\<lparr>dr_DeliveredTo := delivered_to p fl\<rparr>"
    let ?s = "s\<lparr>pl_staged := t, pl_dedup := log, pl_disk := d\<rparr>"
    have "((r, e), s') = (if all_done io p t \<and> rec then remove_source io p ?res ?s else ((Some ?res, None), ?s))"
      using run by (simp add: stage_and_flush_def Let_def ok fl rec)
    then show thesis
      using remove_source_cases[of io p ?res ?s] ok by (intro flush) (auto simp: oc split: if_splits)
  qed
qed

lemma outcome_flush:
  fixes io dedup key p data inboxes s
  assumes "staged_inv (pl_disk s) (pl_staged s)"
  defines "oc \<equiv> flush_outcome_of io dedup key p data inboxes s"
  defines "t0 \<equiv> fold (stage_row p data) (map (\<lambda>inbox. path_Join [inbox, Base p]) inboxes) (pl_staged s)"
  shows "staged_inv (fo_disk oc) (fo_table oc)" "set (dk_renamed (pl_disk s)) \<subseteq> set (dk_renamed (fo_disk oc))"
    "row_grows t0 (fo_table oc)" "\<forall>x \<in> set (delivered_to p (fo_flushed oc)). row_flushed (fo_table oc) (p, x)"
    "\<forall>x \<in> set (delivered_to p (fo_flushed oc)). \<exists>r \<in> set t0. sr_key r = (p, x) \<and> \<not> sr_flushed r"
    "fo_allDone oc = all_done io p (fo_table oc)"
    "record_dedup io dedup key (dedup_targets (fo_allDone oc) (delivered_to p (fo_flushed oc)) inboxes) (pl_dedup s)
       = (fo_recorded oc, fo_log oc)"
proof -
  obtain fl fe t d where fl: "FlushDeliveries (di_flush io) t0 (pl_disk s) = (fl, fe, t, d)" by (metis prod_cases4)
  obtain rec log where rec: "record_dedup io dedup key (dedup_targets (all_done io p t) (delivered_to p fl) inboxes) (pl_dedup s) = (rec, log)"
    by (metis surj_pair)
  have oc: "oc = \<lparr>fo_flushed = fl, fo_table = t, fo_disk = d, fo_allDone = all_done io p t, fo_recorded = rec, fo_log = log\<rparr>"
    using fl rec by (simp add: oc_def flush_outcome_of_def t0_def)
  have inv0: "staged_inv (pl_disk s) t0" unfolding t0_def using assms(1) by (rule staged_inv_fold)
  note g = FlushDeliveries_grows[OF inv0 fl] and i = FlushDeliveries_inv[OF inv0 fl] and r = FlushDeliveries_reported[OF fl]
  show "staged_inv (fo_disk oc) (fo_table oc)" "set (dk_renamed (pl_disk s)) \<subseteq> set (dk_renamed (fo_disk oc))"
    "row_grows t0 (fo_table oc)" using i g by (simp_all add: oc)
  show "\<forall>x \<in> set (delivered_to p (fo_flushed oc)). row_flushed (fo_table oc) (p, x)"
    using g by (auto simp: oc delivered_to_def)
  show "\<forall>x \<in> set (delivered_to p (fo_flushed oc)). \<exists>r \<in> set t0. sr_key r = (p, x) \<and> \<not> sr_flushed r"
    using r by (fastforce simp: oc delivered_to_def)
  show "fo_allDone oc = all_done io p (fo_table oc)" "record_dedup io dedup key (dedup_targets (fo_allDone oc) (delivered_to p (fo_flushed oc)) inboxes) (pl_dedup s)
       = (fo_recorded oc, fo_log oc)" using rec by (simp_all add: oc)
qed

lemma row_of_staged_target:
  "inbox \<in> set inboxes \<Longrightarrow>
   \<exists>r. row_of sr_key (fold (stage_row p data) (map (\<lambda>i. path_Join [i, f]) inboxes) t) (p, path_Join [inbox, f]) = Some r \<and>
       sr_data r = data"
  by (auto simp: row_of_fold_stage split: option.splits)

lemma all_done_row: "all_done io p t \<Longrightarrow> row_of sr_key t (p, x) = Some r \<Longrightarrow> sr_flushed r"
  using AllFlushed_row by (fastforce simp: all_done_def split: sum.splits)

lemma flushed_row_renamed:
  "staged_inv d t \<Longrightarrow> row_of sr_key t (p, x) = Some r \<Longrightarrow> sr_flushed r \<Longrightarrow> (x, sr_data r) \<in> set (dk_renamed d)"
  by (drule row_of_SomeD) (auto simp: staged_inv_def sr_key_def)

text \<open>When everything is flushed, every inbox got the data, now or before.\<close>

lemma outcome_all_done:
  assumes inv: "staged_inv (pl_disk s) (pl_staged s)"
    and adone: "fo_allDone (flush_outcome_of io dedup key p data inboxes s)" and mem: "inbox \<in> set inboxes"
  shows "(path_Join [inbox, Base p], data) \<in> set (dk_renamed (fo_disk (flush_outcome_of io dedup key p data inboxes s)))"
proof -
  let ?oc = "flush_outcome_of io dedup key p data inboxes s" and ?x = "path_Join [inbox, Base p]"
  note oc = outcome_flush[OF inv, where io = io and dedup = dedup and key = key and p = p and data = data and inboxes = inboxes]
  obtain r0 where r0: "row_of sr_key (fold (stage_row p data) (map (\<lambda>i. path_Join [i, Base p]) inboxes) (pl_staged s)) (p, ?x) = Some r0"
    "sr_data r0 = data" using row_of_staged_target[OF mem] by blast
  obtain r where r: "row_of sr_key (fo_table ?oc) (p, ?x) = Some r" "sr_data r = data"
    using oc(3)[unfolded row_grows_def, rule_format, of "(p, ?x)"] r0 by (auto elim: option.rel_cases)
  have "sr_flushed r" using all_done_row[OF _ r(1)] adone oc(6) by simp
  then show ?thesis using flushed_row_renamed[OF oc(1) r(1)] r(2) by simp
qed

text \<open>What is reported as delivered was put in place with the data of this D-Mail.\<close>

lemma outcome_delivered:
  assumes inv: "staged_inv (pl_disk s) (pl_staged s)" and ns: "no_stale p data (pl_staged s)"
    and mem: "x \<in> set (delivered_to p (fo_flushed (flush_outcome_of io dedup key p data inboxes s)))"
  shows "(x, data) \<in> set (dk_renamed (fo_disk (flush_outcome_of io dedup key p data inboxes s)))"
proof -
  let ?oc = "flush_outcome_of io dedup key p data inboxes s"
  let ?t0 = "fold (stage_row p data) (map (\<lambda>i. path_Join [i, Base p]) inboxes) (pl_staged s)"
  note oc = outcome_flush[OF inv, where io = io and dedup = dedup and key = key and p = p and data = data and inboxes = inboxes]
  obtain r0 where r0: "r0 \<in> set ?t0" "sr_key r0 = (p, x)" "\<not> sr_flushed r0" using oc(5) mem by blast
  have "distinct (map sr_key ?t0)" using staged_inv_fold[OF inv] by (simp add: staged_inv_def)
  then have row0: "row_of sr_key ?t0 (p, x) = Some r0" using r0 by (simp add: row_of_Some_iff)
  have d0: "sr_data r0 = data"
  proof (cases "x \<in> (\<lambda>i. path_Join [i, Base p]) ` set inboxes")
    case True
    then show ?thesis using row0 row_of_staged_target[of _ inboxes p data "Base p" "pl_staged s"] by fastforce
  next
    case False
    then have "row_of sr_key (pl_staged s) (p, x) = Some r0" using row0 by (simp add: row_of_fold_stage)
    then show ?thesis using ns r0(2,3) row_of_SomeD[of sr_key] by (fastforce simp: no_stale_def sr_key_def)
  qed
  obtain r where r: "row_of sr_key (fo_table ?oc) (p, x) = Some r" "sr_flushed r"
    using oc(4) mem by (auto simp: row_flushed_def)
  then have "sr_data r = data"
    using oc(3)[unfolded row_grows_def, rule_format, of "(p, x)"] row0 d0 by (auto elim: option.rel_cases)
  then show ?thesis using flushed_row_renamed[OF oc(1) r] by simp
qed

lemma log_justified_mono: "log_justified l d \<Longrightarrow> set (dk_renamed d) \<subseteq> set (dk_renamed d') \<Longrightarrow> log_justified l d'"
  unfolding log_justified_def by (meson subsetD)

lemma outcome_log_justified:
  fixes io dedup key p data inboxes s
  assumes inv: "pipeline_inv s" and ns: "no_stale p data (pl_staged s)" and key: "key = ContentIdempotencyKey data"
  defines "oc \<equiv> flush_outcome_of io dedup key p data inboxes s"
  shows "log_justified (fo_log oc) (fo_disk oc)"
proof -
  have sinv: "staged_inv (pl_disk s) (pl_staged s)" and lj: "log_justified (pl_dedup s) (pl_disk s)"
    using inv by (simp_all add: pipeline_inv_def)
  note f = outcome_flush[OF sinv, where io = io and dedup = dedup and key = key and p = p and data = data and inboxes = inboxes, folded oc_def]
  have old: "log_justified (pl_dedup s) (fo_disk oc)" by (rule log_justified_mono[OF lj f(2)])
  have new: "\<exists>x b. key = ContentIdempotencyKey b \<and> (x, b) \<in> set (dk_renamed (fo_disk oc)) \<and>
      (Dir x = i \<or> (\<exists>name. x = path_Join [i, name]))"
    if "i \<in> set (dedup_targets (fo_allDone oc) (delivered_to p (fo_flushed oc)) inboxes)" for i
    using that outcome_delivered[OF sinv ns, where io = io and dedup = dedup and key = key and inboxes = inboxes, folded oc_def]
      outcome_all_done[OF sinv, where io = io and dedup = dedup and key = key and p = p and data = data and inboxes = inboxes, folded oc_def] key
    unfolding dedup_targets_def Let_def by (fastforce split: if_splits)
  have "recorded (fo_log oc) \<subseteq> recorded (pl_dedup s) \<union>
      Pair key ` set (dedup_targets (fo_allDone oc) (delivered_to p (fo_flushed oc)) inboxes)"
    using f(7) recordDedup_recorded by (fastforce simp: record_dedup_def split: if_splits)
  then show ?thesis
    using old new unfolding log_justified_def by fastforce
qed

section \<open>The whole handler\<close>

text \<open>The inboxes a valid D-Mail is for, before deduplication.\<close>

definition selected_inboxes :: "yaml_decoder \<Rightarrow> path \<Rightarrow> bytes \<Rightarrow> resolved_route list \<Rightarrow> path list option" where
  "selected_inboxes yaml p data routes =
     (case parse_dmail yaml p data of
        Inl _ \<Rightarrow> None
      | Inr fm \<Rightarrow>
          (case find_route routes (fm_Kind fm) (Dir p) of
             None \<Rightarrow> None
           | Some route \<Rightarrow> Some (SelectDeliveryInboxes (fm_Kind fm) (rr_ToInboxes route) (fm_Targets fm)
                                  (CorrectionMetadataFromMap (fm_Metadata fm)))))"

lemma DeliverData_cases:
  assumes dcall: "DeliverData yaml io p data routes dedup s = ((r, e), s')"
  obtains (reject) e0 where "r = None" "e = Some e0" "s' = s"
    | (skip) sel res where "selected_inboxes yaml p data routes = Some sel" "dedup" "r = Some res" "e = None"
        "dr_DeliveredTo res = []" "\<forall>i \<in> set sel. (ContentIdempotencyKey data, i) \<in> recorded (pl_dedup s)"
        "s' = s\<lparr>pl_disk := snd (os_Remove (di_remove io) p (pl_disk s))\<rparr>"
    | (go) sel inboxes res where "selected_inboxes yaml p data routes = Some sel"
        "inboxes = (if dedup then filter (\<lambda>i. (ContentIdempotencyKey data, i) \<notin> recorded (pl_dedup s)) sel else sel)"
        "stage_and_flush io dedup (ContentIdempotencyKey data) res p data inboxes s = ((r, e), s')"
proof (cases "parse_dmail yaml p data")
  case (Inl e0)
  then show thesis using dcall reject by (auto simp: DeliverData_def)
next
  case (Inr fm)
  note pars = this
  show thesis
  proof (cases "find_route routes (fm_Kind fm) (Dir p)")
    case None
    then show thesis using dcall pars reject by (auto simp: DeliverData_def Let_def)
  next
    case (Some route)
    let ?sel = "SelectDeliveryInboxes (fm_Kind fm) (rr_ToInboxes route) (fm_Targets fm) (CorrectionMetadataFromMap (fm_Metadata fm))"
    let ?key = "ContentIdempotencyKey data"
    have sel: "selected_inboxes yaml p data routes = Some ?sel" using pars Some by (simp add: selected_inboxes_def)
    show thesis
    proof (cases dedup)
      case False
      then show thesis using dcall pars Some sel by (intro go) (auto simp: DeliverData_def Let_def)
    next
      case True
      show thesis
      proof (cases "undelivered io ?key (pl_dedup s) ?sel")
        case (Inl e0)
        then show thesis using dcall pars Some True reject by (auto simp: DeliverData_def Let_def)
      next
        case (Inr rem)
        note remeq = undelivered_Inr[OF Inr]
        show thesis
        proof (cases rem)
          case Nil
          then have "\<forall>i \<in> set ?sel. (?key, i) \<in> recorded (pl_dedup s)" using remeq by (metis filter_empty_conv)
          then show thesis using dcall pars Some True Inr Nil sel by (intro skip) (auto simp: DeliverData_def Let_def)
        next
          case (Cons a as)
          then show thesis using dcall pars Some True Inr remeq sel by (intro go) (auto simp: DeliverData_def Let_def)
        qed
      qed
    qed
  qed
qed

lemma DeliverData_inv:
  assumes run: "DeliverData yaml io p data routes dedup s = ((r, e), s')"
    and inv: "pipeline_inv s" and ns: "no_stale p data (pl_staged s)"
  shows "pipeline_inv s' \<and> set (dk_renamed (pl_disk s)) \<subseteq> set (dk_renamed (pl_disk s'))"
  using run
proof (cases rule: DeliverData_cases)
  case (reject e0)
  then show ?thesis using inv by simp
next
  case (skip sel res)
  then show ?thesis using inv
    by (simp add: pipeline_inv_def staged_inv_def log_justified_def)
next
  case (go sel inboxes res)
  have sinv: "staged_inv (pl_disk s) (pl_staged s)" using inv by (simp add: pipeline_inv_def)
  let ?oc = "flush_outcome_of io dedup (ContentIdempotencyKey data) p data inboxes s"
  note f = outcome_flush[OF sinv, where io = io and dedup = dedup and key = "ContentIdempotencyKey data" and p = p
      and data = data and inboxes = inboxes]
  have lj: "log_justified (fo_log ?oc) (fo_disk ?oc)" by (rule outcome_log_justified[OF inv ns refl])
  from go(3) show ?thesis
  proof (cases rule: stage_and_flush_cases)
    case (stage e0)
    then show ?thesis using inv by simp
  next
    case flush
    have "dk_renamed (pl_disk s') = dk_renamed (fo_disk ?oc)" using flush(4) by simp
    then show ?thesis using f(1,2) lj flush(2,3) by (simp add: pipeline_inv_def staged_inv_def log_justified_def)
  qed
qed

lemma outcome_keeps_dmail:
  assumes "suffixes_ok (di_flush io)" and "IsDMailFile p" and "dk_files (pl_disk s) p \<noteq> None"
  shows "dk_files (fo_disk (flush_outcome_of io dedup key q data inboxes s)) p \<noteq> None"
proof -
  let ?t0 = "fold (stage_row q data) (map (\<lambda>inbox. path_Join [inbox, Base q]) inboxes) (pl_staged s)"
  obtain fl fe t d where fl: "FlushDeliveries (di_flush io) ?t0 (pl_disk s) = (fl, fe, t, d)" by (metis prod_cases4)
  have "fo_disk (flush_outcome_of io dedup key q data inboxes s) = d"
    by (simp add: flush_outcome_of_def fl split: prod.splits)
  then show ?thesis using FlushDeliveries_keeps_dmail[OF assms fl] by simp
qed

lemma outcome_recorded:
  fixes io dedup key p data inboxes s
  assumes "staged_inv (pl_disk s) (pl_staged s)" and "dedup"
  defines "oc \<equiv> flush_outcome_of io dedup key p data inboxes s"
  assumes "fo_allDone oc" and "fo_recorded oc" and "i \<in> set inboxes"
  shows "(key, i) \<in> recorded (fo_log oc)"
proof -
  note f = outcome_flush[OF assms(1), where io = io and dedup = dedup and key = key and p = p and data = data
      and inboxes = inboxes, folded oc_def]
  have "recordDedupForTargets io key (dedup_targets True (delivered_to p (fo_flushed oc)) inboxes) (pl_dedup s) = (True, fo_log oc)"
    using f(7) assms by (simp add: record_dedup_def)
  from recordDedup_recorded[OF this] have
    "Pair key ` set (dedup_targets True (delivered_to p (fo_flushed oc)) inboxes) \<subseteq> recorded (fo_log oc)" by simp
  moreover have "i \<in> set (dedup_targets True (delivered_to p (fo_flushed oc)) inboxes)"
    using assms(6) by (auto simp: dedup_targets_def Let_def)
  ultimately show ?thesis by auto
qed

text \<open>Once everything is flushed and recorded, every selected inbox has the data and, with a delivery log, is on record.\<close>

lemma outcome_complete:
  fixes io dedup p data sel s
  assumes "staged_inv (pl_disk s) (pl_staged s)"
  defines "key \<equiv> ContentIdempotencyKey data"
  defines "inboxes \<equiv> if dedup then filter (\<lambda>i. (key, i) \<notin> recorded (pl_dedup s)) sel else sel"
  defines "oc \<equiv> flush_outcome_of io dedup key p data inboxes s"
  assumes "fo_allDone oc" and "fo_recorded oc"
  shows "\<forall>i \<in> set sel. (path_Join [i, Base p], data) \<in> set (dk_renamed (fo_disk oc)) \<or> (dedup \<and> (key, i) \<in> recorded (pl_dedup s))"
    and "dedup \<longrightarrow> (\<forall>i \<in> set sel. (key, i) \<in> recorded (fo_log oc))"
proof -
  have a: "(path_Join [i, Base p], data) \<in> set (dk_renamed (fo_disk oc))" if "i \<in> set inboxes" for i
    using outcome_all_done[OF assms(1) _ that] assms(5) unfolding oc_def by blast
  then show "\<forall>i \<in> set sel. (path_Join [i, Base p], data) \<in> set (dk_renamed (fo_disk oc)) \<or> (dedup \<and> (key, i) \<in> recorded (pl_dedup s))"
    unfolding inboxes_def by (cases dedup) auto
  have b: "(key, i) \<in> recorded (fo_log oc)" if "i \<in> set inboxes" "dedup" for i
    using outcome_recorded[OF assms(1) that(2) _ _ that(1)] assms(5,6) that(2) unfolding oc_def by simp
  have "recorded (pl_dedup s) \<subseteq> recorded (fo_log oc)"
    using outcome_flush(7)[OF assms(1), where io = io and dedup = dedup and key = key and p = p and data = data and inboxes = inboxes] recordDedup_recorded
    unfolding oc_def by (fastforce simp: record_dedup_def split: if_splits)
  with b show "dedup \<longrightarrow> (\<forall>i \<in> set sel. (key, i) \<in> recorded (fo_log oc))"
    unfolding inboxes_def by (cases dedup) auto
qed

section \<open>Deliveries without errors\<close>

definition stage_ok :: "stage_io \<Rightarrow> bool" where
  "stage_ok io \<longleftrightarrow> sg_conn io = None \<and> sg_begin io = None \<and> (\<forall>x. sg_exec io x = None) \<and> sg_commit io = None"

definition io_ok :: "deliver_io \<Rightarrow> bool" where
  "io_ok io \<longleftrightarrow> (\<forall>i. di_has io i = None) \<and> stage_ok (di_stage io) \<and> db_ok (di_flush io) \<and>
     (\<forall>k. \<not> write_fails (fl_write (di_flush io) k)) \<and> di_all io = None \<and> (\<forall>i. di_record io i = None) \<and>
     di_remove io = None"

lemma StageDelivery_ok:
  assumes "stage_ok io"
  shows "StageDelivery io p b xs t = (Inr (), fold (stage_row p b) xs t)"
proof -
  have "stage_loop io p b xs t = Inr (fold (stage_row p b) xs t)"
    using assms by (induction xs arbitrary: t) (simp_all add: stage_ok_def)
  then show ?thesis using assms by (simp add: StageDelivery_def stage_ok_def)
qed

lemma DeliverData_eval:
  assumes "selected_inboxes yaml p data routes = Some sel" and "\<forall>i. di_has io i = None"
  defines "key \<equiv> ContentIdempotencyKey data"
  shows "\<exists>res. dr_DeliveredTo res = [] \<and> DeliverData yaml io p data routes dedup s =
    (let inboxes = (if dedup then filter (\<lambda>i. (key, i) \<notin> recorded (pl_dedup s)) sel else sel)
     in if dedup \<and> inboxes = [] then ((Some res, None), s\<lparr>pl_disk := snd (os_Remove (di_remove io) p (pl_disk s))\<rparr>)
        else stage_and_flush io dedup key res p data inboxes s)"
proof -
  obtain fm route where fm: "parse_dmail yaml p data = Inr fm" "find_route routes (fm_Kind fm) (Dir p) = Some route"
    and sel: "sel = SelectDeliveryInboxes (fm_Kind fm) (rr_ToInboxes route) (fm_Targets fm) (CorrectionMetadataFromMap (fm_Metadata fm))"
    using assms(1) by (auto simp: selected_inboxes_def split: sum.splits option.splits)
  have und: "undelivered io key (pl_dedup s) sel = Inr (filter (\<lambda>i. (key, i) \<notin> recorded (pl_dedup s)) sel)"
    using assms(2) by (intro undelivered_ok) simp
  let ?res = "\<lparr>dr_SourcePath = p, dr_Kind = fm_Kind fm, dr_DeliveredTo = []\<rparr>"
  have "DeliverData yaml io p data routes dedup s =
    (let inboxes = (if dedup then filter (\<lambda>i. (key, i) \<notin> recorded (pl_dedup s)) sel else sel)
     in if dedup \<and> inboxes = [] then ((Some ?res, None), s\<lparr>pl_disk := snd (os_Remove (di_remove io) p (pl_disk s))\<rparr>)
        else stage_and_flush io dedup key ?res p data inboxes s)"
    unfolding DeliverData_def fm sum.case Let_def option.case sel[symmetric] key_def[symmetric] und
    by (cases dedup; cases "filter (\<lambda>i. (key, i) \<notin> recorded (pl_dedup s)) sel") simp_all
  then show ?thesis by (intro exI[of _ ?res]) simp
qed

text \<open>Without errors and dead letters of this D-Mail, everything staged is flushed and recorded.\<close>

lemma outcome_io_ok:
  fixes io dedup key p data inboxes s
  assumes inv: "staged_inv (pl_disk s) (pl_staged s)" and ok: "io_ok io"
    and nd: "\<forall>r \<in> set (pl_staged s). sr_dmail_path r = p \<longrightarrow> \<not> is_dead_letter r"
  defines "oc \<equiv> flush_outcome_of io dedup key p data inboxes s"
  shows "fo_allDone oc \<and> fo_recorded oc"
proof -
  let ?t0 = "fold (stage_row p data) (map (\<lambda>inbox. path_Join [inbox, Base p]) inboxes) (pl_staged s)"
  have inv0: "staged_inv (pl_disk s) ?t0" using inv by (rule staged_inv_fold)
  obtain fl fe t d where fl: "FlushDeliveries (di_flush io) ?t0 (pl_disk s) = (fl, fe, t, d)" by (metis prod_cases4)
  have "fe = None" using FlushDeliveries_db_ok fl ok by (auto simp: io_ok_def)
  note fl = fl[unfolded this]
  have t: "fo_table oc = t" by (simp add: oc_def flush_outcome_of_def fl split: prod.splits)
  have dt: "distinct (map sr_key t)" using FlushDeliveries_inv[OF inv0 fl] by (simp add: staged_inv_def)
  have "sr_flushed r" if r: "r \<in> set t" "sr_dmail_path r = p" for r
  proof -
    have row: "row_of sr_key t (sr_key r) = Some r" using r dt by (simp add: row_of_Some_iff)
    note rows = FlushDeliveries_rows[OF inv0 fl, of "sr_key r"]
    obtain r0 where r0: "row_of sr_key ?t0 (sr_key r) = Some r0"
      using rows row by (cases "row_of sr_key ?t0 (sr_key r)") auto
    then have mem: "r0 \<in> set ?t0" "sr_key r0 = sr_key r" by (auto dest: row_of_SomeD)
    have "\<not> is_dead_letter r0"
    proof (cases "sr_target r \<in> set (map (\<lambda>inbox. path_Join [inbox, Base p]) inboxes)")
      case True
      then show ?thesis
        using r0 r(2) by (auto simp: row_of_fold_stage sr_key_def is_dead_letter_def maxDeliveryRetryCount_def split: option.splits if_splits)
    next
      case False
      then have "row_of sr_key (pl_staged s) (sr_key r) = Some r0" using r0 r(2) by (simp add: row_of_fold_stage sr_key_def)
      then show ?thesis using nd r(2) mem(2) by (auto dest!: row_of_SomeD simp: sr_key_def)
    qed
    then have "(\<not> sr_flushed r0 \<and> sr_retry_count r0 < 3) \<or> sr_flushed r0"
      by (auto simp: is_dead_letter_def maxDeliveryRetryCount_def)
    moreover have "\<not> write_fails (fl_write (di_flush io) (sr_key r0))" using ok unfolding io_ok_def by blast
    ultimately show ?thesis using rows r0 row by (auto simp: flush_row_def)
  qed
  then have "all_done io p t" using ok by (auto simp: all_done_def AllFlushedFor_def query_def io_ok_def filter_empty_conv)
  moreover have "fo_recorded oc"
    using outcome_flush(7)[OF inv, where io = io and dedup = dedup and key = key and p = p and data = data and inboxes = inboxes, folded oc_def]
      recordDedup_ok[of _ io key "pl_dedup s"] ok
    by (cases dedup) (auto simp: record_dedup_def io_ok_def, metis fst_conv)
  ultimately show ?thesis
    using outcome_flush(6)[OF inv, where io = io and dedup = dedup and key = key and p = p and data = data and inboxes = inboxes, folded oc_def] t
    by simp
qed

lemma os_Remove_None: "dk_files (snd (os_Remove None p d)) p = None"
  by (simp add: os_Remove_def split: option.splits)

lemma DeliverData_io_ok:
  assumes "pipeline_inv s" and "io_ok io" and "selected_inboxes yaml p data routes = Some sel"
    and "\<forall>r \<in> set (pl_staged s). sr_dmail_path r = p \<longrightarrow> \<not> is_dead_letter r"
  shows "\<exists>res s'. DeliverData yaml io p data routes dedup s = ((Some res, None), s') \<and>
    dk_files (pl_disk s') p = None \<and>
    (\<forall>i \<in> set sel. (path_Join [i, Base p], data) \<in> set (dk_renamed (pl_disk s')) \<or>
        (dedup \<and> (ContentIdempotencyKey data, i) \<in> recorded (pl_dedup s))) \<and>
    (dedup \<longrightarrow> (\<forall>i \<in> set sel. (ContentIdempotencyKey data, i) \<in> recorded (pl_dedup s')))"
proof -
  let ?key = "ContentIdempotencyKey data"
  let ?in = "if dedup then filter (\<lambda>i. (?key, i) \<notin> recorded (pl_dedup s)) sel else sel"
  have sinv: "staged_inv (pl_disk s) (pl_staged s)" using assms(1) by (simp add: pipeline_inv_def)
  have has: "\<forall>i. di_has io i = None" and rm: "di_remove io = None" using assms(2) by (auto simp: io_ok_def)
  obtain res where res: "DeliverData yaml io p data routes dedup s =
     (if dedup \<and> ?in = [] then ((Some res, None), s\<lparr>pl_disk := snd (os_Remove (di_remove io) p (pl_disk s))\<rparr>)
        else stage_and_flush io dedup ?key res p data ?in s)"
    using DeliverData_eval[OF assms(3) has, of dedup s] unfolding Let_def by blast
  show ?thesis
  proof (cases "dedup \<and> ?in = []")
    case True
    then have "\<forall>i \<in> set sel. (?key, i) \<in> recorded (pl_dedup s)" by (auto simp: filter_empty_conv)
    moreover have "DeliverData yaml io p data routes dedup s =
        ((Some res, None), s\<lparr>pl_disk := snd (os_Remove None p (pl_disk s))\<rparr>)"
      unfolding res if_P[OF True] rm by simp
    ultimately show ?thesis using True os_Remove_None by auto
  next
    case False
    obtain r e s' where run: "stage_and_flush io dedup ?key res p data ?in s = ((r, e), s')" by (metis surj_pair)
    note oc = outcome_io_ok[OF sinv assms(2,4), of dedup ?key data ?in]
    from run show ?thesis
    proof (cases rule: stage_and_flush_cases)
      case (stage e0)
      then show ?thesis using assms(2) by (simp add: StageDelivery_ok io_ok_def)
    next
      case flush
      let ?oc = "flush_outcome_of io dedup ?key p data ?in s"
      have e: "e = None" using flush(5) rm by auto
      have "pl_disk s' = snd (os_Remove None p (fo_disk ?oc))" using flush(4) oc rm by simp
      then have gone: "dk_files (pl_disk s') p = None" and ren: "dk_renamed (pl_disk s') = dk_renamed (fo_disk ?oc)"
        by (simp_all add: os_Remove_None)
      note complete = outcome_complete[OF sinv, where io = io and dedup = dedup and p = p and data = data and sel = sel, OF conjunct1[OF oc] conjunct2[OF oc]]
      show ?thesis using res False run flush(1) e gone complete unfolding ren[symmetric] flush(3)[symmetric] by auto
    qed
  qed
qed

text \<open>With every selected inbox on record the handler writes nothing.\<close>

lemma DeliverData_recorded:
  assumes "selected_inboxes yaml p data routes = Some sel" and "\<forall>i. di_has io i = None"
    and "\<forall>i \<in> set sel. (ContentIdempotencyKey data, i) \<in> recorded (pl_dedup s)"
  shows "\<exists>res. dr_DeliveredTo res = [] \<and> DeliverData yaml io p data routes True s =
    ((Some res, None), s\<lparr>pl_disk := snd (os_Remove (di_remove io) p (pl_disk s))\<rparr>)"
proof -
  have "filter (\<lambda>i. (ContentIdempotencyKey data, i) \<notin> recorded (pl_dedup s)) sel = []"
    using assms(3) by (simp add: filter_empty_conv)
  then show ?thesis using DeliverData_eval[OF assms(1,2), of True s] by simp
qed

lemma source_removed_delivered:
  assumes sinv: "staged_inv (pl_disk s) (pl_staged s)" and "DeliverData yaml io p data routes dedup s = ((r, e), s')"
    and "dk_files (pl_disk s) p \<noteq> None" and "dk_files (pl_disk s') p = None"
    and "IsDMailFile p" and "suffixes_ok (di_flush io)"
  shows "\<exists>sel. selected_inboxes yaml p data routes = Some sel \<and>
    (\<forall>i \<in> set sel. (path_Join [i, Base p], data) \<in> set (dk_renamed (pl_disk s')) \<or>
        (dedup \<and> (ContentIdempotencyKey data, i) \<in> recorded (pl_dedup s))) \<and>
    (dedup \<longrightarrow> (\<forall>i \<in> set sel. (ContentIdempotencyKey data, i) \<in> recorded (pl_dedup s')))"
  using assms(2)
proof (cases rule: DeliverData_cases)
  case (reject e0)
  then show ?thesis using assms(3,4) by simp
next
  case (skip sel res)
  then show ?thesis by auto
next
  case (go sel inboxes res)
  let ?key = "ContentIdempotencyKey data"
  let ?oc = "flush_outcome_of io dedup ?key p data inboxes s"
  from go(3) show ?thesis
  proof (cases rule: stage_and_flush_cases)
    case (stage e0)
    then show ?thesis using assms(3,4) by simp
  next
    case flush
    have kept: "dk_files (fo_disk ?oc) p \<noteq> None" by (rule outcome_keeps_dmail[OF assms(6,5,3)])
    then have ad: "fo_allDone ?oc \<and> fo_recorded ?oc" using flush(4) assms(4) by (auto split: if_splits)
    have ren: "dk_renamed (pl_disk s') = dk_renamed (fo_disk ?oc)" using flush(4) by simp
    note complete = outcome_complete[OF sinv, where io = io and dedup = dedup and p = p and data = data and sel = sel, folded go(2),
        OF conjunct1[OF ad] conjunct2[OF ad]]
    show ?thesis using go(1) complete unfolding ren[symmetric] flush(3)[symmetric] by blast
  qed
qed

section \<open>Errors of a delivery\<close>

lemma DeliverData_no_result:
  assumes "DeliverData yaml io p data routes dedup s = ((r, e), s')"
  shows "r = None \<longrightarrow> e \<noteq> None \<and> s' = s"
  using assms
proof (cases rule: DeliverData_cases)
  case (go sel inboxes res)
  from go(3) show ?thesis by (cases rule: stage_and_flush_cases) simp_all
qed auto

lemma DeliverData_remove_error:
  assumes "pipeline_inv s" and "DeliverData yaml io p data routes dedup s = ((r, e), s')"
  shows "r \<noteq> None \<and> e \<noteq> None \<longrightarrow> di_remove io \<noteq> None \<and> AllFlushedFor (di_all io) p (pl_staged s') = Inr True \<and>
       (\<exists>sel. selected_inboxes yaml p data routes = Some sel \<and>
          (\<forall>i \<in> set sel. (path_Join [i, Base p], data) \<in> set (dk_renamed (pl_disk s')) \<or>
             (dedup \<and> (ContentIdempotencyKey data, i) \<in> recorded (pl_dedup s))) \<and>
          (dedup \<longrightarrow> (\<forall>i \<in> set sel. (ContentIdempotencyKey data, i) \<in> recorded (pl_dedup s'))))"
  using assms(2)
proof (cases rule: DeliverData_cases)
  case (go sel inboxes res)
  have sinv: "staged_inv (pl_disk s) (pl_staged s)" using assms(1) by (simp add: pipeline_inv_def)
  let ?oc = "flush_outcome_of io dedup (ContentIdempotencyKey data) p data inboxes s"
  from go(3) show ?thesis
  proof (cases rule: stage_and_flush_cases)
    case flush
    have ren: "dk_renamed (pl_disk s') = dk_renamed (fo_disk ?oc)" using flush(4) by simp
    have "AllFlushedFor (di_all io) p (fo_table ?oc) = Inr True" if "fo_allDone ?oc"
      using that outcome_flush(6)[OF sinv] by (auto simp: all_done_def split: sum.splits)
    then show ?thesis
      using flush(5) go(1) outcome_complete[OF sinv, where io = io and dedup = dedup and p = p and data = data and sel = sel, folded go(2)]
      unfolding ren flush(2,3) by blast
  qed simp
qed auto

lemma DeliverData_invalid:
  assumes "DeliverData yaml io p data routes dedup s = ((r, e), s')"
  shows "isl (parse_dmail yaml p data) \<longrightarrow> r = None \<and> de_Kind (ClassifyDeliveryError e) = DeliveryErrorPersistent \<and>
       RecordDeliveryError now (ClassifyDeliveryError e) cb = cb"
proof
  assume "isl (parse_dmail yaml p data)"
  then obtain e0 where e0: "parse_dmail yaml p data = Inl e0" by (auto simp: isl_def)
  then have "r = None" "e = Some e0" using assms by (simp_all add: DeliverData_def)
  moreover have "Contains (err_msg e0) ''parse D-Mail''"
    by (rule HasPrefix_Contains[of _ _ "'' '' @ p @ '': ''"]) (use parse_dmail_Inl[OF e0] in simp)
  ultimately show "r = None \<and> de_Kind (ClassifyDeliveryError e) = DeliveryErrorPersistent \<and>
       RecordDeliveryError now (ClassifyDeliveryError e) cb = cb"
    by (simp add: ClassifyDeliveryError_def RecordDeliveryError_def IsTrip_def)
qed

section \<open>A sample delivery\<close>

definition sample_path :: path where "sample_path = ''/r/.siren/outbox/a.md''"
definition sample_data :: bytes where "sample_data = ''---'' @ CHR 0x0A # ''---''"
definition sample_yaml :: yaml_decoder where "sample_yaml b = Inr sample_fm"

definition sample_routes :: "resolved_route list" where
  "sample_routes = [\<lparr>rr_Kind = KindReport, rr_FromOutbox = ''/r/.siren/outbox'', rr_ToInboxes = [''/r/.gate/inbox'']\<rparr>]"

definition sample_io :: deliver_io where
  "sample_io = \<lparr>di_has = (\<lambda>_. None),
     di_stage = \<lparr>sg_conn = None, sg_begin = None, sg_exec = (\<lambda>_. None), sg_commit = None\<rparr>,
     di_flush = all_writes_ok, di_all = None, di_record = (\<lambda>_. None), di_now = 0, di_remove = None\<rparr>"

definition sample_pipeline :: pipeline where
  "sample_pipeline = \<lparr>pl_staged = [], pl_dedup = [], pl_disk = \<lparr>dk_files = [sample_path \<mapsto> sample_data], dk_renamed = []\<rparr>\<rparr>"

lemma sample_selected: "selected_inboxes sample_yaml sample_path sample_data sample_routes = Some [''/r/.gate/inbox'']"
  by code_simp

lemma sample_io_ok: "io_ok sample_io" "suffixes_ok (di_flush sample_io)"
  by (simp_all add: io_ok_def sample_io_def stage_ok_def db_ok_def all_writes_ok_def suffixes_ok_def write_ok_def write_fails_def)

lemma sample_inv: "pipeline_inv sample_pipeline"
  by (simp add: pipeline_inv_def sample_pipeline_def log_justified_def recorded_def)

lemma sample_is_dmail: "IsDMailFile sample_path"
  by code_simp

section \<open>Properties\<close>

text \<open>C1: A D-Mail is never deleted before it is delivered: whatever errors the database and the file system report, if
  \<open>DeliverData\<close> makes the source file disappear, the D-Mail was valid and had a route, and its data were put
  into every selected inbox, in this call or by an earlier one that the staged table or the delivery
  log proves; with a delivery log, every selected inbox is then on record for this content.\<close>

theorem source_removed_only_after_delivery:
  assumes "pipeline_inv s" and "DeliverData yaml io p data routes dedup s = ((r, e), s')"
    and "dk_files (pl_disk s) p \<noteq> None" and "dk_files (pl_disk s') p = None"
    and "IsDMailFile p" and "suffixes_ok (di_flush io)"
  shows "\<exists>sel. selected_inboxes yaml p data routes = Some sel \<and>
    (\<forall>i \<in> set sel. (path_Join [i, Base p], data) \<in> set (dk_renamed (pl_disk s')) \<or>
        (dedup \<and> (ContentIdempotencyKey data, i) \<in> recorded (pl_dedup s))) \<and>
    (dedup \<longrightarrow> (\<forall>i \<in> set sel. (ContentIdempotencyKey data, i) \<in> recorded (pl_dedup s')))"
  using source_removed_delivered[OF _ assms(2-6)] assms(1) by (simp add: pipeline_inv_def)

theorem source_removed_only_after_delivery_witness:
  "\<exists>r e s'. DeliverData sample_yaml sample_io sample_path sample_data sample_routes True sample_pipeline = ((r, e), s') \<and>
     (path_Join [''/r/.gate/inbox'', ''a.md''], sample_data) \<in> set (dk_renamed (pl_disk s')) \<and>
     (ContentIdempotencyKey sample_data, ''/r/.gate/inbox'') \<in> recorded (pl_dedup s')"
proof -
  have "\<forall>r \<in> set (pl_staged sample_pipeline). sr_dmail_path r = sample_path \<longrightarrow> \<not> is_dead_letter r"
    by (simp add: sample_pipeline_def)
  from DeliverData_io_ok[OF sample_inv sample_io_ok(1) sample_selected this, of True] obtain res s' where
    run: "DeliverData sample_yaml sample_io sample_path sample_data sample_routes True sample_pipeline = ((Some res, None), s')"
    and gone: "dk_files (pl_disk s') sample_path = None" by blast
  have there: "dk_files (pl_disk sample_pipeline) sample_path \<noteq> None" by (simp add: sample_pipeline_def)
  have "recorded (pl_dedup sample_pipeline) = {}" by (simp add: sample_pipeline_def recorded_def)
  moreover have "Base sample_path = ''a.md''" by code_simp
  ultimately show ?thesis
    using source_removed_only_after_delivery[OF sample_inv run there gone sample_is_dmail sample_io_ok(2)] run sample_selected
    by auto
qed

text \<open>C2: Delivery succeeds when nothing fails: for a valid D-Mail with a route, if no call reports an error and none of the
  D-Mail's rows is a dead letter, \<open>DeliverData\<close> returns a result without error, every selected inbox has received the data
  (now, or before according to the delivery log), the source is gone and, with a delivery log, every selected inbox is on record for
  the content.\<close>

theorem DeliverData_delivers:
  assumes "pipeline_inv s" and "io_ok io" and "selected_inboxes yaml p data routes = Some sel"
    and "\<forall>r \<in> set (pl_staged s). sr_dmail_path r = p \<longrightarrow> \<not> is_dead_letter r"
  shows "\<exists>res s'. DeliverData yaml io p data routes dedup s = ((Some res, None), s') \<and>
    dk_files (pl_disk s') p = None \<and>
    (\<forall>i \<in> set sel. (path_Join [i, Base p], data) \<in> set (dk_renamed (pl_disk s')) \<or>
        (dedup \<and> (ContentIdempotencyKey data, i) \<in> recorded (pl_dedup s))) \<and>
    (dedup \<longrightarrow> (\<forall>i \<in> set sel. (ContentIdempotencyKey data, i) \<in> recorded (pl_dedup s')))"
  using assms by (rule DeliverData_io_ok)

theorem DeliverData_delivers_witness:
  "\<exists>res s'. DeliverData sample_yaml sample_io sample_path sample_data sample_routes True sample_pipeline = ((Some res, None), s') \<and>
     dk_files (pl_disk s') sample_path = None \<and>
     (path_Join [''/r/.gate/inbox'', Base sample_path], sample_data) \<in> set (dk_renamed (pl_disk s')) \<and>
     (ContentIdempotencyKey sample_data, ''/r/.gate/inbox'') \<in> recorded (pl_dedup s')"
proof -
  have "\<forall>r \<in> set (pl_staged sample_pipeline). sr_dmail_path r = sample_path \<longrightarrow> \<not> is_dead_letter r"
    by (simp add: sample_pipeline_def)
  moreover have "recorded (pl_dedup sample_pipeline) = {}" by (simp add: sample_pipeline_def recorded_def)
  ultimately show ?thesis using DeliverData_delivers[OF sample_inv sample_io_ok(1) sample_selected, of True] by auto
qed

text \<open>C4: A call of \<open>DeliverData\<close> that returns no result reports an error and changes nothing, not even after a failed
  transaction; an error next to a result means that only the removal of the source failed: the data were put into every selected inbox,
  now or before, and with a delivery log every selected inbox is on record; an invalid D-Mail is rejected with a persistent error,
  which leaves the circuit breaker as it is.\<close>

theorem DeliverData_errors:
  assumes "pipeline_inv s" and "DeliverData yaml io p data routes dedup s = ((r, e), s')"
  shows "(r = None \<longrightarrow> e \<noteq> None \<and> s' = s) \<and>
    (r \<noteq> None \<and> e \<noteq> None \<longrightarrow> di_remove io \<noteq> None \<and> AllFlushedFor (di_all io) p (pl_staged s') = Inr True \<and>
       (\<exists>sel. selected_inboxes yaml p data routes = Some sel \<and>
          (\<forall>i \<in> set sel. (path_Join [i, Base p], data) \<in> set (dk_renamed (pl_disk s')) \<or>
             (dedup \<and> (ContentIdempotencyKey data, i) \<in> recorded (pl_dedup s))) \<and>
          (dedup \<longrightarrow> (\<forall>i \<in> set sel. (ContentIdempotencyKey data, i) \<in> recorded (pl_dedup s'))))) \<and>
    (isl (parse_dmail yaml p data) \<longrightarrow> r = None \<and> de_Kind (ClassifyDeliveryError e) = DeliveryErrorPersistent \<and>
       RecordDeliveryError now (ClassifyDeliveryError e) cb = cb)"
  using DeliverData_no_result[OF assms(2)] DeliverData_remove_error[OF assms] DeliverData_invalid[OF assms(2)] by blast

text \<open>The removal of the source is refused.\<close>

definition stubborn_io :: deliver_io where
  "stubborn_io = sample_io\<lparr>di_remove := Some (errorf ''denied'')\<rparr>"

lemma stubborn_flush:
  "case stage_and_flush stubborn_io False key res sample_path sample_data [''/r/.gate/inbox''] sample_pipeline of ((r, e), _) \<Rightarrow> r \<noteq> None \<and> e \<noteq> None"
  by code_simp

lemma stubborn_run: "\<exists>r e s'. DeliverData sample_yaml stubborn_io sample_path sample_data sample_routes False sample_pipeline = ((r, e), s') \<and>
    r \<noteq> None \<and> e \<noteq> None"
proof -
  have "\<forall>i. di_has stubborn_io i = None" by (simp add: stubborn_io_def sample_io_def)
  then obtain res where "DeliverData sample_yaml stubborn_io sample_path sample_data sample_routes False sample_pipeline =
      stage_and_flush stubborn_io False (ContentIdempotencyKey sample_data) res sample_path sample_data [''/r/.gate/inbox''] sample_pipeline"
    using DeliverData_eval[OF sample_selected, of stubborn_io False sample_pipeline] by auto
  then show ?thesis using stubborn_flush[of "ContentIdempotencyKey sample_data" res] by (auto split: prod.splits)
qed

theorem DeliverData_errors_witness:
  "\<exists>r e s'. DeliverData sample_yaml stubborn_io sample_path sample_data sample_routes False sample_pipeline = ((r, e), s') \<and> e \<noteq> None \<and>
     (path_Join [''/r/.gate/inbox'', Base sample_path], sample_data) \<in> set (dk_renamed (pl_disk s'))"
proof -
  obtain r e s' where run: "DeliverData sample_yaml stubborn_io sample_path sample_data sample_routes False sample_pipeline = ((r, e), s')"
    and err: "r \<noteq> None" "e \<noteq> None" using stubborn_run by blast
  show ?thesis using DeliverData_errors[OF sample_inv run] run err sample_selected by auto
qed

text \<open>C3: Content is delivered at most once per inbox on record: when every selected inbox is on record for the content, a
  D-Mail with that content, under any file name, is not staged, written or recorded again; it is reported as delivered to
  nobody and its file is removed if the file system allows it.\<close>

theorem redelivery_is_suppressed:
  assumes "selected_inboxes yaml q data routes = Some sel" and "\<forall>i. di_has io i = None"
    and "\<forall>i \<in> set sel. (ContentIdempotencyKey data, i) \<in> recorded (pl_dedup s)"
  shows "\<exists>res s'. DeliverData yaml io q data routes True s = ((Some res, None), s') \<and> dr_DeliveredTo res = [] \<and>
    pl_staged s' = pl_staged s \<and> pl_dedup s' = pl_dedup s \<and> dk_renamed (pl_disk s') = dk_renamed (pl_disk s) \<and>
    (di_remove io = None \<longrightarrow> dk_files (pl_disk s') = (dk_files (pl_disk s))(q := None))"
proof -
  have "dk_files (snd (os_Remove None q d)) = (dk_files d)(q := None)" for d
    by (auto simp: os_Remove_def split: option.splits)
  then show ?thesis using DeliverData_recorded[OF assms] by fastforce
qed

theorem redelivery_is_suppressed_witness:
  "\<exists>res s'. DeliverData sample_yaml sample_io sample_path sample_data sample_routes True
      (sample_pipeline\<lparr>pl_dedup := [\<lparr>dl_idempotency_key = ContentIdempotencyKey sample_data, dl_target = ''/r/.gate/inbox'',
         dl_delivered_at = 0\<rparr>]\<rparr>) = ((Some res, None), s') \<and> dk_renamed (pl_disk s') = []"
proof -
  let ?s = "sample_pipeline\<lparr>pl_dedup := [\<lparr>dl_idempotency_key = ContentIdempotencyKey sample_data, dl_target = ''/r/.gate/inbox'',
         dl_delivered_at = 0\<rparr>]\<rparr>"
  have "\<forall>i. di_has sample_io i = None" by (simp add: sample_io_def)
  moreover have "\<forall>i \<in> set [''/r/.gate/inbox'']. (ContentIdempotencyKey sample_data, i) \<in> recorded (pl_dedup ?s)"
    by (simp add: recorded_def dl_key_def)
  moreover have "dk_renamed (pl_disk ?s) = []" by (simp add: sample_pipeline_def)
  ultimately show ?thesis using redelivery_is_suppressed[OF sample_selected, of sample_io ?s] by auto
qed

text \<open>C5: The pipeline keeps its invariant, whatever the database and the file system report, as long as no row of the same D-Mail
  waits with other data: rows stay unique with retry counts from 0 to 3, a flushed row's data were put on its target, and
  every record of the delivery log stands for a file with that content in that inbox; nothing delivered is forgotten.\<close>

theorem DeliverData_preserves_invariant:
  assumes "DeliverData yaml io p data routes dedup s = ((r, e), s')" and "pipeline_inv s"
    and "no_stale p data (pl_staged s)"
  shows "pipeline_inv s' \<and> set (dk_renamed (pl_disk s)) \<subseteq> set (dk_renamed (pl_disk s'))"
  using assms by (rule DeliverData_inv)

theorem DeliverData_preserves_invariant_witness:
  "pipeline_inv (snd (DeliverData sample_yaml sample_io sample_path sample_data sample_routes True sample_pipeline))"
proof -
  obtain r e s' where run: "DeliverData sample_yaml sample_io sample_path sample_data sample_routes True sample_pipeline = ((r, e), s')"
    by (metis surj_pair)
  have "no_stale sample_path sample_data (pl_staged sample_pipeline)" by (simp add: no_stale_def sample_pipeline_def)
  from DeliverData_preserves_invariant[OF run sample_inv this] run show ?thesis by simp
qed

end
