(* ===== verification/ErrorQueue.thy ===== *)
theory ErrorQueue
  imports Sql DMail
begin

text \<open>
  The error queue (\<open>src/internal/session/error_queue_store.go\<close>): the table \<open>error_queue\<close> with primary key
  \<open>name\<close>, and claims that expire after five minutes. SQLite's \<open>datetime('now')\<close> is a count of seconds;
  the empty text of an unclaimed row, which is below every date, is \<open>None\<close>.
\<close>

section \<open>Rows and operations\<close>

record error_row =
  eq_name :: string
  eq_data :: bytes
  eq_source_outbox :: path
  eq_kind :: dmail_kind
  eq_original_name :: string
  eq_error_message :: string
  eq_retry_count :: int
  eq_resolved :: bool
  eq_claimed_by :: string
  eq_claimed_at :: "int option"

type_synonym error_table = "error_row list"

record error_entry =
  en_Name :: string
  en_Data :: bytes
  en_SourceOutbox :: path
  en_Kind :: dmail_kind
  en_OriginalName :: string
  en_ErrorMessage :: string
  en_RetryCount :: int

definition queue_tx :: "string \<Rightarrow> string \<Rightarrow> tx_names" where
  "queue_tx exec commit =
     \<lparr>tn_conn = ''error queue store: get conn: '', tn_begin = ''error queue store: begin immediate: '',
      tn_exec = ''error queue store: '' @ exec @ '': '', tn_commit = ''error queue store: '' @ commit @ '': ''\<rparr>"

definition new_error_row :: "string \<Rightarrow> bytes \<Rightarrow> error_metadata \<Rightarrow> error_row" where
  "new_error_row name data meta =
     \<lparr>eq_name = name, eq_data = data, eq_source_outbox = em_SourceOutbox meta, eq_kind = em_Kind meta,
      eq_original_name = em_OriginalName meta, eq_error_message = em_Error meta,
      eq_retry_count = em_Attempts meta, eq_resolved = False, eq_claimed_by = [], eq_claimed_at = None\<rparr>"

definition Enqueue :: "tx_io \<Rightarrow> string \<Rightarrow> bytes \<Rightarrow> error_metadata \<Rightarrow> error_table \<Rightarrow> unit result \<times> error_table" where
  "Enqueue io name data meta =
     in_tx (queue_tx (''enqueue '' @ name) (''commit enqueue '' @ name)) io
       (\<lambda>t. ((), insert_ignore eq_name (new_error_row name data meta) t))"

text \<open>\<open>claimed_at < datetime('now', '-5 minutes')\<close>.\<close>

definition claim_expired :: "int \<Rightarrow> error_row \<Rightarrow> bool" where
  "claim_expired now r = (case eq_claimed_at r of None \<Rightarrow> True | Some a \<Rightarrow> a < now - 300)"

definition claimable :: "int \<Rightarrow> int \<Rightarrow> error_row \<Rightarrow> bool" where
  "claimable now maxRetries r =
     (\<not> eq_resolved r \<and> eq_retry_count r < maxRetries \<and> (eq_claimed_by r = [] \<or> claim_expired now r))"

definition claim_rows :: "string \<Rightarrow> int \<Rightarrow> int \<Rightarrow> error_table \<Rightarrow> error_table" where
  "claim_rows claimerID now maxRetries =
     update_where (claimable now maxRetries) (\<lambda>r. r\<lparr>eq_claimed_by := claimerID, eq_claimed_at := Some now\<rparr>)"

definition entry_of :: "error_row \<Rightarrow> error_entry" where
  "entry_of r =
     \<lparr>en_Name = eq_name r, en_Data = eq_data r, en_SourceOutbox = eq_source_outbox r, en_Kind = eq_kind r,
      en_OriginalName = eq_original_name r, en_ErrorMessage = eq_error_message r, en_RetryCount = eq_retry_count r\<rparr>"

record claim_io =
  ci_tx :: tx_io
  ci_select :: "go_error option"
  ci_scan :: "go_error option"
  ci_rows :: "go_error option"

text \<open>The \<open>SELECT\<close> reads back every unresolved row of the claimer, those of an earlier claim included.\<close>

definition ClaimPendingRetries ::
  "claim_io \<Rightarrow> int \<Rightarrow> string \<Rightarrow> int \<Rightarrow> error_table \<Rightarrow> error_entry list result \<times> error_table" where
  "ClaimPendingRetries io now claimerID maxRetries t =
     (case tx_conn (ci_tx io) of Some e \<Rightarrow> (Inl (wrapf ''error queue store: get conn: '' e), t) | None \<Rightarrow>
      case tx_begin (ci_tx io) of Some e \<Rightarrow> (Inl (wrapf ''error queue store: begin immediate: '' e), t) | None \<Rightarrow>
      case tx_exec (ci_tx io) of Some e \<Rightarrow> (Inl (wrapf ''error queue store: claim update: '' e), t) | None \<Rightarrow>
      case ci_select io of Some e \<Rightarrow> (Inl (wrapf ''error queue store: claim select: '' e), t) | None \<Rightarrow>
      case ci_scan io of Some e \<Rightarrow> (Inl (wrapf ''error queue store: scan row: '' e), t) | None \<Rightarrow>
      case ci_rows io of Some e \<Rightarrow> (Inl (wrapf ''error queue store: rows iter: '' e), t) | None \<Rightarrow>
      case tx_commit (ci_tx io) of Some e \<Rightarrow> (Inl (wrapf ''error queue store: commit claim: '' e), t) | None \<Rightarrow>
      let t' = claim_rows claimerID now maxRetries t
      in (Inr (map entry_of (filter (\<lambda>r. eq_claimed_by r = claimerID \<and> \<not> eq_resolved r) t')), t'))"

definition is_pending :: "int \<Rightarrow> error_row \<Rightarrow> bool" where
  "is_pending maxRetries r = (\<not> eq_resolved r \<and> eq_retry_count r < maxRetries)"

definition PendingCount :: "go_error option \<Rightarrow> int \<Rightarrow> error_table \<Rightarrow> int result" where
  "PendingCount err maxRetries t =
     query ''error queue store: pending count: '' err (int (length (filter (is_pending maxRetries) t)))"

definition IncrementRetry :: "tx_io \<Rightarrow> string \<Rightarrow> string \<Rightarrow> error_table \<Rightarrow> unit result \<times> error_table" where
  "IncrementRetry io name newError =
     in_tx (queue_tx (''increment retry '' @ name) (''commit increment '' @ name)) io
       (\<lambda>t. ((), update_where (\<lambda>r. eq_name r = name)
                   (\<lambda>r. r\<lparr>eq_retry_count := eq_retry_count r + 1, eq_error_message := newError,
                          eq_claimed_by := [], eq_claimed_at := None\<rparr>) t))"

definition MarkResolved :: "tx_io \<Rightarrow> string \<Rightarrow> error_table \<Rightarrow> unit result \<times> error_table" where
  "MarkResolved io name =
     in_tx (queue_tx (''mark resolved '' @ name) (''commit resolved '' @ name)) io
       (\<lambda>t. ((), update_where (\<lambda>r. eq_name r = name) (\<lambda>r. r\<lparr>eq_resolved := True\<rparr>) t))"

interpretation queue: insert_or_ignore "insert_ignore eq_name" eq_name "row_of eq_name"
  by unfold_locales (rule row_of_insert_ignore)

section \<open>No entry is ever lost\<close>

text \<open>A row once in the queue stays, with its payload and where it came from, and stays resolved once it is.\<close>

definition entry_kept :: "error_row \<Rightarrow> error_row \<Rightarrow> bool" where
  "entry_kept r r' \<longleftrightarrow> eq_name r' = eq_name r \<and> eq_data r' = eq_data r \<and> eq_source_outbox r' = eq_source_outbox r \<and>
     eq_kind r' = eq_kind r \<and> eq_original_name r' = eq_original_name r \<and>
     eq_retry_count r \<le> eq_retry_count r' \<and> (eq_resolved r \<longrightarrow> eq_resolved r')"

definition queue_grows :: "error_table \<Rightarrow> error_table \<Rightarrow> bool" where
  "queue_grows t t' \<longleftrightarrow> (\<forall>k r. row_of eq_name t k = Some r \<longrightarrow> (\<exists>r'. row_of eq_name t' k = Some r' \<and> entry_kept r r'))"

lemma entry_kept_refl [simp]: "entry_kept r r"
  by (simp add: entry_kept_def)

lemma queue_grows_refl [simp]: "queue_grows t t"
  unfolding queue_grows_def using entry_kept_refl by blast

lemma entry_kept_trans: "entry_kept a b \<Longrightarrow> entry_kept b c \<Longrightarrow> entry_kept a c"
  by (auto simp: entry_kept_def)

lemma queue_grows_trans: "queue_grows t u \<Longrightarrow> queue_grows u v \<Longrightarrow> queue_grows t v"
  unfolding queue_grows_def using entry_kept_trans by metis

lemma queue_grows_update:
  assumes "\<And>r. entry_kept r (f r)"
  shows "queue_grows t (update_where P f t)"
proof -
  have "eq_name (f r) = eq_name r" for r using assms[of r] by (simp add: entry_kept_def)
  then show ?thesis
    unfolding queue_grows_def by (simp add: row_of_update_where[of eq_name f] assms)
qed

lemma in_tx_grows:
  "(\<And>t. queue_grows t (snd (body t))) \<Longrightarrow> queue_grows t (snd (in_tx n io body t))"
  using in_tx_invariant[of body t "queue_grows t" n io] by (metis queue_grows_refl snd_conv)

lemma Enqueue_grows: "queue_grows t (snd (Enqueue io name data meta t))"
  unfolding Enqueue_def
  by (rule in_tx_grows) (auto simp: queue_grows_def dest: queue.ins_keeps)

lemma IncrementRetry_grows: "queue_grows t (snd (IncrementRetry io name err t))"
  unfolding IncrementRetry_def
  by (rule in_tx_grows) (simp, rule queue_grows_update, simp add: entry_kept_def)

lemma MarkResolved_grows: "queue_grows t (snd (MarkResolved io name t))"
  unfolding MarkResolved_def
  by (rule in_tx_grows) (simp, rule queue_grows_update, simp add: entry_kept_def)

lemma claim_rows_grows: "queue_grows t (claim_rows c now m t)"
  unfolding claim_rows_def by (rule queue_grows_update) (simp add: entry_kept_def)

lemma Claim_cases:
  "(\<exists>e. ClaimPendingRetries io now c m t = (Inl e, t)) \<or>
   ClaimPendingRetries io now c m t =
     (Inr (map entry_of (filter (\<lambda>r. eq_claimed_by r = c \<and> \<not> eq_resolved r) (claim_rows c now m t))), claim_rows c now m t)"
  by (auto simp: ClaimPendingRetries_def Let_def split: option.splits)

lemma Claim_grows: "queue_grows t (snd (ClaimPendingRetries io now c m t))"
  using Claim_cases[of io now c m t] claim_rows_grows[of t c now m] by auto

lemma Enqueue_Inr:
  assumes "Enqueue io name data meta t = (Inr u, t')"
  shows "\<exists>r. row_of eq_name t' name = Some r \<and>
           (row_of eq_name t name = None \<longrightarrow> r = new_error_row name data meta)"
proof -
  have "t' = insert_ignore eq_name (new_error_row name data meta) t"
    using in_tx_Inr[OF assms[unfolded Enqueue_def]] by simp
  then show ?thesis by (auto simp: row_of_insert_ignore new_error_row_def)
qed

section \<open>Claims\<close>

lemma claim_rows_other:
  assumes "r' \<in> set (claim_rows c now m t)" and "eq_claimed_by r' = c" and "\<not> eq_resolved r'"
  obtains r where "r \<in> set t" "claimable now m r" "r' = r\<lparr>eq_claimed_by := c, eq_claimed_at := Some now\<rparr>"
  | "r' \<in> set t" "\<not> claimable now m r'"
  using assms(1) by (auto simp: claim_rows_def set_update_where split: if_splits)

lemma row_of_claim:
  "row_of eq_name (claim_rows c now m t) k =
   map_option (\<lambda>r. if claimable now m r then r\<lparr>eq_claimed_by := c, eq_claimed_at := Some now\<rparr> else r) (row_of eq_name t k)"
  unfolding claim_rows_def by (rule row_of_update_where) simp

lemma distinct_claim: "distinct (map eq_name t) \<Longrightarrow> distinct (map eq_name (claim_rows c now m t))"
  by (simp add: claim_rows_def update_where_keys[of eq_name])

text \<open>The rows a claimer holds, by name.\<close>

definition held_by :: "string \<Rightarrow> error_table \<Rightarrow> string set" where
  "held_by c t = {eq_name r | r. r \<in> set t \<and> eq_claimed_by r = c \<and> \<not> eq_resolved r}"

lemma claimed_names:
  "ClaimPendingRetries io now c m t = (Inr es, t') \<Longrightarrow> en_Name ` set es = held_by c t' \<and> t' = claim_rows c now m t"
  using Claim_cases[of io now c m t] by (auto simp: held_by_def entry_of_def image_iff)

lemma held_by_row:
  assumes "distinct (map eq_name t)"
  shows "n \<in> held_by c t \<longleftrightarrow> (\<exists>r. row_of eq_name t n = Some r \<and> eq_claimed_by r = c \<and> \<not> eq_resolved r)"
  by (auto simp: held_by_def row_of_Some_iff[OF assms])

section \<open>Properties\<close>

text \<open>C34: Nothing is ever lost from the error queue: whatever the operation and whatever the database reports,
  every entry keeps its data, source outbox, kind and original name, its retry count never drops and it stays resolved
  once resolved; and after a successful \<open>Enqueue\<close> the name is in the queue, with the given
  data if the name was new, so enqueuing again changes nothing.\<close>

theorem error_queue_keeps_entries:
  "queue_grows t (snd (Enqueue io name data meta t)) \<and> queue_grows t (snd (IncrementRetry io name err t)) \<and>
   queue_grows t (snd (MarkResolved io name t)) \<and> queue_grows t (snd (ClaimPendingRetries cio now c m t)) \<and>
   (case Enqueue io name data meta t of
      (Inl e, t') \<Rightarrow> t' = t
    | (Inr _, t') \<Rightarrow> row_of eq_name t' name =
        (case row_of eq_name t name of None \<Rightarrow> Some (new_error_row name data meta) | Some r \<Rightarrow> Some r))"
proof -
  have "case Enqueue io name data meta t of
      (Inl e, t') \<Rightarrow> t' = t
    | (Inr _, t') \<Rightarrow> row_of eq_name t' name =
        (case row_of eq_name t name of None \<Rightarrow> Some (new_error_row name data meta) | Some r \<Rightarrow> Some r)"
    unfolding Enqueue_def
    using in_tx_atomic[of "queue_tx (''enqueue '' @ name) (''commit enqueue '' @ name)" io
        "\<lambda>t. ((), insert_ignore eq_name (new_error_row name data meta) t)" t]
    by (auto simp: row_of_insert_ignore new_error_row_def split: option.splits)
  then show ?thesis
    using Enqueue_grows IncrementRetry_grows MarkResolved_grows Claim_grows by blast
qed

text \<open>C35: Claims exclude one another: when two different daemons claim one after the other, at most five
  minutes apart, no entry that the first one got freshly is handed to the second.\<close>

theorem claims_are_exclusive:
  assumes "distinct (map eq_name t)" and "a \<noteq> b" and "a \<noteq> []"
    and "ClaimPendingRetries io now a m t = (Inr es, t')"
    and "ClaimPendingRetries io' now' b m' t' = (Inr es', t'')"
    and "now' \<le> now + 300"
    and "e \<in> set es" and "\<exists>r. row_of eq_name t (en_Name e) = Some r \<and> claimable now m r"
  shows "en_Name e \<notin> en_Name ` set es'"
proof -
  note c1 = claimed_names[OF assms(4)] and c2 = claimed_names[OF assms(5)]
  have d1: "distinct (map eq_name t')" using c1 assms(1) by (simp add: distinct_claim)
  have d2: "distinct (map eq_name t'')" using c2 d1 by (simp add: distinct_claim)
  obtain r where r: "row_of eq_name t (en_Name e) = Some r" "claimable now m r" using assms(8) by blast
  let ?r = "r\<lparr>eq_claimed_by := a, eq_claimed_at := Some now\<rparr>"
  have r1: "row_of eq_name t' (en_Name e) = Some ?r" using c1 r by (simp add: row_of_claim)
  have "\<not> claimable now' m' ?r"
    using assms(3,6) by (simp add: claimable_def claim_expired_def)
  then have "row_of eq_name t'' (en_Name e) = Some ?r" using c2 r1 by (simp add: row_of_claim)
  then have "en_Name e \<notin> held_by b t''" using assms(2) unfolding held_by_row[OF d2] by simp
  then show ?thesis using c2 by simp
qed

definition sample_queue :: error_table where
  "sample_queue = [new_error_row ''n'' ''x'' \<lparr>em_SourceOutbox = ''/o'', em_Kind = KindReport, em_OriginalName = ''a.md'',
     em_Attempts = 1, em_Error = ''e'', em_Timestamp = 0\<rparr>]"

definition claim_ok :: claim_io where
  "claim_ok = \<lparr>ci_tx = tx_ok, ci_select = None, ci_scan = None, ci_rows = None\<rparr>"

theorem claims_are_exclusive_witness:
  "\<exists>es t'. ClaimPendingRetries claim_ok 1000 ''daemon-1'' 10 sample_queue = (Inr es, t') \<and> en_Name ` set es = {''n''} \<and>
     (\<exists>es' t''. ClaimPendingRetries claim_ok 1200 ''daemon-2'' 10 t' = (Inr es', t'') \<and> ''n'' \<notin> en_Name ` set es')"
proof -
  obtain es t' where c1: "ClaimPendingRetries claim_ok 1000 ''daemon-1'' 10 sample_queue = (Inr es, t')"
    by (simp add: ClaimPendingRetries_def claim_ok_def tx_ok_def Let_def)
  obtain es' t'' where c2: "ClaimPendingRetries claim_ok 1200 ''daemon-2'' 10 t' = (Inr es', t'')"
    by (simp add: ClaimPendingRetries_def claim_ok_def tx_ok_def Let_def)
  have d: "distinct (map eq_name sample_queue)" by (simp add: sample_queue_def)
  have row: "row_of eq_name sample_queue ''n'' = Some (hd sample_queue)" "claimable 1000 10 (hd sample_queue)"
    by (simp_all add: sample_queue_def row_of_def new_error_row_def claimable_def)
  have t': "t' = claim_rows ''daemon-1'' 1000 10 sample_queue" "en_Name ` set es = held_by ''daemon-1'' t'"
    using claimed_names[OF c1] by auto
  have names: "en_Name ` set es = {''n''}"
    unfolding t' using row(2) by (auto simp: held_by_def claim_rows_def update_where_def sample_queue_def new_error_row_def)
  then obtain e where e: "e \<in> set es" "en_Name e = ''n''" by (metis image_iff insertI1)
  have "en_Name e \<notin> en_Name ` set es'"
    using claims_are_exclusive[OF d _ _ c1 c2 _ e(1)] row e(2) by auto
  with c1 c2 names e(2) show ?thesis by auto
qed

text \<open>An entry leaves the pending set only by being resolved or by using up its retries: after a
  successful \<open>IncrementRetry\<close> its retry count is one higher and it is claimable again by anyone if it is still below the
  limit; after a successful \<open>MarkResolved\<close> it is never pending again; and a claim, a new claim of
  the same daemon included, does not change the number of pending entries.\<close>

theorem pending_lifecycle:
  assumes "row_of eq_name t name = Some r"
  shows "(\<exists>r'. row_of eq_name (snd (IncrementRetry tx_ok name err t)) name = Some r' \<and>
            eq_retry_count r' = eq_retry_count r + 1 \<and> eq_data r' = eq_data r \<and> eq_error_message r' = err \<and>
            claimable now m r' = is_pending m r' \<and> is_pending m r' = (\<not> eq_resolved r \<and> eq_retry_count r + 1 < m)) \<and>
         (\<exists>r'. row_of eq_name (snd (MarkResolved tx_ok name t)) name = Some r' \<and> \<not> is_pending m r') \<and>
         PendingCount None m (claim_rows c now m' t) = PendingCount None m t"
proof (intro conjI)
  show "\<exists>r'. row_of eq_name (snd (IncrementRetry tx_ok name err t)) name = Some r' \<and>
            eq_retry_count r' = eq_retry_count r + 1 \<and> eq_data r' = eq_data r \<and> eq_error_message r' = err \<and>
            claimable now m r' = is_pending m r' \<and> is_pending m r' = (\<not> eq_resolved r \<and> eq_retry_count r + 1 < m)"
    using assms row_of_SomeD[OF assms]
    by (simp add: IncrementRetry_def row_of_update_where[of eq_name] claimable_def is_pending_def)
  show "\<exists>r'. row_of eq_name (snd (MarkResolved tx_ok name t)) name = Some r' \<and> \<not> is_pending m r'"
    using assms row_of_SomeD[OF assms] by (simp add: MarkResolved_def row_of_update_where[of eq_name] is_pending_def)
  have "length (filter (is_pending m) (claim_rows c now m' t)) = length (filter (is_pending m) t)"
    by (induction t) (simp_all add: claim_rows_def update_where_def is_pending_def)
  then show "PendingCount None m (claim_rows c now m' t) = PendingCount None m t"
    by (simp add: PendingCount_def query_def)
qed

theorem pending_lifecycle_witness:
  "\<exists>r'. row_of eq_name (snd (IncrementRetry tx_ok ''n'' ''again'' sample_queue)) ''n'' = Some r' \<and> eq_retry_count r' = 2"
proof -
  have "row_of eq_name sample_queue ''n'' = Some (hd sample_queue)"
    by (simp add: sample_queue_def row_of_def new_error_row_def)
  from pending_lifecycle[OF this, of "''again''" 0 10 "''d''" 10] show ?thesis
    by (auto simp: sample_queue_def new_error_row_def)
qed

end
