(* ===== verification/Backoff.thy ===== *)
theory Backoff
  imports Improvement
begin

text \<open>
  The retry backoff of the daemon (\<open>src/internal/domain/retry_backoff.go\<close>). Durations are signed
  64-bit counts of nanoseconds; doubling wraps as in Go, and the draw of \<open>rand.Int64N\<close> is an
  argument. \<open>rand.Int64N\<close> panics on a bound that is not positive, which is the value \<open>None\<close>.
\<close>

record retry_backoff =
  rbo_base :: duration
  rbo_max :: duration
  rbo_current :: duration

definition NewRetryBackoff :: "duration \<Rightarrow> duration \<Rightarrow> retry_backoff" where
  "NewRetryBackoff base mx = \<lparr>rbo_base = base, rbo_max = mx, rbo_current = base\<rparr>"

definition Int64N :: "int \<Rightarrow> int \<Rightarrow> int option" where
  "Int64N n draw = (if n \<le> 0 then None else Some (draw mod n))"

definition Backoff_Next :: "retry_backoff \<Rightarrow> int \<Rightarrow> duration option" where
  "Backoff_Next b draw =
     (let quarter = rbo_current b sdiv 4
      in case Int64N (wrap64 (quarter * 2 + 1)) draw of
           None \<Rightarrow> None
         | Some r \<Rightarrow> let jitter = wrap64 (r - quarter) in Some (wrap64 (rbo_current b + jitter)))"

definition Backoff_RecordSuccess :: "retry_backoff \<Rightarrow> retry_backoff" where
  "Backoff_RecordSuccess b = b\<lparr>rbo_current := rbo_base b\<rparr>"

definition Backoff_RecordFailure :: "retry_backoff \<Rightarrow> retry_backoff" where
  "Backoff_RecordFailure b =
     (let b' = b\<lparr>rbo_current := wrap64 (rbo_current b * 2)\<rparr>
      in if rbo_current b' > rbo_max b' then b'\<lparr>rbo_current := rbo_max b'\<rparr> else b')"

definition Backoff_Snapshot :: "retry_backoff \<Rightarrow> provider_state_snapshot" where
  "Backoff_Snapshot b =
     (if rbo_current b \<le> rbo_base b then ActiveProviderState
      else \<lparr>ps_State = ''waiting'', ps_Reason = ''delivery_retry_backoff'', ps_RetryBudget = 1,
            ps_ResumeAt = 0, ps_ResumeCondition = ''backoff-elapses''\<rparr>)"

section \<open>Invariant\<close>

text \<open>The intervals the daemon uses: a base above zero and a maximum of at most 2 to the 61, about 73
  years, so that neither doubling nor the jitter leaves the 64-bit range.\<close>

definition backoff_ok :: "retry_backoff \<Rightarrow> bool" where
  "backoff_ok b \<longleftrightarrow> 0 < rbo_base b \<and> rbo_base b \<le> rbo_current b \<and> rbo_current b \<le> rbo_max b \<and>
     rbo_max b \<le> 2 ^ 61"

lemma backoff_ok_new: "0 < base \<Longrightarrow> base \<le> mx \<Longrightarrow> mx \<le> 2 ^ 61 \<Longrightarrow> backoff_ok (NewRetryBackoff base mx)"
  by (simp add: backoff_ok_def NewRetryBackoff_def)

lemma double_in_range: "backoff_ok b \<Longrightarrow> wrap64 (rbo_current b * 2) = rbo_current b * 2"
  by (rule wrap64_id) (simp add: backoff_ok_def in_int64_def)

lemma backoff_ok_success: "backoff_ok b \<Longrightarrow> backoff_ok (Backoff_RecordSuccess b)"
  by (simp add: backoff_ok_def Backoff_RecordSuccess_def)

lemma RecordFailure_current:
  "backoff_ok b \<Longrightarrow> Backoff_RecordFailure b = b\<lparr>rbo_current := min (2 * rbo_current b) (rbo_max b)\<rparr>"
  using double_in_range[of b] by (auto simp: Backoff_RecordFailure_def Let_def min_def)

lemma backoff_ok_failure: "backoff_ok b \<Longrightarrow> backoff_ok (Backoff_RecordFailure b)"
  by (subst RecordFailure_current) (auto simp: backoff_ok_def)

lemma quarter_eq: "0 \<le> x \<Longrightarrow> x sdiv 4 = x div (4 :: int)"
  by (cases "x = 0") (simp_all add: signed_divide_int_def sgn_if)

lemma Next_in_range:
  assumes "backoff_ok b"
  shows "\<exists>d. Backoff_Next b draw = Some d \<and>
           rbo_current b - rbo_current b div 4 \<le> d \<and> d \<le> rbo_current b + rbo_current b div 4"
proof -
  let ?c = "rbo_current b" and ?q = "rbo_current b div 4"
  let ?r = "draw mod (?q * 2 + 1)"
  have c: "0 < ?c" "?c \<le> 2305843009213693952" using assms by (auto simp: backoff_ok_def)
  then have q: "0 \<le> ?q" "?q \<le> 576460752303423488" by auto
  have r: "0 \<le> ?r" "?r \<le> ?q * 2" using q pos_mod_bound[of "?q * 2 + 1" draw] by auto
  have w: "wrap64 x = x" if "- 2305843009213693952 \<le> x" "x \<le> 4611686018427387904" for x
    using that by (intro wrap64_id) (simp add: in_int64_def)
  have "wrap64 (?q * 2 + 1) = ?q * 2 + 1" by (rule w) (use q in linarith)+
  moreover have "wrap64 (?r - ?q) = ?r - ?q" by (rule w) (use q r in linarith)+
  moreover have "wrap64 (?c + (?r - ?q)) = ?c + (?r - ?q)" by (rule w) (use c q r in linarith)+
  moreover have "?c sdiv 4 = ?q" using c by (simp add: quarter_eq)
  ultimately have "Backoff_Next b draw = Some (?c + (?r - ?q))"
    using q by (simp add: Backoff_Next_def Int64N_def Let_def)
  with r show ?thesis by auto
qed

lemma failures_current:
  assumes "backoff_ok b" and "rbo_current b = rbo_base b"
  shows "(Backoff_RecordFailure ^^ n) b = b\<lparr>rbo_current := min (2 ^ n * rbo_base b) (rbo_max b)\<rparr> \<and>
         backoff_ok ((Backoff_RecordFailure ^^ n) b)"
proof (induction n)
  case 0
  with assms show ?case by (simp add: backoff_ok_def)
next
  case (Suc n)
  have "min (2 * min (2 ^ n * rbo_base b) (rbo_max b)) (rbo_max b) = min (2 ^ Suc n * rbo_base b) (rbo_max b)"
    using assms(1) by (auto simp: backoff_ok_def min_def)
  moreover from Suc have "backoff_ok (b\<lparr>rbo_current := min (2 ^ n * rbo_base b) (rbo_max b)\<rparr>)" by metis
  ultimately show ?case
    using Suc RecordFailure_current[of "b\<lparr>rbo_current := min (2 ^ n * rbo_base b) (rbo_max b)\<rparr>"]
      backoff_ok_failure[of "b\<lparr>rbo_current := min (2 ^ n * rbo_base b) (rbo_max b)\<rparr>"] by simp
qed

section \<open>Properties\<close>

text \<open>For a base above zero and a maximum up to 2 to the 61 nanoseconds, after \<open>n\<close> failures in a row
  the interval is the base doubled \<open>n\<close> times, capped at the maximum; the next wait then never panics and lies
  within a quarter of it; the snapshot says waiting exactly when the interval is above the base; and one
  success brings the interval back to the base.\<close>

theorem RetryBackoff_exponential:
  fixes base mx draw :: int and n :: nat
  assumes "0 < base" and "base \<le> mx" and "mx \<le> 2 ^ 61"
  defines "b \<equiv> (Backoff_RecordFailure ^^ n) (NewRetryBackoff base mx)"
  defines "cur \<equiv> min (2 ^ n * base) mx"
  shows "rbo_current b = cur \<and>
         (\<exists>d. Backoff_Next b draw = Some d \<and> cur - cur div 4 \<le> d \<and> d \<le> cur + cur div 4) \<and>
         (ps_State (Backoff_Snapshot b) = ''waiting'') = (base < cur) \<and>
         Backoff_RecordSuccess b = NewRetryBackoff base mx"
proof -
  have ok: "backoff_ok (NewRetryBackoff base mx)" using assms by (simp add: backoff_ok_new)
  have "rbo_current (NewRetryBackoff base mx) = rbo_base (NewRetryBackoff base mx)"
    by (simp add: NewRetryBackoff_def)
  from failures_current[OF ok this, of n]
  have b: "b = (NewRetryBackoff base mx)\<lparr>rbo_current := cur\<rparr>" "backoff_ok b"
    unfolding b_def cur_def by (simp add: NewRetryBackoff_def, blast)
  then have cur: "rbo_current b = cur" by simp
  moreover have "(ps_State (Backoff_Snapshot b) = ''waiting'') = (base < cur)"
    unfolding b(1) by (simp add: Backoff_Snapshot_def NewRetryBackoff_def ActiveProviderState_def)
  moreover have "Backoff_RecordSuccess b = NewRetryBackoff base mx"
    unfolding b(1) by (simp add: Backoff_RecordSuccess_def NewRetryBackoff_def)
  ultimately show ?thesis using Next_in_range[OF b(2), of draw] by simp
qed

theorem RetryBackoff_exponential_witness:
  "rbo_current ((Backoff_RecordFailure ^^ 7) (NewRetryBackoff 60000000000 1920000000000)) = 1920000000000"
  using RetryBackoff_exponential[of 60000000000 1920000000000 7 0] by simp

end
