(* ===== verification/Bloom.thy ===== *)
theory Bloom
  imports Prelude
begin

text \<open>
  The Bloom filter of \<open>src/internal/domain/bloom_filter.go\<close>. Go's \<open>uint\<close> is a 64-bit word;
  a division by zero or an index out of range, which panic in Go, are the value \<open>None\<close>. The sizes that
  \<open>optimalM\<close> and \<open>optimalK\<close> compute in floating point are arguments of the constructor.
\<close>

section \<open>State and operations\<close>

record bloom_filter =
  bf_bits :: "u64 list"
  bf_numHash :: u64
  bf_m :: u64

definition bloom_words :: "u64 \<Rightarrow> nat" where
  "bloom_words m = unat ((m + 63) div 64)"

definition NewBloomFilter :: "u64 \<Rightarrow> u64 \<Rightarrow> bloom_filter" where
  "NewBloomFilter m k = \<lparr>bf_bits = replicate (bloom_words m) 0, bf_numHash = k, bf_m = m\<rparr>"

definition fnv_step :: "char \<Rightarrow> u64 \<Rightarrow> u64" where
  "fnv_step b h = (h XOR of_char b) * 1099511628211"

definition bloom_hash :: "bytes \<Rightarrow> u64 \<times> u64" where
  "bloom_hash data =
     (let h1 = fold fnv_step data 14695981039346656037;
          h2 = drop_bit 33 h1 XOR h1;
          h2 = h2 * 0xff51afd7ed558ccd;
          h2 = drop_bit 33 h2 XOR h2;
          h2 = h2 * 0xc4ceb9fe1a85ec53;
          h2 = drop_bit 33 h2 XOR h2
      in (h1, h2))"

definition bloom_pos :: "bloom_filter \<Rightarrow> u64 \<times> u64 \<Rightarrow> nat \<Rightarrow> u64 option" where
  "bloom_pos bf h i = (if bf_m bf = 0 then None else Some ((fst h + of_nat i * snd h) mod bf_m bf))"

definition bloom_mask :: "u64 \<Rightarrow> u64" where
  "bloom_mask pos = push_bit (unat (pos mod 64)) 1"

text \<open>The body of the loop of \<open>Add\<close>, and the loop.\<close>

definition add_one :: "u64 \<times> u64 \<Rightarrow> nat \<Rightarrow> bloom_filter \<Rightarrow> bloom_filter option" where
  "add_one h i bf =
     (case bloom_pos bf h i of
        None \<Rightarrow> None
      | Some pos \<Rightarrow>
          let w = unat (pos div 64)
          in if w < length (bf_bits bf)
             then Some (bf\<lparr>bf_bits := (bf_bits bf)[w := bf_bits bf ! w OR bloom_mask pos]\<rparr>)
             else None)"

fun add_loop :: "u64 \<times> u64 \<Rightarrow> nat list \<Rightarrow> bloom_filter \<Rightarrow> bloom_filter option" where
  "add_loop h [] bf = Some bf"
| "add_loop h (i # is) bf =
     (case add_one h i bf of None \<Rightarrow> None | Some bf' \<Rightarrow> add_loop h is bf')"

definition Bloom_Add :: "bytes \<Rightarrow> bloom_filter \<Rightarrow> bloom_filter option" where
  "Bloom_Add key bf = add_loop (bloom_hash key) [0..<unat (bf_numHash bf)] bf"

definition test_one :: "u64 \<times> u64 \<Rightarrow> nat \<Rightarrow> bloom_filter \<Rightarrow> bool option" where
  "test_one h i bf =
     (case bloom_pos bf h i of
        None \<Rightarrow> None
      | Some pos \<Rightarrow>
          let w = unat (pos div 64)
          in if w < length (bf_bits bf) then Some (bf_bits bf ! w AND bloom_mask pos \<noteq> 0) else None)"

fun test_loop :: "u64 \<times> u64 \<Rightarrow> nat list \<Rightarrow> bloom_filter \<Rightarrow> bool option" where
  "test_loop h [] bf = Some True"
| "test_loop h (i # is) bf =
     (case test_one h i bf of
        None \<Rightarrow> None
      | Some False \<Rightarrow> Some False
      | Some True \<Rightarrow> test_loop h is bf)"

definition MayContain :: "bytes \<Rightarrow> bloom_filter \<Rightarrow> bool option" where
  "MayContain key bf = test_loop (bloom_hash key) [0..<unat (bf_numHash bf)] bf"

text \<open>\<open>binary.LittleEndian\<close>: the low byte first.\<close>

fun le_bytes :: "nat \<Rightarrow> nat \<Rightarrow> bytes" where
  "le_bytes 0 x = []"
| "le_bytes (Suc n) x = char_of (x mod 256) # le_bytes n (x div 256)"

fun le_val :: "bytes \<Rightarrow> nat" where
  "le_val [] = 0"
| "le_val (b # bs) = of_char b + 256 * le_val bs"

definition PutUint64 :: "u64 \<Rightarrow> bytes" where
  "PutUint64 w = le_bytes 8 (unat w)"

definition Uint64 :: "bytes \<Rightarrow> u64" where
  "Uint64 bs = word_of_nat (le_val (take 8 bs))"

definition MarshalBinary :: "bloom_filter \<Rightarrow> bytes" where
  "MarshalBinary bf = PutUint64 (bf_m bf) @ PutUint64 (bf_numHash bf) @ concat (map PutUint64 (bf_bits bf))"

definition errBloomCorrupt :: go_error where
  "errBloomCorrupt = errorf ''bloom filter: corrupt data''"

text \<open>The length test is in \<open>uint\<close> arithmetic: \<open>16 + words*8\<close> may wrap.\<close>

definition UnmarshalBloomFilter :: "bytes \<Rightarrow> bloom_filter result" where
  "UnmarshalBloomFilter data =
     (if length data < 16 then Inl errBloomCorrupt
      else let m = Uint64 data;
               k = Uint64 (drop 8 data);
               words = (m + 63) div 64
           in if word_of_nat (length data) < 16 + words * 8 then Inl errBloomCorrupt
              else Inr \<lparr>bf_bits = map (\<lambda>i. Uint64 (drop (16 + i * 8) data)) [0..<unat words],
                        bf_numHash = k, bf_m = m\<rparr>)"

section \<open>Well-formed filters\<close>

text \<open>The filters the constructor makes for a size above zero: the bits are there for every position.\<close>

definition bloom_wf :: "bloom_filter \<Rightarrow> bool" where
  "bloom_wf bf \<longleftrightarrow> bf_m bf \<noteq> 0 \<and> unat (bf_m bf) < 2 ^ 64 - 63 \<and> length (bf_bits bf) = bloom_words (bf_m bf)"

lemma bloom_words_eq:
  assumes "unat m < 2 ^ 64 - 63"
  shows "bloom_words m = (unat m + 63) div 64"
proof -
  have "unat (m + 63) = unat m + 63"
    using assms by (subst unat_add_lem[THEN iffD1]) (simp_all)
  then show ?thesis by (simp add: bloom_words_def unat_div)
qed

lemma bloom_pos_bound:
  assumes "bloom_wf bf"
  shows "\<exists>pos. bloom_pos bf h i = Some pos \<and> unat (pos div 64) < length (bf_bits bf)"
proof -
  let ?pos = "(fst h + of_nat i * snd h) mod bf_m bf"
  have m: "bf_m bf \<noteq> 0" "unat (bf_m bf) < 2 ^ 64 - 63" "length (bf_bits bf) = bloom_words (bf_m bf)"
    using assms by (auto simp: bloom_wf_def)
  have "0 < unat (bf_m bf)" using m(1) by (simp add: unat_gt_0)
  then have "unat ?pos < unat (bf_m bf)" by (simp add: unat_mod)
  then have "unat (?pos div 64) < (unat (bf_m bf) + 63) div 64" by (simp add: unat_div)
  then show ?thesis using m by (simp add: bloom_pos_def bloom_words_eq)
qed

lemma bloom_wf_new: "m \<noteq> 0 \<Longrightarrow> unat m < 2 ^ 64 - 63 \<Longrightarrow> bloom_wf (NewBloomFilter m k)"
  by (simp add: bloom_wf_def NewBloomFilter_def)

lemma add_one_wf:
  assumes "bloom_wf bf"
  shows "\<exists>bf'. add_one h i bf = Some bf' \<and> bloom_wf bf' \<and> bf_m bf' = bf_m bf \<and> bf_numHash bf' = bf_numHash bf"
proof -
  obtain pos where "bloom_pos bf h i = Some pos" "unat (pos div 64) < length (bf_bits bf)"
    using bloom_pos_bound[OF assms] by blast
  with assms show ?thesis by (simp add: add_one_def bloom_wf_def Let_def)
qed

lemma add_loop_wf:
  "bloom_wf bf \<Longrightarrow> \<exists>bf'. add_loop h is bf = Some bf' \<and> bloom_wf bf' \<and> bf_m bf' = bf_m bf \<and> bf_numHash bf' = bf_numHash bf"
proof (induction "is" arbitrary: bf)
  case (Cons i "is")
  then obtain bf1 where "add_one h i bf = Some bf1" "bloom_wf bf1" "bf_m bf1 = bf_m bf" "bf_numHash bf1 = bf_numHash bf"
    using add_one_wf by blast
  with Cons.IH[of bf1] show ?case by auto
qed simp

text \<open>The bits that are set only grow.\<close>

definition bloom_le :: "bloom_filter \<Rightarrow> bloom_filter \<Rightarrow> bool" where
  "bloom_le a b \<longleftrightarrow> bf_m a = bf_m b \<and> bf_numHash a = bf_numHash b \<and> length (bf_bits a) = length (bf_bits b) \<and>
     (\<forall>w < length (bf_bits a). \<forall>n. bit (bf_bits a ! w) n \<longrightarrow> bit (bf_bits b ! w) n)"

lemma bloom_le_refl [simp]: "bloom_le a a"
  by (simp add: bloom_le_def)

lemma bloom_le_trans: "bloom_le a b \<Longrightarrow> bloom_le b c \<Longrightarrow> bloom_le a c"
  by (auto simp: bloom_le_def)

lemma add_one_le: "add_one h i bf = Some bf' \<Longrightarrow> bloom_le bf bf'"
  by (auto simp: add_one_def bloom_le_def Let_def nth_list_update bit_or_iff split: option.splits if_splits)

lemma add_loop_le: "add_loop h is bf = Some bf' \<Longrightarrow> bloom_le bf bf'"
proof (induction "is" arbitrary: bf)
  case (Cons i "is")
  then obtain bf1 where "add_one h i bf = Some bf1" "add_loop h is bf1 = Some bf'" by (auto split: option.splits)
  with Cons.IH[of bf1] add_one_le[of h i bf bf1] show ?case using bloom_le_trans by blast
qed simp

lemma mask_test: "x AND bloom_mask pos \<noteq> 0 \<longleftrightarrow> bit x (unat (pos mod 64))"
proof -
  have "unat (pos mod 64) < 64" by (simp add: unat_mod)
  then show ?thesis
    unfolding bloom_mask_def by (simp add: and_exp_eq_0_iff_not_bit push_bit_eq_mult)
qed

lemma test_one_mono:
  "bloom_le a b \<Longrightarrow> test_one h i a = Some True \<Longrightarrow> test_one h i b = Some True"
  by (auto simp: test_one_def bloom_le_def bloom_pos_def Let_def mask_test split: option.splits if_splits)

lemma add_one_test: "add_one h i bf = Some bf' \<Longrightarrow> test_one h i bf' = Some True"
proof -
  assume a: "add_one h i bf = Some bf'"
  then obtain pos where pos: "bloom_pos bf h i = Some pos" "unat (pos div 64) < length (bf_bits bf)"
    and bf': "bf' = bf\<lparr>bf_bits := (bf_bits bf)[unat (pos div 64) := bf_bits bf ! unat (pos div 64) OR bloom_mask pos]\<rparr>"
    by (auto simp: add_one_def Let_def split: option.splits if_splits)
  have "unat (pos mod 64) < 64" by (simp add: unat_mod)
  then have "bit (bloom_mask pos) (unat (pos mod 64))" by (simp add: bloom_mask_def bit_exp_iff)
  with pos show ?thesis
    by (simp add: bf' test_one_def Let_def bloom_pos_def mask_test bit_or_iff split: if_splits)
qed

lemma test_loop_True: "test_loop h is bf = Some True \<longleftrightarrow> (\<forall>i \<in> set is. test_one h i bf = Some True)"
  by (induction "is") (auto split: option.splits bool.splits)

lemma add_loop_test: "add_loop h is bf = Some bf' \<Longrightarrow> i \<in> set is \<Longrightarrow> test_one h i bf' = Some True"
proof (induction "is" arbitrary: bf)
  case (Cons j "is")
  then obtain bf1 where bf1: "add_one h j bf = Some bf1" "add_loop h is bf1 = Some bf'" by (auto split: option.splits)
  show ?case
  proof (cases "i \<in> set is")
    case True
    then show ?thesis using Cons.IH bf1(2) by blast
  next
    case False
    then have "i = j" using Cons.prems by simp
    then show ?thesis using test_one_mono[OF add_loop_le[OF bf1(2)] add_one_test[OF bf1(1)]] by simp
  qed
qed simp

lemma Bloom_Add_wf:
  "bloom_wf bf \<Longrightarrow> \<exists>bf'. Bloom_Add k bf = Some bf' \<and> bloom_wf bf' \<and> bf_m bf' = bf_m bf \<and> bf_numHash bf' = bf_numHash bf"
  unfolding Bloom_Add_def by (rule add_loop_wf)

lemma MayContain_mono: "bloom_le a b \<Longrightarrow> MayContain k a = Some True \<Longrightarrow> MayContain k b = Some True"
  unfolding MayContain_def test_loop_True using test_one_mono by (metis bloom_le_def)

lemma Bloom_Add_MayContain: "Bloom_Add k bf = Some bf' \<Longrightarrow> MayContain k bf' = Some True"
  unfolding Bloom_Add_def MayContain_def test_loop_True
  using add_loop_test add_loop_le by (metis bloom_le_def)

lemma MayContain_total: "bloom_wf bf \<Longrightarrow> MayContain k bf \<noteq> None"
proof -
  assume wf: "bloom_wf bf"
  have "test_one h i bf \<noteq> None" for h i
    using bloom_pos_bound[OF wf, of h i] by (auto simp: test_one_def Let_def)
  then have "test_loop h is bf \<noteq> None" for h "is"
    by (induction "is") (auto split: option.splits bool.splits)
  then show ?thesis unfolding MayContain_def by blast
qed

fun add_all :: "bytes list \<Rightarrow> bloom_filter \<Rightarrow> bloom_filter option" where
  "add_all [] bf = Some bf"
| "add_all (k # ks) bf = (case Bloom_Add k bf of None \<Rightarrow> None | Some bf' \<Rightarrow> add_all ks bf')"

lemma add_all_le: "add_all ks bf = Some bf' \<Longrightarrow> bloom_le bf bf'"
proof (induction ks arbitrary: bf)
  case (Cons k ks)
  then obtain bf1 where "Bloom_Add k bf = Some bf1" "add_all ks bf1 = Some bf'" by (auto split: option.splits)
  with Cons.IH[of bf1] add_loop_le show ?case unfolding Bloom_Add_def using bloom_le_trans by blast
qed simp

lemma add_all_complete:
  "bloom_wf bf \<Longrightarrow> \<exists>bf'. add_all ks bf = Some bf' \<and> bloom_wf bf' \<and> (\<forall>k \<in> set ks. MayContain k bf' = Some True)"
proof (induction ks arbitrary: bf)
  case (Cons k ks)
  then obtain bf1 where b: "Bloom_Add k bf = Some bf1" "bloom_wf bf1" using Bloom_Add_wf by blast
  with Cons.IH obtain bf' where bf': "add_all ks bf1 = Some bf'" "bloom_wf bf'"
    "\<forall>k \<in> set ks. MayContain k bf' = Some True" by blast
  moreover have "MayContain k bf' = Some True"
    using MayContain_mono[OF add_all_le[OF bf'(1)] Bloom_Add_MayContain[OF b(1)]] .
  ultimately show ?case using b by auto
qed simp

section \<open>The binary format\<close>

lemma length_le_bytes [simp]: "length (le_bytes n x) = n"
  by (induction n arbitrary: x) auto

lemma le_val_bytes: "le_val (le_bytes n x) = x mod 256 ^ n"
proof (induction n arbitrary: x)
  case (Suc n)
  have "of_char (char_of (x mod 256) :: char) = x mod 256" by simp
  then have "le_val (le_bytes (Suc n) x) = x mod 256 + 256 * (x div 256 mod 256 ^ n)"
    using Suc by simp
  also have "\<dots> = x mod 256 ^ Suc n" by (simp add: mod_mult2_eq)
  finally show ?case .
qed simp

lemma length_PutUint64 [simp]: "length (PutUint64 w) = 8"
  by (simp add: PutUint64_def)

lemma Uint64_PutUint64 [simp]: "Uint64 (PutUint64 w @ rest) = w"
proof -
  have "le_val (PutUint64 w) = unat w"
    using unsigned_less[of w, where 'a = nat] by (simp add: PutUint64_def le_val_bytes)
  then show ?thesis by (simp add: Uint64_def)
qed

lemma length_concat_Put [simp]: "length (concat (map PutUint64 ws)) = length ws * 8"
  by (induction ws) auto

lemma drop_concat_Put: "drop (i * 8) (concat (map PutUint64 ws)) = concat (map PutUint64 (drop i ws))"
proof (induction ws arbitrary: i)
  case (Cons w ws)
  then show ?case by (cases i) simp_all
qed simp

lemma Uint64_concat: "i < length ws \<Longrightarrow> Uint64 (drop (i * 8) (concat (map PutUint64 ws))) = ws ! i"
  by (simp add: drop_concat_Put flip: Cons_nth_drop_Suc)

lemma unat_needed: "unat (16 + (m + 63) div 64 * 8 :: u64) = 16 + bloom_words m * 8"
proof -
  have "bloom_words m < 2 ^ 58"
    using unsigned_less[of "m + 63", where 'a = nat] by (simp add: bloom_words_def unat_div)
  then have "16 + bloom_words m * 8 < 2 ^ 64" by simp
  then show ?thesis
    by (simp add: bloom_words_def unat_word_ariths)
qed

lemma length_test:
  assumes "length data < 2 ^ 64"
  shows "(word_of_nat (length data) :: u64) < 16 + (m + 63) div 64 * 8 \<longleftrightarrow> length data < 16 + bloom_words m * 8"
  unfolding word_less_nat_alt unat_needed using assms by (simp add: unat_of_nat take_bit_eq_mod)

lemma Unmarshal_Marshal:
  assumes "length (bf_bits bf) = bloom_words (bf_m bf)"
  shows "UnmarshalBloomFilter (MarshalBinary bf @ rest) = Inr bf \<or> 2 ^ 64 \<le> length (MarshalBinary bf @ rest)"
proof (cases "length (MarshalBinary bf @ rest) < 2 ^ 64")
  case True
  let ?data = "MarshalBinary bf @ rest" and ?ws = "bf_bits bf"
  have len: "length ?data = 16 + length ?ws * 8 + length rest" by (simp add: MarshalBinary_def)
  have m: "Uint64 ?data = bf_m bf" "Uint64 (drop 8 ?data) = bf_numHash bf"
    by (simp_all add: MarshalBinary_def)
  have drp: "drop (16 + i * 8) ?data = drop (i * 8) (concat (map PutUint64 ?ws)) @ rest" if "i < length ?ws" for i
    using that by (simp add: MarshalBinary_def)
  have "Uint64 (drop (16 + i * 8) ?data) = ?ws ! i" if "i < length ?ws" for i
    unfolding drp[OF that] drop_concat_Put Cons_nth_drop_Suc[OF that, symmetric] by simp
  then have "map (\<lambda>i. Uint64 (drop (16 + i * 8) ?data)) [0..<length ?ws] = ?ws"
    by (intro nth_equalityI) simp_all
  moreover have "\<not> length ?data < 16"
      "\<not> (word_of_nat (length ?data) :: u64) < 16 + (bf_m bf + 63) div 64 * 8"
    using len length_test[OF True, of "bf_m bf"] assms by simp_all
  ultimately have "UnmarshalBloomFilter ?data = Inr bf"
    unfolding UnmarshalBloomFilter_def m Let_def bloom_words_def[symmetric] assms by simp
  then show ?thesis by simp
qed simp

text \<open>A file that is cut short anywhere is rejected.\<close>

lemma Unmarshal_truncated:
  assumes "length (bf_bits bf) = bloom_words (bf_m bf)" and "length (MarshalBinary bf) < 2 ^ 64"
    and "n < length (MarshalBinary bf)"
  shows "UnmarshalBloomFilter (take n (MarshalBinary bf)) = Inl errBloomCorrupt"
proof (cases "n < 16")
  case True
  then have "length (take n (MarshalBinary bf)) < 16" by simp
  then show ?thesis by (simp only: UnmarshalBloomFilter_def if_True)
next
  case False
  let ?data = "take n (MarshalBinary bf)"
  have len: "length ?data = n" using assms(3) by simp
  have "take 8 ?data = PutUint64 (bf_m bf)" using False by (simp add: MarshalBinary_def)
  then have m: "Uint64 ?data = bf_m bf"
    using Uint64_PutUint64[of "bf_m bf" "[]"] unfolding Uint64_def by simp
  have "n < 16 + bloom_words (bf_m bf) * 8" using assms by (simp add: MarshalBinary_def)
  moreover have "length ?data < 2 ^ 64" using assms(2,3) by simp
  ultimately show ?thesis
    using False length_test[of ?data "bf_m bf"] len by (simp add: UnmarshalBloomFilter_def Let_def m)
qed

section \<open>Properties\<close>

text \<open>C40: A filter of positive size never panics and has no false negatives: after adding any keys to a fresh
  filter, in any order, \<open>MayContain\<close> returns true for each of them.\<close>

theorem bloom_no_false_negatives:
  assumes "m \<noteq> 0" and "unat m < 2 ^ 64 - 63"
  shows "\<exists>bf. add_all ks (NewBloomFilter m n) = Some bf \<and>
              (\<forall>k \<in> set ks. MayContain k bf = Some True) \<and> (\<forall>k. MayContain k bf \<noteq> None)"
proof -
  obtain bf where bf: "add_all ks (NewBloomFilter m n) = Some bf" "bloom_wf bf"
    "\<forall>k \<in> set ks. MayContain k bf = Some True"
    using add_all_complete[OF bloom_wf_new[OF assms]] by blast
  with MayContain_total[OF bf(2)] show ?thesis by blast
qed

theorem bloom_no_false_negatives_witness:
  "\<exists>bf. add_all [''a'', ''b''] (NewBloomFilter 100 7) = Some bf \<and> MayContain ''b'' bf = Some True"
  using bloom_no_false_negatives[of 100 "[''a'', ''b'']" 7] by auto

text \<open>Decoding an encoded filter, whatever follows it in the file, gives the filter back, and decoding
  any proper prefix of an encoded filter is an error, for files shorter than 2 to the 64 bytes.\<close>

theorem bloom_codec:
  assumes "length (bf_bits bf) = bloom_words (bf_m bf)" and "length (MarshalBinary bf @ rest) < 2 ^ 64"
  shows "UnmarshalBloomFilter (MarshalBinary bf @ rest) = Inr bf \<and>
         (\<forall>n < length (MarshalBinary bf). UnmarshalBloomFilter (take n (MarshalBinary bf)) = Inl errBloomCorrupt)"
  using Unmarshal_Marshal[OF assms(1), of rest] Unmarshal_truncated[OF assms(1)] assms(2) by auto

theorem bloom_codec_witness:
  "UnmarshalBloomFilter (MarshalBinary (NewBloomFilter 100 7) @ ''tail'') = Inr (NewBloomFilter 100 7)"
proof (rule bloom_codec[THEN conjunct1])
  show "length (bf_bits (NewBloomFilter 100 7)) = bloom_words (bf_m (NewBloomFilter 100 7))"
    by (simp add: NewBloomFilter_def)
  show "length (MarshalBinary (NewBloomFilter 100 7) @ ''tail'') < 2 ^ 64"
    by (simp add: NewBloomFilter_def MarshalBinary_def bloom_words_def length_concat sum_list_replicate)
qed

text \<open>The decoder accepts data that no encoder writes and that the filter cannot use: sixteen zero bytes
  with a hash count decode to a filter of size zero, and looking up any key in it panics.\<close>

theorem Unmarshal_accepts_unusable:
  "\<exists>bf. UnmarshalBloomFilter (PutUint64 0 @ PutUint64 7) = Inr bf \<and> MayContain key bf = None"
proof -
  have "UnmarshalBloomFilter (PutUint64 0 @ PutUint64 7) = Inr \<lparr>bf_bits = [], bf_numHash = 7, bf_m = 0\<rparr>"
    using Uint64_PutUint64[of 7 "[]"] by (simp add: UnmarshalBloomFilter_def Let_def del: Uint64_PutUint64)
       (simp add: Uint64_PutUint64[of 0 "PutUint64 7"])
  moreover have "MayContain key \<lparr>bf_bits = [], bf_numHash = 7, bf_m = 0\<rparr> = None"
    by (simp add: MayContain_def upt_rec[of 0] test_one_def bloom_pos_def)
  ultimately show ?thesis by blast
qed

end
