(* ===== verification/Daemon.thy ===== *)
theory Daemon
  imports Deliver ErrorQueue Backoff Bloom
begin

text \<open>
  The daemon around the delivery of one D-Mail: the handler of file events, the hand-over to the error queue and
  the retries (\<open>src/internal/session/daemon_deliver.go\<close>), the startup scan (\<open>scan_deliver.go\<close>), the delivery
  log (\<open>delivery_log.go\<close>), and the retry cycle of the event loop (\<open>daemon_runner.go\<close>). Jobs that the code
  submits to its worker pool run one after the other here. A Go panic is the value \<open>None\<close>.
\<close>

section \<open>State\<close>

datatype domain_event =
    DeliveryCompleted path dmail_kind
  | DeliveryFailed path dmail_kind string
  | ErrorRetried string dmail_kind

record daemon_options =
  do_Routes :: "resolved_route list"
  do_OutboxDirs :: "path list"
  do_StateDir :: path
  do_Verbose :: bool
  do_DryRun :: bool
  do_RetryInterval :: duration
  do_MaxRetries :: int
  do_IdleTimeout :: duration

text \<open>\<open>dm_queue\<close> is \<open>None\<close> when the daemon has no error queue and \<open>dm_cb\<close> when the breaker is disabled.\<close>

record daemon =
  dm_pipe :: pipeline
  dm_queue :: "error_table option"
  dm_bloom :: bloom_filter
  dm_cb :: "circuit_breaker option"
  dm_dlog :: string
  dm_events :: "domain_event list"
  dm_dedup :: bool  \<comment> \<open>whether the delivery log is attached\<close>

section \<open>Delivery log\<close>

definition pad_right :: "nat \<Rightarrow> string \<Rightarrow> string" where
  "pad_right w s = s @ replicate (w - length s) CHR '' ''"

definition dlog_write :: "time \<Rightarrow> string \<Rightarrow> string \<Rightarrow> string \<Rightarrow> string" where
  "dlog_write now action details l =
     l @ format_RFC3339 now @ '' '' @ pad_right 9 action @ '' '' @ details @ [CHR 0x0A]"

definition dlog_Delivered :: "time \<Rightarrow> string \<Rightarrow> string \<Rightarrow> string \<Rightarrow> string \<Rightarrow> string" where
  "dlog_Delivered now kind from to = dlog_write now ''DELIVERED'' (''kind='' @ kind @ '' from='' @ from @ '' to='' @ to)"

definition dlog_Removed :: "time \<Rightarrow> string \<Rightarrow> string \<Rightarrow> string" where
  "dlog_Removed now from = dlog_write now ''REMOVED'' (''from='' @ from)"

definition dlog_Failed :: "time \<Rightarrow> string \<Rightarrow> string \<Rightarrow> string \<Rightarrow> string \<Rightarrow> string" where
  "dlog_Failed now kind from reason = dlog_write now ''FAILED'' (''kind='' @ kind @ '' from='' @ from @ '' reason='' @ reason)"

definition dlog_Retried :: "time \<Rightarrow> string \<Rightarrow> string \<Rightarrow> string \<Rightarrow> string \<Rightarrow> string" where
  "dlog_Retried now kind from to = dlog_write now ''RETRIED'' (''kind='' @ kind @ '' from='' @ from @ '' to='' @ to)"

section \<open>Handling a file event\<close>

record fs_event =
  ev_Name :: path
  ev_Create :: bool
  ev_Rename :: bool

definition shouldProcessEvent :: "fs_event \<Rightarrow> bool" where
  "shouldProcessEvent ev = (if \<not> ev_Create ev \<and> \<not> ev_Rename ev then False else IsDMailFile (ev_Name ev))"

record handle_io =
  hi_read :: "go_error option"
  hi_deliver :: deliver_io
  hi_now :: time
  hi_enqueue :: tx_io
  hi_remove :: "go_error option"

definition failure_kind :: "yaml_decoder \<Rightarrow> bytes \<Rightarrow> dmail_kind" where
  "failure_kind yaml data =
     (case ExtractDMailKind yaml data of Inl _ \<Rightarrow> UnknownKind | Inr k \<Rightarrow> if k = [] then UnknownKind else k)"

definition queue_name :: "error_metadata \<Rightarrow> string" where
  "queue_name meta = format_nano_name (em_Timestamp meta) @ ''-'' @ em_Kind meta @ ''-'' @ em_OriginalName meta"

text \<open>Put the D-Mail into the queue under the name of its metadata and, when that worked, remove the file.\<close>

definition move_to_queue :: "tx_io \<Rightarrow> go_error option \<Rightarrow> path \<Rightarrow> bytes \<Rightarrow> error_metadata \<Rightarrow> daemon \<Rightarrow> daemon" where
  "move_to_queue io rmErr p data meta s =
     (case dm_queue s of
        None \<Rightarrow> s
      | Some q \<Rightarrow>
          (case Enqueue io (queue_name meta) data meta q of
             (Inl _, q') \<Rightarrow> s\<lparr>dm_queue := Some q'\<rparr>
           | (Inr _, q') \<Rightarrow>
               s\<lparr>dm_queue := Some q',
                 dm_pipe := (dm_pipe s)\<lparr>pl_disk := snd (os_Remove rmErr p (pl_disk (dm_pipe s)))\<rparr>\<rparr>))"

definition enqueueDeliveryFailure ::
  "tx_io \<Rightarrow> go_error option \<Rightarrow> time \<Rightarrow> path \<Rightarrow> bytes \<Rightarrow> dmail_kind \<Rightarrow> go_error \<Rightarrow> daemon \<Rightarrow> daemon" where
  "enqueueDeliveryFailure io rmErr now p data kind deliverErr s =
     move_to_queue io rmErr p data
       \<lparr>em_SourceOutbox = Dir p, em_Kind = kind, em_OriginalName = Base p, em_Attempts = 1,
        em_Error = err_msg deliverErr, em_Timestamp = now\<rparr> s"

definition log_delivered :: "time \<Rightarrow> delivery_result \<Rightarrow> daemon \<Rightarrow> daemon" where
  "log_delivered now res s =
     (let l = fold (\<lambda>target. dlog_Delivered now (dr_Kind res) (dr_SourcePath res) target) (dr_DeliveredTo res) (dm_dlog s)
      in s\<lparr>dm_dlog := (if dk_files (pl_disk (dm_pipe s)) (dr_SourcePath res) = None
                       then dlog_Removed now (dr_SourcePath res) l else l)\<rparr>)"

definition mark_bloom :: "path \<Rightarrow> delivery_result \<Rightarrow> daemon \<Rightarrow> daemon option" where
  "mark_bloom p res s =
     (if dr_DeliveredTo res = [] then Some s
      else map_option (\<lambda>bf. s\<lparr>dm_bloom := bf\<rparr>) (Bloom_Add p (dm_bloom s)))"

text \<open>What follows a failed and a successful delivery.\<close>

definition on_failure :: "yaml_decoder \<Rightarrow> handle_io \<Rightarrow> path \<Rightarrow> bytes \<Rightarrow> go_error \<Rightarrow> daemon \<Rightarrow> daemon" where
  "on_failure yaml io p data e s =
     (let kind = failure_kind yaml data;
          s = s\<lparr>dm_dlog := dlog_Failed (hi_now io) kind p (err_msg e) (dm_dlog s),
                dm_events := dm_events s @ [DeliveryFailed p kind (err_msg e)],
                dm_cb := map_option (RecordDeliveryError (hi_now io) (ClassifyDeliveryError (Some e))) (dm_cb s)\<rparr>
      in enqueueDeliveryFailure (hi_enqueue io) (hi_remove io) (hi_now io) p data kind e s)"

definition on_success :: "handle_io \<Rightarrow> path \<Rightarrow> delivery_result \<Rightarrow> daemon \<Rightarrow> daemon option" where
  "on_success io p res s =
     (let s = s\<lparr>dm_cb := map_option CB_RecordSuccess (dm_cb s)\<rparr>;
          s = log_delivered (hi_now io) res s;
          s = s\<lparr>dm_events := dm_events s @ [DeliveryCompleted (dr_SourcePath res) (dr_Kind res)]\<rparr>
      in mark_bloom p res s)"

definition handleEvent :: "yaml_decoder \<Rightarrow> daemon_options \<Rightarrow> handle_io \<Rightarrow> fs_event \<Rightarrow> daemon \<Rightarrow> daemon option" where
  "handleEvent yaml opts io ev s =
     (if \<not> shouldProcessEvent ev then Some s
      else if do_DryRun opts then Some s
      else case os_ReadFile (hi_read io) (ev_Name ev) (pl_disk (dm_pipe s)) of
             Inl _ \<Rightarrow> Some s
           | Inr data \<Rightarrow>
               (case DeliverData yaml (hi_deliver io) (ev_Name ev) data (do_Routes opts) (dm_dedup s) (dm_pipe s) of
                  ((r, e), pipe) \<Rightarrow>
                    let s = s\<lparr>dm_pipe := pipe\<rparr>
                    in (case e of
                          Some e \<Rightarrow> Some (on_failure yaml io (ev_Name ev) data e s)
                        | None \<Rightarrow> (case r of Some res \<Rightarrow> on_success io (ev_Name ev) res s | None \<Rightarrow> None))))"

section \<open>Startup scan\<close>

record dir_entry =
  den_Name :: string
  den_IsDir :: bool

text \<open>One file of the outbox; the results and errors are appended.\<close>

definition scan_one ::
  "yaml_decoder \<Rightarrow> resolved_route list \<Rightarrow> handle_io \<Rightarrow> path \<Rightarrow> string \<Rightarrow> daemon \<Rightarrow>
   (delivery_result list \<times> go_error list \<times> daemon) option" where
  "scan_one yaml routes io outboxDir name s =
     (let p = path_Join [outboxDir, name]
      in case MayContain p (dm_bloom s) of
           None \<Rightarrow> None
         | Some True \<Rightarrow> Some ([], [], s)
         | Some False \<Rightarrow>
             (case os_ReadFile (hi_read io) p (pl_disk (dm_pipe s)) of
                Inl e \<Rightarrow> Some ([], [wrapf (''read '' @ p @ '': '') e], s)
              | Inr data \<Rightarrow>
                  (case DeliverData yaml (hi_deliver io) p data routes (dm_dedup s) (dm_pipe s) of
                     ((r, e), pipe) \<Rightarrow>
                       let s = s\<lparr>dm_pipe := pipe\<rparr>
                       in (case e of
                             Some e \<Rightarrow>
                               let meta = \<lparr>em_SourceOutbox = outboxDir, em_Kind = failure_kind yaml data, em_OriginalName = name,
                                           em_Attempts = 1, em_Error = err_msg e, em_Timestamp = hi_now io\<rparr>;
                                   s = move_to_queue (hi_enqueue io) (hi_remove io) p data meta s
                               in Some ([], [wrapf (''deliver '' @ p @ '': '') e], s)
                           | None \<Rightarrow> (case r of Some res \<Rightarrow> Some ([res], [], s) | None \<Rightarrow> None)))))"

fun scan_loop ::
  "yaml_decoder \<Rightarrow> resolved_route list \<Rightarrow> (string \<Rightarrow> handle_io) \<Rightarrow> path \<Rightarrow> string list \<Rightarrow> daemon \<Rightarrow>
   (delivery_result list \<times> go_error list \<times> daemon) option" where
  "scan_loop yaml routes io outboxDir [] s = Some ([], [], s)"
| "scan_loop yaml routes io outboxDir (name # names) s =
     (case scan_one yaml routes (io name) outboxDir name s of
        None \<Rightarrow> None
      | Some (rs, es, s') \<Rightarrow>
          (case scan_loop yaml routes io outboxDir names s' of
             None \<Rightarrow> None
           | Some (rs', es', s'') \<Rightarrow> Some (rs @ rs', es @ es', s'')))"

definition ScanAndDeliver ::
  "yaml_decoder \<Rightarrow> resolved_route list \<Rightarrow> (string \<Rightarrow> handle_io) \<Rightarrow> dir_entry list result \<Rightarrow> path \<Rightarrow> daemon \<Rightarrow>
   (delivery_result list \<times> go_error list \<times> daemon) option" where
  "ScanAndDeliver yaml routes io listing outboxDir s =
     (case listing of
        Inl e \<Rightarrow> Some ([], [wrapf (''scan outbox '' @ outboxDir @ '': '') e], s)
      | Inr entries \<Rightarrow>
          let filtered = map den_Name (filter (\<lambda>d. \<not> den_IsDir d \<and> IsDMailFile (den_Name d)) entries)
          in scan_loop yaml routes io outboxDir filtered s)"

text \<open>\<open>runStartupScan\<close>: scan every outbox, then log and mark what was delivered.\<close>

fun scan_results :: "time \<Rightarrow> delivery_result list \<Rightarrow> daemon \<Rightarrow> daemon option" where
  "scan_results now [] s = Some s"
| "scan_results now (res # rs) s =
     (case mark_bloom (dr_SourcePath res) res (log_delivered now res s) of
        None \<Rightarrow> None
      | Some s' \<Rightarrow> scan_results now rs s')"

fun runStartupScan ::
  "yaml_decoder \<Rightarrow> daemon_options \<Rightarrow> time \<Rightarrow> (path \<Rightarrow> string \<Rightarrow> handle_io) \<Rightarrow> (path \<Rightarrow> dir_entry list result) \<Rightarrow>
   path list \<Rightarrow> daemon \<Rightarrow> daemon option" where
  "runStartupScan yaml opts now io listing [] s = Some s"
| "runStartupScan yaml opts now io listing (dir # dirs) s =
     (case ScanAndDeliver yaml (do_Routes opts) (io dir) (listing dir) dir s of
        None \<Rightarrow> None
      | Some (results, errs, s') \<Rightarrow>
          (case scan_results now results s' of
             None \<Rightarrow> None
           | Some s'' \<Rightarrow> runStartupScan yaml opts now io listing dirs s''))"

section \<open>Retries\<close>

record retry_io =
  ri_claim :: claim_io
  ri_sqlnow :: int
  ri_deliver :: "string \<Rightarrow> deliver_io"
  ri_inc :: "string \<Rightarrow> tx_io"
  ri_mark :: "string \<Rightarrow> tx_io"
  ri_now :: time
  ri_pid :: int

definition retry_one ::
  "yaml_decoder \<Rightarrow> daemon_options \<Rightarrow> retry_io \<Rightarrow> error_entry \<Rightarrow> error_table \<Rightarrow> daemon \<Rightarrow> (bool \<times> error_table \<times> daemon) option" where
  "retry_one yaml opts io e q s =
     (let originalPath = path_Join [en_SourceOutbox e, en_OriginalName e]
      in case DeliverData yaml (ri_deliver io (en_Name e)) originalPath (en_Data e) (do_Routes opts) (dm_dedup s) (dm_pipe s) of
           ((r, err), pipe) \<Rightarrow>
             let s = s\<lparr>dm_pipe := pipe\<rparr>
             in (case err of
                   Some deliverErr \<Rightarrow>
                     Some (False, snd (IncrementRetry (ri_inc io (en_Name e)) (en_Name e) (err_msg deliverErr) q), s)
                 | None \<Rightarrow> (case r of None \<Rightarrow> None | Some res \<Rightarrow>
                     let q = snd (MarkResolved (ri_mark io (en_Name e)) (en_Name e) q);
                         s = s\<lparr>dm_dlog := fold (\<lambda>target. dlog_Retried (ri_now io) (dr_Kind res) originalPath target)
                                           (dr_DeliveredTo res) (dm_dlog s),
                               dm_events := dm_events s @ [ErrorRetried (en_OriginalName e) (dr_Kind res)]\<rparr>
                     in map_option (\<lambda>s. (True, q, s)) (mark_bloom originalPath res s))))"

fun retry_loop ::
  "yaml_decoder \<Rightarrow> daemon_options \<Rightarrow> retry_io \<Rightarrow> error_entry list \<Rightarrow> error_table \<Rightarrow> daemon \<Rightarrow> (nat \<times> error_table \<times> daemon) option" where
  "retry_loop yaml opts io [] q s = Some (0, q, s)"
| "retry_loop yaml opts io (e # es) q s =
     (case retry_one yaml opts io e q s of
        None \<Rightarrow> None
      | Some (ok, q', s') \<Rightarrow>
          map_option (\<lambda>(n, q, s). ((if ok then 1 else 0) + n, q, s)) (retry_loop yaml opts io es q' s'))"

definition effective_max_retries :: "int \<Rightarrow> int" where
  "effective_max_retries n = (if n \<le> 0 then 10 else n)"

definition retryPending :: "yaml_decoder \<Rightarrow> daemon_options \<Rightarrow> retry_io \<Rightarrow> daemon \<Rightarrow> (nat \<times> daemon) option" where
  "retryPending yaml opts io s =
     (case dm_queue s of
        None \<Rightarrow> Some (0, s)
      | Some q \<Rightarrow>
          (case ClaimPendingRetries (ri_claim io) (ri_sqlnow io) (''daemon-'' @ Itoa (ri_pid io))
                  (effective_max_retries (do_MaxRetries opts)) q of
             (Inl _, q') \<Rightarrow> Some (0, s\<lparr>dm_queue := Some q'\<rparr>)
           | (Inr [], q') \<Rightarrow> Some (0, s\<lparr>dm_queue := Some q'\<rparr>)
           | (Inr entries, q') \<Rightarrow>
               map_option (\<lambda>(n, q, s). (n, s\<lparr>dm_queue := Some q\<rparr>)) (retry_loop yaml opts io entries q' s)))"

section \<open>Idle timeout\<close>

definition EffectiveIdleTimeout :: "duration \<Rightarrow> duration" where
  "EffectiveIdleTimeout timeout = (if timeout < 0 then 0 else if timeout = 0 then 24 * hour else timeout)"

section \<open>The delivery filter on disk\<close>

definition filter_path :: "path \<Rightarrow> path" where
  "filter_path stateDir = path_Join [stateDir, ''.run'', ''delivered.bloom'']"

definition SaveDeliveryFilter :: "go_error option \<Rightarrow> write_fault \<Rightarrow> path \<Rightarrow> bloom_filter \<Rightarrow> disk \<Rightarrow> unit result \<times> disk" where
  "SaveDeliveryFilter mkdir fault stateDir bf d =
     (case mkdir of
        Some e \<Rightarrow> (Inl e, d)
      | None \<Rightarrow> os_WriteFile fault (filter_path stateDir) (MarshalBinary bf) d)"

definition LoadDeliveryFilter :: "go_error option \<Rightarrow> path \<Rightarrow> disk \<Rightarrow> bloom_filter option result" where
  "LoadDeliveryFilter err stateDir d =
     (case os_ReadFile err (filter_path stateDir) d of
        Inl e \<Rightarrow> if ErrNotExist \<in> set (err_chain e) then Inr None else Inl e
      | Inr data \<Rightarrow> (case UnmarshalBloomFilter data of Inl e \<Rightarrow> Inl e | Inr bf \<Rightarrow> Inr (Some bf)))"

section \<open>The event loop\<close>

text \<open>Without a retry interval the loop has neither a backoff nor a retry timer.\<close>

record loop_state =
  ls_daemon :: daemon
  ls_backoff :: "retry_backoff option"
  ls_snapshot :: provider_state_snapshot  \<comment> \<open>the provider state file\<close>

record cycle_io =
  cy_allow :: "observation list"
  cy_retry :: retry_io
  cy_pending :: "go_error option"
  cy_write :: "go_error option"
  cy_draw :: int

datatype cycle_result = Blocked loop_state | Panicked | Cycled loop_state duration

definition reset_timer :: "cycle_io \<Rightarrow> retry_backoff \<Rightarrow> loop_state \<Rightarrow> cycle_result" where
  "reset_timer io b ls =
     (case Backoff_Next b (cy_draw io) of None \<Rightarrow> Panicked | Some d \<Rightarrow> Cycled ls d)"

text \<open>The rest of the case once the breaker let it pass: the outcome of the retries, the breaker and the snapshot.\<close>

definition after_retry :: "daemon_options \<Rightarrow> cycle_io \<Rightarrow> nat \<Rightarrow> retry_backoff \<Rightarrow> loop_state \<Rightarrow> cycle_result" where
  "after_retry opts io successes b ls =
     (let d = ls_daemon ls;
          now = ri_now (cy_retry io);
          b' = (if successes > 0 then Backoff_RecordSuccess b else Backoff_RecordFailure b);
          pending = (case dm_queue d of
                       None \<Rightarrow> 0
                     | Some q \<Rightarrow> (case PendingCount (cy_pending io) (do_MaxRetries opts) q of Inl _ \<Rightarrow> 0 | Inr n \<Rightarrow> n));
          cb = (if successes > 0 then map_option CB_RecordSuccess (dm_cb d)
                else if pending > 0
                     then map_option (RecordDeliveryError now
                            \<lparr>de_Kind = DeliveryErrorTransient, de_ResetAt = 0, de_Err = None\<rparr>) (dm_cb d)
                     else dm_cb d);
          snapshot = (case cb of Some cb \<Rightarrow> CB_Snapshot cb | None \<Rightarrow> Backoff_Snapshot b');
          ls = ls\<lparr>ls_backoff := Some b', ls_daemon := d\<lparr>dm_cb := cb\<rparr>\<rparr>;
          ls = (case cy_write io of None \<Rightarrow> ls\<lparr>ls_snapshot := snapshot\<rparr> | Some _ \<Rightarrow> ls)
      in reset_timer io b' ls)"

text \<open>One firing of the retry timer; without a timer, and while \<open>Allow\<close> waits for a closed breaker, the case blocks.\<close>

definition retry_cycle :: "yaml_decoder \<Rightarrow> daemon_options \<Rightarrow> cycle_io \<Rightarrow> loop_state \<Rightarrow> cycle_result" where
  "retry_cycle yaml opts io ls =
     (case ls_backoff ls of None \<Rightarrow> Blocked ls | Some b \<Rightarrow>
      let d = ls_daemon ls;
          go = (\<lambda>ls. case retryPending yaml opts (cy_retry io) (ls_daemon ls) of
                      None \<Rightarrow> Panicked
                    | Some (n, d) \<Rightarrow> after_retry opts io n b (ls\<lparr>ls_daemon := d\<rparr>))
      in case dm_cb d of
           None \<Rightarrow> go ls
         | Some cb \<Rightarrow>
             (case Allow (cy_allow io) cb of
                (None, cb') \<Rightarrow> Blocked (ls\<lparr>ls_daemon := d\<lparr>dm_cb := Some cb'\<rparr>\<rparr>)
              | (Some (Inl _), cb') \<Rightarrow> reset_timer io b (ls\<lparr>ls_daemon := d\<lparr>dm_cb := Some cb'\<rparr>\<rparr>)
              | (Some (Inr _), cb') \<Rightarrow> go (ls\<lparr>ls_daemon := d\<lparr>dm_cb := Some cb'\<rparr>\<rparr>)))"

section \<open>Start and stop of a run\<close>

text \<open>\<open>rn_size\<close> is what the floating-point arithmetic of \<open>NewBloomFilter(10000, 0.01)\<close> gives for the number of bits and of hashes.\<close>

record run_io =
  rn_dlog :: "go_error option"
  rn_store :: "go_error option"
  rn_load :: "go_error option"
  rn_size :: "u64 \<times> u64"
  rn_recover :: "go_error option"
  rn_flush :: flush_io
  rn_watch :: "path \<Rightarrow> go_error option"
  rn_pid :: int
  rn_writePid :: write_fault
  rn_writeStarted :: write_fault
  rn_now :: time
  rn_scan :: "path \<Rightarrow> string \<Rightarrow> handle_io"
  rn_listing :: "path \<Rightarrow> dir_entry list result"
  rn_draw :: int
  rn_writeState :: "go_error option"
  rn_removePid :: "go_error option"
  rn_removeStarted :: "go_error option"
  rn_mkdir :: "go_error option"
  rn_save :: write_fault

abbreviation on_disk :: "(disk \<Rightarrow> disk) \<Rightarrow> daemon \<Rightarrow> daemon" where
  "on_disk f d \<equiv> d\<lparr>dm_pipe := (dm_pipe d)\<lparr>pl_disk := f (pl_disk (dm_pipe d))\<rparr>\<rparr>"

definition pid_path :: "path \<Rightarrow> path" where
  "pid_path stateDir = path_Join [stateDir, ''watch.pid'']"

definition started_path :: "path \<Rightarrow> path" where
  "started_path stateDir = path_Join [stateDir, ''watch.started'']"

text \<open>The deferred calls of \<open>Run\<close>, each from the point on where the code registers it.\<close>

definition defer_save :: "daemon_options \<Rightarrow> run_io \<Rightarrow> daemon \<Rightarrow> daemon" where
  "defer_save opts io d = on_disk (\<lambda>k. snd (SaveDeliveryFilter (rn_mkdir io) (rn_save io) (do_StateDir opts) (dm_bloom d) k)) d"

definition defer_pid :: "daemon_options \<Rightarrow> run_io \<Rightarrow> daemon \<Rightarrow> daemon" where
  "defer_pid opts io d = defer_save opts io (on_disk (\<lambda>k. snd (os_Remove (rn_removePid io) (pid_path (do_StateDir opts)) k)) d)"

definition run_stop :: "daemon_options \<Rightarrow> run_io \<Rightarrow> daemon \<Rightarrow> daemon" where
  "run_stop opts io d =
     defer_pid opts io (on_disk (\<lambda>k. snd (os_Remove (rn_removeStarted io) (started_path (do_StateDir opts)) k)) d)"

text \<open>Crash recovery at the start of \<open>Run\<close>.\<close>

definition recover :: "go_error option \<Rightarrow> flush_io \<Rightarrow> daemon \<Rightarrow> daemon" where
  "recover err io d =
     (case RecoverUnflushed err (pl_staged (dm_pipe d)) of
        Inl _ \<Rightarrow> d
      | Inr unflushed \<Rightarrow>
          if unflushed = [] then d
          else case FlushDeliveries io (pl_staged (dm_pipe d)) (pl_disk (dm_pipe d)) of
                 (_, _, t, disk) \<Rightarrow> d\<lparr>dm_pipe := (dm_pipe d)\<lparr>pl_staged := t, pl_disk := disk\<rparr>\<rparr>)"

fun watch_all :: "(path \<Rightarrow> go_error option) \<Rightarrow> path list \<Rightarrow> unit result" where
  "watch_all err [] = Inr ()"
| "watch_all err (dir # dirs) =
     (case err dir of Some e \<Rightarrow> Inl (wrapf (''watch '' @ dir @ '': '') e) | None \<Rightarrow> watch_all err dirs)"

text \<open>The timers and the breaker, set up after the scan.\<close>

definition init_loop :: "daemon_options \<Rightarrow> run_io \<Rightarrow> provider_state_snapshot \<Rightarrow> daemon \<Rightarrow> (loop_state \<times> duration option) option" where
  "init_loop opts io old d =
     (let snap = (case rn_writeState io of None \<Rightarrow> ActiveProviderState | Some _ \<Rightarrow> old)
      in if do_RetryInterval opts > 0
         then let b = NewRetryBackoff (do_RetryInterval opts) (wrap64 (do_RetryInterval opts * 32))
              in case Backoff_Next b (rn_draw io) of
                   None \<Rightarrow> None
                 | Some w \<Rightarrow> Some (\<lparr>ls_daemon = d\<lparr>dm_cb := Some NewCircuitBreaker\<rparr>, ls_backoff = Some b, ls_snapshot = snap\<rparr>, Some w)
         else Some (\<lparr>ls_daemon = d, ls_backoff = None, ls_snapshot = snap\<rparr>, None))"

datatype start_result =
    StartFailed go_error daemon
  | StartPanicked
  | Started loop_state "duration option" duration

definition run_start :: "yaml_decoder \<Rightarrow> daemon_options \<Rightarrow> run_io \<Rightarrow> provider_state_snapshot \<Rightarrow> daemon \<Rightarrow> start_result" where
  "run_start yaml opts io old d =
     (case rn_dlog io of Some e \<Rightarrow> StartFailed (wrapf ''open delivery log: '' (wrapf ''open delivery log: '' e)) d | None \<Rightarrow>
      case rn_store io of Some e \<Rightarrow> StartFailed (wrapf ''open delivery store: '' e) d | None \<Rightarrow>
      let bf = (case LoadDeliveryFilter (rn_load io) (do_StateDir opts) (pl_disk (dm_pipe d)) of
                  Inr (Some bf) \<Rightarrow> bf
                | _ \<Rightarrow> NewBloomFilter (fst (rn_size io)) (snd (rn_size io)));
          d = recover (rn_recover io) (rn_flush io) (d\<lparr>dm_bloom := bf\<rparr>)
      in case watch_all (rn_watch io) (do_OutboxDirs opts) of Inl e \<Rightarrow> StartFailed e (defer_save opts io d) | Inr _ \<Rightarrow>
      case os_WriteFile (rn_writePid io) (pid_path (do_StateDir opts)) (Itoa (rn_pid io)) (pl_disk (dm_pipe d)) of
        (Inl e, k) \<Rightarrow> StartFailed (wrapf ''write PID file: '' e) (defer_save opts io (on_disk (\<lambda>_. k) d))
      | (Inr _, k) \<Rightarrow>
          (case os_WriteFile (rn_writeStarted io) (started_path (do_StateDir opts)) (format_RFC3339 (rn_now io)) k of
             (Inl e, k) \<Rightarrow> StartFailed (wrapf ''write started file: '' e) (defer_pid opts io (on_disk (\<lambda>_. k) d))
           | (Inr _, k) \<Rightarrow>
               (case runStartupScan yaml opts (rn_now io) (rn_scan io) (rn_listing io) (do_OutboxDirs opts) (on_disk (\<lambda>_. k) d) of
                  None \<Rightarrow> StartPanicked
                | Some d \<Rightarrow>
                    (case init_loop opts io old d of
                       None \<Rightarrow> StartPanicked
                     | Some (ls, w) \<Rightarrow> Started ls w (EffectiveIdleTimeout (do_IdleTimeout opts))))))"

text \<open>
  The steps of a running daemon, in any order: recovery, the startup scan, an event taken from the channel, a
  retry cycle, and what other programs do to the files meanwhile (producers write outboxes, readers empty inboxes).
\<close>

inductive daemon_step :: "yaml_decoder \<Rightarrow> daemon_options \<Rightarrow> loop_state \<Rightarrow> loop_state \<Rightarrow> bool"
  for yaml opts where
  recovered: "daemon_step yaml opts ls (ls\<lparr>ls_daemon := recover err fio (ls_daemon ls)\<rparr>)"
| scanned: "runStartupScan yaml opts now sio listing (do_OutboxDirs opts) (ls_daemon ls) = Some d' \<Longrightarrow>
    daemon_step yaml opts ls (ls\<lparr>ls_daemon := d'\<rparr>)"
| event: "handleEvent yaml opts hio ev (ls_daemon ls) = Some d' \<Longrightarrow> daemon_step yaml opts ls (ls\<lparr>ls_daemon := d'\<rparr>)"
| cycled: "\<forall>ob \<in> set (cy_allow cio). \<forall>cb. cb_inv cb \<longrightarrow> cb_inv (ob_others ob cb) \<Longrightarrow>
    retry_cycle yaml opts cio ls = Cycled ls' wait \<Longrightarrow> daemon_step yaml opts ls ls'"
| outside: "daemon_step yaml opts ls
    (ls\<lparr>ls_daemon := (ls_daemon ls)\<lparr>dm_pipe := (dm_pipe (ls_daemon ls))\<lparr>pl_disk := (pl_disk (dm_pipe (ls_daemon ls)))\<lparr>dk_files := f\<rparr>\<rparr>\<rparr>\<rparr>)"

inductive_cases daemon_stepE: "daemon_step yaml opts ls ls'"

end
