(* ===== verification/DaemonCorrect.thy ===== *)
theory DaemonCorrect
  imports Daemon
begin

text \<open>
  What holds of the daemon's handlers: the invariant and the growing history of every step of the event loop, no handler
  panics, no D-Mail is lost, and every claimed entry of the error queue is settled by a retry.
\<close>

section \<open>What every delivery keeps\<close>

definition pipe_grows :: "pipeline \<Rightarrow> pipeline \<Rightarrow> bool" where
  "pipe_grows s s' \<longleftrightarrow> set (dk_renamed (pl_disk s)) \<subseteq> set (dk_renamed (pl_disk s')) \<and>
     recorded (pl_dedup s) \<subseteq> recorded (pl_dedup s')"

abbreviation pipe_ok :: "pipeline \<Rightarrow> bool" where
  "pipe_ok s \<equiv> staged_inv (pl_disk s) (pl_staged s)"

lemma DeliverData_keeps:
  assumes "DeliverData yaml io p data routes dedup s = ((r, e), s')" and "pipe_ok s"
  shows "pipe_ok s' \<and> pipe_grows s s' \<and> \<not> (r = None \<and> e = None)"
  using assms(1)
proof (cases rule: DeliverData_cases)
  case (skip sel res)
  then show ?thesis using assms(2) by (simp add: pipe_grows_def staged_inv_def)
next
  case (go sel inboxes res)
  let ?key = "ContentIdempotencyKey data"
  let ?oc = "flush_outcome_of io dedup ?key p data inboxes s"
  note f = outcome_flush[OF assms(2), where io = io and dedup = dedup and key = ?key and p = p and data = data and inboxes = inboxes]
  have log: "recorded (pl_dedup s) \<subseteq> recorded (fo_log ?oc)"
    using f(7) recordDedup_recorded by (fastforce simp: record_dedup_def split: if_splits)
  from go(3) show ?thesis
  proof (cases rule: stage_and_flush_cases)
    case (stage e0)
    then show ?thesis using assms(2) by (simp add: pipe_grows_def)
  next
    case flush
    have "dk_renamed (pl_disk s') = dk_renamed (fo_disk ?oc)" using flush(4) by simp
    then show ?thesis using f(1,2) log flush(1,2,3) by (simp add: pipe_grows_def staged_inv_def)
  qed
qed (use assms(2) in \<open>simp add: pipe_grows_def\<close>)

text \<open>The invariant of the daemon's state, and what never shrinks.\<close>

definition daemon_ok :: "daemon \<Rightarrow> bool" where
  "daemon_ok d \<longleftrightarrow> pipe_ok (dm_pipe d) \<and> bloom_wf (dm_bloom d) \<and> (\<forall>cb. dm_cb d = Some cb \<longrightarrow> cb_inv cb) \<and>
     (\<forall>q. dm_queue d = Some q \<longrightarrow> distinct (map eq_name q))"

definition daemon_grows :: "daemon \<Rightarrow> daemon \<Rightarrow> bool" where
  "daemon_grows d d' \<longleftrightarrow> pipe_grows (dm_pipe d) (dm_pipe d') \<and> rel_option queue_grows (dm_queue d) (dm_queue d')"

lemma daemon_grows_refl [simp]: "daemon_grows d d"
  by (auto simp: daemon_grows_def pipe_grows_def intro: option.rel_refl)

lemma daemon_grows_trans: "daemon_grows a b \<Longrightarrow> daemon_grows b c \<Longrightarrow> daemon_grows a c"
  unfolding daemon_grows_def pipe_grows_def
  by (cases "dm_queue a"; cases "dm_queue b"; cases "dm_queue c") (auto intro: queue_grows_trans)

text \<open>A step of the running daemon also never takes a path out of the Bloom filter.\<close>

definition daemon_moves :: "daemon \<Rightarrow> daemon \<Rightarrow> bool" where
  "daemon_moves d d' \<longleftrightarrow> daemon_grows d d' \<and> bloom_le (dm_bloom d) (dm_bloom d')"

lemma daemon_moves_refl [simp]: "daemon_moves d d"
  by (simp add: daemon_moves_def)

lemma daemon_moves_trans: "daemon_moves a b \<Longrightarrow> daemon_moves b c \<Longrightarrow> daemon_moves a c"
  unfolding daemon_moves_def using daemon_grows_trans bloom_le_trans by blast

lemma daemon_moves_grows: "daemon_moves d d' \<Longrightarrow> daemon_grows d d'"
  by (simp add: daemon_moves_def)

lemma cb_inv_fail: "cb_inv cb \<Longrightarrow> cb_inv (RecordDeliveryError now info cb)"
  by (rule cb_inv_step[OF cb_step.fail])

lemma cb_inv_success: "cb_inv cb \<Longrightarrow> cb_inv (CB_RecordSuccess cb)"
  by (rule cb_inv_step[OF cb_step.ok])

lemma distinct_in_tx:
  "(\<And>t. distinct (map eq_name t) \<Longrightarrow> distinct (map eq_name (snd (body t)))) \<Longrightarrow> distinct (map eq_name t) \<Longrightarrow>
   distinct (map eq_name (snd (in_tx n io body t)))"
  using in_tx_invariant[of body t "\<lambda>t. distinct (map eq_name t)" n io] by (metis snd_conv)

lemma distinct_Enqueue: "distinct (map eq_name q) \<Longrightarrow> distinct (map eq_name (snd (Enqueue io n b m q)))"
  unfolding Enqueue_def by (rule distinct_in_tx) (simp_all add: distinct_insert_ignore)

lemma distinct_IncrementRetry: "distinct (map eq_name q) \<Longrightarrow> distinct (map eq_name (snd (IncrementRetry io n m q)))"
  unfolding IncrementRetry_def by (rule distinct_in_tx) (simp_all add: update_where_keys[of eq_name])

lemma distinct_MarkResolved: "distinct (map eq_name q) \<Longrightarrow> distinct (map eq_name (snd (MarkResolved io n q)))"
  unfolding MarkResolved_def by (rule distinct_in_tx) (simp_all add: update_where_keys[of eq_name])

lemma distinct_Claim: "distinct (map eq_name q) \<Longrightarrow> distinct (map eq_name (snd (ClaimPendingRetries io now c m q)))"
  using Claim_cases[of io now c m q] distinct_claim by auto

lemma log_delivered_keeps [simp]:
  "dm_pipe (log_delivered now res s) = dm_pipe s" "dm_queue (log_delivered now res s) = dm_queue s"
  "dm_bloom (log_delivered now res s) = dm_bloom s" "dm_cb (log_delivered now res s) = dm_cb s"
  "dm_events (log_delivered now res s) = dm_events s" "dm_dedup (log_delivered now res s) = dm_dedup s"
  by (simp_all add: log_delivered_def Let_def)

lemma mark_bloom_total:
  assumes "bloom_wf (dm_bloom s)"
  shows "\<exists>bf. mark_bloom p res s = Some (s\<lparr>dm_bloom := bf\<rparr>) \<and> bloom_wf bf \<and> bloom_le (dm_bloom s) bf \<and>
     (dr_DeliveredTo res \<noteq> [] \<longrightarrow> MayContain p bf = Some True)"
proof (cases "dr_DeliveredTo res = []")
  case True
  then show ?thesis using assms by (intro exI[of _ "dm_bloom s"]) (simp add: mark_bloom_def)
next
  case False
  obtain bf where bf: "Bloom_Add p (dm_bloom s) = Some bf" "bloom_wf bf" using Bloom_Add_wf[OF assms] by blast
  have "bloom_le (dm_bloom s) bf" using bf(1) add_loop_le unfolding Bloom_Add_def by blast
  then show ?thesis
    using bf False Bloom_Add_MayContain[OF bf(1)] by (intro exI[of _ bf]) (simp add: mark_bloom_def)
qed

lemma move_to_queue_keeps:
  assumes "daemon_ok s"
  shows "daemon_ok (move_to_queue io rm p data meta s) \<and> daemon_moves s (move_to_queue io rm p data meta s)"
proof (cases "dm_queue s")
  case None
  then show ?thesis using assms by (simp add: move_to_queue_def)
next
  case (Some q)
  obtain r q' where q': "Enqueue io (queue_name meta) data meta q = (r, q')" by (metis surj_pair)
  have "distinct (map eq_name q')" "queue_grows q q'"
    using distinct_Enqueue[of q io "queue_name meta" data meta] Enqueue_grows[of q io "queue_name meta" data meta] assms Some q'
    by (simp_all add: daemon_ok_def)
  with assms Some q' show ?thesis
    by (cases r) (auto simp: move_to_queue_def daemon_ok_def daemon_moves_def daemon_grows_def pipe_grows_def staged_inv_def)
qed

lemma on_failure_keeps: "daemon_ok s \<Longrightarrow> daemon_ok (on_failure yaml io p data e s) \<and> daemon_moves s (on_failure yaml io p data e s)"
proof -
  assume ok: "daemon_ok s"
  let ?s = "s\<lparr>dm_dlog := dlog_Failed (hi_now io) (failure_kind yaml data) p (err_msg e) (dm_dlog s),
                dm_events := dm_events s @ [DeliveryFailed p (failure_kind yaml data) (err_msg e)],
                dm_cb := map_option (RecordDeliveryError (hi_now io) (ClassifyDeliveryError (Some e))) (dm_cb s)\<rparr>"
  have "daemon_ok ?s" "daemon_moves s ?s"
    using ok by (auto simp: daemon_ok_def daemon_moves_def daemon_grows_def pipe_grows_def cb_inv_fail intro: option.rel_refl)
  then show ?thesis
    using move_to_queue_keeps[of ?s] daemon_moves_trans unfolding on_failure_def enqueueDeliveryFailure_def Let_def by blast
qed

lemma on_success_keeps:
  assumes "daemon_ok s"
  shows "\<exists>s'. on_success io p res s = Some s' \<and> daemon_ok s' \<and> dm_pipe s' = dm_pipe s \<and> dm_queue s' = dm_queue s \<and>
     bloom_le (dm_bloom s) (dm_bloom s') \<and> (dr_DeliveredTo res \<noteq> [] \<longrightarrow> MayContain p (dm_bloom s') = Some True)"
proof -
  let ?s = "log_delivered (hi_now io) res (s\<lparr>dm_cb := map_option CB_RecordSuccess (dm_cb s)\<rparr>)"
  let ?t = "?s\<lparr>dm_events := dm_events ?s @ [DeliveryCompleted (dr_SourcePath res) (dr_Kind res)]\<rparr>"
  have "bloom_wf (dm_bloom ?t)" using assms by (simp add: daemon_ok_def)
  from mark_bloom_total[OF this, of p res] obtain bf where
    bf: "mark_bloom p res ?t = Some (?t\<lparr>dm_bloom := bf\<rparr>)" "bloom_wf bf" "bloom_le (dm_bloom s) bf"
      "dr_DeliveredTo res \<noteq> [] \<longrightarrow> MayContain p bf = Some True" by auto
  then have "on_success io p res s = Some (?t\<lparr>dm_bloom := bf\<rparr>)" by (simp add: on_success_def Let_def)
  moreover have "daemon_ok (?t\<lparr>dm_bloom := bf\<rparr>)" using assms bf(2) by (auto simp: daemon_ok_def cb_inv_success)
  ultimately show ?thesis using bf(3,4) by simp
qed

text \<open>Handling an event never panics.\<close>

lemma handleEvent_keeps:
  assumes ok: "daemon_ok s"
  shows "\<exists>s'. handleEvent yaml opts io ev s = Some s' \<and> daemon_ok s' \<and> daemon_moves s s'"
proof (cases "\<not> shouldProcessEvent ev \<or> do_DryRun opts \<or> isl (os_ReadFile (hi_read io) (ev_Name ev) (pl_disk (dm_pipe s)))")
  case True
  then show ?thesis using ok by (auto simp: handleEvent_def isl_def)
next
  case False
  then obtain data where rd: "os_ReadFile (hi_read io) (ev_Name ev) (pl_disk (dm_pipe s)) = Inr data"
    by (cases "os_ReadFile (hi_read io) (ev_Name ev) (pl_disk (dm_pipe s))") auto
  obtain r e pipe where dd: "DeliverData yaml (hi_deliver io) (ev_Name ev) data (do_Routes opts) (dm_dedup s) (dm_pipe s) = ((r, e), pipe)"
    by (metis surj_pair)
  have k: "pipe_ok pipe" "pipe_grows (dm_pipe s) pipe" "\<not> (r = None \<and> e = None)"
    using DeliverData_keeps[OF dd] ok by (auto simp: daemon_ok_def)
  let ?s = "s\<lparr>dm_pipe := pipe\<rparr>"
  have s: "daemon_ok ?s" "daemon_moves s ?s"
    using ok k by (auto simp: daemon_ok_def daemon_moves_def daemon_grows_def intro: option.rel_refl)
  show ?thesis
  proof (cases e)
    case (Some x)
    then have "handleEvent yaml opts io ev s = Some (on_failure yaml io (ev_Name ev) data x ?s)"
      using False rd dd by (simp add: handleEvent_def Let_def)
    then show ?thesis using on_failure_keeps[OF s(1)] s(2) daemon_moves_trans by blast
  next
    case None
    then obtain res where "r = Some res" using k by auto
    then have h: "handleEvent yaml opts io ev s = on_success io (ev_Name ev) res ?s"
      using False rd dd None by (simp add: handleEvent_def Let_def)
    obtain s' where s': "on_success io (ev_Name ev) res ?s = Some s'" "daemon_ok s'" "dm_pipe s' = pipe" "dm_queue s' = dm_queue s"
      "bloom_le (dm_bloom s) (dm_bloom s')"
      using on_success_keeps[OF s(1), of io "ev_Name ev" res] by auto
    then have "daemon_moves s s'" using s(2) by (simp add: daemon_moves_def daemon_grows_def)
    then show ?thesis using h s' by simp
  qed
qed

lemma scan_one_keeps:
  assumes ok: "daemon_ok s"
  shows "\<exists>rs es s'. scan_one yaml routes io dir name s = Some (rs, es, s') \<and> daemon_ok s' \<and> daemon_moves s s'"
proof -
  let ?p = "path_Join [dir, name]"
  obtain b where b: "MayContain ?p (dm_bloom s) = Some b"
    using MayContain_total[of "dm_bloom s" ?p] ok by (auto simp: daemon_ok_def)
  show ?thesis
  proof (cases "b \<or> isl (os_ReadFile (hi_read io) ?p (pl_disk (dm_pipe s)))")
    case True
    then show ?thesis using b ok by (auto simp: scan_one_def isl_def Let_def split: bool.splits)
  next
    case False
    then obtain data where rd: "os_ReadFile (hi_read io) ?p (pl_disk (dm_pipe s)) = Inr data"
      by (cases "os_ReadFile (hi_read io) ?p (pl_disk (dm_pipe s))") auto
    obtain r e pipe where dd: "DeliverData yaml (hi_deliver io) ?p data routes (dm_dedup s) (dm_pipe s) = ((r, e), pipe)"
      by (metis surj_pair)
    have k: "pipe_ok pipe" "pipe_grows (dm_pipe s) pipe" "\<not> (r = None \<and> e = None)"
      using DeliverData_keeps[OF dd] ok by (auto simp: daemon_ok_def)
    let ?s = "s\<lparr>dm_pipe := pipe\<rparr>"
    have s: "daemon_ok ?s" "daemon_moves s ?s"
      using ok k by (auto simp: daemon_ok_def daemon_moves_def daemon_grows_def intro: option.rel_refl)
    let ?m = "\<lambda>e. \<lparr>em_SourceOutbox = dir, em_Kind = failure_kind yaml data, em_OriginalName = name,
                   em_Attempts = 1, em_Error = err_msg e, em_Timestamp = hi_now io\<rparr>"
    note mv = move_to_queue_keeps[OF s(1), of "hi_enqueue io" "hi_remove io" ?p data]
    show ?thesis
    proof (cases e)
      case None
      then obtain res where "r = Some res" using k by auto
      then have "scan_one yaml routes io dir name s = Some ([res], [], ?s)"
        using b False rd dd None by (simp add: scan_one_def Let_def)
      then show ?thesis using s by blast
    next
      case (Some x)
      then have "scan_one yaml routes io dir name s =
          Some ([], [wrapf (''deliver '' @ ?p @ '': '') x], move_to_queue (hi_enqueue io) (hi_remove io) ?p data (?m x) ?s)"
        using b False rd dd by (simp add: scan_one_def Let_def)
      then show ?thesis using mv s(2) daemon_moves_trans by blast
    qed
  qed
qed

lemma scan_loop_keeps:
  "daemon_ok s \<Longrightarrow> \<exists>rs es s'. scan_loop yaml routes io dir names s = Some (rs, es, s') \<and> daemon_ok s' \<and> daemon_moves s s'"
proof (induction names arbitrary: s)
  case (Cons name names)
  obtain rs es s1 where s1: "scan_one yaml routes (io name) dir name s = Some (rs, es, s1)" "daemon_ok s1" "daemon_moves s s1"
    using scan_one_keeps[OF Cons.prems] by blast
  obtain rs' es' s2 where "scan_loop yaml routes io dir names s1 = Some (rs', es', s2)" "daemon_ok s2" "daemon_moves s1 s2"
    using Cons.IH[OF s1(2)] by blast
  with s1 show ?case using daemon_moves_trans by auto
qed simp

lemma scan_results_keeps:
  "daemon_ok s \<Longrightarrow> \<exists>s'. scan_results now rs s = Some s' \<and> daemon_ok s' \<and> daemon_moves s s'"
proof (induction rs arbitrary: s)
  case (Cons res rs)
  have "bloom_wf (dm_bloom (log_delivered now res s))" using Cons.prems by (simp add: daemon_ok_def)
  from mark_bloom_total[OF this, of "dr_SourcePath res" res] obtain bf where
    bf: "mark_bloom (dr_SourcePath res) res (log_delivered now res s) = Some ((log_delivered now res s)\<lparr>dm_bloom := bf\<rparr>)" "bloom_wf bf"
      "bloom_le (dm_bloom s) bf"
    by auto
  let ?s = "(log_delivered now res s)\<lparr>dm_bloom := bf\<rparr>"
  have "daemon_ok ?s" "daemon_moves s ?s"
    using Cons.prems bf(2,3) by (auto simp: daemon_ok_def daemon_moves_def daemon_grows_def pipe_grows_def intro: option.rel_refl)
  with Cons.IH[of ?s] bf(1) show ?case using daemon_moves_trans by auto
qed simp

lemma ScanAndDeliver_keeps:
  "daemon_ok s \<Longrightarrow> \<exists>rs es s'. ScanAndDeliver yaml routes io listing dir s = Some (rs, es, s') \<and> daemon_ok s' \<and> daemon_moves s s'"
  using scan_loop_keeps[of s] by (cases listing) (auto simp: ScanAndDeliver_def Let_def)

lemma runStartupScan_keeps:
  "daemon_ok s \<Longrightarrow> \<exists>s'. runStartupScan yaml opts now io listing dirs s = Some s' \<and> daemon_ok s' \<and> daemon_moves s s'"
proof (induction dirs arbitrary: s)
  case (Cons dir dirs)
  obtain rs es s1 where s1: "ScanAndDeliver yaml (do_Routes opts) (io dir) (listing dir) dir s = Some (rs, es, s1)" "daemon_ok s1" "daemon_moves s s1"
    using ScanAndDeliver_keeps[OF Cons.prems] by blast
  obtain s2 where s2: "scan_results now rs s1 = Some s2" "daemon_ok s2" "daemon_moves s1 s2" using scan_results_keeps[OF s1(2)] by blast
  obtain s3 where s3: "runStartupScan yaml opts now io listing dirs s2 = Some s3" "daemon_ok s3" "daemon_moves s2 s3"
    using Cons.IH[OF s2(2)] by blast
  have "daemon_moves s s3" using daemon_moves_trans[OF daemon_moves_trans[OF s1(3) s2(3)] s3(3)] .
  then show ?case using s1 s2 s3 by simp
qed simp

text \<open>Retries: the queue \<open>q\<close> is threaded through separately.\<close>

lemma retry_one_keeps:
  assumes ok: "daemon_ok s" and q: "distinct (map eq_name q)"
  shows "\<exists>b q' s'. retry_one yaml opts io e q s = Some (b, q', s') \<and> daemon_ok s' \<and> pipe_grows (dm_pipe s) (dm_pipe s') \<and>
     dm_queue s' = dm_queue s \<and> distinct (map eq_name q') \<and> queue_grows q q' \<and> bloom_le (dm_bloom s) (dm_bloom s')"
proof -
  let ?p = "path_Join [en_SourceOutbox e, en_OriginalName e]"
  obtain r err pipe where dd: "DeliverData yaml (ri_deliver io (en_Name e)) ?p (en_Data e) (do_Routes opts) (dm_dedup s) (dm_pipe s) = ((r, err), pipe)"
    by (metis surj_pair)
  have k: "pipe_ok pipe" "pipe_grows (dm_pipe s) pipe" "\<not> (r = None \<and> err = None)"
    using DeliverData_keeps[OF dd] ok by (auto simp: daemon_ok_def)
  let ?s = "s\<lparr>dm_pipe := pipe\<rparr>"
  have s: "daemon_ok ?s" using ok k by (simp add: daemon_ok_def)
  show ?thesis
  proof (cases err)
    case (Some x)
    let ?q = "snd (IncrementRetry (ri_inc io (en_Name e)) (en_Name e) (err_msg x) q)"
    have "retry_one yaml opts io e q s = Some (False, ?q, ?s)"
      using dd Some by (simp add: retry_one_def Let_def)
    moreover have "distinct (map eq_name ?q)" "queue_grows q ?q" using distinct_IncrementRetry[OF q] IncrementRetry_grows by auto
    ultimately show ?thesis using s k(2) by auto
  next
    case None
    then obtain res where res: "r = Some res" using k by auto
    let ?t = "?s\<lparr>dm_dlog := fold (\<lambda>target. dlog_Retried (ri_now io) (dr_Kind res) ?p target) (dr_DeliveredTo res) (dm_dlog s),
                 dm_events := dm_events s @ [ErrorRetried (en_OriginalName e) (dr_Kind res)]\<rparr>"
    have "bloom_wf (dm_bloom ?t)" using ok by (simp add: daemon_ok_def)
    from mark_bloom_total[OF this, of ?p res] obtain bf where bf: "mark_bloom ?p res ?t = Some (?t\<lparr>dm_bloom := bf\<rparr>)" "bloom_wf bf"
      "bloom_le (dm_bloom s) bf" by auto
    then have "retry_one yaml opts io e q s = Some (True, snd (MarkResolved (ri_mark io (en_Name e)) (en_Name e) q), ?t\<lparr>dm_bloom := bf\<rparr>)"
      using dd None res by (simp add: retry_one_def Let_def)
    moreover have "daemon_ok (?t\<lparr>dm_bloom := bf\<rparr>)" using s bf(2) by (simp add: daemon_ok_def)
    ultimately show ?thesis using k(2) bf(3) distinct_MarkResolved[OF q] MarkResolved_grows by auto
  qed
qed

lemma retry_loop_keeps:
  "daemon_ok s \<Longrightarrow> distinct (map eq_name q) \<Longrightarrow>
   \<exists>n q' s'. retry_loop yaml opts io es q s = Some (n, q', s') \<and> daemon_ok s' \<and> pipe_grows (dm_pipe s) (dm_pipe s') \<and>
     dm_queue s' = dm_queue s \<and> distinct (map eq_name q') \<and> queue_grows q q' \<and> n \<le> length es \<and>
     bloom_le (dm_bloom s) (dm_bloom s')"
proof (induction es arbitrary: q s)
  case Nil
  then show ?case by (simp add: pipe_grows_def)
next
  case (Cons e es)
  obtain b q1 s1 where one: "retry_one yaml opts io e q s = Some (b, q1, s1)" "daemon_ok s1" "pipe_grows (dm_pipe s) (dm_pipe s1)"
     "dm_queue s1 = dm_queue s" "distinct (map eq_name q1)" "queue_grows q q1" "bloom_le (dm_bloom s) (dm_bloom s1)"
    using retry_one_keeps[OF Cons.prems] by blast
  obtain n q2 s2 where rest: "retry_loop yaml opts io es q1 s1 = Some (n, q2, s2)" "daemon_ok s2" "pipe_grows (dm_pipe s1) (dm_pipe s2)"
     "dm_queue s2 = dm_queue s1" "distinct (map eq_name q2)" "queue_grows q1 q2" "n \<le> length es"
     "bloom_le (dm_bloom s1) (dm_bloom s2)"
    using Cons.IH[OF one(2,5)] by blast
  have "pipe_grows (dm_pipe s) (dm_pipe s2)" using one(3) rest(3) by (auto simp: pipe_grows_def)
  with one rest show ?case using queue_grows_trans[OF one(6) rest(6)] bloom_le_trans[OF one(7) rest(8)] by simp
qed

lemma retryPending_keeps:
  assumes ok: "daemon_ok s"
  shows "\<exists>n s'. retryPending yaml opts io s = Some (n, s') \<and> daemon_ok s' \<and> daemon_moves s s'"
proof (cases "dm_queue s")
  case None
  then show ?thesis using ok by (simp add: retryPending_def)
next
  case (Some q)
  let ?c = "ClaimPendingRetries (ri_claim io) (ri_sqlnow io) (''daemon-'' @ Itoa (ri_pid io)) (effective_max_retries (do_MaxRetries opts)) q"
  obtain r q1 where c: "?c = (r, q1)" by (metis surj_pair)
  have dq: "distinct (map eq_name q)" using ok Some by (simp add: daemon_ok_def)
  have q1: "distinct (map eq_name q1)" "queue_grows q q1"
    using distinct_Claim[OF dq, of "ri_claim io" "ri_sqlnow io" "''daemon-'' @ Itoa (ri_pid io)" "effective_max_retries (do_MaxRetries opts)"]
      Claim_grows[of q "ri_claim io" "ri_sqlnow io" "''daemon-'' @ Itoa (ri_pid io)" "effective_max_retries (do_MaxRetries opts)"] c
    by simp_all
  have s1: "daemon_ok (s\<lparr>dm_queue := Some q1\<rparr>)" "daemon_moves s (s\<lparr>dm_queue := Some q1\<rparr>)"
    using ok Some q1 by (auto simp: daemon_ok_def daemon_moves_def daemon_grows_def pipe_grows_def)
  show ?thesis
  proof (cases "\<exists>e es. r = Inr (e # es)")
    case False
    then have "retryPending yaml opts io s = Some (0, s\<lparr>dm_queue := Some q1\<rparr>)"
      using Some c by (auto simp: retryPending_def split: sum.splits list.splits)
    then show ?thesis using s1 by blast
  next
    case True
    then obtain e es where r: "r = Inr (e # es)" by blast
    obtain n q2 s2 where l: "retry_loop yaml opts io (e # es) q1 s = Some (n, q2, s2)" "daemon_ok s2" "pipe_grows (dm_pipe s) (dm_pipe s2)"
       "distinct (map eq_name q2)" "queue_grows q1 q2" "bloom_le (dm_bloom s) (dm_bloom s2)" using retry_loop_keeps[OF ok q1(1)] by blast
    have "retryPending yaml opts io s = Some (n, s2\<lparr>dm_queue := Some q2\<rparr>)"
      using Some c r l(1) by (simp add: retryPending_def del: retry_loop.simps)
    moreover have "daemon_ok (s2\<lparr>dm_queue := Some q2\<rparr>)" using l(2,4) by (simp add: daemon_ok_def)
    moreover have "daemon_moves s (s2\<lparr>dm_queue := Some q2\<rparr>)"
      using Some l(3,6) queue_grows_trans[OF q1(2) l(5)] by (simp add: daemon_moves_def daemon_grows_def)
    ultimately show ?thesis by blast
  qed
qed

section \<open>The event loop keeps the invariant\<close>

definition loop_ok :: "loop_state \<Rightarrow> bool" where
  "loop_ok ls \<longleftrightarrow> daemon_ok (ls_daemon ls) \<and> (\<forall>b. ls_backoff ls = Some b \<longrightarrow> backoff_ok b)"

definition loop_grows :: "loop_state \<Rightarrow> loop_state \<Rightarrow> bool" where
  "loop_grows ls ls' \<longleftrightarrow> daemon_moves (ls_daemon ls) (ls_daemon ls')"

lemma Allow_inv:
  "cb_inv cb \<Longrightarrow> \<forall>ob \<in> set obs. \<forall>cb. cb_inv cb \<longrightarrow> cb_inv (ob_others ob cb) \<Longrightarrow> Allow obs cb = (r, cb') \<Longrightarrow> cb_inv cb'"
proof (induction obs arbitrary: cb)
  case (Cons ob obs)
  obtain a c where ac: "allow_pass cb (ob_now ob) (ob_now' ob) = (a, c)" by (metis surj_pair)
  have "cb_inv c" by (rule cb_inv_step[OF cb_step.pass[OF ac] Cons.prems(1)])
  then show ?case using Cons ac by (auto split: option.splits allow_result.splits)
qed simp

lemma daemon_ok_cb: "daemon_ok d \<Longrightarrow> (\<And>c. cb = Some c \<Longrightarrow> cb_inv c) \<Longrightarrow> daemon_ok (d\<lparr>dm_cb := cb\<rparr>)"
  by (auto simp: daemon_ok_def)

lemma daemon_moves_cb [simp]: "daemon_moves d (e\<lparr>dm_cb := cb\<rparr>) = daemon_moves d e"
  by (simp add: daemon_moves_def daemon_grows_def)

lemma reset_timer_ok: "backoff_ok b \<Longrightarrow> \<exists>w. reset_timer io b ls = Cycled ls w"
  using Next_in_range[of b "cy_draw io"] by (auto simp: reset_timer_def)

lemma after_retry_ok:
  assumes ok: "loop_ok ls" and b: "backoff_ok b"
  shows "\<exists>ls' w. after_retry opts io n b ls = Cycled ls' w \<and> loop_ok ls' \<and> loop_grows ls ls'"
proof -
  have cb: "cb_inv c" if "dm_cb (ls_daemon ls) = Some c" for c using ok that by (simp add: loop_ok_def daemon_ok_def)
  have d: "daemon_ok (ls_daemon ls)" using ok by (simp add: loop_ok_def)
  have up: "daemon_ok ((ls_daemon ls)\<lparr>dm_cb := map_option CB_RecordSuccess (dm_cb (ls_daemon ls))\<rparr>)"
    "daemon_ok ((ls_daemon ls)\<lparr>dm_cb := map_option (RecordDeliveryError t i) (dm_cb (ls_daemon ls))\<rparr>)"
    "daemon_ok ((ls_daemon ls)\<lparr>dm_cb := dm_cb (ls_daemon ls)\<rparr>)" for t i
    by (intro daemon_ok_cb[OF d]; auto dest: cb simp: cb_inv_success cb_inv_fail)+
  have "\<exists>ls' b'. after_retry opts io n b ls = reset_timer io b' ls' \<and> backoff_ok b' \<and> loop_ok ls' \<and> loop_grows ls ls'"
    unfolding after_retry_def Let_def
    by (rule exI, rule exI, rule conjI, rule refl, cases "n > 0"; cases "cy_write io")
       (simp_all add: loop_ok_def loop_grows_def d up b backoff_ok_success backoff_ok_failure)
  then show ?thesis using reset_timer_ok by metis
qed

lemma loop_grows_trans: "loop_grows a b \<Longrightarrow> loop_grows b c \<Longrightarrow> loop_grows a c"
  unfolding loop_grows_def by (rule daemon_moves_trans)

lemma retry_cycle_ok:
  assumes ok: "loop_ok ls" and others: "\<forall>ob \<in> set (cy_allow io). \<forall>cb. cb_inv cb \<longrightarrow> cb_inv (ob_others ob cb)"
  shows "retry_cycle yaml opts io ls \<noteq> Panicked \<and>
     (\<forall>ls' w. retry_cycle yaml opts io ls = Cycled ls' w \<longrightarrow> loop_ok ls' \<and> loop_grows ls ls')"
proof (cases "ls_backoff ls")
  case None
  then show ?thesis by (simp add: retry_cycle_def)
next
  case (Some b)
  then have b: "backoff_ok b" using ok by (simp add: loop_ok_def)
  define go where "go = (\<lambda>ls. case retryPending yaml opts (cy_retry io) (ls_daemon ls) of
                      None \<Rightarrow> Panicked
                    | Some (n, d) \<Rightarrow> after_retry opts io n b (ls\<lparr>ls_daemon := d\<rparr>))"
  have go: "\<exists>ls' w. go l = Cycled ls' w \<and> loop_ok ls' \<and> loop_grows l ls'" if l: "loop_ok l" for l
  proof -
    obtain n d where r: "retryPending yaml opts (cy_retry io) (ls_daemon l) = Some (n, d)" "daemon_ok d" "daemon_moves (ls_daemon l) d"
      using retryPending_keeps[of "ls_daemon l" yaml opts "cy_retry io"] l unfolding loop_ok_def by blast
    have "loop_ok (l\<lparr>ls_daemon := d\<rparr>)" "loop_grows l (l\<lparr>ls_daemon := d\<rparr>)" using l r by (simp_all add: loop_ok_def loop_grows_def)
    then show ?thesis using after_retry_ok[OF _ b, of "l\<lparr>ls_daemon := d\<rparr>" opts io n] r(1) loop_grows_trans
      unfolding go_def by fastforce
  qed
  show ?thesis
  proof (cases "dm_cb (ls_daemon ls)")
    case None
    then have "retry_cycle yaml opts io ls = go ls" using Some by (simp add: retry_cycle_def go_def)
    then show ?thesis using go[OF ok] by auto
  next
    case (Some cb)
    obtain r cb' where a: "Allow (cy_allow io) cb = (r, cb')" by (metis surj_pair)
    have "cb_inv cb" using ok Some by (simp add: loop_ok_def daemon_ok_def)
    then have "cb_inv cb'" using Allow_inv[OF _ others a] by blast
    let ?ls = "ls\<lparr>ls_daemon := (ls_daemon ls)\<lparr>dm_cb := Some cb'\<rparr>\<rparr>"
    have ok': "loop_ok ?ls" "loop_grows ls ?ls"
      using ok \<open>cb_inv cb'\<close> by (auto simp: loop_ok_def daemon_ok_def loop_grows_def)
    have "retry_cycle yaml opts io ls = (case r of None \<Rightarrow> Blocked ?ls | Some (Inl _) \<Rightarrow> reset_timer io b ?ls | Some (Inr _) \<Rightarrow> go ?ls)"
      using Some a \<open>ls_backoff ls = Some b\<close> by (simp add: retry_cycle_def go_def split: option.splits sum.splits)
    moreover obtain w where "reset_timer io b ?ls = Cycled ?ls w" using reset_timer_ok[OF b] by blast
    moreover obtain ls' w' where "go ?ls = Cycled ls' w'" "loop_ok ls'" "loop_grows ?ls ls'" using go[OF ok'(1)] by blast
    moreover have "loop_grows ls ls'" by (rule loop_grows_trans[OF ok'(2) \<open>loop_grows ?ls ls'\<close>])
    ultimately show ?thesis using ok'
      by (auto split: option.splits sum.splits)
  qed
qed

lemma recover_keeps: "daemon_ok d \<Longrightarrow> daemon_ok (recover err io d) \<and> daemon_moves d (recover err io d)"
proof -
  assume ok: "daemon_ok d"
  obtain fl e t disk where f: "FlushDeliveries io (pl_staged (dm_pipe d)) (pl_disk (dm_pipe d)) = (fl, e, t, disk)" by (metis prod_cases4)
  have "staged_inv disk t \<and> set (dk_renamed (pl_disk (dm_pipe d))) \<subseteq> set (dk_renamed disk)"
    using FlushDeliveries_inv[OF _ f] ok by (simp add: daemon_ok_def)
  then show ?thesis
    using ok f by (auto simp: recover_def daemon_ok_def daemon_moves_def daemon_grows_def pipe_grows_def intro: option.rel_refl split: sum.splits)
qed

lemma daemon_step_keeps:
  "daemon_step yaml opts ls ls' \<Longrightarrow> loop_ok ls \<Longrightarrow> loop_ok ls' \<and> loop_grows ls ls'"
proof (induction rule: daemon_step.induct)
  case (recovered ls err fio)
  then show ?case using recover_keeps by (auto simp: loop_ok_def loop_grows_def)
next
  case (scanned now sio listing ls d')
  then show ?case
    using runStartupScan_keeps[of "ls_daemon ls" yaml opts now sio listing "do_OutboxDirs opts"] by (auto simp: loop_ok_def loop_grows_def)
next
  case (event hio ev ls d')
  then show ?case using handleEvent_keeps[of "ls_daemon ls" yaml opts hio ev] by (auto simp: loop_ok_def loop_grows_def)
next
  case (cycled cio ls ls' wait)
  then show ?case using retry_cycle_ok by blast
next
  case (outside ls f)
  then show ?case
    by (auto simp: loop_ok_def loop_grows_def daemon_ok_def daemon_moves_def daemon_grows_def pipe_grows_def staged_inv_def intro: option.rel_refl)
qed

interpretation loop: stepping "daemon_step yaml opts" loop_ok loop_grows
  by unfold_locales (auto dest: daemon_step_keeps simp: loop_grows_def intro: daemon_moves_trans)


section \<open>No D-Mail is lost\<close>

text \<open>Every selected inbox has received the data, in the run behind \<open>s'\<close> or before \<open>s\<close> by the delivery log.\<close>

definition delivered_everywhere :: "yaml_decoder \<Rightarrow> resolved_route list \<Rightarrow> path \<Rightarrow> bytes \<Rightarrow> daemon \<Rightarrow> daemon \<Rightarrow> bool" where
  "delivered_everywhere yaml routes p data s s' \<longleftrightarrow>
     (\<exists>sel. selected_inboxes yaml p data routes = Some sel \<and>
        (\<forall>i \<in> set sel. (path_Join [i, Base p], data) \<in> set (dk_renamed (pl_disk (dm_pipe s'))) \<or>
            (ContentIdempotencyKey data, i) \<in> recorded (pl_dedup (dm_pipe s))))"

definition queued :: "path \<Rightarrow> string \<Rightarrow> bytes \<Rightarrow> daemon \<Rightarrow> bool" where
  "queued outbox name data s \<longleftrightarrow>
     (\<exists>q r. dm_queue s = Some q \<and> r \<in> set q \<and> eq_data r = data \<and> eq_source_outbox r = outbox \<and>
        eq_original_name r = name \<and> \<not> eq_resolved r)"

definition name_is_free :: "error_metadata \<Rightarrow> daemon \<Rightarrow> bool" where
  "name_is_free meta s \<longleftrightarrow> (\<forall>q. dm_queue s = Some q \<longrightarrow> row_of eq_name q (queue_name meta) = None)"

lemma name_is_free_cong:
  "name_is_free m s \<Longrightarrow> em_Timestamp m' = em_Timestamp m \<Longrightarrow> em_Kind m' = em_Kind m \<Longrightarrow>
   em_OriginalName m' = em_OriginalName m \<Longrightarrow> dm_queue s' = dm_queue s \<Longrightarrow> name_is_free m' s'"
  by (simp add: name_is_free_def queue_name_def)

lemma move_to_queue_keeps_dmail:
  assumes "name_is_free meta s" and "dk_files (pl_disk (dm_pipe s)) p \<noteq> None"
  shows "dk_files (pl_disk (dm_pipe (move_to_queue io rm p data meta s))) p \<noteq> None \<or>
     queued (em_SourceOutbox meta) (em_OriginalName meta) data (move_to_queue io rm p data meta s)"
proof (cases "dm_queue s")
  case None
  then show ?thesis using assms(2) by (simp add: move_to_queue_def)
next
  case (Some q)
  obtain r q' where e: "Enqueue io (queue_name meta) data meta q = (r, q')" by (metis surj_pair)
  show ?thesis
  proof (cases r)
    case (Inl x)
    then show ?thesis using Some e assms(2) by (simp add: move_to_queue_def)
  next
    case (Inr u)
    have "row_of eq_name q (queue_name meta) = None" using assms(1) Some by (simp add: name_is_free_def)
    then have "row_of eq_name q' (queue_name meta) = Some (new_error_row (queue_name meta) data meta)"
      using Enqueue_Inr[OF e[unfolded Inr]] by auto
    then have "new_error_row (queue_name meta) data meta \<in> set q'" by (auto simp: row_of_def find_Some_iff)
    then have "queued (em_SourceOutbox meta) (em_OriginalName meta) data (move_to_queue io rm p data meta s)"
      using Some e Inr by (auto simp: queued_def move_to_queue_def new_error_row_def)
    then show ?thesis ..
  qed
qed

text \<open>After \<open>DeliverData\<close> the file is there or delivered; when it failed it may be in the queue.\<close>

lemma DeliverData_keeps_dmail:
  assumes "daemon_ok s" and "IsDMailFile p" and "suffixes_ok (di_flush dio)" and "dk_files (pl_disk (dm_pipe s)) p \<noteq> None"
    and "DeliverData yaml dio p data routes (dm_dedup s) (dm_pipe s) = ((r, e), pipe)"
    and "dm_pipe s' = pipe"
  shows "dk_files (pl_disk (dm_pipe s')) p \<noteq> None \<or> delivered_everywhere yaml routes p data s s'"
proof (cases "dk_files (pl_disk pipe) p = None")
  case True
  have "staged_inv (pl_disk (dm_pipe s)) (pl_staged (dm_pipe s))" using assms(1) by (simp add: daemon_ok_def)
  from source_removed_delivered[OF this assms(5,4) True assms(2,3)] show ?thesis
    using assms(6) by (auto simp: delivered_everywhere_def)
qed (use assms(6) in simp)

lemma move_to_queue_renamed [simp]:
  "dk_renamed (pl_disk (dm_pipe (move_to_queue io rm p data meta s))) = dk_renamed (pl_disk (dm_pipe s))"
  by (simp add: move_to_queue_def split: option.splits prod.splits sum.splits)

lemma failed_keeps_dmail:
  assumes "dk_files (pl_disk (dm_pipe s1)) p \<noteq> None \<or> delivered_everywhere yaml routes p data s s1"
    and "name_is_free meta s1" and "s' = move_to_queue io rm p data meta s1"
  shows "dk_files (pl_disk (dm_pipe s')) p \<noteq> None \<or> delivered_everywhere yaml routes p data s s' \<or>
     queued (em_SourceOutbox meta) (em_OriginalName meta) data s'"
  using assms(1)
proof
  assume "dk_files (pl_disk (dm_pipe s1)) p \<noteq> None"
  from move_to_queue_keeps_dmail[OF assms(2) this] show ?thesis using assms(3) by blast
next
  assume "delivered_everywhere yaml routes p data s s1"
  then show ?thesis using assms(3) by (simp add: delivered_everywhere_def)
qed


text \<open>A handled event leaves the D-Mail in the outbox, delivered, or queued.\<close>

lemma handleEvent_keeps_dmail:
  assumes ok: "daemon_ok s" and there: "dk_files (pl_disk (dm_pipe s)) (ev_Name ev) = Some data"
    and tmp: "suffixes_ok (di_flush (hi_deliver io))"
    and free: "name_is_free \<lparr>em_SourceOutbox = Dir (ev_Name ev), em_Kind = failure_kind yaml data, em_OriginalName = Base (ev_Name ev),
      em_Attempts = 1, em_Error = [], em_Timestamp = hi_now io\<rparr> s"
  shows "\<exists>s'. handleEvent yaml opts io ev s = Some s' \<and>
     (dk_files (pl_disk (dm_pipe s')) (ev_Name ev) \<noteq> None \<or> delivered_everywhere yaml (do_Routes opts) (ev_Name ev) data s s' \<or>
      queued (Dir (ev_Name ev)) (Base (ev_Name ev)) data s')"
proof (cases "shouldProcessEvent ev \<and> \<not> do_DryRun opts \<and> hi_read io = None")
  case False
  then have "handleEvent yaml opts io ev s = Some s" using there
    by (auto simp: handleEvent_def os_ReadFile_def split: option.splits)
  then show ?thesis using there by simp
next
  case True
  let ?p = "ev_Name ev"
  have dm: "IsDMailFile ?p" using True by (auto simp: shouldProcessEvent_def split: if_splits)
  have rd: "os_ReadFile (hi_read io) ?p (pl_disk (dm_pipe s)) = Inr data" using True there by (simp add: os_ReadFile_def)
  obtain r e pipe where dd: "DeliverData yaml (hi_deliver io) ?p data (do_Routes opts) (dm_dedup s) (dm_pipe s) = ((r, e), pipe)"
    by (metis surj_pair)
  let ?s = "s\<lparr>dm_pipe := pipe\<rparr>"
  have k: "\<not> (r = None \<and> e = None)" "daemon_ok ?s" using DeliverData_keeps[OF dd] ok by (auto simp: daemon_ok_def)
  have src: "dk_files (pl_disk (dm_pipe s)) ?p \<noteq> None" using there by simp
  note kept = DeliverData_keeps_dmail[OF ok dm tmp src dd]
  show ?thesis
  proof (cases e)
    case None
    then obtain res where "r = Some res" using k by auto
    moreover obtain s' where "on_success io ?p res ?s = Some s'" "dm_pipe s' = pipe"
      using on_success_keeps[OF k(2), of io ?p res] by auto
    ultimately show ?thesis using kept[of s'] True rd dd None by (auto simp: handleEvent_def)
  next
    case (Some x)
    let ?s1 = "?s\<lparr>dm_dlog := dlog_Failed (hi_now io) (failure_kind yaml data) ?p (err_msg x) (dm_dlog s),
      dm_events := dm_events s @ [DeliveryFailed ?p (failure_kind yaml data) (err_msg x)],
      dm_cb := map_option (RecordDeliveryError (hi_now io) (ClassifyDeliveryError (Some x))) (dm_cb s)\<rparr>"
    let ?m = "\<lparr>em_SourceOutbox = Dir ?p, em_Kind = failure_kind yaml data, em_OriginalName = Base ?p,
      em_Attempts = 1, em_Error = err_msg x, em_Timestamp = hi_now io\<rparr>"
    have run: "handleEvent yaml opts io ev s = Some (move_to_queue (hi_enqueue io) (hi_remove io) ?p data ?m ?s1)"
      using True rd dd Some by (simp add: handleEvent_def on_failure_def enqueueDeliveryFailure_def Let_def)
    have "name_is_free ?m ?s1" by (rule name_is_free_cong[OF free]) simp_all
    from failed_keeps_dmail[OF kept[of ?s1] this refl] run show ?thesis by simp
  qed
qed

lemma scan_one_keeps_dmail:
  assumes ok: "daemon_ok s" and there: "dk_files (pl_disk (dm_pipe s)) (path_Join [dir, name]) = Some data"
    and dm: "IsDMailFile (path_Join [dir, name])" and tmp: "suffixes_ok (di_flush (hi_deliver io))"
    and free: "name_is_free \<lparr>em_SourceOutbox = dir, em_Kind = failure_kind yaml data, em_OriginalName = name,
      em_Attempts = 1, em_Error = [], em_Timestamp = hi_now io\<rparr> s"
  shows "\<exists>rs es s'. scan_one yaml routes io dir name s = Some (rs, es, s') \<and>
     (dk_files (pl_disk (dm_pipe s')) (path_Join [dir, name]) \<noteq> None \<or>
      delivered_everywhere yaml routes (path_Join [dir, name]) data s s' \<or> queued dir name data s')"
proof -
  let ?p = "path_Join [dir, name]"
  obtain b where b: "MayContain ?p (dm_bloom s) = Some b"
    using MayContain_total[of "dm_bloom s" ?p] ok by (auto simp: daemon_ok_def)
  have src: "dk_files (pl_disk (dm_pipe s)) ?p \<noteq> None" using there by simp
  show ?thesis
  proof (cases "b \<or> hi_read io \<noteq> None")
    case True
    then show ?thesis using b src by (auto simp: scan_one_def os_ReadFile_def Let_def split: bool.splits)
  next
    case False
    then have rd: "os_ReadFile (hi_read io) ?p (pl_disk (dm_pipe s)) = Inr data" using there by (simp add: os_ReadFile_def)
    obtain r e pipe where dd: "DeliverData yaml (hi_deliver io) ?p data routes (dm_dedup s) (dm_pipe s) = ((r, e), pipe)"
      by (metis surj_pair)
    let ?s = "s\<lparr>dm_pipe := pipe\<rparr>"
    have k: "\<not> (r = None \<and> e = None)" using DeliverData_keeps[OF dd] ok by (auto simp: daemon_ok_def)
    have kept: "dk_files (pl_disk (dm_pipe ?s)) ?p \<noteq> None \<or> delivered_everywhere yaml routes ?p data s ?s"
      by (rule DeliverData_keeps_dmail[OF ok dm tmp src dd]) simp
    show ?thesis
    proof (cases e)
      case None
      then obtain res where "r = Some res" using k by auto
      then have "scan_one yaml routes io dir name s = Some ([res], [], ?s)"
        using b False rd dd None by (simp add: scan_one_def Let_def)
      with kept show ?thesis by auto
    next
      case (Some x)
      let ?m = "\<lparr>em_SourceOutbox = dir, em_Kind = failure_kind yaml data, em_OriginalName = name,
        em_Attempts = 1, em_Error = err_msg x, em_Timestamp = hi_now io\<rparr>"
      have "scan_one yaml routes io dir name s =
          Some ([], [wrapf (''deliver '' @ ?p @ '': '') x], move_to_queue (hi_enqueue io) (hi_remove io) ?p data ?m ?s)"
        using b False rd dd Some by (simp add: scan_one_def Let_def)
      moreover have free': "name_is_free ?m ?s" by (rule name_is_free_cong[OF free]) simp_all
      ultimately show ?thesis using failed_keeps_dmail[OF kept free' refl] by simp
    qed
  qed
qed


section \<open>A retry settles every claimed entry\<close>

text \<open>What one attempt makes of the entry's row: resolved, or counted and free for the next claim.\<close>

definition settled :: "error_row \<Rightarrow> error_row \<Rightarrow> bool" where
  "settled r r' \<longleftrightarrow> r' = r\<lparr>eq_resolved := True\<rparr> \<or>
     (\<exists>msg. r' = r\<lparr>eq_retry_count := eq_retry_count r + 1, eq_error_message := msg, eq_claimed_by := [], eq_claimed_at := None\<rparr>)"

definition retry_ok :: "retry_io \<Rightarrow> bool" where
  "retry_ok io \<longleftrightarrow> ri_claim io = claim_ok \<and> (\<forall>n. ri_inc io n = tx_ok) \<and> (\<forall>n. ri_mark io n = tx_ok)"

lemma retry_one_settles:
  assumes ok: "daemon_ok s" and io: "retry_ok io" and run: "retry_one yaml opts io e q s = Some (b, q', s')"
  shows "(\<forall>k. k \<noteq> en_Name e \<longrightarrow> row_of eq_name q' k = row_of eq_name q k) \<and>
     (\<forall>r. row_of eq_name q (en_Name e) = Some r \<and> \<not> eq_resolved r \<longrightarrow>
        (\<exists>r'. row_of eq_name q' (en_Name e) = Some r' \<and> settled r r' \<and> eq_resolved r' = b))"
proof -
  have "(b \<and> q' = snd (MarkResolved tx_ok (en_Name e) q)) \<or> (\<not> b \<and> (\<exists>msg. q' = snd (IncrementRetry tx_ok (en_Name e) msg q)))"
    using run io unfolding retry_one_def retry_ok_def
    by (auto simp: Let_def split: prod.splits option.splits)
  then show ?thesis
  proof
    assume "b \<and> q' = snd (MarkResolved tx_ok (en_Name e) q)"
    then show ?thesis
      by (auto simp: MarkResolved_def row_of_update_other[of eq_name] row_of_update_where[of eq_name] settled_def dest: row_of_SomeD)
  next
    assume "\<not> b \<and> (\<exists>msg. q' = snd (IncrementRetry tx_ok (en_Name e) msg q))"
    then show ?thesis
      by (auto simp: IncrementRetry_def row_of_update_other[of eq_name] row_of_update_where[of eq_name] settled_def dest: row_of_SomeD)
  qed
qed

lemma retry_loop_settles:
  assumes "retry_ok io"
  shows "daemon_ok s \<Longrightarrow> distinct (map eq_name q) \<Longrightarrow> distinct (map en_Name es) \<Longrightarrow>
     \<forall>e \<in> set es. \<exists>r. row_of eq_name q (en_Name e) = Some r \<and> \<not> eq_resolved r \<Longrightarrow>
     retry_loop yaml opts io es q s = Some (n, q', s') \<Longrightarrow>
     (\<forall>k. k \<notin> en_Name ` set es \<longrightarrow> row_of eq_name q' k = row_of eq_name q k) \<and>
     (\<forall>e \<in> set es. \<exists>r r'. row_of eq_name q (en_Name e) = Some r \<and> row_of eq_name q' (en_Name e) = Some r' \<and> settled r r') \<and>
     n = length (filter (\<lambda>e. \<exists>r'. row_of eq_name q' (en_Name e) = Some r' \<and> eq_resolved r') es)"
proof (induction es arbitrary: q s n)
  case (Cons e es)
  obtain b q1 s1 where one: "retry_one yaml opts io e q s = Some (b, q1, s1)" "daemon_ok s1" "distinct (map eq_name q1)"
    using retry_one_keeps[OF Cons.prems(1,2)] by blast
  obtain m where rest: "retry_loop yaml opts io es q1 s1 = Some (m, q', s')" "n = (if b then 1 else 0) + m"
    using Cons.prems(5) one(1) by auto
  note st = retry_one_settles[OF Cons.prems(1) assms one(1)]
  have new: "en_Name e \<notin> en_Name ` set es" using Cons.prems(3) by auto
  have same: "row_of eq_name q1 (en_Name x) = row_of eq_name q (en_Name x)" if "x \<in> set es" for x
    using st new that by (metis image_eqI)
  have ih: "(\<forall>k. k \<notin> en_Name ` set es \<longrightarrow> row_of eq_name q' k = row_of eq_name q1 k) \<and>
     (\<forall>e \<in> set es. \<exists>r r'. row_of eq_name q1 (en_Name e) = Some r \<and> row_of eq_name q' (en_Name e) = Some r' \<and> settled r r') \<and>
     m = length (filter (\<lambda>e. \<exists>r'. row_of eq_name q' (en_Name e) = Some r' \<and> eq_resolved r') es)"
    by (rule Cons.IH[OF one(2,3) _ _ rest(1)]) (use Cons.prems(3,4) same in auto)
  obtain r where r: "row_of eq_name q (en_Name e) = Some r" "\<not> eq_resolved r" using Cons.prems(4) by auto
  then obtain r' where r': "row_of eq_name q1 (en_Name e) = Some r'" "settled r r'" "eq_resolved r' = b" using st by blast
  have he: "row_of eq_name q' (en_Name e) = Some r'" using ih new r'(1) by simp
  have "row_of eq_name q' k = row_of eq_name q k" if "k \<notin> en_Name ` set (e # es)" for k
    using ih st that by simp
  moreover have "\<exists>r r'. row_of eq_name q (en_Name x) = Some r \<and> row_of eq_name q' (en_Name x) = Some r' \<and> settled r r'"
    if "x \<in> set (e # es)" for x
    using that ih same r(1) he r'(2) by (cases "x = e") auto
  moreover have "n = length (filter (\<lambda>e. \<exists>r'. row_of eq_name q' (en_Name e) = Some r' \<and> eq_resolved r') (e # es))"
    using he r'(3) rest(2) ih by simp
  ultimately show ?case by blast
qed simp


text \<open>The entries a round claims, by the rows they come from.\<close>

definition taken :: "string \<Rightarrow> int \<Rightarrow> int \<Rightarrow> error_row \<Rightarrow> bool" where
  "taken c now m r \<longleftrightarrow> claimable now m r \<or> (eq_claimed_by r = c \<and> \<not> eq_resolved r)"

lemma claim_entries:
  assumes dq: "distinct (map eq_name q)"
  obtains es where "ClaimPendingRetries claim_ok now c m q = (Inr es, claim_rows c now m q)"
    and "distinct (map en_Name es)"
    and "\<And>k. k \<in> en_Name ` set es \<longleftrightarrow> (\<exists>r. row_of eq_name q k = Some r \<and> taken c now m r)"
    and "\<forall>e \<in> set es. \<exists>r. row_of eq_name (claim_rows c now m q) (en_Name e) = Some r \<and> \<not> eq_resolved r"
proof
  let ?q1 = "claim_rows c now m q"
  let ?es = "map entry_of (filter (\<lambda>r. eq_claimed_by r = c \<and> \<not> eq_resolved r) ?q1)"
  have dq1: "distinct (map eq_name ?q1)" using dq by (rule distinct_claim)
  have names: "map en_Name ?es = map eq_name (filter (\<lambda>r. eq_claimed_by r = c \<and> \<not> eq_resolved r) ?q1)"
    by (simp add: entry_of_def)
  show "ClaimPendingRetries claim_ok now c m q = (Inr ?es, ?q1)"
    by (simp add: ClaimPendingRetries_def claim_ok_def tx_ok_def Let_def)
  show "distinct (map en_Name ?es)" unfolding names using dq1 by (simp add: distinct_map_filter)
  have mem: "k \<in> en_Name ` set ?es \<longleftrightarrow> (\<exists>r. row_of eq_name ?q1 k = Some r \<and> eq_claimed_by r = c \<and> \<not> eq_resolved r)" for k
    by (auto simp: row_of_Some_iff[OF dq1] entry_of_def image_image)
  show "k \<in> en_Name ` set ?es \<longleftrightarrow> (\<exists>r. row_of eq_name q k = Some r \<and> taken c now m r)" for k
    unfolding mem row_of_claim by (cases "row_of eq_name q k") (auto simp: taken_def claimable_def)
  show "\<forall>e \<in> set ?es. \<exists>r. row_of eq_name ?q1 (en_Name e) = Some r \<and> \<not> eq_resolved r"
  proof
    fix e assume "e \<in> set ?es"
    then have "en_Name e \<in> en_Name ` set ?es" by (rule imageI)
    then show "\<exists>r. row_of eq_name ?q1 (en_Name e) = Some r \<and> \<not> eq_resolved r" unfolding mem by blast
  qed
qed

definition outcome :: "error_row \<Rightarrow> error_row \<Rightarrow> bool" where
  "outcome r r' \<longleftrightarrow> eq_data r' = eq_data r \<and>
     (eq_resolved r' \<and> eq_retry_count r' = eq_retry_count r \<or>
      \<not> eq_resolved r' \<and> eq_retry_count r' = eq_retry_count r + 1 \<and> eq_claimed_by r' = [])"

lemma settled_outcome:
  assumes "row_of eq_name (claim_rows c now m q) k = Some r1" and "row_of eq_name q k = Some r" and "taken c now m r" and "settled r1 r'"
  shows "outcome r r'"
proof -
  have "eq_data r1 = eq_data r \<and> eq_retry_count r1 = eq_retry_count r \<and> eq_resolved r1 = eq_resolved r"
    using assms(1,2) unfolding row_of_claim by (auto split: if_splits)
  moreover have "\<not> eq_resolved r" using assms(3) by (auto simp: taken_def claimable_def)
  ultimately show ?thesis using assms(4) by (auto simp: settled_def outcome_def)
qed

lemma retryPending_rows:
  assumes ok: "daemon_ok s" and q: "dm_queue s = Some q" and io: "retry_ok io"
    and c: "c = ''daemon-'' @ Itoa (ri_pid io)" and m: "m = effective_max_retries (do_MaxRetries opts)"
  shows "\<exists>n s' q' (es :: error_entry list). retryPending yaml opts io s = Some (n, s') \<and> dm_queue s' = Some q' \<and>
    (\<forall>k r. row_of eq_name q k = Some r \<longrightarrow>
       (if taken c (ri_sqlnow io) m r then \<exists>r'. row_of eq_name q' k = Some r' \<and> outcome r r' else row_of eq_name q' k = Some r)) \<and>
    distinct (map en_Name es) \<and> en_Name ` set es = {k. \<exists>r. row_of eq_name q k = Some r \<and> taken c (ri_sqlnow io) m r} \<and>
    n = length (filter (\<lambda>e. \<exists>r'. row_of eq_name q' (en_Name e) = Some r' \<and> eq_resolved r') es)"
proof -
  let ?q1 = "claim_rows c (ri_sqlnow io) m q"
  have dq: "distinct (map eq_name q)" using ok q by (simp add: daemon_ok_def)
  obtain es where es: "ClaimPendingRetries claim_ok (ri_sqlnow io) c m q = (Inr es, ?q1)" "distinct (map en_Name es)"
    "\<And>k. k \<in> en_Name ` set es \<longleftrightarrow> (\<exists>r. row_of eq_name q k = Some r \<and> taken c (ri_sqlnow io) m r)"
    "\<forall>e \<in> set es. \<exists>r. row_of eq_name ?q1 (en_Name e) = Some r \<and> \<not> eq_resolved r"
    using claim_entries[OF dq] by blast
  have dq1: "distinct (map eq_name ?q1)" using dq by (rule distinct_claim)
  obtain n q' s2 where l: "retry_loop yaml opts io es ?q1 s = Some (n, q', s2)" using retry_loop_keeps[OF ok dq1] by blast
  note st = retry_loop_settles[OF io ok dq1 es(2,4) l]
  have "\<exists>s'. retryPending yaml opts io s = Some (n, s') \<and> dm_queue s' = Some q'"
    using q es(1) l io unfolding c m retry_ok_def by (cases es) (simp_all add: retryPending_def)
  then obtain s' where s': "retryPending yaml opts io s = Some (n, s')" "dm_queue s' = Some q'" by blast
  have other: "row_of eq_name q' k = Some r" if "row_of eq_name q k = Some r" "\<not> taken c (ri_sqlnow io) m r" for k r
  proof -
    have "k \<notin> en_Name ` set es" using es(3) that by simp
    then have "row_of eq_name q' k = row_of eq_name ?q1 k" using st by blast
    then show ?thesis using that by (simp add: row_of_claim taken_def)
  qed
  have mine: "\<exists>r'. row_of eq_name q' k = Some r' \<and> outcome r r'" if "row_of eq_name q k = Some r" "taken c (ri_sqlnow io) m r" for k r
  proof -
    have "k \<in> en_Name ` set es" using es(3) that by blast
    then obtain r1 r' where "row_of eq_name ?q1 k = Some r1" "row_of eq_name q' k = Some r'" "settled r1 r'" using st by blast
    then show ?thesis using settled_outcome[OF _ that] by blast
  qed
  have "en_Name ` set es = {k. \<exists>r. row_of eq_name q k = Some r \<and> taken c (ri_sqlnow io) m r}" using es(3) by blast
  then show ?thesis using s' other mine es(2) st by (intro exI conjI allI impI) auto
qed

section \<open>A run starts in a good state\<close>

text \<open>What a run needs of the state it finds and of its options: sound stores, a delivery filter that was saved by an
  earlier run (or none), and a retry interval below about two years, so that its 32-fold does not leave 64 bits.\<close>

definition start_ok :: "daemon_options \<Rightarrow> run_io \<Rightarrow> daemon \<Rightarrow> bool" where
  "start_ok opts io d \<longleftrightarrow> pipe_ok (dm_pipe d) \<and> (\<forall>q. dm_queue d = Some q \<longrightarrow> distinct (map eq_name q)) \<and> dm_cb d = None \<and>
     bloom_wf (NewBloomFilter (fst (rn_size io)) (snd (rn_size io))) \<and>
     (\<forall>bf. LoadDeliveryFilter (rn_load io) (do_StateDir opts) (pl_disk (dm_pipe d)) = Inr (Some bf) \<longrightarrow> bloom_wf bf) \<and>
     do_RetryInterval opts \<le> 2 ^ 56"

lemma daemon_ok_files: "daemon_ok (on_disk f d) = daemon_ok d \<and> daemon_grows d (on_disk f d)"
  if "\<And>k. dk_renamed (f k) = dk_renamed k"
  using that by (auto simp: daemon_ok_def daemon_grows_def pipe_grows_def staged_inv_def intro: option.rel_refl)

lemma init_loop_ok:
  assumes "daemon_ok d" and "do_RetryInterval opts \<le> 2 ^ 56"
  shows "\<exists>ls w. init_loop opts io old d = Some (ls, w) \<and> loop_ok ls \<and> dm_pipe (ls_daemon ls) = dm_pipe d \<and> dm_queue (ls_daemon ls) = dm_queue d \<and>
    dm_bloom (ls_daemon ls) = dm_bloom d"
proof (cases "do_RetryInterval opts > 0")
  case True
  let ?i = "do_RetryInterval opts"
  have "wrap64 (?i * 32) = ?i * 32" by (rule wrap64_id) (use True assms(2) in \<open>simp add: in_int64_def\<close>)
  then have "backoff_ok (NewRetryBackoff ?i (wrap64 (?i * 32)))"
    using True assms(2) by (simp add: backoff_ok_new)
  then show ?thesis
    using True assms(1) cb_inv_init Next_in_range[of "NewRetryBackoff ?i (wrap64 (?i * 32))" "rn_draw io"]
    by (auto simp: init_loop_def Let_def loop_ok_def daemon_ok_def)
qed (use assms(1) in \<open>simp add: init_loop_def loop_ok_def\<close>)

lemma run_start_ok:
  assumes "start_ok opts io d"
  shows "run_start yaml opts io old d \<noteq> StartPanicked \<and>
    (\<forall>ls w idle. run_start yaml opts io old d = Started ls w idle \<longrightarrow> loop_ok ls \<and> daemon_grows d (ls_daemon ls) \<and>
       (\<forall>bf. LoadDeliveryFilter (rn_load io) (do_StateDir opts) (pl_disk (dm_pipe d)) = Inr (Some bf) \<longrightarrow> bloom_le bf (dm_bloom (ls_daemon ls))))"
proof -
  define bf where "bf = (case LoadDeliveryFilter (rn_load io) (do_StateDir opts) (pl_disk (dm_pipe d)) of
                  Inr (Some bf) \<Rightarrow> bf | _ \<Rightarrow> NewBloomFilter (fst (rn_size io)) (snd (rn_size io)))"
  define d1 where "d1 = recover (rn_recover io) (rn_flush io) (d\<lparr>dm_bloom := bf\<rparr>)"
  have "bloom_wf bf" using assms by (auto simp: bf_def start_ok_def split: sum.splits option.splits)
  then have "daemon_ok (d\<lparr>dm_bloom := bf\<rparr>)" using assms by (simp add: start_ok_def daemon_ok_def)
  from recover_keeps[OF this] have d1: "daemon_ok d1" "daemon_grows d d1" "bloom_le bf (dm_bloom d1)" by (simp_all add: d1_def daemon_moves_def daemon_grows_def)
  obtain r k where w1: "os_WriteFile (rn_writePid io) (pid_path (do_StateDir opts)) (Itoa (rn_pid io)) (pl_disk (dm_pipe d1)) = (r, k)"
    by (metis surj_pair)
  obtain r' k' where w2: "os_WriteFile (rn_writeStarted io) (started_path (do_StateDir opts)) (format_RFC3339 (rn_now io)) k = (r', k')"
    by (metis surj_pair)
  have "dk_renamed k' = dk_renamed (pl_disk (dm_pipe d1))"
    using os_WriteFile_renamed w1 w2 by (metis snd_conv)
  then have d2: "daemon_ok (on_disk (\<lambda>_. k') d1)" "daemon_grows d (on_disk (\<lambda>_. k') d1)"
    using d1 by (auto simp: daemon_ok_def daemon_grows_def pipe_grows_def staged_inv_def)
  obtain d3 where d3: "runStartupScan yaml opts (rn_now io) (rn_scan io) (rn_listing io) (do_OutboxDirs opts) (on_disk (\<lambda>_. k') d1) = Some d3"
    "daemon_ok d3" "daemon_moves (on_disk (\<lambda>_. k') d1) d3" using runStartupScan_keeps[OF d2(1)] by blast
  have "do_RetryInterval opts \<le> 2 ^ 56" using assms unfolding start_ok_def by blast
  from init_loop_ok[OF d3(2) this, of io old] obtain ls w where ls: "init_loop opts io old d3 = Some (ls, w)" "loop_ok ls"
    "dm_pipe (ls_daemon ls) = dm_pipe d3" "dm_queue (ls_daemon ls) = dm_queue d3" "dm_bloom (ls_daemon ls) = dm_bloom d3" by blast
  have "bloom_le bf (dm_bloom (ls_daemon ls))" using d1(3) d3(3) ls(5) bloom_le_trans by (fastforce simp: daemon_moves_def)
  then have filter: "\<forall>bf. LoadDeliveryFilter (rn_load io) (do_StateDir opts) (pl_disk (dm_pipe d)) = Inr (Some bf) \<longrightarrow> bloom_le bf (dm_bloom (ls_daemon ls))"
    unfolding bf_def by auto
  have "daemon_grows d (ls_daemon ls)"
    using daemon_grows_trans[OF d2(2) daemon_moves_grows[OF d3(3)]] ls(3,4) by (simp add: daemon_grows_def)
  with filter show ?thesis
    unfolding run_start_def Let_def bf_def[symmetric] d1_def[symmetric] w1
    using w2 d3(1) ls(1,2) by (simp split: option.splits sum.splits)
qed

section \<open>The delivery filter across runs\<close>

lemma filter_reloaded:
  assumes "bloom_wf bf"
  shows "LoadDeliveryFilter None sd (snd (SaveDeliveryFilter None None sd bf k)) = Inr (Some bf)"
proof -
  have w: "length (bf_bits bf) = bloom_words (bf_m bf)" "bloom_words (bf_m bf) = (unat (bf_m bf) + 63) div 64" "unat (bf_m bf) < 2 ^ 64 - 63"
    using assms bloom_words_eq by (auto simp: bloom_wf_def)
  then have "length (MarshalBinary bf) < 2 ^ 64" by (simp add: MarshalBinary_def)
  then have "UnmarshalBloomFilter (MarshalBinary bf) = Inr bf" using Unmarshal_Marshal[OF w(1), of "[]"] by simp
  then show ?thesis
    by (simp add: SaveDeliveryFilter_def LoadDeliveryFilter_def os_WriteFile_def os_ReadFile_def)
qed

lemma scan_one_skips: "MayContain (path_Join [dir, name]) (dm_bloom s) = Some True \<Longrightarrow> scan_one yaml routes io dir name s = Some ([], [], s)"
  by (simp add: scan_one_def)


section \<open>A sample daemon\<close>

definition sample_opts :: daemon_options where
  "sample_opts = \<lparr>do_Routes = sample_routes, do_OutboxDirs = [''/r/.siren/outbox''], do_StateDir = ''/r/.phonewave'',
     do_Verbose = False, do_DryRun = False, do_RetryInterval = 60 * second, do_MaxRetries = 10, do_IdleTimeout = 0\<rparr>"

definition sample_daemon :: daemon where
  "sample_daemon = \<lparr>dm_pipe = sample_pipeline, dm_queue = Some [], dm_bloom = NewBloomFilter 64 1, dm_cb = None,
     dm_dlog = [], dm_events = [], dm_dedup = True\<rparr>"

definition sample_hio :: handle_io where
  "sample_hio = \<lparr>hi_read = None, hi_deliver = sample_io, hi_now = 0, hi_enqueue = tx_ok, hi_remove = None\<rparr>"

definition sample_event :: fs_event where
  "sample_event = \<lparr>ev_Name = sample_path, ev_Create = True, ev_Rename = False\<rparr>"

definition sample_rio :: retry_io where
  "sample_rio = \<lparr>ri_claim = claim_ok, ri_sqlnow = 1000, ri_deliver = (\<lambda>_. sample_io), ri_inc = (\<lambda>_. tx_ok),
     ri_mark = (\<lambda>_. tx_ok), ri_now = 0, ri_pid = 1\<rparr>"

definition sample_run_io :: run_io where
  "sample_run_io = \<lparr>rn_dlog = None, rn_store = None, rn_load = None, rn_size = (64, 1), rn_recover = None,
     rn_flush = all_writes_ok, rn_watch = (\<lambda>_. None), rn_pid = 1, rn_writePid = None, rn_writeStarted = None, rn_now = 0,
     rn_scan = (\<lambda>_ _. sample_hio), rn_listing = (\<lambda>_. Inr [\<lparr>den_Name = ''a.md'', den_IsDir = False\<rparr>]), rn_draw = 0,
     rn_writeState = None, rn_removePid = None, rn_removeStarted = None, rn_mkdir = None, rn_save = None\<rparr>"

lemma sample_bloom_wf: "bloom_wf (NewBloomFilter 64 1)"
  by (rule bloom_wf_new) simp_all

lemma sample_daemon_ok: "daemon_ok sample_daemon"
  using sample_inv sample_bloom_wf by (simp add: daemon_ok_def sample_daemon_def pipeline_inv_def)

lemma sample_start_ok: "start_ok sample_opts sample_run_io sample_daemon"
proof -
  have "filter_path ''/r/.phonewave'' \<noteq> sample_path" by code_simp
  then have "LoadDeliveryFilter None ''/r/.phonewave'' (pl_disk sample_pipeline) = Inr None"
    by (simp add: LoadDeliveryFilter_def os_ReadFile_def sample_pipeline_def not_exist_def)
  then show ?thesis
    using sample_inv sample_bloom_wf
    by (simp add: start_ok_def sample_opts_def sample_run_io_def sample_daemon_def pipeline_inv_def second_def)
qed

section \<open>Properties\<close>

text \<open>C6: The event handler never panics and never loses a D-Mail: when it returns, the file is still in the outbox, or its
  content was put into every selected inbox (or is on record there), or the error queue holds it unresolved with its
  outbox and name. The only assumption on the queue is that the new entry's name, which has the
  time to the nanosecond in it, is not taken.\<close>

theorem handleEvent_never_loses:
  assumes "daemon_ok s" and "dk_files (pl_disk (dm_pipe s)) (ev_Name ev) = Some data"
    and "suffixes_ok (di_flush (hi_deliver io))"
    and "name_is_free \<lparr>em_SourceOutbox = Dir (ev_Name ev), em_Kind = failure_kind yaml data, em_OriginalName = Base (ev_Name ev),
      em_Attempts = 1, em_Error = [], em_Timestamp = hi_now io\<rparr> s"
  shows "\<exists>s'. handleEvent yaml opts io ev s = Some s' \<and>
     (dk_files (pl_disk (dm_pipe s')) (ev_Name ev) \<noteq> None \<or> delivered_everywhere yaml (do_Routes opts) (ev_Name ev) data s s' \<or>
      queued (Dir (ev_Name ev)) (Base (ev_Name ev)) data s')"
  using assms by (rule handleEvent_keeps_dmail)

theorem handleEvent_never_loses_witness:
  "\<exists>s'. handleEvent sample_yaml sample_opts sample_hio sample_event sample_daemon = Some s' \<and>
     (dk_files (pl_disk (dm_pipe s')) sample_path \<noteq> None \<or>
      delivered_everywhere sample_yaml sample_routes sample_path sample_data sample_daemon s' \<or>
      queued (Dir sample_path) (Base sample_path) sample_data s')"
proof -
  have src: "dk_files (pl_disk (dm_pipe sample_daemon)) (ev_Name sample_event) = Some sample_data"
    by (simp add: sample_daemon_def sample_pipeline_def sample_event_def)
  have "suffixes_ok (di_flush (hi_deliver sample_hio))" using sample_io_ok(2) by (simp add: sample_hio_def)
  from handleEvent_never_loses[OF sample_daemon_ok src this, of sample_yaml sample_opts] show ?thesis
    by (simp add: name_is_free_def sample_daemon_def row_of_def sample_event_def sample_opts_def)
qed

text \<open>C7: The startup scan loses nothing either: a D-Mail file it comes across is afterwards still in the outbox, delivered to
  every selected inbox, or in the error queue under its outbox and name; and the scan of a file never panics.\<close>

theorem startup_scan_never_loses:
  assumes "daemon_ok s" and "dk_files (pl_disk (dm_pipe s)) (path_Join [dir, name]) = Some data"
    and "IsDMailFile (path_Join [dir, name])" and "suffixes_ok (di_flush (hi_deliver io))"
    and "name_is_free \<lparr>em_SourceOutbox = dir, em_Kind = failure_kind yaml data, em_OriginalName = name,
      em_Attempts = 1, em_Error = [], em_Timestamp = hi_now io\<rparr> s"
  shows "\<exists>rs es s'. scan_one yaml routes io dir name s = Some (rs, es, s') \<and>
     (dk_files (pl_disk (dm_pipe s')) (path_Join [dir, name]) \<noteq> None \<or>
      delivered_everywhere yaml routes (path_Join [dir, name]) data s s' \<or> queued dir name data s')"
  using assms by (rule scan_one_keeps_dmail)

theorem startup_scan_never_loses_witness:
  "\<exists>rs es s'. scan_one sample_yaml sample_routes sample_hio ''/r/.siren/outbox'' ''a.md'' sample_daemon = Some (rs, es, s')"
proof -
  have p: "path_Join [''/r/.siren/outbox'', ''a.md''] = sample_path" by code_simp
  have src: "dk_files (pl_disk (dm_pipe sample_daemon)) (path_Join [''/r/.siren/outbox'', ''a.md'']) = Some sample_data"
    unfolding p by (simp add: sample_daemon_def sample_pipeline_def)
  have dm: "IsDMailFile (path_Join [''/r/.siren/outbox'', ''a.md''])" unfolding p by (rule sample_is_dmail)
  have "suffixes_ok (di_flush (hi_deliver sample_hio))" using sample_io_ok(2) by (simp add: sample_hio_def)
  from startup_scan_never_loses[OF sample_daemon_ok src dm this, of sample_yaml sample_routes] show ?thesis
    by (auto simp: name_is_free_def sample_daemon_def row_of_def)
qed

text \<open>C8: A run that starts on sound stores keeps its invariant through every sequence of recoveries, scans, file events, retry
  cycles and foreign changes to the files: it never panics, neither at the start nor in a handler, every rename into
  an inbox and every record of the delivery log stays, and no entry leaves the error queue or changes its content.\<close>

theorem daemon_run_safe:
  assumes "start_ok opts io d"
  shows "run_start yaml opts io old d \<noteq> StartPanicked \<and>
    (\<forall>ls0 w idle ls. run_start yaml opts io old d = Started ls0 w idle \<and> (daemon_step yaml opts)\<^sup>*\<^sup>* ls0 ls \<longrightarrow>
       loop_ok ls \<and> daemon_grows d (ls_daemon ls) \<and>
       (\<forall>hio ev. handleEvent yaml opts hio ev (ls_daemon ls) \<noteq> None) \<and>
       (\<forall>now sio listing dirs. runStartupScan yaml opts now sio listing dirs (ls_daemon ls) \<noteq> None) \<and>
       (\<forall>cio. (\<forall>ob \<in> set (cy_allow cio). \<forall>cb. cb_inv cb \<longrightarrow> cb_inv (ob_others ob cb)) \<longrightarrow>
          retry_cycle yaml opts cio ls \<noteq> Panicked))"
proof (intro conjI allI impI; (elim conjE)?)
  show "run_start yaml opts io old d \<noteq> StartPanicked" using run_start_ok[OF assms] by blast
  fix ls0 w idle ls
  assume start: "run_start yaml opts io old d = Started ls0 w idle" and steps: "(daemon_step yaml opts)\<^sup>*\<^sup>* ls0 ls"
  have ls0: "loop_ok ls0" "daemon_grows d (ls_daemon ls0)" using run_start_ok[OF assms] start by blast+
  show ok: "loop_ok ls" by (rule loop.run_inv[OF steps ls0(1)])
  show "daemon_grows d (ls_daemon ls)"
    using loop.run_grows[OF steps ls0(1)] daemon_grows_trans[OF ls0(2)] daemon_moves_grows unfolding loop_grows_def by blast
  have d: "daemon_ok (ls_daemon ls)" using ok by (simp add: loop_ok_def)
  show "handleEvent yaml opts hio ev (ls_daemon ls) \<noteq> None" for hio ev
    using handleEvent_keeps[OF d, of yaml opts hio ev] by auto
  show "runStartupScan yaml opts now sio listing dirs (ls_daemon ls) \<noteq> None" for now sio listing dirs
    using runStartupScan_keeps[OF d, of yaml opts now sio listing dirs] by auto
  show "retry_cycle yaml opts cio ls \<noteq> Panicked" if "\<forall>ob \<in> set (cy_allow cio). \<forall>cb. cb_inv cb \<longrightarrow> cb_inv (ob_others ob cb)" for cio
    using retry_cycle_ok[OF ok that] by blast
qed

theorem daemon_run_safe_witness:
  "run_start sample_yaml sample_opts sample_run_io ActiveProviderState sample_daemon \<noteq> StartPanicked"
  using daemon_run_safe[OF sample_start_ok, of sample_yaml ActiveProviderState] by blast


text \<open>C10: The dry-run option stops the event handler and nothing else: with it a handled event changes nothing, but the startup
  scan, the retries and the whole start of a run, with its recovery of staged deliveries, do the same as without it.\<close>

theorem dry_run_gates_only_events:
  "handleEvent yaml (opts\<lparr>do_DryRun := True\<rparr>) hio ev s = Some s \<and>
   runStartupScan yaml (opts\<lparr>do_DryRun := b\<rparr>) now sio listing dirs s = runStartupScan yaml opts now sio listing dirs s \<and>
   run_start yaml (opts\<lparr>do_DryRun := b\<rparr>) rio old s = run_start yaml opts rio old s \<and>
   retry_cycle yaml (opts\<lparr>do_DryRun := b\<rparr>) cio ls = retry_cycle yaml opts cio ls"
proof (intro conjI)
  show "handleEvent yaml (opts\<lparr>do_DryRun := True\<rparr>) hio ev s = Some s" by (simp add: handleEvent_def)
  have sel: "do_MaxRetries (opts\<lparr>do_DryRun := b\<rparr>) = do_MaxRetries opts" "do_Routes (opts\<lparr>do_DryRun := b\<rparr>) = do_Routes opts"
    "do_StateDir (opts\<lparr>do_DryRun := b\<rparr>) = do_StateDir opts" "do_OutboxDirs (opts\<lparr>do_DryRun := b\<rparr>) = do_OutboxDirs opts"
    "do_RetryInterval (opts\<lparr>do_DryRun := b\<rparr>) = do_RetryInterval opts" "do_IdleTimeout (opts\<lparr>do_DryRun := b\<rparr>) = do_IdleTimeout opts"
    by simp_all
  have "runStartupScan yaml (opts\<lparr>do_DryRun := b\<rparr>) now sio listing dirs t = runStartupScan yaml opts now sio listing dirs t" for t now sio listing dirs
    by (induction dirs arbitrary: t) (simp_all split: option.splits)
  then have scan: "runStartupScan yaml (opts\<lparr>do_DryRun := b\<rparr>) = runStartupScan yaml opts" by (intro ext)
  then show "runStartupScan yaml (opts\<lparr>do_DryRun := b\<rparr>) now sio listing dirs s = runStartupScan yaml opts now sio listing dirs s" by simp
  have one: "retry_one yaml (opts\<lparr>do_DryRun := b\<rparr>) = retry_one yaml opts"
    by (intro ext) (unfold retry_one_def sel, rule refl)
  have "retry_loop yaml (opts\<lparr>do_DryRun := b\<rparr>) io es q t = retry_loop yaml opts io es q t" for io es q t
    by (induction es arbitrary: q t) (simp_all add: one split: option.splits)
  then have loop: "retry_loop yaml (opts\<lparr>do_DryRun := b\<rparr>) = retry_loop yaml opts" by (intro ext)
  have pend: "retryPending yaml (opts\<lparr>do_DryRun := b\<rparr>) = retryPending yaml opts"
    by (intro ext) (unfold retryPending_def loop sel, rule refl)
  show "retry_cycle yaml (opts\<lparr>do_DryRun := b\<rparr>) cio ls = retry_cycle yaml opts cio ls"
    unfolding retry_cycle_def after_retry_def pend sel by (rule refl)
  show "run_start yaml (opts\<lparr>do_DryRun := b\<rparr>) rio old s = run_start yaml opts rio old s"
    unfolding run_start_def scan defer_save_def defer_pid_def init_loop_def sel by (rule refl)
qed

text \<open>C9: A retry round settles every entry it claims, when the database reports no error: each claimable entry, and each the
  daemon still held, is afterwards resolved with its count unchanged, or has one more attempt on its count and is free
  for the next claim; its content stays; every other entry is left alone; and the number the round
  returns is the number of entries it resolved. In particular an entry at the limit of retries is left alone, unless this daemon still
  holds it from an earlier claim.\<close>

theorem retryPending_settles:
  assumes "daemon_ok s" and "dm_queue s = Some q" and "retry_ok io"
  shows "\<exists>n s' q'. retryPending yaml opts io s = Some (n, s') \<and> dm_queue s' = Some q' \<and>
    (\<forall>k r. row_of eq_name q k = Some r \<longrightarrow>
       (if claimable (ri_sqlnow io) (effective_max_retries (do_MaxRetries opts)) r \<or>
           (eq_claimed_by r = ''daemon-'' @ Itoa (ri_pid io) \<and> \<not> eq_resolved r)
        then \<exists>r'. row_of eq_name q' k = Some r' \<and> eq_data r' = eq_data r \<and>
               (eq_resolved r' \<and> eq_retry_count r' = eq_retry_count r \<or>
                \<not> eq_resolved r' \<and> eq_retry_count r' = eq_retry_count r + 1 \<and> eq_claimed_by r' = [])
        else row_of eq_name q' k = Some r)) \<and>
    (\<forall>k r. row_of eq_name q k = Some r \<and> effective_max_retries (do_MaxRetries opts) \<le> eq_retry_count r \<and>
       eq_claimed_by r \<noteq> ''daemon-'' @ Itoa (ri_pid io) \<longrightarrow> row_of eq_name q' k = Some r) \<and>
    n = card {k. \<exists>r r'. row_of eq_name q k = Some r \<and> row_of eq_name q' k = Some r' \<and> \<not> eq_resolved r \<and> eq_resolved r'}"
proof -
  let ?taken = "taken (''daemon-'' @ Itoa (ri_pid io)) (ri_sqlnow io) (effective_max_retries (do_MaxRetries opts))"
  obtain n s' q' and es :: "error_entry list" where run: "retryPending yaml opts io s = Some (n, s')" "dm_queue s' = Some q'"
    and rows: "\<forall>k r. row_of eq_name q k = Some r \<longrightarrow>
       (if ?taken r then \<exists>r'. row_of eq_name q' k = Some r' \<and> outcome r r' else row_of eq_name q' k = Some r)"
    and es: "distinct (map en_Name es)" "en_Name ` set es = {k. \<exists>r. row_of eq_name q k = Some r \<and> ?taken r}"
    and n: "n = length (filter (\<lambda>e. \<exists>r'. row_of eq_name q' (en_Name e) = Some r' \<and> eq_resolved r') es)"
    using retryPending_rows[OF assms refl refl, of yaml opts] by blast
  let ?f = "filter (\<lambda>e. \<exists>r'. row_of eq_name q' (en_Name e) = Some r' \<and> eq_resolved r') es"
  have "{k. \<exists>r r'. row_of eq_name q k = Some r \<and> row_of eq_name q' k = Some r' \<and> \<not> eq_resolved r \<and> eq_resolved r'} =
      {k \<in> en_Name ` set es. \<exists>r'. row_of eq_name q' k = Some r' \<and> eq_resolved r'}" (is "?L = ?R")
  proof (intro set_eqI iffI)
    fix k assume "k \<in> ?L"
    then obtain r r' where k: "row_of eq_name q k = Some r" "row_of eq_name q' k = Some r'" "\<not> eq_resolved r" "eq_resolved r'" by blast
    then have "?taken r" using rows[rule_format, OF k(1)] by (auto split: if_splits)
    then show "k \<in> ?R" unfolding mem_Collect_eq es(2) using k by blast
  next
    fix k assume "k \<in> ?R"
    then show "k \<in> ?L" unfolding mem_Collect_eq es(2) by (auto simp: taken_def claimable_def)
  qed
  also have "\<dots> = set (map en_Name ?f)" by auto
  finally have "n = card {k. \<exists>r r'. row_of eq_name q k = Some r \<and> row_of eq_name q' k = Some r' \<and> \<not> eq_resolved r \<and> eq_resolved r'}"
    using n es(1) distinct_card[of "map en_Name ?f"] by (simp add: distinct_map_filter)
  moreover have "row_of eq_name q' k = Some r" if "row_of eq_name q k = Some r" "effective_max_retries (do_MaxRetries opts) \<le> eq_retry_count r"
      "eq_claimed_by r \<noteq> ''daemon-'' @ Itoa (ri_pid io)" for k r
    using rows[rule_format, OF that(1)] that(2,3) by (auto simp: taken_def claimable_def)
  ultimately show ?thesis using run rows unfolding taken_def outcome_def by blast
qed

theorem retryPending_settles_witness:
  "\<exists>n s' q'. retryPending sample_yaml sample_opts sample_rio (sample_daemon\<lparr>dm_queue := Some sample_queue\<rparr>) = Some (n, s') \<and>
     dm_queue s' = Some q' \<and> (\<exists>r'. row_of eq_name q' ''n'' = Some r' \<and> eq_data r' = ''x'')"
proof -
  have q: "distinct (map eq_name sample_queue)" by (simp add: sample_queue_def)
  have row: "row_of eq_name sample_queue ''n'' = Some (hd sample_queue)" "claimable 1000 10 (hd sample_queue)" "eq_data (hd sample_queue) = ''x''"
    by (simp_all add: sample_queue_def row_of_def new_error_row_def claimable_def)
  let ?s = "sample_daemon\<lparr>dm_queue := Some sample_queue\<rparr>"
  have ok: "daemon_ok ?s" using sample_daemon_ok q by (simp add: daemon_ok_def)
  have q: "dm_queue ?s = Some sample_queue" by simp
  have eff: "effective_max_retries (do_MaxRetries sample_opts) = 10" by (simp add: sample_opts_def effective_max_retries_def)
  have io: "retry_ok sample_rio" "ri_sqlnow sample_rio = 1000" by (simp_all add: retry_ok_def sample_rio_def)
  obtain n s' q' where run: "retryPending sample_yaml sample_opts sample_rio ?s = Some (n, s')" "dm_queue s' = Some q'"
    and rows: "\<forall>k r. row_of eq_name sample_queue k = Some r \<longrightarrow>
       (if claimable 1000 10 r \<or> (eq_claimed_by r = ''daemon-'' @ Itoa (ri_pid sample_rio) \<and> \<not> eq_resolved r)
        then \<exists>r'. row_of eq_name q' k = Some r' \<and> eq_data r' = eq_data r \<and>
               (eq_resolved r' \<and> eq_retry_count r' = eq_retry_count r \<or>
                \<not> eq_resolved r' \<and> eq_retry_count r' = eq_retry_count r + 1 \<and> eq_claimed_by r' = [])
        else row_of eq_name q' k = Some r)"
    using retryPending_settles[OF ok q io(1), of sample_yaml sample_opts, unfolded eff io(2)] by blast
  from rows[rule_format, OF row(1)] row(2,3) run show ?thesis by auto
qed


text \<open>A path of the filter stays in it through every run, also across the end of one run and the start of the next.\<close>

lemma skip_scan: "MayContain (path_Join [dir, name]) (dm_bloom d) = Some True \<Longrightarrow> scan_one yaml routes sio dir name d = Some ([], [], d)"
  by (rule scan_one_skips)

lemma filter_kept:
  "(daemon_step yaml opts)\<^sup>*\<^sup>* ls later \<Longrightarrow> loop_ok ls \<Longrightarrow> MayContain p (dm_bloom (ls_daemon ls)) = Some True \<Longrightarrow>
   MayContain p (dm_bloom (ls_daemon later)) = Some True"
  using loop.run_grows[of yaml opts ls later] MayContain_mono by (simp add: loop_grows_def daemon_moves_def) blast

lemma filter_restarted:
  assumes "daemon_ok d" and "MayContain p (dm_bloom d) = Some True" and "rn_mkdir rio = None" and "rn_save rio = None"
    and "pl_disk (dm_pipe d') = pl_disk (dm_pipe (run_stop opts rio d))" and "start_ok opts rio' d'" and "rn_load rio' = None"
    and "run_start yaml opts rio' old d' = Started ls w idle"
  shows "loop_ok ls" and "MayContain p (dm_bloom (ls_daemon ls)) = Some True"
proof -
  have "LoadDeliveryFilter (rn_load rio') (do_StateDir opts) (pl_disk (dm_pipe d')) = Inr (Some (dm_bloom d))"
    using assms(1,3,4) filter_reloaded by (simp add: assms(5,7) run_stop_def defer_pid_def defer_save_def daemon_ok_def)
  then show "loop_ok ls" "MayContain p (dm_bloom (ls_daemon ls)) = Some True"
    using run_start_ok[OF assms(6), of yaml old] assms(8) MayContain_mono[OF _ assms(2)] by blast+
qed

text \<open>C11: A path from which anything was delivered is never scanned again: after an event whose delivery reached at least one inbox, and
  whatever the daemon and other programs do to the files from then on, a scan of that path returns nothing and changes nothing, also when
  the file holds something else by then or an inbox is still waiting; and when the run ends and its filter can be saved and loaded again,
  every scan in the next run does the same.\<close>

theorem delivered_path_is_skipped:
  assumes "loop_ok ls" and "shouldProcessEvent ev" and "\<not> do_DryRun opts"
    and "os_ReadFile (hi_read io) (ev_Name ev) (pl_disk (dm_pipe (ls_daemon ls))) = Inr data"
    and "DeliverData yaml (hi_deliver io) (ev_Name ev) data (do_Routes opts) (dm_dedup (ls_daemon ls)) (dm_pipe (ls_daemon ls)) = ((Some res, None), pipe)"
    and "dr_DeliveredTo res \<noteq> []" and "path_Join [dir, name] = ev_Name ev"
  shows "\<exists>s'. handleEvent yaml opts io ev (ls_daemon ls) = Some s' \<and>
    (\<forall>later. (daemon_step yaml opts)\<^sup>*\<^sup>* (ls\<lparr>ls_daemon := s'\<rparr>) later \<longrightarrow>
       scan_one yaml routes sio dir name (ls_daemon later) = Some ([], [], ls_daemon later) \<and>
       (\<forall>rio rio' d' old ls' w idle last. rn_mkdir rio = None \<and> rn_save rio = None \<and>
          pl_disk (dm_pipe d') = pl_disk (dm_pipe (run_stop opts rio (ls_daemon later))) \<and> start_ok opts rio' d' \<and> rn_load rio' = None \<and>
          run_start yaml opts rio' old d' = Started ls' w idle \<and> (daemon_step yaml opts)\<^sup>*\<^sup>* ls' last \<longrightarrow>
          scan_one yaml routes sio dir name (ls_daemon last) = Some ([], [], ls_daemon last)))"
proof -
  let ?p = "ev_Name ev" and ?s = "(ls_daemon ls)\<lparr>dm_pipe := pipe\<rparr>"
  have "daemon_ok ?s" using DeliverData_keeps[OF assms(5)] assms(1) by (simp add: daemon_ok_def loop_ok_def)
  from on_success_keeps[OF this, of io ?p res] obtain s' where
    s': "on_success io ?p res ?s = Some s'" "daemon_ok s'" "MayContain ?p (dm_bloom s') = Some True"
    using assms(6) by auto
  have run: "handleEvent yaml opts io ev (ls_daemon ls) = Some s'" using assms(2-5) s'(1) by (simp add: handleEvent_def Let_def)
  have ok: "loop_ok (ls\<lparr>ls_daemon := s'\<rparr>)" using assms(1) s'(2) by (simp add: loop_ok_def)
  note skip = skip_scan[of dir name, unfolded assms(7)]
  have now: "MayContain ?p (dm_bloom (ls_daemon later)) = Some True" "daemon_ok (ls_daemon later)"
    if "(daemon_step yaml opts)\<^sup>*\<^sup>* (ls\<lparr>ls_daemon := s'\<rparr>) later" for later
    using filter_kept[OF that ok] loop.run_inv[OF that ok] s'(3) by (simp_all add: loop_ok_def)
  have restart: "MayContain ?p (dm_bloom (ls_daemon last)) = Some True"
    if "(daemon_step yaml opts)\<^sup>*\<^sup>* (ls\<lparr>ls_daemon := s'\<rparr>) later" "rn_mkdir rio = None" "rn_save rio = None"
      "pl_disk (dm_pipe d') = pl_disk (dm_pipe (run_stop opts rio (ls_daemon later)))" "start_ok opts rio' d'" "rn_load rio' = None"
      "run_start yaml opts rio' old d' = Started ls' w idle" "(daemon_step yaml opts)\<^sup>*\<^sup>* ls' last" for later rio rio' d' old ls' w idle last
    by (rule filter_kept[OF that(8)]) (rule filter_restarted[OF now(2,1)[OF that(1)] that(2-7)])+
  show ?thesis
  proof (intro exI[of _ s'] conjI allI impI run; (elim conjE)?)
    fix later assume steps: "(daemon_step yaml opts)\<^sup>*\<^sup>* (ls\<lparr>ls_daemon := s'\<rparr>) later"
    show "scan_one yaml routes sio dir name (ls_daemon later) = Some ([], [], ls_daemon later)" by (rule skip[OF now(1)[OF steps]])
  qed (rule skip, rule restart)
qed

theorem delivered_path_is_skipped_witness:
  "\<exists>s'. handleEvent sample_yaml sample_opts sample_hio sample_event (sample_daemon\<lparr>dm_dedup := False\<rparr>) = Some s' \<and>
     (let changed = on_disk (\<lambda>k. k\<lparr>dk_files := [sample_path \<mapsto> ''other'']\<rparr>) s'
      in scan_one sample_yaml [] sample_hio ''/r/.siren/outbox'' ''a.md'' changed = Some ([], [], changed))"
proof -
  let ?s = "sample_daemon\<lparr>dm_dedup := False\<rparr>"
  let ?ls = "\<lparr>ls_daemon = ?s, ls_backoff = None, ls_snapshot = ActiveProviderState\<rparr>"
  have ok: "loop_ok ?ls" using sample_daemon_ok by (simp add: loop_ok_def daemon_ok_def)
  have ev: "shouldProcessEvent sample_event" using sample_is_dmail by (simp add: shouldProcessEvent_def sample_event_def)
  have rd: "os_ReadFile (hi_read sample_hio) (ev_Name sample_event) (pl_disk (dm_pipe ?s)) = Inr sample_data"
    by (simp add: os_ReadFile_def sample_hio_def sample_event_def sample_daemon_def sample_pipeline_def)
  have has: "\<forall>i. di_has sample_io i = None" by (simp add: sample_io_def)
  have to: "map_option dr_DeliveredTo (fst (fst (stage_and_flush sample_io False key res0 sample_path sample_data [''/r/.gate/inbox''] sample_pipeline))) =
      Some [''/r/.gate/inbox/a.md'']" for key res0 by (cases res0, hypsubst, code_simp)
  have err: "snd (fst (stage_and_flush sample_io False key res0 sample_path sample_data [''/r/.gate/inbox''] sample_pipeline)) = None" for key res0
    by code_simp
  obtain res0 where run: "DeliverData sample_yaml sample_io sample_path sample_data sample_routes False sample_pipeline =
      stage_and_flush sample_io False (ContentIdempotencyKey sample_data) res0 sample_path sample_data [''/r/.gate/inbox''] sample_pipeline"
    using DeliverData_eval[OF sample_selected has, of False sample_pipeline] by auto
  obtain r e pipe where out: "stage_and_flush sample_io False (ContentIdempotencyKey sample_data) res0 sample_path sample_data
      [''/r/.gate/inbox''] sample_pipeline = ((r, e), pipe)" by (metis surj_pair)
  obtain res where res: "DeliverData sample_yaml (hi_deliver sample_hio) (ev_Name sample_event) sample_data (do_Routes sample_opts) (dm_dedup ?s) (dm_pipe ?s) =
      ((Some res, None), pipe)" "dr_DeliveredTo res \<noteq> []"
    using to[of "ContentIdempotencyKey sample_data" res0] err[of "ContentIdempotencyKey sample_data" res0] run unfolding out
    by (auto simp: sample_hio_def sample_event_def sample_opts_def sample_daemon_def)
  have "path_Join [''/r/.siren/outbox'', ''a.md''] = ev_Name sample_event" by code_simp
  moreover have "os_ReadFile (hi_read sample_hio) (ev_Name sample_event) (pl_disk (dm_pipe (ls_daemon ?ls))) = Inr sample_data" using rd by simp
  moreover have "DeliverData sample_yaml (hi_deliver sample_hio) (ev_Name sample_event) sample_data (do_Routes sample_opts) (dm_dedup (ls_daemon ?ls))
      (dm_pipe (ls_daemon ?ls)) = ((Some res, None), pipe)" using res(1) by simp
  moreover have "\<not> do_DryRun sample_opts" by (simp add: sample_opts_def)
  ultimately obtain s' where s': "handleEvent sample_yaml sample_opts sample_hio sample_event (ls_daemon ?ls) = Some s'"
    and later: "\<forall>later. (daemon_step sample_yaml sample_opts)\<^sup>*\<^sup>* (?ls\<lparr>ls_daemon := s'\<rparr>) later \<longrightarrow>
      scan_one sample_yaml [] sample_hio ''/r/.siren/outbox'' ''a.md'' (ls_daemon later) = Some ([], [], ls_daemon later)"
    using delivered_path_is_skipped[OF ok ev _ _ _ res(2)] by metis
  have "daemon_step sample_yaml sample_opts (?ls\<lparr>ls_daemon := s'\<rparr>)
      (?ls\<lparr>ls_daemon := on_disk (\<lambda>k. k\<lparr>dk_files := [sample_path \<mapsto> ''other'']\<rparr>) s'\<rparr>)"
    using daemon_step.outside[of sample_yaml sample_opts "?ls\<lparr>ls_daemon := s'\<rparr>"] by simp
  from later[rule_format, OF r_into_rtranclp[of "daemon_step sample_yaml sample_opts", OF this]] s' show ?thesis by (auto simp: Let_def)
qed

end
