(* ===== verification/JsonText.thy ===== *)
theory JsonText
  imports Prelude
begin

text \<open>
  The lexical structure of JSON text that the event files rest on: strings with their escapes, and the nesting of objects and arrays. It says
  when a text can be one complete value (RFC 8259, which \<open>encoding/json\<close> enforces before it decodes anything), and why a text that was cut off
  and continued with another object cannot be one.
\<close>

section \<open>Scanning\<close>

text \<open>Outside of strings, within a string, after a backslash in a string, each with the nesting depth; and text that is not JSON.\<close>

datatype json_state = JsonOut nat | JsonStr nat | JsonEsc nat | JsonBad

fun json_step :: "json_state \<Rightarrow> char \<Rightarrow> json_state" where
  "json_step (JsonOut d) c =
     (if c = CHR 0x22 then JsonStr d
      else if c = CHR ''{'' \<or> c = CHR ''['' then JsonOut (Suc d)
      else if c = CHR ''}'' \<or> c = CHR '']'' then (case d of 0 \<Rightarrow> JsonBad | Suc d \<Rightarrow> JsonOut d)
      else if c = CHR 0x5C then JsonBad else JsonOut d)"
| "json_step (JsonStr d) c = (if c = CHR 0x22 then JsonOut d else if c = CHR 0x5C then JsonEsc d else JsonStr d)"
| "json_step (JsonEsc d) c = (if c \<in> {CHR 0x22, CHR 0x5C, CHR ''/'', CHR ''b'', CHR ''f'', CHR ''n'', CHR ''r'', CHR ''t'', CHR ''u''} then JsonStr d else JsonBad)"
| "json_step JsonBad c = JsonBad"

definition json_scan :: "json_state \<Rightarrow> char list \<Rightarrow> json_state" where
  "json_scan = foldl json_step"

definition json_closed :: "char list \<Rightarrow> bool" where
  "json_closed b \<longleftrightarrow> json_scan (JsonOut 0) b = JsonOut 0"

text \<open>An object without surrounding space, as \<open>json.Marshal\<close> writes it: it is complete with its last character and not before.\<close>

definition json_object :: "char list \<Rightarrow> bool" where
  "json_object b \<longleftrightarrow> b \<noteq> [] \<and> hd b = CHR ''{'' \<and> last b = CHR ''}'' \<and> json_closed b \<and>
     (\<forall>k < length b. 0 < k \<longrightarrow> \<not> json_closed (take k b))"

lemma json_scan_simps [simp]: "json_scan s [] = s" "json_scan s (c # b) = json_scan (json_step s c) b" "json_scan s (a @ b) = json_scan (json_scan s a) b"
  by (simp_all add: json_scan_def)

lemma json_scan_bad [simp]: "json_scan JsonBad b = JsonBad"
  by (induction b) simp_all

section \<open>Text behind a torn object\<close>

text \<open>Outside of strings the depth is only shifted.\<close>

fun deeper :: "nat \<Rightarrow> json_state \<Rightarrow> json_state" where
  "deeper n (JsonOut d) = JsonOut (d + n)"
| "deeper n (JsonStr d) = JsonStr (d + n)"
| "deeper n (JsonEsc d) = JsonEsc (d + n)"
| "deeper n JsonBad = JsonBad"

lemma json_step_deeper: "json_step s c \<noteq> JsonBad \<Longrightarrow> json_step (deeper n s) c = deeper n (json_step s c)"
  by (cases s) (auto split: nat.splits)

lemma json_scan_deeper: "json_scan s b \<noteq> JsonBad \<Longrightarrow> json_scan (deeper n s) b = deeper n (json_scan s b)"
proof (induction b arbitrary: s)
  case (Cons c b)
  have "json_step s c \<noteq> JsonBad" using Cons.prems by auto
  then show ?case using Cons by (simp add: json_step_deeper)
qed simp

text \<open>Within a string, what was text outside of strings is inside and the other way round; an escape is then outside, where it is not JSON.\<close>

fun inverted :: "json_state \<Rightarrow> json_state \<Rightarrow> bool" where
  "inverted (JsonOut _) t = (t = JsonBad \<or> (\<exists>d. t = JsonStr d))"
| "inverted (JsonStr _) t = (t = JsonBad \<or> (\<exists>d. t = JsonOut d))"
| "inverted (JsonEsc _) t = (t = JsonBad)"
| "inverted JsonBad t = True"

lemma json_step_inverted: "inverted s t \<Longrightarrow> inverted (json_step s c) (json_step t c)"
  by (cases s; cases t; simp split: nat.split)

lemma json_scan_inverted: "inverted s t \<Longrightarrow> inverted (json_scan s b) (json_scan t b)"
  by (induction b arbitrary: s t) (simp_all add: json_step_inverted)

theorem json_torn:
  assumes "json_object a" and "0 < k" and "k < length a" and "json_object b"
  shows "\<not> json_closed (take k a @ b)"
proof -
  have b: "json_scan (JsonOut 0) b = JsonOut 0" "b = CHR ''{'' # tl b"
    using assms(4) by (cases b; simp add: json_object_def json_closed_def)+
  have "json_scan (JsonOut 0) (take k a @ drop k a) = JsonOut 0" using assms(1) by (simp add: json_object_def json_closed_def)
  then have good: "json_scan (JsonOut 0) (take k a) \<noteq> JsonBad" by (metis json_scan_bad json_scan_simps(3) json_state.distinct(5))
  have torn: "json_scan (JsonOut 0) (take k a) \<noteq> JsonOut 0" using assms(1-3) by (simp add: json_object_def json_closed_def)
  show ?thesis
  proof (cases "json_scan (JsonOut 0) (take k a)")
    case (JsonOut d)
    then have "json_scan (JsonOut d) b = JsonOut d" using json_scan_deeper[of "JsonOut 0" b d] b(1) by simp
    then show ?thesis using JsonOut torn by (simp add: json_closed_def)
  next
    case (JsonStr d)
    then show ?thesis using json_scan_inverted[of "JsonOut 0" "JsonStr d" b] b(1) by (auto simp: json_closed_def)
  next
    case (JsonEsc d)
    have "json_scan (JsonEsc d) b = JsonBad" by (subst b(2)) simp
    then show ?thesis using JsonEsc by (simp add: json_closed_def)
  qed (use good in simp)
qed

end
