(* ===== verification/EventStore.thy ===== *)
theory EventStore
  imports Sql GoTime GoPath JsonText "HOL-Library.List_Lexorder" "HOL-Library.Char_ord" "HOL-Library.Multiset" "HOL-Library.AList"
begin

text \<open>
  Event sourcing: the event envelope and its validation (\<open>src/internal/domain/event.go\<close>), the aggregate that
  produces delivery events (\<open>delivery_aggregate.go\<close>), the global sequence counter and the daily event files
  (\<open>src/internal/eventsource/seq_counter.go\<close>, \<open>store_file.go\<close>, \<open>lifecycle.go\<close>).

  Event files are their bytes: a write that fails leaves what it had written, and the next write continues there. \<open>json.Marshal\<close> and
  \<open>json.Unmarshal\<close> on events are arguments, with what the theorems need of them as hypotheses on the events at hand: the text is one object
  without a line break that decodes to the event again, and what decodes is closed JSON text. Identifiers drawn by the \<open>uuid\<close> package,
  instants and errors of the system are arguments.
\<close>

section \<open>Events\<close>

type_synonym event_type = string

definition EventDeliveryCompleted :: event_type where "EventDeliveryCompleted = ''delivery.completed''"
definition EventDeliveryFailed :: event_type where "EventDeliveryFailed = ''delivery.failed''"
definition EventErrorRetried :: event_type where "EventErrorRetried = ''error.retried''"
definition EventScanCompleted :: event_type where "EventScanCompleted = ''scan.completed''"
definition EventSystemCutover :: event_type where "EventSystemCutover = ''system.cutover''"

lemmas event_types = EventDeliveryCompleted_def EventDeliveryFailed_def EventErrorRetried_def EventScanCompleted_def EventSystemCutover_def

definition ValidEventType :: "event_type \<Rightarrow> bool" where
  "ValidEventType t = (t \<in> {EventDeliveryCompleted, EventDeliveryFailed, EventErrorRetried, EventScanCompleted, EventSystemCutover})"

text \<open>The payloads that are marshalled into \<open>Data\<close>.\<close>

datatype payload =
    DeliveryCompletedPayload path string
  | DeliveryFailedPayload path string string
  | ErrorRetriedPayload string string
  | ScanCompletedPayload path int int
  | CutoverPayload int string

text \<open>\<open>evt_Data\<close> is \<open>None\<close> for empty data, \<open>evt_Zone\<close> the offset from UTC of the timestamp's location.\<close>

record event =
  evt_SchemaVersion :: nat
  evt_ID :: string
  evt_Type :: event_type
  evt_Timestamp :: time
  evt_Zone :: duration
  evt_Data :: "payload option"
  evt_SessionID :: string
  evt_CorrelationID :: string
  evt_CausationID :: string
  evt_AggregateID :: string
  evt_AggregateType :: string
  evt_SeqNr :: u64

definition CurrentEventSchemaVersion :: nat where "CurrentEventSchemaVersion = 1"

text \<open>The five payload types marshal without error.\<close>

definition NewEvent :: "string \<Rightarrow> event_type \<Rightarrow> payload \<Rightarrow> time \<Rightarrow> duration \<Rightarrow> event" where
  "NewEvent uuid eventType data timestamp zone =
     \<lparr>evt_SchemaVersion = CurrentEventSchemaVersion, evt_ID = uuid, evt_Type = eventType, evt_Timestamp = timestamp, evt_Zone = zone,
      evt_Data = Some data, evt_SessionID = [], evt_CorrelationID = [], evt_CausationID = [], evt_AggregateID = [],
      evt_AggregateType = [], evt_SeqNr = 0\<rparr>"

definition event_errors :: "event \<Rightarrow> string list" where
  "event_errors e =
     (if evt_SchemaVersion e > CurrentEventSchemaVersion
      then [''SchemaVersion '' @ Itoa (int (evt_SchemaVersion e)) @ '' exceeds current '' @ Itoa (int CurrentEventSchemaVersion)] else []) @
     (if evt_ID e = [] then [''ID is required''] else []) @
     (if evt_Type e = [] then [''Type is required'']
      else if \<not> ValidEventType (evt_Type e) then [''Type '' @ Quote (evt_Type e) @ '' is not a recognized event type''] else []) @
     (if IsZero (evt_Timestamp e) then [''Timestamp must not be zero''] else []) @
     (if evt_Data e = None then [''Data must not be empty''] else [])"

definition ParseEvent :: "event \<Rightarrow> event result" where
  "ParseEvent e =
     (let errs = event_errors e
      in if errs \<noteq> [] then Inl (errorf (''invalid event: '' @ Join ''; '' errs)) else Inr e)"

section \<open>The aggregate\<close>

record delivery_aggregate =
  ag_id :: string
  ag_seqNr :: u64

definition NewDeliveryAggregate :: "string \<Rightarrow> delivery_aggregate" where
  "NewDeliveryAggregate sessionID = \<lparr>ag_id = sessionID, ag_seqNr = 0\<rparr>"

definition nextEvent :: "string \<Rightarrow> event_type \<Rightarrow> payload \<Rightarrow> time \<Rightarrow> delivery_aggregate \<Rightarrow> event \<times> delivery_aggregate" where
  "nextEvent uuid eventType data now a =
     (let a = a\<lparr>ag_seqNr := ag_seqNr a + 1\<rparr>
      in ((NewEvent uuid eventType data now 0)\<lparr>evt_AggregateID := ag_id a, evt_AggregateType := ''delivery'', evt_SeqNr := ag_seqNr a\<rparr>, a))"

definition RecordDelivery_event :: "string \<Rightarrow> path \<Rightarrow> string \<Rightarrow> time \<Rightarrow> delivery_aggregate \<Rightarrow> event \<times> delivery_aggregate" where
  "RecordDelivery_event uuid p kind = nextEvent uuid EventDeliveryCompleted (DeliveryCompletedPayload p kind)"

definition RecordFailure_event :: "string \<Rightarrow> path \<Rightarrow> string \<Rightarrow> string \<Rightarrow> time \<Rightarrow> delivery_aggregate \<Rightarrow> event \<times> delivery_aggregate" where
  "RecordFailure_event uuid p kind errMsg = nextEvent uuid EventDeliveryFailed (DeliveryFailedPayload p kind errMsg)"

definition RecordRetry_event :: "string \<Rightarrow> string \<Rightarrow> string \<Rightarrow> time \<Rightarrow> delivery_aggregate \<Rightarrow> event \<times> delivery_aggregate" where
  "RecordRetry_event uuid name kind = nextEvent uuid EventErrorRetried (ErrorRetriedPayload name kind)"

definition RecordScan_event :: "string \<Rightarrow> path \<Rightarrow> int \<Rightarrow> int \<Rightarrow> time \<Rightarrow> delivery_aggregate \<Rightarrow> event \<times> delivery_aggregate" where
  "RecordScan_event uuid outbox delivered failed = nextEvent uuid EventScanCompleted (ScanCompletedPayload outbox delivered failed)"

section \<open>The sequence counter\<close>

text \<open>The table \<open>seq_counter\<close> is its one row's \<open>next_seq\<close>; \<open>NewSeqCounter\<close> inserts 1 unless the row exists.\<close>

definition NewSeqCounter :: "int option \<Rightarrow> int" where
  "NewSeqCounter row = (case row of None \<Rightarrow> 1 | Some n \<Rightarrow> n)"

definition AllocSeqNr :: "go_error option \<Rightarrow> int \<Rightarrow> u64 result \<times> int" where
  "AllocSeqNr err nextSeq =
     (case err of
        Some e \<Rightarrow> (Inl (wrapf ''seq counter: alloc: '' e), nextSeq)
      | None \<Rightarrow> (Inr (word_of_int nextSeq), nextSeq + 1))"

definition Counter_LatestSeqNr :: "go_error option \<Rightarrow> int \<Rightarrow> u64 result" where
  "Counter_LatestSeqNr err nextSeq =
     (case err of
        Some e \<Rightarrow> Inl (wrapf ''seq counter: latest: '' e)
      | None \<Rightarrow> if nextSeq \<le> 1 then Inr 0 else Inr (word_of_int (nextSeq - 1)))"

definition InitializeAt :: "go_error option \<Rightarrow> u64 \<Rightarrow> int \<Rightarrow> unit result \<times> int" where
  "InitializeAt err startAt nextSeq =
     (case err of
        Some e \<Rightarrow> (Inl (wrapf ''seq counter: initialize: '' e), nextSeq)
      | None \<Rightarrow> (Inr (), if nextSeq \<le> uint (startAt + 1) then uint (startAt + 1) else nextSeq))"

section \<open>Event files\<close>

text \<open>The directory: file names with their contents.\<close>

type_synonym event_dir = "(string \<times> bytes) list"

definition lookup_file :: "event_dir \<Rightarrow> string \<Rightarrow> bytes" where
  "lookup_file dir name = (case map_of dir name of None \<Rightarrow> [] | Some f \<Rightarrow> f)"

definition put_log :: "string \<Rightarrow> bytes \<Rightarrow> event_dir \<Rightarrow> event_dir" where
  "put_log name f dir = AList.update name f dir"

definition event_date :: "event \<Rightarrow> string" where
  "event_date ev = format_date (evt_Timestamp ev + evt_Zone ev)"

text \<open>\<open>ap_write\<close> says, by the id of the event, whether the write fails and how many bytes are in the file then.\<close>

record append_io =
  ap_mkdir :: "go_error option"
  ap_open :: "string \<Rightarrow> go_error option"
  ap_marshal :: "event \<Rightarrow> bytes result"
  ap_write :: "string \<Rightarrow> (go_error \<times> nat) option"
  ap_sync :: "string \<Rightarrow> go_error option"
  ap_close :: "string \<Rightarrow> go_error option"

fun write_events :: "append_io \<Rightarrow> event list \<Rightarrow> bytes \<Rightarrow> int \<Rightarrow> int result \<times> bytes" where
  "write_events io [] f n = (Inr n, f)"
| "write_events io (ev # evs) f n =
     (case ap_marshal io ev of
        Inl e \<Rightarrow> (Inl (wrapf (''marshal event '' @ evt_ID ev @ '': '') e), f)
      | Inr line \<Rightarrow>
          let data = line @ [CHR 0x0A]
          in case ap_write io (evt_ID ev) of
               Some (e, written) \<Rightarrow> (Inl (wrapf (''write event '' @ evt_ID ev @ '': '') e), f @ take written data)
             | None \<Rightarrow> write_events io evs (f @ data) (n + int (length data)))"

text \<open>The files of the batch, one after the other; opening creates the file.\<close>

fun append_dates :: "append_io \<Rightarrow> string list \<Rightarrow> event list \<Rightarrow> event_dir \<Rightarrow> int \<Rightarrow> int result \<times> event_dir" where
  "append_dates io [] events dir n = (Inr n, dir)"
| "append_dates io (date # dates) events dir n =
     (let name = date @ ''.jsonl''
      in case ap_open io date of
           Some e \<Rightarrow> (Inl (wrapf (''open event file '' @ date @ '': '') e), dir)
         | None \<Rightarrow>
             (case write_events io (filter (\<lambda>ev. event_date ev = date) events) (lookup_file dir name) n of
                (Inl e, f) \<Rightarrow> (Inl e, put_log name f dir)
              | (Inr n, f) \<Rightarrow>
                  let dir = put_log name f dir
                  in case ap_sync io date of
                       Some e \<Rightarrow> (Inl (wrapf (''fsync event file '' @ date @ '': '') e), dir)
                     | None \<Rightarrow>
                         (case ap_close io date of
                            Some e \<Rightarrow> (Inl (wrapf (''close event file '' @ date @ '': '') e), dir)
                          | None \<Rightarrow> append_dates io dates events dir n)))"

fun first_invalid :: "event list \<Rightarrow> go_error option" where
  "first_invalid [] = None"
| "first_invalid (ev # evs) =
     (case ParseEvent ev of
        Inl e \<Rightarrow> Some (wrapf (''validate event '' @ evt_ID ev @ '': '') e)
      | Inr _ \<Rightarrow> first_invalid evs)"

text \<open>\<open>dates\<close> is the order in which Go iterates over the map of the dates.\<close>

definition Append :: "append_io \<Rightarrow> string list \<Rightarrow> event list \<Rightarrow> event_dir \<Rightarrow> int result \<times> event_dir" where
  "Append io dates events dir =
     (case first_invalid events of
        Some e \<Rightarrow> (Inl e, dir)
      | None \<Rightarrow>
          (case ap_mkdir io of
             Some e \<Rightarrow> (Inl (wrapf ''create event store dir: '' e), dir)
           | None \<Rightarrow> append_dates io dates events dir 0))"

section \<open>Reading events back\<close>

record load_io =
  ld_readdir :: "go_error option"
  ld_open :: "string \<Rightarrow> go_error option"
  ld_scan :: "string \<Rightarrow> go_error option"
  ld_unmarshal :: "bytes \<Rightarrow> event option"

record load_result =
  lr_FileCount :: int
  lr_CorruptLineCount :: int

text \<open>The lines \<open>bufio.Scanner\<close> returns, each without a carriage return at its end; the last one may lack its newline. Empty lines are skipped
  by the caller, so the empty rest behind the last newline does not count.\<close>

definition drop_cr :: "bytes \<Rightarrow> bytes" where
  "drop_cr l = (if l \<noteq> [] \<and> last l = CHR 0x0D then butlast l else l)"

definition file_lines :: "bytes \<Rightarrow> bytes list" where
  "file_lines f = map drop_cr (Split CHR 0x0A f)"

fun load_lines :: "(bytes \<Rightarrow> event option) \<Rightarrow> time \<Rightarrow> bytes list \<Rightarrow> event list \<times> int" where
  "load_lines unmarshal after [] = ([], 0)"
| "load_lines unmarshal after (l # ls) =
     (case load_lines unmarshal after ls of (evs, corrupt) \<Rightarrow>
        if l = [] then (evs, corrupt)
        else case unmarshal l of
               None \<Rightarrow> (evs, corrupt + 1)
             | Some ev \<Rightarrow> if \<not> IsZero after \<and> \<not> after < evt_Timestamp ev then (evs, corrupt) else (ev # evs, corrupt))"

fun load_files :: "load_io \<Rightarrow> time \<Rightarrow> event_dir \<Rightarrow> (event list \<times> int) result" where
  "load_files io after [] = Inr ([], 0)"
| "load_files io after ((name, f) # files) =
     (case ld_open io name of
        Some e \<Rightarrow> Inl (wrapf (''open '' @ name @ '': '') e)
      | None \<Rightarrow>
          (case ld_scan io name of
             Some e \<Rightarrow> Inl (wrapf (''scan '' @ name @ '': '') e)
           | None \<Rightarrow>
               (case load_files io after files of
                  Inl e \<Rightarrow> Inl e
                | Inr (evs, corrupt) \<Rightarrow>
                    (case load_lines (ld_unmarshal io) after (file_lines f) of (evs', corrupt') \<Rightarrow> Inr (evs' @ evs, corrupt' + corrupt)))))"

definition loadEvents :: "load_io \<Rightarrow> time \<Rightarrow> event_dir \<Rightarrow> (event list \<times> load_result) result" where
  "loadEvents io after dir =
     (case ld_readdir io of
        Some e \<Rightarrow> if errors_Is e ErrNotExist then Inr ([], \<lparr>lr_FileCount = 0, lr_CorruptLineCount = 0\<rparr>)
                  else Inl (wrapf ''read event store dir: '' e)
      | None \<Rightarrow>
          let files = sort_key fst (filter (\<lambda>(name, _). HasSuffix name ''.jsonl'') dir)
          in case load_files io after files of
               Inl e \<Rightarrow> Inl e
             | Inr (events, corrupt) \<Rightarrow>
                 Inr (sort_key evt_Timestamp events, \<lparr>lr_FileCount = int (length files), lr_CorruptLineCount = corrupt\<rparr>))"

definition LoadAll :: "load_io \<Rightarrow> event_dir \<Rightarrow> (event list \<times> load_result) result" where
  "LoadAll io = loadEvents io 0"

definition LoadSince :: "load_io \<Rightarrow> time \<Rightarrow> event_dir \<Rightarrow> (event list \<times> load_result) result" where
  "LoadSince io after = loadEvents io after"

definition LoadAfterSeqNr :: "load_io \<Rightarrow> u64 \<Rightarrow> event_dir \<Rightarrow> (event list \<times> load_result) result" where
  "LoadAfterSeqNr io afterSeqNr dir =
     (case loadEvents io 0 dir of
        Inl e \<Rightarrow> Inl e
      | Inr (all, res) \<Rightarrow>
          Inr (sort_key evt_SeqNr (filter (\<lambda>ev. 0 < evt_SeqNr ev \<and> afterSeqNr < evt_SeqNr ev) all), res))"

definition Store_LatestSeqNr :: "load_io \<Rightarrow> event_dir \<Rightarrow> u64 result" where
  "Store_LatestSeqNr io dir =
     (case loadEvents io 0 dir of
        Inl e \<Rightarrow> Inl e
      | Inr (all, _) \<Rightarrow> Inr (fold (\<lambda>ev mx. if mx < evt_SeqNr ev then evt_SeqNr ev else mx) all 0))"

section \<open>Old event files\<close>

text \<open>The listing of the directory with modification times, \<open>None\<close> where \<open>Info\<close> fails.\<close>

record event_entry =
  ee_Name :: string
  ee_IsDir :: bool
  ee_ModTime :: "time option"

definition ListExpiredEventFiles :: "time \<Rightarrow> event_entry list result \<Rightarrow> int \<Rightarrow> string list result" where
  "ListExpiredEventFiles now listing days =
     (if days < 0 then Inl (errorf (''days must be non-negative, got '' @ Itoa days))
      else case listing of
             Inl e \<Rightarrow> if errors_Is e ErrNotExist then Inr [] else Inl e
           | Inr entries \<Rightarrow>
               let cutoff = now + wrap64 (wrap64 (- days * 24) * hour)
               in Inr (map ee_Name (filter (\<lambda>e. \<not> (ee_IsDir e \<or> \<not> HasSuffix (ee_Name e) ''.jsonl'') \<and>
                         (case ee_ModTime e of None \<Rightarrow> False | Some t \<Rightarrow> t < cutoff)) entries)))"

fun PruneEventFiles :: "(string \<Rightarrow> go_error option) \<Rightarrow> string list \<Rightarrow> event_dir \<Rightarrow> (string list \<times> go_error option) \<times> event_dir" where
  "PruneEventFiles err [] dir = (([], None), dir)"
| "PruneEventFiles err (name # names) dir =
     (let next = (\<lambda>dir. case PruneEventFiles err names dir of ((deleted, e), dir) \<Rightarrow> ((name # deleted, e), dir))
      in if map_of dir name = None then next dir
         else case err name of
                Some e \<Rightarrow> if errors_Is e ErrNotExist then next dir else (([], Some e), dir)
              | None \<Rightarrow> next (AList.delete name dir))"

section \<open>What a directory holds\<close>

definition line_events :: "(bytes \<Rightarrow> event option) \<Rightarrow> bytes list \<Rightarrow> event list" where
  "line_events u ls = concat (map (\<lambda>l. if l = [] then [] else case u l of Some ev \<Rightarrow> [ev] | None \<Rightarrow> []) ls)"

definition corrupt_lines :: "(bytes \<Rightarrow> event option) \<Rightarrow> bytes list \<Rightarrow> nat" where
  "corrupt_lines u ls = length (filter (\<lambda>l. l \<noteq> [] \<and> u l = None) ls)"

definition recent :: "time \<Rightarrow> event \<Rightarrow> bool" where
  "recent after ev \<longleftrightarrow> IsZero after \<or> after < evt_Timestamp ev"

abbreviation file_events :: "(bytes \<Rightarrow> event option) \<Rightarrow> bytes \<Rightarrow> event list" where
  "file_events u f \<equiv> line_events u (file_lines f)"

abbreviation file_corrupt :: "(bytes \<Rightarrow> event option) \<Rightarrow> bytes \<Rightarrow> nat" where
  "file_corrupt u f \<equiv> corrupt_lines u (file_lines f)"

abbreviation jsonl :: "event_dir \<Rightarrow> event_dir" where
  "jsonl dir \<equiv> filter (\<lambda>(name, _). HasSuffix name ''.jsonl'') dir"

definition dir_events :: "(bytes \<Rightarrow> event option) \<Rightarrow> event_dir \<Rightarrow> event multiset" where
  "dir_events u dir = (\<Sum>(_, f) \<leftarrow> jsonl dir. mset (file_events u f))"

definition dir_corrupt :: "(bytes \<Rightarrow> event option) \<Rightarrow> event_dir \<Rightarrow> nat" where
  "dir_corrupt u dir = (\<Sum>(_, f) \<leftarrow> jsonl dir. file_corrupt u f)"

definition load_ok :: "(bytes \<Rightarrow> event option) \<Rightarrow> load_io" where
  "load_ok u = \<lparr>ld_readdir = None, ld_open = (\<lambda>_. None), ld_scan = (\<lambda>_. None), ld_unmarshal = u\<rparr>"

lemma load_lines_eq: "load_lines u after ls = (filter (recent after) (line_events u ls), int (corrupt_lines u ls))"
  by (induction ls) (auto simp: line_events_def corrupt_lines_def recent_def split: option.splits)

lemma load_files_eq:
  "load_files (load_ok u) after fs =
     Inr (filter (recent after) (concat (map (\<lambda>(_, f). file_events u f) fs)), int (\<Sum>(_, f) \<leftarrow> fs. file_corrupt u f))"
  by (induction fs) (auto simp: load_ok_def load_lines_eq)

lemma sum_list_sort_key: "(\<Sum>x \<leftarrow> sort_key k xs. (g x :: 'a :: comm_monoid_add)) = (\<Sum>x \<leftarrow> xs. g x)"
  by (metis mset_map mset_sort sum_mset_sum_list)

lemma mset_concat_files: "mset (concat (map (\<lambda>(_, f). file_events u f) fs)) = (\<Sum>(_, f) \<leftarrow> fs. mset (file_events u f))"
  by (induction fs) auto

text \<open>The events in the order of the sorted file names, then stably sorted by time.\<close>

definition all_events :: "(bytes \<Rightarrow> event option) \<Rightarrow> event_dir \<Rightarrow> event list" where
  "all_events u dir = sort_key evt_Timestamp (concat (map (\<lambda>(_, f). file_events u f) (sort_key fst (jsonl dir))))"

lemma loadEvents_eq:
  "loadEvents (load_ok u) after dir =
     Inr (filter (recent after) (all_events u dir), \<lparr>lr_FileCount = int (length (jsonl dir)), lr_CorruptLineCount = int (dir_corrupt u dir)\<rparr>)"
proof -
  have io: "ld_readdir (load_ok u) = None" by (simp add: load_ok_def)
  show ?thesis
    unfolding loadEvents_def io option.case Let_def load_files_eq sum.case prod.case all_events_def filter_sort dir_corrupt_def
      sum_list_sort_key length_sort by simp
qed

lemma mset_all_events: "mset (all_events u dir) = dir_events u dir"
  by (simp add: all_events_def dir_events_def mset_concat_files sum_list_sort_key)

lemma recent_zero [simp]: "recent 0 = (\<lambda>_. True)"
  by (simp add: recent_def IsZero_def fun_eq_iff)

lemma LoadAll_eq:
  "LoadAll (load_ok u) dir = Inr (all_events u dir, \<lparr>lr_FileCount = int (length (jsonl dir)), lr_CorruptLineCount = int (dir_corrupt u dir)\<rparr>)"
  by (simp add: LoadAll_def loadEvents_eq)

section \<open>Appending\<close>

text \<open>What is relied on of \<open>encoding/json\<close>: only closed text decodes, and the text of an event is one object, without a line break, that decodes to
  the event again. The latter is asked of single events, since Go replaces bytes that are not UTF-8.\<close>

definition decoder_ok :: "(bytes \<Rightarrow> event option) \<Rightarrow> bool" where
  "decoder_ok u \<longleftrightarrow> (\<forall>b. u b \<noteq> None \<longrightarrow> json_closed b)"

definition encodes :: "(event \<Rightarrow> bytes result) \<Rightarrow> (bytes \<Rightarrow> event option) \<Rightarrow> event \<Rightarrow> bool" where
  "encodes m u ev \<longleftrightarrow> (\<forall>b. m ev = Inr b \<longrightarrow> json_object b \<and> CHR 0x0A \<notin> set b \<and> u b = Some ev)"

definition complete :: "bytes \<Rightarrow> bool" where
  "complete f \<longleftrightarrow> f = [] \<or> last f = CHR 0x0A"

definition dir_ok :: "event_dir \<Rightarrow> bool" where
  "dir_ok dir \<longleftrightarrow> distinct (map fst dir) \<and> (\<forall>(_, f) \<in> set dir. complete f)"

lemma lookup_file_complete: "dir_ok dir \<Longrightarrow> complete (lookup_file dir name)"
  by (auto simp: dir_ok_def lookup_file_def complete_def split: option.splits dest!: map_of_SomeD)

lemma no_lines [simp]: "line_events u [] = []" "corrupt_lines u [] = 0" "line_events u [[]] = []" "corrupt_lines u [[]] = 0"
  by (simp_all add: line_events_def corrupt_lines_def)

lemma line_events_append [simp]: "line_events u (xs @ ys) = line_events u xs @ line_events u ys"
  by (simp add: line_events_def)

lemma corrupt_lines_append [simp]: "corrupt_lines u (xs @ ys) = corrupt_lines u xs + corrupt_lines u ys"
  by (simp add: corrupt_lines_def)

lemma file_lines_empty [simp]: "file_lines [] = [[]]"
  by (simp add: file_lines_def drop_cr_def)

lemma file_append:
  assumes "complete f"
  shows "file_events u (f @ t) = file_events u f @ file_events u t" and "file_corrupt u (f @ t) = file_corrupt u f + file_corrupt u t"
proof -
  have "file_events u (f @ t) = file_events u f @ file_events u t \<and> file_corrupt u (f @ t) = file_corrupt u f + file_corrupt u t"
  proof (cases f rule: rev_cases)
    case (snoc g c)
    then have "f = g @ [CHR 0x0A]" using assms by (simp add: complete_def)
    then have "Split CHR 0x0A (f @ t) = Split CHR 0x0A g @ Split CHR 0x0A t" "Split CHR 0x0A f = Split CHR 0x0A g @ [[]]"
      using Split_append[of "CHR 0x0A" g t] Split_append[of "CHR 0x0A" g "[]"] by simp_all
    then show ?thesis by (simp add: file_lines_def drop_cr_def)
  qed simp
  then show "file_events u (f @ t) = file_events u f @ file_events u t" "file_corrupt u (f @ t) = file_corrupt u f + file_corrupt u t" by simp_all
qed

text \<open>One line, with and without its newline, and a part of it.\<close>

lemma file_one_line:
  assumes "CHR 0x0A \<notin> set b" and "b \<noteq> []" and "last b \<noteq> CHR 0x0D"
  shows "file_events u (b @ [CHR 0x0A]) = (case u b of Some ev \<Rightarrow> [ev] | None \<Rightarrow> [])" "file_corrupt u (b @ [CHR 0x0A]) = (if u b = None then 1 else 0)"
    "file_events u b = (case u b of Some ev \<Rightarrow> [ev] | None \<Rightarrow> [])" "file_corrupt u b = (if u b = None then 1 else 0)"
proof -
  have "Split CHR 0x0A (b @ [CHR 0x0A]) = [b, []]" "Split CHR 0x0A b = [b]"
    using Split_append_sep[OF assms(1), of "[]"] Split_no_sep[OF assms(1)] by simp_all
  then show "file_events u (b @ [CHR 0x0A]) = (case u b of Some ev \<Rightarrow> [ev] | None \<Rightarrow> [])" "file_corrupt u (b @ [CHR 0x0A]) = (if u b = None then 1 else 0)"
    "file_events u b = (case u b of Some ev \<Rightarrow> [ev] | None \<Rightarrow> [])" "file_corrupt u b = (if u b = None then 1 else 0)"
    using assms(2,3) by (simp_all add: file_lines_def drop_cr_def line_events_def corrupt_lines_def)
qed

lemma file_encoded:
  assumes "encodes m u ev" and "m ev = Inr b"
  shows "file_events u (b @ [CHR 0x0A]) = [ev]" "file_corrupt u (b @ [CHR 0x0A]) = 0" "file_events u b = [ev]"
proof -
  have "CHR 0x0A \<notin> set b" "b \<noteq> []" "last b \<noteq> CHR 0x0D" "u b = Some ev" using assms by (auto simp: encodes_def json_object_def)
  with file_one_line[OF this(1-3), of u] show "file_events u (b @ [CHR 0x0A]) = [ev]" "file_corrupt u (b @ [CHR 0x0A]) = 0" "file_events u b = [ev]" by simp_all
qed

lemma file_fragment:
  assumes "decoder_ok u" and "json_object b" and "CHR 0x0A \<notin> set b" and "k < length b"
  shows "file_events u (take k b) = []"
proof -
  obtain j where j: "drop_cr (take k b) = take j b" "j < length b"
    using assms(4) by (cases "take k b \<noteq> [] \<and> last (take k b) = CHR 0x0D") (auto simp: drop_cr_def butlast_take)
  have "CHR 0x0A \<notin> set (take k b)" using assms(3) in_set_takeD by metis
  then have "file_lines (take k b) = [take j b]" using j(1) by (simp add: file_lines_def)
  moreover have "u (take j b) = None" if "take j b \<noteq> []"
  proof -
    have "0 < j" using that by (cases j) simp_all
    then have "\<not> json_closed (take j b)" using assms(2) j(2) by (simp add: json_object_def)
    then show ?thesis using assms(1) unfolding decoder_ok_def by blast
  qed
  ultimately show ?thesis by (simp add: line_events_def)
qed

lemma sum_update:
  fixes g :: "bytes \<Rightarrow> 'a :: cancel_comm_monoid_add"
  assumes "distinct (map fst dir)" and "HasSuffix name ''.jsonl''" and "g [] = 0"
  shows "(\<Sum>(_, f) \<leftarrow> jsonl (put_log name f' dir). g f) + g (lookup_file dir name) = (\<Sum>(_, f) \<leftarrow> jsonl dir. g f) + g f'"
  using assms(1)
proof (induction dir)
  case (Cons p dir)
  obtain n f where p: "p = (n, f)" by force
  show ?case
  proof (cases "n = name")
    case True
    then show ?thesis using assms(2) p by (simp add: put_log_def lookup_file_def add.commute add.left_commute)
  next
    case False
    then have "lookup_file (p # dir) name = lookup_file dir name" "put_log name f' (p # dir) = p # put_log name f' dir"
      using p by (simp_all add: lookup_file_def put_log_def)
    then show ?thesis using Cons p by (simp add: add.assoc)
  qed
qed (use assms(2,3) in \<open>simp add: put_log_def lookup_file_def\<close>)

lemma dir_put_log:
  assumes "distinct (map fst dir)" and "HasSuffix name ''.jsonl''"
  shows "file_events u f = file_events u (lookup_file dir name) @ evs \<Longrightarrow> dir_events u (put_log name f dir) = dir_events u dir + mset evs"
    and "file_corrupt u f = file_corrupt u (lookup_file dir name) + c \<Longrightarrow> dir_corrupt u (put_log name f dir) = dir_corrupt u dir + c"
  using sum_update[OF assms, of "\<lambda>f. mset (file_events u f)" f] sum_update[OF assms, of "file_corrupt u" f]
  by (simp_all add: dir_events_def dir_corrupt_def)

lemma write_events_Inr:
  assumes "write_events io evs f n = (Inr n', f')" and "complete f" and "\<forall>ev \<in> set evs. encodes (ap_marshal io) u ev"
  shows "complete f' \<and> file_events u f' = file_events u f @ evs \<and> file_corrupt u f' = file_corrupt u f"
  using assms
proof (induction evs arbitrary: f n)
  case (Cons ev evs)
  obtain b where b: "ap_marshal io ev = Inr b" "write_events io evs (f @ b @ [CHR 0x0A]) (n + int (length (b @ [CHR 0x0A]))) = (Inr n', f')"
    using Cons.prems(1) by (auto simp: Let_def split: sum.splits option.splits)
  have "encodes (ap_marshal io) u ev" using Cons.prems(3) by simp
  note one = file_encoded[OF this b(1)]
  have "complete (f @ b @ [CHR 0x0A])" by (simp add: complete_def)
  from Cons.IH[OF b(2) this] show ?case using Cons.prems(2,3) one file_append[OF Cons.prems(2)] by simp
qed simp

lemma dir_ok_put: "dir_ok dir \<Longrightarrow> complete f \<Longrightarrow> dir_ok (put_log name f dir)"
proof -
  assume ok: "dir_ok dir" and f: "complete f"
  have "set (AList.update name f dir) \<subseteq> insert (name, f) (set dir)" by (induction dir) auto
  then show ?thesis using ok f unfolding dir_ok_def put_log_def by (auto simp: distinct_update)
qed

lemma append_dates_Inr:
  assumes "append_dates io dates events dir n = (Inr n', dir')" and "dir_ok dir" and "distinct dates"
    and "\<forall>ev \<in> set events. encodes (ap_marshal io) u ev"
  shows "dir_ok dir' \<and> dir_events u dir' = dir_events u dir + mset (filter (\<lambda>ev. event_date ev \<in> set dates) events) \<and>
     dir_corrupt u dir' = dir_corrupt u dir"
  using assms(1-3)
proof (induction dates arbitrary: dir n)
  case (Cons date dates)
  let ?name = "date @ ''.jsonl''" and ?evs = "filter (\<lambda>ev. event_date ev = date) events"
  obtain m f where w: "write_events io ?evs (lookup_file dir ?name) n = (Inr m, f)"
    and rest: "append_dates io dates events (put_log ?name f dir) m = (Inr n', dir')"
    using Cons.prems(1) by (auto simp: Let_def split: option.splits prod.splits sum.splits)
  have "\<forall>ev \<in> set ?evs. encodes (ap_marshal io) u ev" using assms(4) by simp
  note wr = write_events_Inr[OF w lookup_file_complete[OF Cons.prems(2)] this]
  have suf: "HasSuffix ?name ''.jsonl''" by (simp add: HasSuffix_def)
  have d: "distinct (map fst dir)" using Cons.prems(2) by (simp add: dir_ok_def)
  have "dir_events u (put_log ?name f dir) = dir_events u dir + mset ?evs" "dir_corrupt u (put_log ?name f dir) = dir_corrupt u dir"
    using dir_put_log(1)[OF d suf, of u f ?evs] dir_put_log(2)[OF d suf, of u f 0] wr by simp_all
  moreover have "mset (filter (\<lambda>ev. event_date ev \<in> set (date # dates)) events) =
      mset ?evs + mset (filter (\<lambda>ev. event_date ev \<in> set dates) events)"
    using Cons.prems(3) by (induction events) auto
  ultimately show ?case
    using Cons.IH[OF rest dir_ok_put[OF Cons.prems(2)]] wr Cons.prems(3) by auto
qed simp

lemma Append_Inr:
  assumes "Append io [event_date ev] [ev] dir = (Inr n, dir')" and "dir_ok dir" and "encodes (ap_marshal io) u ev"
  shows "dir_ok dir' \<and> dir_events u dir' = dir_events u dir + {#ev#} \<and> dir_corrupt u dir' = dir_corrupt u dir"
proof -
  have "append_dates io [event_date ev] [ev] dir 0 = (Inr n, dir')" using assms(1) by (auto simp: Append_def split: option.splits)
  from append_dates_Inr[OF this assms(2)] assms(3) show ?thesis by simp
qed

text \<open>Validation comes first, and nothing is written that was not in the batch.\<close>

lemma first_invalid_None: "first_invalid events = None \<longleftrightarrow> (\<forall>ev \<in> set events. ParseEvent ev = Inr ev)"
  by (induction events) (auto simp: ParseEvent_def Let_def split: sum.splits)

lemma write_events_Inl:
  assumes "write_events io evs f n = (Inl e, f')" and "complete f" and "\<forall>ev \<in> set evs. encodes (ap_marshal io) u ev" and "decoder_ok u"
  shows "\<exists>new. file_events u f' = file_events u f @ new \<and> set new \<subseteq> set evs"
  using assms(1-3)
proof (induction evs arbitrary: f n)
  case (Cons ev evs)
  have enc: "encodes (ap_marshal io) u ev" using Cons.prems(3) by simp
  show ?case
  proof (cases "ap_marshal io ev")
    case (Inr b)
    note one = file_encoded[OF enc Inr]
    have b: "json_object b" "CHR 0x0A \<notin> set b" using enc Inr by (auto simp: encodes_def)
    show ?thesis
    proof (cases "ap_write io (evt_ID ev)")
      case None
      then have "write_events io evs (f @ b @ [CHR 0x0A]) (n + int (length (b @ [CHR 0x0A]))) = (Inl e, f')" "complete (f @ b @ [CHR 0x0A])"
        using Cons.prems(1) Inr by (simp_all add: complete_def)
      from Cons.IH[OF this] Cons.prems(3) obtain new where "file_events u f' = file_events u (f @ b @ [CHR 0x0A]) @ new" "set new \<subseteq> set evs" by auto
      then show ?thesis using one file_append(1)[OF Cons.prems(2)] by (intro exI[of _ "ev # new"]) auto
    next
      case (Some x)
      then have f': "f' = f @ take (snd x) (b @ [CHR 0x0A])" using Cons.prems(1) Inr by (cases x) simp
      have "file_events u (take (snd x) (b @ [CHR 0x0A])) \<in> {[], [ev]}"
        using one file_fragment[OF assms(4) b, of "snd x"] by (cases "snd x < length b"; cases "snd x = length b") (auto simp: take_Cons')
      then show ?thesis using f' file_append(1)[OF Cons.prems(2)] by auto
    qed
  qed (use Cons.prems(1) in auto)
qed simp

lemma append_dates_Inl:
  assumes "append_dates io dates events dir n = (Inl e, dir')" and "dir_ok dir" and "distinct dates"
    and "\<forall>ev \<in> set events. encodes (ap_marshal io) u ev" and "decoder_ok u"
  shows "set_mset (dir_events u dir') \<subseteq> set_mset (dir_events u dir) \<union> set events"
  using assms(1-3)
proof (induction dates arbitrary: dir n)
  case (Cons date dates)
  let ?name = "date @ ''.jsonl''" and ?evs = "filter (\<lambda>ev. event_date ev = date) events"
  obtain w f where w: "write_events io ?evs (lookup_file dir ?name) n = (w, f)" by (metis surj_pair)
  have suf: "HasSuffix ?name ''.jsonl''" by (simp add: HasSuffix_def)
  have d: "distinct (map fst dir)" "complete (lookup_file dir ?name)" using Cons.prems(2) lookup_file_complete by (auto simp: dir_ok_def)
  have enc: "\<forall>ev \<in> set ?evs. encodes (ap_marshal io) u ev" using assms(4) by simp
  obtain new where new: "file_events u f = file_events u (lookup_file dir ?name) @ new" "set new \<subseteq> set ?evs"
    using write_events_Inl[OF _ d(2) enc assms(5)] write_events_Inr[OF _ d(2) enc] w by (cases w) blast+
  have put: "set_mset (dir_events u (put_log ?name f dir)) \<subseteq> set_mset (dir_events u dir) \<union> set events"
    using dir_put_log(1)[OF d(1) suf new(1)] new(2) by auto
  consider "dir' = dir" | "dir' = put_log ?name f dir"
    | m where "w = Inr m" "append_dates io dates events (put_log ?name f dir) m = (Inl e, dir')"
    using Cons.prems(1) w by (auto simp: Let_def split: option.splits sum.splits)
  then show ?case
  proof cases
    case 3
    then have "complete f" using write_events_Inr[OF _ d(2) enc] w by blast
    from Cons.IH[OF 3(2) dir_ok_put[OF Cons.prems(2) this]] Cons.prems(3) put show ?thesis by auto
  qed (use put in auto)
qed simp

lemma Append_Inl:
  assumes "Append io dates events dir = (Inl e, dir')" and "dir_ok dir" and "distinct dates"
    and "\<forall>ev \<in> set events. encodes (ap_marshal io) u ev" and "decoder_ok u"
  shows "set_mset (dir_events u dir') \<subseteq> set_mset (dir_events u dir) \<union> {ev \<in> set events. ParseEvent ev = Inr ev}"
proof (cases "first_invalid events = None \<and> ap_mkdir io = None")
  case True
  then have "append_dates io dates events dir 0 = (Inl e, dir')" using assms(1) by (simp add: Append_def)
  from append_dates_Inl[OF this assms(2-5)] True first_invalid_None show ?thesis by blast
qed (use assms(1) in \<open>auto simp: Append_def split: option.splits\<close>)

text \<open>Files that work.\<close>

definition no_faults :: "append_io \<Rightarrow> bool" where
  "no_faults io \<longleftrightarrow> ap_mkdir io = None \<and> (\<forall>d. ap_open io d = None \<and> ap_sync io d = None \<and> ap_close io d = None) \<and> (\<forall>i. ap_write io i = None) \<and>
     (\<forall>ev. \<not> isl (ap_marshal io ev))"

lemma no_faults_marshal: "no_faults io \<Longrightarrow> \<exists>b. ap_marshal io ev = Inr b"
  unfolding no_faults_def by (metis sum.collapse(2))

lemma Append_no_faults:
  assumes "no_faults io" and "ParseEvent ev = Inr ev"
  shows "\<exists>m dir'. Append io [event_date ev] [ev] dir = (Inr m, dir')"
  using assms no_faults_marshal[OF assms(1), of ev] by (auto simp: Append_def no_faults_def Let_def)

section \<open>Properties\<close>

text \<open>C14: What is appended is replayed: after a successful \<open>Append\<close> to event files whose last lines are complete, whatever the order
  in which the files of the batch are written, \<open>LoadAll\<close> returns all events from before and those of the batch, each as often as it was
  written, in the order of their timestamps, with no new corrupt line; a batch with one invalid event is refused as a
  whole, and no invalid event ever gets into the files, even when a write fails half-way. (The events of the batch survive
  \<open>json.Marshal\<close> and \<open>json.Unmarshal\<close>, and only closed JSON text decodes.)\<close>

theorem Append_is_replayed:
  assumes "dir_ok dir" and "distinct dates" and "set dates = event_date ` set events"
    and "Append io dates events dir = (r, dir')"
    and "\<forall>ev \<in> set events. encodes (ap_marshal io) u ev" and "decoder_ok u"
  shows "\<exists>old oldres new newres.
     LoadAll (load_ok u) dir = Inr (old, oldres) \<and> LoadAll (load_ok u) dir' = Inr (new, newres) \<and> sorted (map evt_Timestamp new) \<and>
     (case r of
        Inr _ \<Rightarrow> mset new = mset old + mset events \<and> lr_CorruptLineCount newres = lr_CorruptLineCount oldres \<and> dir_ok dir'
      | Inl _ \<Rightarrow> set new \<subseteq> set old \<union> {e \<in> set events. ParseEvent e = Inr e}) \<and>
     ((\<exists>ev \<in> set events. isl (ParseEvent ev)) \<longrightarrow> isl r \<and> dir' = dir)"
proof -
  have rej: "isl r \<and> dir' = dir" if "\<exists>ev \<in> set events. isl (ParseEvent ev)"
  proof -
    have "first_invalid events \<noteq> None" using first_invalid_None that by (metis sum.disc(2))
    then show ?thesis using assms(4) by (auto simp: Append_def split: option.splits)
  qed
  have "case r of Inr _ \<Rightarrow> mset (all_events u dir') = mset (all_events u dir) + mset events \<and> dir_corrupt u dir' = dir_corrupt u dir \<and> dir_ok dir'
             | Inl _ \<Rightarrow> set (all_events u dir') \<subseteq> set (all_events u dir) \<union> {e \<in> set events. ParseEvent e = Inr e}"
  proof (cases r)
    case (Inr n)
    then have "append_dates io dates events dir 0 = (Inr n, dir')" using assms(4) by (auto simp: Append_def split: option.splits)
    from append_dates_Inr[OF this assms(1,2,5)] have "dir_events u dir' = dir_events u dir + mset (filter (\<lambda>ev. event_date ev \<in> set dates) events)"
      "dir_corrupt u dir' = dir_corrupt u dir" "dir_ok dir'" by blast+
    moreover have "filter (\<lambda>ev. event_date ev \<in> set dates) events = events" using assms(3) by (simp add: filter_id_conv)
    ultimately show ?thesis using Inr by (simp add: mset_all_events)
  next
    case (Inl e)
    have "set (all_events u d) = set_mset (dir_events u d)" for d by (metis mset_all_events set_mset_mset)
    then show ?thesis using Inl Append_Inl[OF assms(4)[unfolded Inl] assms(1,2,5,6)] by simp
  qed
  moreover have "sorted (map evt_Timestamp (all_events u dir'))" by (simp add: all_events_def)
  ultimately show ?thesis unfolding LoadAll_eq using rej by (cases r) auto
qed

definition sample_evt :: event where
  "sample_evt = (NewEvent ''id1'' EventDeliveryCompleted (DeliveryCompletedPayload ''/o/a.md'' ''report'') second 0)\<lparr>evt_SeqNr := 1\<rparr>"

text \<open>Files that work, and a codec for one event.\<close>

definition append_ok :: append_io where
  "append_ok = \<lparr>ap_mkdir = None, ap_open = (\<lambda>_. None), ap_marshal = (\<lambda>_. Inr ''{}''), ap_write = (\<lambda>_. None), ap_sync = (\<lambda>_. None), ap_close = (\<lambda>_. None)\<rparr>"

definition decode_as :: "event \<Rightarrow> bytes \<Rightarrow> event option" where
  "decode_as ev b = (if b = ''{}'' then Some ev else None)"

lemma sample_object: "json_object ''{}''"
  by code_simp

lemma decode_as_ok: "decoder_ok (decode_as ev)" "encodes (ap_marshal append_ok) (decode_as ev) ev" "no_faults append_ok"
  using sample_object by (auto simp: decoder_ok_def decode_as_def encodes_def append_ok_def no_faults_def json_object_def)

theorem Append_is_replayed_witness:
  "\<exists>r dir' new res. Append append_ok [''0001-01-01''] [sample_evt] [] = (r, dir') \<and>
     LoadAll (load_ok (decode_as sample_evt)) dir' = Inr (new, res) \<and> mset new = {#sample_evt#}"
proof -
  obtain r dir' where run: "Append append_ok [''0001-01-01''] [sample_evt] [] = (r, dir')" by (metis surj_pair)
  have "\<not> isl (fst (Append append_ok [''0001-01-01''] [sample_evt] []))" by code_simp
  then have "\<not> isl r" using run by simp
  moreover have date: "event_date sample_evt = ''0001-01-01''" by code_simp
  moreover have "LoadAll (load_ok u) [] = Inr ([], \<lparr>lr_FileCount = 0, lr_CorruptLineCount = 0\<rparr>)" for u
    by (simp add: LoadAll_eq all_events_def dir_corrupt_def)
  ultimately show ?thesis
    using Append_is_replayed[OF _ _ _ run, where u = "decode_as sample_evt"] decode_as_ok(1,2)[of sample_evt] run by (cases r) (auto simp: dir_ok_def)
qed

text \<open>C15: A write that fails half-way also destroys the next event: after \<open>Append\<close> reported an error and left the beginning of an event at the
  end of the day's file, appending another event of that day reports success, but \<open>LoadAll\<close> does not return it: it returns the
  events from before the two and counts one more corrupt line. (Both events are written as JSON objects that decode again, and only closed
  JSON text decodes: that the second one is lost follows from the strings and brackets of the fragment before it.)\<close>

theorem torn_write_loses_next_event:
  assumes "dir_ok dir" and "ParseEvent ev = Inr ev" and "ParseEvent ev' = Inr ev'" and "event_date ev' = event_date ev"
    and "decoder_ok u" and "ap_marshal io ev = Inr b" and "encodes (ap_marshal io) u ev" and "encodes (ap_marshal io') u ev'"
    and "ap_write io (evt_ID ev) = Some (e, k)" and "0 < k" and "k < length b" and "ap_mkdir io = None" and "ap_open io (event_date ev) = None"
    and "no_faults io'"
    and "Append io [event_date ev] [ev] dir = (r, dir1)" and "Append io' [event_date ev] [ev'] dir1 = (r', dir2)"
  shows "isl r \<and> \<not> isl r' \<and>
    (\<exists>old oldres new newres. LoadAll (load_ok u) dir = Inr (old, oldres) \<and> LoadAll (load_ok u) dir2 = Inr (new, newres) \<and>
       mset new = mset old \<and> lr_CorruptLineCount newres = lr_CorruptLineCount oldres + 1)"
proof -
  let ?name = "event_date ev @ ''.jsonl''" and ?f = "lookup_file dir (event_date ev @ ''.jsonl'')"
  have suf: "HasSuffix ?name ''.jsonl''" by (simp add: HasSuffix_def)
  have d: "distinct (map fst dir)" "complete ?f" using assms(1) lookup_file_complete by (auto simp: dir_ok_def)
  have 1: "isl r" "dir1 = put_log ?name (?f @ take k b) dir" using assms(2,6,9,11-13,15) by (auto simp: Append_def Let_def)
  have l1: "lookup_file dir1 ?name = ?f @ take k b" unfolding 1(2) lookup_file_def put_log_def by (simp add: update_conv)
  obtain b' where b': "ap_marshal io' ev' = Inr b'" using no_faults_marshal[OF assms(14)] by blast
  let ?torn = "take k b @ b'"
  have "\<not> isl r' \<and> dir2 = put_log ?name (?f @ ?torn @ [CHR 0x0A]) dir1"
    using assms(3,4,14,16) l1 b' by (auto simp: Append_def no_faults_def Let_def)
  then have 2: "\<not> isl r'" "dir2 = put_log ?name (?f @ ?torn @ [CHR 0x0A]) dir" using 1(2) by (simp_all add: put_log_def)
  have obj: "json_object b" "json_object b'" "CHR 0x0A \<notin> set b" "CHR 0x0A \<notin> set b'" using assms(6-8) b' by (auto simp: encodes_def)
  have "u ?torn = None" using json_torn[OF obj(1) assms(10,11) obj(2)] assms(5) unfolding decoder_ok_def by blast
  moreover have "CHR 0x0A \<notin> set ?torn" using obj(3,4) in_set_takeD[of _ k b] by auto
  moreover have "?torn \<noteq> []" "last ?torn \<noteq> CHR 0x0D" using obj(2) by (auto simp: json_object_def)
  ultimately have "file_events u (?torn @ [CHR 0x0A]) = []" "file_corrupt u (?torn @ [CHR 0x0A]) = 1" using file_one_line[of ?torn u] by simp_all
  then have "dir_events u dir2 = dir_events u dir" "dir_corrupt u dir2 = dir_corrupt u dir + 1"
    using dir_put_log(1)[OF d(1) suf, of u _ "[]"] dir_put_log(2)[OF d(1) suf, of u _ 1] file_append[OF d(2), of u "?torn @ [CHR 0x0A]"]
    unfolding 2(2) by simp_all
  then show ?thesis using 1(1) 2(1) by (simp add: LoadAll_eq mset_all_events)
qed

theorem torn_write_loses_next_event_witness:
  "\<exists>r dir1 r' dir2 new res. Append (append_ok\<lparr>ap_write := (\<lambda>_. Some (errorf ''disk full'', 1))\<rparr>) [''0001-01-01''] [sample_evt] [] = (r, dir1) \<and>
     Append append_ok [''0001-01-01''] [sample_evt] dir1 = (r', dir2) \<and> \<not> isl r' \<and>
     LoadAll (load_ok (decode_as sample_evt)) dir2 = Inr (new, res) \<and> new = [] \<and> lr_CorruptLineCount res = 1"
proof -
  let ?io = "append_ok\<lparr>ap_write := (\<lambda>_. Some (errorf ''disk full'', 1))\<rparr>"
  obtain r dir1 where 1: "Append ?io [''0001-01-01''] [sample_evt] [] = (r, dir1)" by (metis surj_pair)
  obtain r' dir2 where 2: "Append append_ok [''0001-01-01''] [sample_evt] dir1 = (r', dir2)" by (metis surj_pair)
  have date: "event_date sample_evt = ''0001-01-01''" by code_simp
  have ev: "ParseEvent sample_evt = Inr sample_evt" by code_simp
  have io: "ap_marshal ?io sample_evt = Inr ''{}''" "encodes (ap_marshal ?io) (decode_as sample_evt) sample_evt"
    "ap_write ?io (evt_ID sample_evt) = Some (errorf ''disk full'', 1)" "ap_mkdir ?io = None" "ap_open ?io (event_date sample_evt) = None"
    using decode_as_ok(2)[of sample_evt] by (simp_all add: append_ok_def)
  have empty: "dir_ok []" "LoadAll (load_ok u) [] = Inr ([], \<lparr>lr_FileCount = 0, lr_CorruptLineCount = 0\<rparr>)" for u
    by (simp_all add: dir_ok_def LoadAll_eq all_events_def dir_corrupt_def)
  show ?thesis
    using torn_write_loses_next_event[OF empty(1) ev ev refl decode_as_ok(1) io(1,2) decode_as_ok(2) io(3) _ _ io(4,5) decode_as_ok(3), unfolded date, OF _ _ 1 2]
      1 2 empty(2) by auto
qed

end
