(* ===== verification/Emitter.thy ===== *)
theory Emitter
  imports Daemon EventStore
begin

text \<open>
  The path of a daemon event into the event store: the snapshot store and the cutover to global sequence numbers
  (\<open>src/internal/eventsource/store_snapshot.go\<close>, \<open>cutover.go\<close>), the emitter with its causation chain
  (\<open>src/internal/usecase/emitter.go\<close>), and the best-effort recording by the daemon session
  (\<open>src/internal/session/daemon_session.go\<close>).

  One call of the emitter is four pieces: the event gets its cause, then its number, it is stored, and the emitter remembers it and dispatches it.
  The emitter has no lock. \<open>emit\<close> runs the pieces of one call without another call in between, and the theorem on the chain is about such calls, one
  after the other; \<open>overlapping_emits_fork\<close> shows what becomes of the chain when two calls overlap.
\<close>

section \<open>Snapshots\<close>

record snapshot_envelope =
  sn_SeqNr :: u64
  sn_AggregateType :: string
  sn_Timestamp :: time
  sn_State :: bytes

text \<open>A file of the snapshot directory: a whole envelope, or something that does not decode.\<close>

datatype snapshot_file = Envelope snapshot_envelope | PartialFile

type_synonym snapshot_dir = "string \<rightharpoonup> snapshot_file"

record save_io =
  sv_mkdir :: "go_error option"
  sv_now :: time
  sv_marshal :: "go_error option"
  sv_random :: string
  sv_create :: "go_error option"
  sv_write :: "go_error option"
  sv_sync :: "go_error option"
  sv_close :: "go_error option"
  sv_rename :: "go_error option"
  sv_remove :: "go_error option"

definition snapshot_remove :: "save_io \<Rightarrow> string \<Rightarrow> snapshot_dir \<Rightarrow> snapshot_dir" where
  "snapshot_remove io name d = (case sv_remove io of None \<Rightarrow> d(name := None) | Some _ \<Rightarrow> d)"

definition Snapshot_Save :: "save_io \<Rightarrow> string \<Rightarrow> u64 \<Rightarrow> bytes \<Rightarrow> snapshot_dir \<Rightarrow> unit result \<times> snapshot_dir" where
  "Snapshot_Save io aggregateType seqNr state d =
     (let envelope = Envelope \<lparr>sn_SeqNr = seqNr, sn_AggregateType = aggregateType, sn_Timestamp = sv_now io, sn_State = state\<rparr>;
          tmp = ''snapshot-'' @ sv_random io @ ''.tmp''
      in case sv_mkdir io of Some e \<Rightarrow> (Inl (wrapf ''snapshot store: create dir: '' e), d) | None \<Rightarrow>
         case sv_marshal io of Some e \<Rightarrow> (Inl (wrapf ''snapshot store: marshal: '' e), d) | None \<Rightarrow>
         case sv_create io of Some e \<Rightarrow> (Inl (wrapf ''snapshot store: create temp: '' e), d) | None \<Rightarrow>
         case sv_write io of Some e \<Rightarrow> (Inl (wrapf ''snapshot store: write temp: '' e), snapshot_remove io tmp (d(tmp \<mapsto> PartialFile))) | None \<Rightarrow>
         case sv_sync io of Some e \<Rightarrow> (Inl (wrapf ''snapshot store: sync temp: '' e), snapshot_remove io tmp (d(tmp \<mapsto> envelope))) | None \<Rightarrow>
         case sv_close io of Some e \<Rightarrow> (Inl (wrapf ''snapshot store: close temp: '' e), snapshot_remove io tmp (d(tmp \<mapsto> envelope))) | None \<Rightarrow>
         case sv_rename io of Some e \<Rightarrow> (Inl (wrapf ''snapshot store: rename: '' e), snapshot_remove io tmp (d(tmp \<mapsto> envelope))) | None \<Rightarrow>
         (Inr (), d(tmp := None, aggregateType @ ''.json'' \<mapsto> envelope)))"

definition Snapshot_Load :: "go_error option \<Rightarrow> go_error \<Rightarrow> string \<Rightarrow> snapshot_dir \<Rightarrow> (u64 \<times> bytes) result" where
  "Snapshot_Load readErr jsonErr aggregateType d =
     (case d (aggregateType @ ''.json'') of
        None \<Rightarrow> Inr (0, [])
      | Some f \<Rightarrow>
          (case readErr of
             Some e \<Rightarrow> if errors_Is e ErrNotExist then Inr (0, []) else Inl (wrapf ''snapshot store: read: '' e)
           | None \<Rightarrow> (case f of
                       PartialFile \<Rightarrow> Inl (wrapf ''snapshot store: unmarshal: '' jsonErr)
                     | Envelope env \<Rightarrow> Inr (sn_SeqNr env, sn_State env))))"

section \<open>Cutover\<close>

record cutover_result =
  cr_AlreadyDone :: bool
  cr_EventCount :: int
  cr_CutoverSeqNr :: u64

record cutover_io =
  cu_latest :: "go_error option"
  cu_load :: load_io
  cu_save :: save_io
  cu_uuid :: string
  cu_now :: time
  cu_zone :: duration
  cu_alloc :: "go_error option"
  cu_append :: append_io

record event_state =
  st_dir :: event_dir
  st_snapshots :: snapshot_dir
  st_next :: int

definition RunCutover :: "cutover_io \<Rightarrow> string \<Rightarrow> event_state \<Rightarrow> cutover_result result \<times> event_state" where
  "RunCutover io aggregateType s =
     (case Counter_LatestSeqNr (cu_latest io) (st_next s) of
        Inl e \<Rightarrow> (Inl (wrapf ''cutover: check seq counter: '' e), s)
      | Inr latest \<Rightarrow>
          if latest > 0 then (Inr \<lparr>cr_AlreadyDone = True, cr_EventCount = 0, cr_CutoverSeqNr = 0\<rparr>, s)
          else case LoadAll (cu_load io) (st_dir s) of
                 Inl e \<Rightarrow> (Inl (wrapf ''cutover: load all events: '' e), s)
               | Inr (events, _) \<Rightarrow>
                   if events = [] then (Inr \<lparr>cr_AlreadyDone = True, cr_EventCount = 0, cr_CutoverSeqNr = 0\<rparr>, s)
                   else case Snapshot_Save (cu_save io) aggregateType 0 ''null'' (st_snapshots s) of
                          (Inl e, d) \<Rightarrow> (Inl (wrapf ''cutover: save sentinel snapshot: '' e), s\<lparr>st_snapshots := d\<rparr>)
                        | (Inr _, d) \<Rightarrow>
                            let s = s\<lparr>st_snapshots := d\<rparr>;
                                ev = NewEvent (cu_uuid io) EventSystemCutover (CutoverPayload (int (length events)) aggregateType) (cu_now io) (cu_zone io)
                            in case AllocSeqNr (cu_alloc io) (st_next s) of
                                 (Inl e, n) \<Rightarrow> (Inl (wrapf ''cutover: alloc seq nr: '' e), s\<lparr>st_next := n\<rparr>)
                               | (Inr seq, n) \<Rightarrow>
                                   let s = s\<lparr>st_next := n\<rparr>;
                                       ev = ev\<lparr>evt_SeqNr := seq\<rparr>
                                   in case Append (cu_append io) [event_date ev] [ev] (st_dir s) of
                                        (Inl e, dir) \<Rightarrow> (Inl (wrapf ''cutover: append cutover event: '' e), s\<lparr>st_dir := dir\<rparr>)
                                      | (Inr _, dir) \<Rightarrow>
                                          (Inr \<lparr>cr_AlreadyDone = False, cr_EventCount = int (length events), cr_CutoverSeqNr = seq\<rparr>,
                                           s\<lparr>st_dir := dir\<rparr>))"

section \<open>The emitter\<close>

text \<open>\<open>et_next\<close> is the counter behind the allocator, \<open>None\<close> without one; \<open>et_dispatched\<close> collects what is handed to the dispatcher, if there is one.\<close>

record emitter =
  et_agg :: delivery_aggregate
  et_store :: "event_dir option"
  et_next :: "int option"
  et_dispatcher :: bool
  et_deliveryID :: string
  et_prevID :: string
  et_dispatched :: "event list"

record emit_io =
  ei_uuid :: string
  ei_alloc :: "go_error option"
  ei_append :: append_io

definition NewDeliveryEventEmitter :: "delivery_aggregate \<Rightarrow> event_dir option \<Rightarrow> bool \<Rightarrow> emitter" where
  "NewDeliveryEventEmitter agg store dispatcher =
     \<lparr>et_agg = agg, et_store = store, et_next = None, et_dispatcher = dispatcher, et_deliveryID = ag_id agg, et_prevID = [],
      et_dispatched = []\<rparr>"

definition SetSeqAllocator :: "int option \<Rightarrow> emitter \<Rightarrow> emitter" where
  "SetSeqAllocator alloc e = e\<lparr>et_next := alloc\<rparr>"

definition emit_seq :: "emit_io \<Rightarrow> event \<Rightarrow> emitter \<Rightarrow> event result \<times> emitter" where
  "emit_seq io ev e =
     (case et_next e of
        None \<Rightarrow> (Inr ev, e)
      | Some n \<Rightarrow>
          (case AllocSeqNr (ei_alloc io) n of
             (Inl err, n) \<Rightarrow> (Inl err, e\<lparr>et_next := Some n\<rparr>)
           | (Inr seq, n) \<Rightarrow> (Inr (ev\<lparr>evt_SeqNr := seq\<rparr>), e\<lparr>et_next := Some n\<rparr>)))"

definition emit_store :: "emit_io \<Rightarrow> event \<Rightarrow> emitter \<Rightarrow> unit result \<times> emitter" where
  "emit_store io ev e =
     (case et_store e of
        None \<Rightarrow> (Inr (), e)
      | Some dir \<Rightarrow>
          (case Append (ei_append io) [event_date ev] [ev] dir of
             (Inl err, dir) \<Rightarrow> (Inl err, e\<lparr>et_store := Some dir\<rparr>)
           | (Inr _, dir) \<Rightarrow> (Inr (), e\<lparr>et_store := Some dir\<rparr>)))"

definition emit_enrich :: "event \<Rightarrow> emitter \<Rightarrow> event" where
  "emit_enrich ev e =
     (let ev = (if et_deliveryID e \<noteq> [] then ev\<lparr>evt_CorrelationID := et_deliveryID e\<rparr> else ev)
      in if et_prevID e \<noteq> [] then ev\<lparr>evt_CausationID := et_prevID e\<rparr> else ev)"

definition emit_finish :: "event \<Rightarrow> emitter \<Rightarrow> emitter" where
  "emit_finish ev e =
     (let e = e\<lparr>et_prevID := evt_ID ev\<rparr>
      in if et_dispatcher e then e\<lparr>et_dispatched := et_dispatched e @ [ev]\<rparr> else e)"

definition emit :: "emit_io \<Rightarrow> event \<Rightarrow> emitter \<Rightarrow> unit result \<times> emitter" where
  "emit io ev e =
     (case emit_seq io (emit_enrich ev e) e of
        (Inl err, e) \<Rightarrow> (Inl err, e)
      | (Inr ev, e) \<Rightarrow>
          (case emit_store io ev e of
             (Inl err, e) \<Rightarrow> (Inl err, e)
           | (Inr _, e) \<Rightarrow> (Inr (), emit_finish ev e)))"

definition emit_recorded :: "emit_io \<Rightarrow> (delivery_aggregate \<Rightarrow> event \<times> delivery_aggregate) \<Rightarrow> emitter \<Rightarrow> unit result \<times> emitter" where
  "emit_recorded io rec e = (case rec (et_agg e) of (ev, agg) \<Rightarrow> emit io ev (e\<lparr>et_agg := agg\<rparr>))"

definition EmitDelivery :: "emit_io \<Rightarrow> path \<Rightarrow> dmail_kind \<Rightarrow> time \<Rightarrow> emitter \<Rightarrow> unit result \<times> emitter" where
  "EmitDelivery io sourcePath kind now = emit_recorded io (RecordDelivery_event (ei_uuid io) sourcePath kind now)"

definition EmitFailure :: "emit_io \<Rightarrow> path \<Rightarrow> dmail_kind \<Rightarrow> string \<Rightarrow> time \<Rightarrow> emitter \<Rightarrow> unit result \<times> emitter" where
  "EmitFailure io filePath kind errMsg now = emit_recorded io (RecordFailure_event (ei_uuid io) filePath kind errMsg now)"

definition EmitScan :: "emit_io \<Rightarrow> path \<Rightarrow> int \<Rightarrow> int \<Rightarrow> time \<Rightarrow> emitter \<Rightarrow> unit result \<times> emitter" where
  "EmitScan io outboxDir delivered errs now = emit_recorded io (RecordScan_event (ei_uuid io) outboxDir delivered errs now)"

definition EmitRetry :: "emit_io \<Rightarrow> string \<Rightarrow> dmail_kind \<Rightarrow> time \<Rightarrow> emitter \<Rightarrow> unit result \<times> emitter" where
  "EmitRetry io name kind now = emit_recorded io (RecordRetry_event (ei_uuid io) name kind now)"

section \<open>Recording by the session\<close>

text \<open>\<open>RecordDeliveryEvent\<close>, \<open>RecordFailureEvent\<close> and \<open>RecordRetryEvent\<close>: an error of the emitter is only logged.\<close>

definition record_event :: "emit_io \<Rightarrow> time \<Rightarrow> domain_event \<Rightarrow> emitter option \<Rightarrow> emitter option" where
  "record_event io now ev em =
     (case em of
        None \<Rightarrow> None
      | Some e \<Rightarrow>
          Some (snd (case ev of
                       DeliveryCompleted p k \<Rightarrow> EmitDelivery io p k now e
                     | DeliveryFailed p k err \<Rightarrow> EmitFailure io p k err now e
                     | ErrorRetried name k \<Rightarrow> EmitRetry io name k now e)))"

definition RecordScanEvent :: "emit_io \<Rightarrow> time \<Rightarrow> path \<Rightarrow> int \<Rightarrow> int \<Rightarrow> emitter option \<Rightarrow> emitter option" where
  "RecordScanEvent io now outboxDir delivered errs em = map_option (\<lambda>e. snd (EmitScan io outboxDir delivered errs now e)) em"

fun record_all :: "(emit_io \<times> time \<times> domain_event) list \<Rightarrow> emitter \<Rightarrow> emitter" where
  "record_all [] e = e"
| "record_all ((io, now, ev) # evs) e = record_all evs (the (record_event io now ev (Some e)))"

section \<open>The causation chain\<close>

text \<open>Each event names the one before it as its cause.\<close>

fun chained :: "string \<Rightarrow> event list \<Rightarrow> bool" where
  "chained prev [] \<longleftrightarrow> True"
| "chained prev (ev # evs) \<longleftrightarrow> evt_CausationID ev = prev \<and> chained (evt_ID ev) evs"

definition last_id :: "string \<Rightarrow> event list \<Rightarrow> string" where
  "last_id prev evs = (if evs = [] then prev else evt_ID (last evs))"

lemma chained_snoc: "chained prev (evs @ [ev]) \<longleftrightarrow> chained prev evs \<and> evt_CausationID ev = last_id prev evs"
  by (induction evs arbitrary: prev) (auto simp: last_id_def)

text \<open>What one recorded event does to an emitter with a counter, a store and a dispatcher.\<close>

definition wired :: "int \<Rightarrow> emitter \<Rightarrow> bool" where
  "wired n e \<longleftrightarrow> et_next e = Some n \<and> et_store e \<noteq> None \<and> et_dispatcher e"

definition fresh_event :: "event \<Rightarrow> bool" where
  "fresh_event ev \<longleftrightarrow> evt_CausationID ev = [] \<and> evt_CorrelationID ev = []"

lemma emit_step:
  assumes "wired n e" and "0 \<le> n" and "n < 2 ^ 64" and "fresh_event ev" and "emit io ev e = (r, e')"
  shows "et_deliveryID e' = et_deliveryID e \<and>
    ((wired n e' \<or> wired (n + 1) e') \<and> et_prevID e' = et_prevID e \<and> et_dispatched e' = et_dispatched e \<and> isl r \<or>
     wired (n + 1) e' \<and> r = Inr () \<and> et_prevID e' = evt_ID ev \<and>
       (\<exists>ev'. et_dispatched e' = et_dispatched e @ [ev'] \<and> evt_ID ev' = evt_ID ev \<and> uint (evt_SeqNr ev') = n \<and>
          evt_CausationID ev' = et_prevID e \<and> evt_CorrelationID ev' = et_deliveryID e \<and> evt_Data ev' = evt_Data ev \<and>
          (dir_ok (the (et_store e)) \<and> encodes (ap_marshal (ei_append io)) u ev' \<longrightarrow> dir_ok (the (et_store e')) \<and>
             dir_events u (the (et_store e')) = dir_events u (the (et_store e)) + {#ev'#})))"
proof -
  obtain dir where dir: "et_store e = Some dir" using assms(1) by (auto simp: wired_def)
  have nx: "et_next e = Some n" "et_dispatcher e" using assms(1) by (auto simp: wired_def)
  show ?thesis
  proof (cases "ei_alloc io")
    case (Some err)
    then have "emit_seq io (emit_enrich ev e) e = (Inl (wrapf ''seq counter: alloc: '' err), e)" using nx by (simp add: emit_seq_def AllocSeqNr_def)
    then have "r = Inl (wrapf ''seq counter: alloc: '' err)" "e' = e" using assms(5) unfolding emit_def by auto
    then show ?thesis using assms(1) by simp
  next
    case None
    define ev' where "ev' = (emit_enrich ev e)\<lparr>evt_SeqNr := word_of_int n\<rparr>"
    have ev': "evt_ID ev' = evt_ID ev" "evt_CausationID ev' = et_prevID e" "evt_CorrelationID ev' = et_deliveryID e" "evt_Data ev' = evt_Data ev"
      "uint (evt_SeqNr ev') = n"
      using assms(2,3,4) by (auto simp: ev'_def emit_enrich_def Let_def fresh_event_def uint_word_of_int_eq take_bit_int_eq_self)
    have "emit_seq io (emit_enrich ev e) e = (Inr ev', e\<lparr>et_next := Some (n + 1)\<rparr>)" using None nx by (simp add: emit_seq_def AllocSeqNr_def ev'_def)
    then have run: "emit io ev e = (case emit_store io ev' (e\<lparr>et_next := Some (n + 1)\<rparr>) of
         (Inl err, e) \<Rightarrow> (Inl err, e) | (Inr _, e) \<Rightarrow> (Inr (), emit_finish ev' e))" unfolding emit_def by simp
    obtain a dir' where app: "Append (ei_append io) [event_date ev'] [ev'] dir = (a, dir')" by (metis surj_pair)
    show ?thesis
    proof (cases a)
      case (Inl err)
      then have "r = Inl err" "e' = e\<lparr>et_next := Some (n + 1), et_store := Some dir'\<rparr>"
        using assms(5) run dir app by (auto simp: emit_store_def)
      then show ?thesis using nx by (simp add: wired_def)
    next
      case (Inr b)
      then have res: "r = Inr ()" "e' = e\<lparr>et_next := Some (n + 1), et_store := Some dir', et_prevID := evt_ID ev', et_dispatched := et_dispatched e @ [ev']\<rparr>"
        using assms(5) run dir app nx by (auto simp: emit_store_def emit_finish_def Let_def)
      show ?thesis using res ev' nx dir Append_Inr[OF app[unfolded Inr]] by (auto simp: wired_def)
    qed
  qed
qed

lemma recorded_event:
  "\<exists>rec ev. (\<forall>e. record_event io now de (Some e) = Some (snd (emit_recorded io rec e))) \<and>
     (\<forall>a. fst (rec a) = (ev\<lparr>evt_AggregateID := ag_id a, evt_AggregateType := ''delivery'', evt_SeqNr := ag_seqNr a + 1\<rparr>) \<and> ag_id (snd (rec a)) = ag_id a) \<and>
     fresh_event ev \<and> evt_ID ev = ei_uuid io \<and> evt_Timestamp ev = now \<and> evt_Data ev \<noteq> None \<and>
     ValidEventType (evt_Type ev) \<and> evt_Type ev \<noteq> [] \<and> evt_SchemaVersion ev = CurrentEventSchemaVersion"
proof -
  have new: "fst (nextEvent (ei_uuid io) t d now a) =
       (NewEvent (ei_uuid io) t d now 0)\<lparr>evt_AggregateID := ag_id a, evt_AggregateType := ''delivery'', evt_SeqNr := ag_seqNr a + 1\<rparr>"
     "ag_id (snd (nextEvent (ei_uuid io) t d now a)) = ag_id a" for t d a
    by (simp_all add: nextEvent_def Let_def)
  note defs = fresh_event_def NewEvent_def ValidEventType_def event_types
  show ?thesis
  proof (cases de)
    case (DeliveryCompleted p k)
    then show ?thesis
      by (intro exI[of _ "RecordDelivery_event (ei_uuid io) p k now"] exI[of _ "NewEvent (ei_uuid io) EventDeliveryCompleted (DeliveryCompletedPayload p k) now 0"])
         (simp add: record_event_def EmitDelivery_def RecordDelivery_event_def new, simp add: defs)
  next
    case (DeliveryFailed p k x)
    then show ?thesis
      by (intro exI[of _ "RecordFailure_event (ei_uuid io) p k x now"] exI[of _ "NewEvent (ei_uuid io) EventDeliveryFailed (DeliveryFailedPayload p k x) now 0"])
         (simp add: record_event_def EmitFailure_def RecordFailure_event_def new, simp add: defs)
  next
    case (ErrorRetried m k)
    then show ?thesis
      by (intro exI[of _ "RecordRetry_event (ei_uuid io) m k now"] exI[of _ "NewEvent (ei_uuid io) EventErrorRetried (ErrorRetriedPayload m k) now 0"])
         (simp add: record_event_def EmitRetry_def RecordRetry_event_def new, simp add: defs)
  qed
qed

text \<open>One recorded event: refused, or one more event at the end of the chain.\<close>

definition extends :: "emit_io \<Rightarrow> (bytes \<Rightarrow> event option) \<Rightarrow> int \<Rightarrow> emitter \<Rightarrow> emitter \<Rightarrow> bool" where
  "extends io u n e e' \<longleftrightarrow> et_deliveryID e' = et_deliveryID e \<and>
     ((wired n e' \<or> wired (n + 1) e') \<and> et_prevID e' = et_prevID e \<and> et_dispatched e' = et_dispatched e \<or>
      wired (n + 1) e' \<and>
       (\<exists>ev'. et_dispatched e' = et_dispatched e @ [ev'] \<and> et_prevID e' = evt_ID ev' \<and> uint (evt_SeqNr ev') = n \<and>
          evt_CausationID ev' = et_prevID e \<and> evt_CorrelationID ev' = et_deliveryID e \<and>
          (dir_ok (the (et_store e)) \<and> encodes (ap_marshal (ei_append io)) u ev' \<longrightarrow> dir_ok (the (et_store e')) \<and>
             dir_events u (the (et_store e')) = dir_events u (the (et_store e)) + {#ev'#})))"

lemma record_event_extends:
  assumes "wired n e" and "0 \<le> n" and "n < 2 ^ 64"
  shows "\<exists>e'. record_event io now de (Some e) = Some e' \<and> extends io u n e e'"
proof -
  obtain rec ev where rec: "\<And>e. record_event io now de (Some e) = Some (snd (emit_recorded io rec e))"
    "\<And>a. fst (rec a) = ev\<lparr>evt_AggregateID := ag_id a, evt_AggregateType := ''delivery'', evt_SeqNr := ag_seqNr a + 1\<rparr>" "fresh_event ev"
    using recorded_event[of io now de] by blast
  obtain ev1 agg where a: "rec (et_agg e) = (ev1, agg)" by (metis surj_pair)
  have fr: "fresh_event ev1" using rec(2)[of "et_agg e"] rec(3) a by (simp add: fresh_event_def)
  obtain r e' where run: "emit io ev1 (e\<lparr>et_agg := agg\<rparr>) = (r, e')" by (metis surj_pair)
  have w: "wired n (e\<lparr>et_agg := agg\<rparr>)" using assms(1) by (simp add: wired_def)
  have "extends io u n e e'" using emit_step[OF w assms(2,3) fr run, of u] unfolding extends_def by auto
  then show ?thesis using rec(1)[of e] a run by (simp add: emit_recorded_def)
qed

lemma record_all_chain:
  "wired n e \<Longrightarrow> 0 \<le> n \<Longrightarrow> n + int (length evs) < 2 ^ 64 \<Longrightarrow>
   \<exists>m ds. wired m (record_all evs e) \<and> n \<le> m \<and> m \<le> n + int (length evs) \<and> et_dispatched (record_all evs e) = et_dispatched e @ ds \<and>
     et_deliveryID (record_all evs e) = et_deliveryID e \<and>
     chained (et_prevID e) ds \<and> sorted_wrt (<) (map (\<lambda>ev. uint (evt_SeqNr ev)) ds) \<and>
     (\<forall>ev \<in> set ds. n \<le> uint (evt_SeqNr ev) \<and> uint (evt_SeqNr ev) < m \<and> evt_CorrelationID ev = et_deliveryID e)"
proof (induction evs arbitrary: n e)
  case Nil
  then show ?case by (intro exI[of _ n] exI[of _ "[]"]) simp
next
  case (Cons x evs)
  obtain io now de where x: "x = (io, now, de)" by (metis prod_cases3)
  have n: "n < 2 ^ 64" "n + int (length evs) < 2 ^ 64" "n + 1 + int (length evs) < 2 ^ 64" using Cons.prems(2,3) by auto
  obtain e1 where e1: "record_event io now de (Some e) = Some e1" "extends io (\<lambda>_. None) n e e1"
    using record_event_extends[OF Cons.prems(1,2) n(1)] by blast
  have run: "record_all (x # evs) e = record_all evs e1" using e1(1) x by simp
  from e1(2) consider (refused) k where "wired k e1" "k = n \<or> k = n + 1" "et_prevID e1 = et_prevID e" "et_dispatched e1 = et_dispatched e"
      "et_deliveryID e1 = et_deliveryID e"
    | (added) ev' where "wired (n + 1) e1" "et_dispatched e1 = et_dispatched e @ [ev']" "et_prevID e1 = evt_ID ev'" "uint (evt_SeqNr ev') = n"
      "evt_CausationID ev' = et_prevID e" "evt_CorrelationID ev' = et_deliveryID e" "et_deliveryID e1 = et_deliveryID e"
    unfolding extends_def by blast
  then show ?case
  proof cases
    case refused
    then have "0 \<le> k" "k + int (length evs) < 2 ^ 64" using Cons.prems(2) n by auto
    from Cons.IH[OF refused(1) this] obtain m ds where m: "wired m (record_all evs e1)" "k \<le> m" "m \<le> k + int (length evs)"
      "et_dispatched (record_all evs e1) = et_dispatched e1 @ ds" "et_deliveryID (record_all evs e1) = et_deliveryID e1"
      "chained (et_prevID e1) ds" "sorted_wrt (<) (map (\<lambda>ev. uint (evt_SeqNr ev)) ds)"
      "\<forall>ev \<in> set ds. k \<le> uint (evt_SeqNr ev) \<and> uint (evt_SeqNr ev) < m \<and> evt_CorrelationID ev = et_deliveryID e1" by blast
    show ?thesis unfolding run using m refused by (intro exI[of _ m] exI[of _ ds]) auto
  next
    case added
    have "0 \<le> n + 1" using Cons.prems(2) by simp
    from Cons.IH[OF added(1) this n(3)] obtain m ds where m: "wired m (record_all evs e1)" "n + 1 \<le> m" "m \<le> n + 1 + int (length evs)"
      "et_dispatched (record_all evs e1) = et_dispatched e1 @ ds" "et_deliveryID (record_all evs e1) = et_deliveryID e1"
      "chained (et_prevID e1) ds" "sorted_wrt (<) (map (\<lambda>ev. uint (evt_SeqNr ev)) ds)"
      "\<forall>ev \<in> set ds. n + 1 \<le> uint (evt_SeqNr ev) \<and> uint (evt_SeqNr ev) < m \<and> evt_CorrelationID ev = et_deliveryID e1" by blast
    show ?thesis unfolding run using m added by (intro exI[of _ m] exI[of _ "ev' # ds"]) auto
  qed
qed

text \<open>Without errors of the counter and the files every event is stored.\<close>

definition emit_ok :: "emit_io \<times> time \<times> domain_event \<Rightarrow> bool" where
  "emit_ok = (\<lambda>(io, now, _). ei_alloc io = None \<and> no_faults (ei_append io) \<and> ei_uuid io \<noteq> [] \<and> now \<noteq> 0)"

lemma ParseEvent_ok:
  "evt_SchemaVersion ev = CurrentEventSchemaVersion \<Longrightarrow> evt_ID ev \<noteq> [] \<Longrightarrow> evt_Type ev \<noteq> [] \<Longrightarrow> ValidEventType (evt_Type ev) \<Longrightarrow>
   evt_Timestamp ev \<noteq> 0 \<Longrightarrow> evt_Data ev \<noteq> None \<Longrightarrow> ParseEvent ev = Inr ev"
  by (simp add: ParseEvent_def event_errors_def IsZero_def)

lemma emit_succeeds:
  assumes "wired n e" and "ei_alloc io = None" and "no_faults (ei_append io)"
    and "\<And>c d s. ParseEvent (ev\<lparr>evt_CorrelationID := c, evt_CausationID := d, evt_SeqNr := s\<rparr>) =
           Inr (ev\<lparr>evt_CorrelationID := c, evt_CausationID := d, evt_SeqNr := s\<rparr>)"
  shows "fst (emit io ev e) = Inr ()"
proof -
  let ?ev3 = "(emit_enrich ev e)\<lparr>evt_SeqNr := word_of_int n\<rparr>"
  obtain dir where dir: "et_store e = Some dir" using assms(1) by (auto simp: wired_def)
  have "?ev3 = ev\<lparr>evt_CorrelationID := evt_CorrelationID ?ev3, evt_CausationID := evt_CausationID ?ev3, evt_SeqNr := word_of_int n\<rparr>"
    by (simp add: emit_enrich_def Let_def)
  then have "ParseEvent ?ev3 = Inr ?ev3" using assms(4) by metis
  from Append_no_faults[OF assms(3) this] obtain m dir' where app: "Append (ei_append io) [event_date ?ev3] [?ev3] dir = (Inr m, dir')" by blast
  have seq: "emit_seq io (emit_enrich ev e) e = (Inr ?ev3, e\<lparr>et_next := Some (n + 1)\<rparr>)" using assms(1,2) by (simp add: emit_seq_def AllocSeqNr_def wired_def)
  have st: "emit_store io ?ev3 (e\<lparr>et_next := Some (n + 1)\<rparr>) = (Inr (), e\<lparr>et_next := Some (n + 1), et_store := Some dir'\<rparr>)"
    using app dir unfolding emit_store_def by simp
  show ?thesis unfolding emit_def seq prod.case sum.case st by simp
qed

lemma record_event_stored:
  assumes "wired n e" and "0 \<le> n" and "n < 2 ^ 64" and "emit_ok (io, now, de)"
  shows "\<exists>e' ev'. record_event io now de (Some e) = Some e' \<and> wired (n + 1) e' \<and> et_dispatched e' = et_dispatched e @ [ev'] \<and>
     (dir_ok (the (et_store e)) \<and> encodes (ap_marshal (ei_append io)) u ev' \<longrightarrow>
        dir_ok (the (et_store e')) \<and> dir_events u (the (et_store e')) = dir_events u (the (et_store e)) + {#ev'#})"
proof -
  obtain rec ev where rec: "\<And>e. record_event io now de (Some e) = Some (snd (emit_recorded io rec e))"
    "\<And>a. fst (rec a) = ev\<lparr>evt_AggregateID := ag_id a, evt_AggregateType := ''delivery'', evt_SeqNr := ag_seqNr a + 1\<rparr>" "fresh_event ev"
    "evt_ID ev = ei_uuid io" "evt_Timestamp ev = now" "evt_Data ev \<noteq> None" "ValidEventType (evt_Type ev)" "evt_Type ev \<noteq> []"
    "evt_SchemaVersion ev = CurrentEventSchemaVersion"
    using recorded_event[of io now de] by blast
  obtain ev1 agg where a: "rec (et_agg e) = (ev1, agg)" by (metis surj_pair)
  have ev1: "ev1 = ev\<lparr>evt_AggregateID := ag_id (et_agg e), evt_AggregateType := ''delivery'', evt_SeqNr := ag_seqNr (et_agg e) + 1\<rparr>"
    using rec(2)[of "et_agg e"] a by simp
  have fr: "fresh_event ev1" using ev1 rec(3) by (simp add: fresh_event_def)
  have w: "wired n (e\<lparr>et_agg := agg\<rparr>)" using assms(1) by (simp add: wired_def)
  obtain r e' where run: "emit io ev1 (e\<lparr>et_agg := agg\<rparr>) = (r, e')" by (metis surj_pair)
  have io: "ei_alloc io = None" "no_faults (ei_append io)" "ei_uuid io \<noteq> []" "now \<noteq> 0" using assms(4) by (auto simp: emit_ok_def)
  have "fst (emit io ev1 (e\<lparr>et_agg := agg\<rparr>)) = Inr ()"
    by (rule emit_succeeds[OF w io(1,2)], rule ParseEvent_ok) (use ev1 rec io in simp_all)
  then have "\<not> isl r" using run by simp
  with emit_step[OF w assms(2,3) fr run, of u] obtain ev' where "wired (n + 1) e'" "et_dispatched e' = et_dispatched e @ [ev']"
    "dir_ok (the (et_store e)) \<and> encodes (ap_marshal (ei_append io)) u ev' \<longrightarrow>
        dir_ok (the (et_store e')) \<and> dir_events u (the (et_store e')) = dir_events u (the (et_store e)) + {#ev'#}" by auto
  moreover have "record_event io now de (Some e) = Some e'" using rec(1)[of e] a run by (simp add: emit_recorded_def)
  ultimately show ?thesis by blast
qed

lemma record_all_stored:
  "wired n e \<Longrightarrow> 0 \<le> n \<Longrightarrow> n + int (length evs) < 2 ^ 64 \<Longrightarrow> \<forall>x \<in> set evs. emit_ok x \<and> ap_marshal (ei_append (fst x)) = m \<Longrightarrow>
   \<exists>ds. et_dispatched (record_all evs e) = et_dispatched e @ ds \<and> length ds = length evs \<and>
     (dir_ok (the (et_store e)) \<and> (\<forall>ev \<in> set ds. encodes m u ev) \<longrightarrow>
        dir_events u (the (et_store (record_all evs e))) = dir_events u (the (et_store e)) + mset ds)"
proof (induction evs arbitrary: n e)
  case (Cons x evs)
  obtain io now de where x: "x = (io, now, de)" by (metis prod_cases3)
  have n: "n < 2 ^ 64" "0 \<le> n + 1" "n + 1 + int (length evs) < 2 ^ 64" using Cons.prems(2,3) by auto
  have io: "emit_ok (io, now, de)" "ap_marshal (ei_append io) = m" using Cons.prems(4) x by auto
  obtain e1 ev' where e1: "record_event io now de (Some e) = Some e1" "wired (n + 1) e1" "et_dispatched e1 = et_dispatched e @ [ev']"
     "dir_ok (the (et_store e)) \<and> encodes m u ev' \<longrightarrow> dir_ok (the (et_store e1)) \<and> dir_events u (the (et_store e1)) = dir_events u (the (et_store e)) + {#ev'#}"
    using record_event_stored[OF Cons.prems(1,2) n(1) io(1), of u] io(2) by blast
  have "\<forall>x \<in> set evs. emit_ok x \<and> ap_marshal (ei_append (fst x)) = m" using Cons.prems(4) by simp
  from Cons.IH[OF e1(2) n(2,3) this] obtain ds where "et_dispatched (record_all evs e1) = et_dispatched e1 @ ds" "length ds = length evs"
    "dir_ok (the (et_store e1)) \<and> (\<forall>ev \<in> set ds. encodes m u ev) \<longrightarrow>
       dir_events u (the (et_store (record_all evs e1))) = dir_events u (the (et_store e1)) + mset ds" by blast
  then show ?case using e1 x by (intro exI[of _ "ev' # ds"]) auto
qed simp

text \<open>Two overlapping calls: the second one takes its cause before the first one is through, and both name the same event.\<close>

definition emit_overlapping :: "emit_io \<Rightarrow> event \<Rightarrow> emit_io \<Rightarrow> event \<Rightarrow> emitter \<Rightarrow> emitter option" where
  "emit_overlapping io1 ev1 io2 ev2 e =
     (case emit_seq io1 (emit_enrich ev1 e) e of (Inl _, _) \<Rightarrow> None | (Inr a1, e1) \<Rightarrow>
      case emit_seq io2 (emit_enrich ev2 e1) e1 of (Inl _, _) \<Rightarrow> None | (Inr a2, e2) \<Rightarrow>
      case emit_store io1 a1 e2 of (Inl _, _) \<Rightarrow> None | (Inr _, e3) \<Rightarrow>
      case emit_store io2 a2 (emit_finish a1 e3) of (Inl _, _) \<Rightarrow> None | (Inr _, e4) \<Rightarrow> Some (emit_finish a2 e4))"

lemma emit_store_fields:
  "emit_store io ev e = (x, e') \<Longrightarrow> et_dispatched e' = et_dispatched e \<and> et_dispatcher e' = et_dispatcher e \<and> et_prevID e' = et_prevID e"
  by (auto simp: emit_store_def split: option.splits prod.splits sum.splits)

theorem overlapping_emits_fork:
  assumes "wired n e" and "fresh_event ev1" and "fresh_event ev2" and "evt_ID ev1 \<noteq> et_prevID e"
    and "emit_overlapping io1 ev1 io2 ev2 e = Some e'"
  shows "\<exists>a1 a2. et_dispatched e' = et_dispatched e @ [a1, a2] \<and> evt_ID a1 = evt_ID ev1 \<and> evt_ID a2 = evt_ID ev2 \<and>
     evt_CausationID a1 = et_prevID e \<and> evt_CausationID a2 = et_prevID e \<and> \<not> chained (et_prevID e) [a1, a2]"
proof -
  let ?b1 = "emit_enrich ev1 e" and ?b2 = "emit_enrich ev2 e"
  let ?a1 = "?b1\<lparr>evt_SeqNr := word_of_int n\<rparr>" and ?a2 = "?b2\<lparr>evt_SeqNr := word_of_int (n + 1)\<rparr>"
  have w: "et_next e = Some n" "et_dispatcher e" using assms(1) by (auto simp: wired_def)
  have alloc: "ei_alloc io1 = None" "ei_alloc io2 = None"
    using assms(5) w(1) by (auto simp: emit_overlapping_def emit_seq_def AllocSeqNr_def split: option.splits prod.splits sum.splits)
  have enrich: "emit_enrich ev2 (e\<lparr>et_next := x\<rparr>) = ?b2" for x by (simp add: emit_enrich_def)
  have "emit_seq io1 ?b1 e = (Inr ?a1, e\<lparr>et_next := Some (n + 1)\<rparr>)"
    "emit_seq io2 ?b2 (e\<lparr>et_next := Some (n + 1)\<rparr>) = (Inr ?a2, e\<lparr>et_next := Some (n + 1 + 1)\<rparr>)"
    using w(1) alloc by (simp_all add: emit_seq_def AllocSeqNr_def)
  with assms(5) obtain x3 e3 x4 e4 where st: "emit_store io1 ?a1 (e\<lparr>et_next := Some (n + 1 + 1)\<rparr>) = (Inr x3, e3)"
    "emit_store io2 ?a2 (emit_finish ?a1 e3) = (Inr x4, e4)" "e' = emit_finish ?a2 e4"
    unfolding emit_overlapping_def by (auto simp: enrich split: prod.splits sum.splits)
  have "et_dispatched e' = et_dispatched e @ [?a1, ?a2]"
    using emit_store_fields[OF st(1)] emit_store_fields[OF st(2)] st(3) w(2) by (simp add: emit_finish_def)
  moreover have "evt_ID ?a1 = evt_ID ev1" "evt_ID ?a2 = evt_ID ev2" "evt_CausationID ?a1 = et_prevID e" "evt_CausationID ?a2 = et_prevID e"
    using assms(2,3) by (auto simp: emit_enrich_def fresh_event_def)
  ultimately show ?thesis using assms(4) by (intro exI[of _ ?a1] exI[of _ ?a2]) simp
qed

section \<open>Replay after a sequence number\<close>

lemma LoadAfterSeqNr_eq:
  "LoadAfterSeqNr (load_ok u) k dir =
     Inr (sort_key evt_SeqNr (filter (\<lambda>ev. 0 < evt_SeqNr ev \<and> k < evt_SeqNr ev) (all_events u dir)),
          \<lparr>lr_FileCount = int (length (jsonl dir)), lr_CorruptLineCount = int (dir_corrupt u dir)\<rparr>)"
  by (simp add: LoadAfterSeqNr_def loadEvents_eq)

lemma replay_suffix:
  assumes "dir_events u dir = old + mset ds" and "0 < n" and "n < 2 ^ 64" and "\<forall>ev \<in> set ds. n \<le> uint (evt_SeqNr ev)"
    and "LoadAfterSeqNr (load_ok u) (word_of_int (n - 1)) dir = Inr (replay, res)"
  shows "sorted (map evt_SeqNr replay) \<and> mset replay = mset ds + {#ev \<in># old. n \<le> uint (evt_SeqNr ev)#}"
proof -
  have k: "uint (word_of_int (n - 1) :: u64) = n - 1"
    by (subst uint_word_of_int_eq) (use assms(2,3) in \<open>simp add: take_bit_int_eq_self\<close>)
  have P: "0 < evt_SeqNr ev \<and> word_of_int (n - 1) < evt_SeqNr ev \<longleftrightarrow> n \<le> uint (evt_SeqNr ev)" for ev
    unfolding word_less_def k using assms(2) by auto
  have "{#ev \<in># mset ds. n \<le> uint (evt_SeqNr ev)#} = mset ds" using assms(4) by (simp add: filter_mset_eq_conv)
  moreover have "replay = sort_key evt_SeqNr (filter (\<lambda>ev. n \<le> uint (evt_SeqNr ev)) (all_events u dir))"
    using assms(5) unfolding LoadAfterSeqNr_eq P by simp
  ultimately show ?thesis using assms(1) by (simp add: mset_all_events add.commute)
qed

lemma replay_unique:
  assumes "mset replay = mset ds" and "sorted (map evt_SeqNr replay)" and "sorted_wrt (<) (map evt_SeqNr ds)"
  shows "replay = ds"
proof -
  have d: "sorted (map evt_SeqNr ds)" "distinct (map evt_SeqNr ds)" using assms(3) strict_sorted_iff by blast+
  then have "inj_on evt_SeqNr (set ds)" by (simp add: distinct_map)
  moreover have "set replay = set ds" using assms(1) mset_eq_setD by blast
  ultimately have "sort_key evt_SeqNr replay = sort_key evt_SeqNr ds" using sort_key_inj_key_eq[OF assms(1)] assms(2) d(1) by (metis sort_key_id_if_sorted)
  then show ?thesis using assms(2) d(1) by (simp add: sort_key_id_if_sorted)
qed

section \<open>Properties\<close>

text \<open>C13: Events recorded one after the other form one chain with increasing global sequence numbers: however often the counter or the files
  fail, the events that reach the policies carry strictly increasing numbers from the counter, and each names its predecessor as its
  cause (and the emitter's delivery id as its correlation, if it has one; the daemon's emitter has none). When nothing fails and the events
  survive the JSON encoding, each is stored, and \<open>LoadAfterSeqNr\<close> from the number before the run returns
  the recorded events and the events of before whose own numbers are not below the counter, in the order of the numbers; where no
  event of before has such a number, it returns exactly the recorded events in the order they were recorded.\<close>

theorem emitted_events_are_chained:
  assumes "wired n e" and "0 < n" and "n + int (length evs) < 2 ^ 64"
  shows "\<exists>ds. et_dispatched (record_all evs e) = et_dispatched e @ ds \<and> chained (et_prevID e) ds \<and>
     sorted_wrt (<) (map evt_SeqNr ds) \<and>
     (\<forall>ev \<in> set ds. n \<le> uint (evt_SeqNr ev) \<and> evt_CorrelationID ev = et_deliveryID e) \<and>
     ((\<forall>x \<in> set evs. emit_ok x \<and> ap_marshal (ei_append (fst x)) = m) \<and> dir_ok (the (et_store e)) \<and> (\<forall>ev \<in> set ds. encodes m u ev) \<longrightarrow>
        length ds = length evs \<and>
        (\<exists>replay res. LoadAfterSeqNr (load_ok u) (word_of_int (n - 1)) (the (et_store (record_all evs e))) = Inr (replay, res) \<and>
           sorted (map evt_SeqNr replay) \<and> mset replay = mset ds + {#ev \<in># dir_events u (the (et_store e)). n \<le> uint (evt_SeqNr ev)#} \<and>
           ((\<forall>ev \<in># dir_events u (the (et_store e)). uint (evt_SeqNr ev) < n) \<longrightarrow> replay = ds)))"
proof -
  have n0: "0 \<le> n" "n < 2 ^ 64" using assms(2,3) by simp_all
  obtain k ds where ds: "et_dispatched (record_all evs e) = et_dispatched e @ ds" "chained (et_prevID e) ds"
    "sorted_wrt (<) (map (\<lambda>ev. uint (evt_SeqNr ev)) ds)"
    "\<forall>ev \<in> set ds. n \<le> uint (evt_SeqNr ev) \<and> uint (evt_SeqNr ev) < k \<and> evt_CorrelationID ev = et_deliveryID e"
    using record_all_chain[OF assms(1) n0(1) assms(3)] by blast
  have srt: "sorted_wrt (<) (map evt_SeqNr ds)" using ds(3) by (simp add: sorted_wrt_map word_less_def)
  let ?dir = "the (et_store (record_all evs e))" and ?old = "dir_events u (the (et_store e))"
  have "length ds = length evs \<and> (\<exists>replay res. LoadAfterSeqNr (load_ok u) (word_of_int (n - 1)) ?dir = Inr (replay, res) \<and>
      sorted (map evt_SeqNr replay) \<and> mset replay = mset ds + {#ev \<in># ?old. n \<le> uint (evt_SeqNr ev)#} \<and>
      ((\<forall>ev \<in># ?old. uint (evt_SeqNr ev) < n) \<longrightarrow> replay = ds))"
    if io: "\<forall>x \<in> set evs. emit_ok x \<and> ap_marshal (ei_append (fst x)) = m" and d: "dir_ok (the (et_store e))" and enc: "\<forall>ev \<in> set ds. encodes m u ev"
  proof -
    have len: "length ds = length evs" and all: "dir_events u ?dir = ?old + mset ds"
      using record_all_stored[OF assms(1) n0(1) assms(3) io, of u] ds(1) d enc by auto
    obtain replay res where load: "LoadAfterSeqNr (load_ok u) (word_of_int (n - 1)) ?dir = Inr (replay, res)" by (simp add: LoadAfterSeqNr_eq)
    have "\<forall>ev \<in> set ds. n \<le> uint (evt_SeqNr ev)" using ds(4) by blast
    note re = replay_suffix[OF all assms(2) n0(2) this load]
    have "replay = ds" if "\<forall>ev \<in># ?old. uint (evt_SeqNr ev) < n"
    proof -
      have "{#ev \<in># ?old. n \<le> uint (evt_SeqNr ev)#} = {#}" using that by (simp add: not_le)
      then show ?thesis using re replay_unique[OF _ _ srt] by simp
    qed
    then show ?thesis using len load re by blast
  qed
  then show ?thesis using ds srt by blast
qed

definition sample_emitter :: emitter where
  "sample_emitter = SetSeqAllocator (Some 1) (NewDeliveryEventEmitter (NewDeliveryAggregate ''s1'') (Some []) True)"

definition sample_eio :: emit_io where
  "sample_eio = \<lparr>ei_uuid = ''id7'', ei_alloc = None, ei_append = append_ok\<rparr>"

theorem emitted_events_are_chained_witness:
  "\<exists>ev res. LoadAfterSeqNr (load_ok (decode_as ev)) 0 (the (et_store (record_all [(sample_eio, 5, ErrorRetried ''n'' ''report'')] sample_emitter))) = Inr ([ev], res) \<and>
     uint (evt_SeqNr ev) \<ge> 1"
proof -
  have w: "wired 1 sample_emitter" by (simp add: wired_def sample_emitter_def SetSeqAllocator_def NewDeliveryEventEmitter_def)
  have st: "et_store sample_emitter = Some []" by (simp add: sample_emitter_def SetSeqAllocator_def NewDeliveryEventEmitter_def)
  let ?evs = "[(sample_eio, 5, ErrorRetried ''n'' ''report'')]"
  have ok: "\<forall>x \<in> set ?evs. emit_ok x \<and> ap_marshal (ei_append (fst x)) = ap_marshal append_ok"
    using decode_as_ok(3) by (simp add: emit_ok_def sample_eio_def)
  have "et_dispatched sample_emitter = []" "length (et_dispatched (record_all ?evs sample_emitter)) = 1" by code_simp+
  then obtain ev where ev: "et_dispatched (record_all ?evs sample_emitter) = et_dispatched sample_emitter @ [ev]" by (auto simp: length_Suc_conv)
  have "dir_ok []" "dir_events u [] = {#}" for u by (simp_all add: dir_ok_def dir_events_def)
  then show ?thesis
    using emitted_events_are_chained[OF w, of ?evs "ap_marshal append_ok" "decode_as ev"] ok st ev decode_as_ok(2)[of ev] by auto
qed


definition save_ok :: save_io where
  "save_ok = \<lparr>sv_mkdir = None, sv_now = 5, sv_marshal = None, sv_random = ''1'', sv_create = None, sv_write = None, sv_sync = None,
     sv_close = None, sv_rename = None, sv_remove = None\<rparr>"

definition cutover_ok :: cutover_io where
  "cutover_ok = \<lparr>cu_latest = None, cu_load = load_ok (decode_as sample_evt), cu_save = save_ok, cu_uuid = ''id9'', cu_now = 5, cu_zone = 0, cu_alloc = None, cu_append = append_ok\<rparr>"


end
