(* ===== verification/Metrics.thy ===== *)
theory Metrics
  imports Complex_Main Daemon EventStore Routing
begin

text \<open>
  What is reported about deliveries: the time series over the stored events (\<open>src/internal/domain/metrics.go\<close>), the counts from
  the delivery log and the status of the daemon (\<open>src/internal/session/status.go\<close>, \<open>src/internal/domain/status_report.go\<close>).
  Rates are exact fractions, where the code rounds to the nearest \<open>float64\<close>. A Go panic is the value \<open>None\<close>.
\<close>

section \<open>Delivery metrics\<close>

record delivery_metrics =
  dmt_Delivered :: int
  dmt_Failed :: int
  dmt_Retried :: int

definition rate :: "int \<Rightarrow> int \<Rightarrow> rat" where
  "rate delivered tot = (if tot = 0 then 0 else of_int delivered / of_int tot)"

definition SuccessRate :: "delivery_metrics \<Rightarrow> rat" where
  "SuccessRate m = rate (dmt_Delivered m) (dmt_Delivered m + dmt_Failed m)"

text \<open>\<open>pct\<close> is the text of the rate with the verb \<open>%.1f\<close>.\<close>

definition FormatSuccessRate :: "string \<Rightarrow> int \<Rightarrow> int \<Rightarrow> string" where
  "FormatSuccessRate pct success tot =
     (if tot = 0 then ''no deliveries'' else pct @ ''% ('' @ Itoa success @ ''/'' @ Itoa tot @ '')'')"

record accumulator =
  ac_delivered :: int
  ac_failed :: int
  ac_retried :: int
  ac_totalLatency :: int
  ac_latencyCount :: int

definition acc_zero :: accumulator where
  "acc_zero = \<lparr>ac_delivered = 0, ac_failed = 0, ac_retried = 0, ac_totalLatency = 0, ac_latencyCount = 0\<rparr>"

record bucket_metrics =
  bm_Start :: time
  bm_Delivered :: int
  bm_Failed :: int
  bm_Retried :: int
  bm_SuccessRate :: rat
  bm_AvgLatencyMs :: "int option"

record health_time_series =
  hts_GeneratedAt :: time
  hts_Window :: string
  hts_BucketSize :: string
  hts_Buckets :: "bucket_metrics list"
  hts_Totals :: delivery_metrics

definition num_buckets :: "time \<Rightarrow> duration \<Rightarrow> time \<Rightarrow> int" where
  "num_buckets windowStart bucketSize now =
     (let d = time_Sub now windowStart;
          n = d sdiv bucketSize;
          n = (if d smod bucketSize > 0 then n + 1 else n)
      in if n \<le> 0 then 1 else n)"

text \<open>One event; \<open>latency\<close> is what unmarshalling \<open>latency_ms\<close> from the data gives, \<open>None\<close> for an error.\<close>

definition count_event ::
  "(payload \<Rightarrow> int option) \<Rightarrow> time \<Rightarrow> duration \<Rightarrow> time \<Rightarrow> int \<Rightarrow> event \<Rightarrow> accumulator list \<times> delivery_metrics \<Rightarrow>
   (accumulator list \<times> delivery_metrics) option" where
  "count_event latency windowStart bucketSize now numBuckets ev = (\<lambda>(buckets, totals).
     if evt_Timestamp ev < windowStart \<or> now < evt_Timestamp ev then Some (buckets, totals)
     else let idx = time_Sub (evt_Timestamp ev) windowStart sdiv bucketSize;
              idx = (if idx \<ge> numBuckets then numBuckets - 1 else idx);
              upd = (\<lambda>f. if 0 \<le> idx \<and> nat idx < length buckets then Some (buckets[nat idx := f (buckets ! nat idx)]) else None)
          in if evt_Type ev = EventDeliveryCompleted then
               map_option (\<lambda>bs. (bs, totals\<lparr>dmt_Delivered := dmt_Delivered totals + 1\<rparr>))
                 (upd (\<lambda>a. let a = a\<lparr>ac_delivered := ac_delivered a + 1\<rparr>
                          in case Option.bind (evt_Data ev) latency of
                               None \<Rightarrow> a
                             | Some ms \<Rightarrow> if ms > 0 then a\<lparr>ac_totalLatency := wrap64 (ac_totalLatency a + ms),
                                                            ac_latencyCount := ac_latencyCount a + 1\<rparr> else a))
             else if evt_Type ev = EventDeliveryFailed then
               map_option (\<lambda>bs. (bs, totals\<lparr>dmt_Failed := dmt_Failed totals + 1\<rparr>)) (upd (\<lambda>a. a\<lparr>ac_failed := ac_failed a + 1\<rparr>))
             else if evt_Type ev = EventErrorRetried then
               map_option (\<lambda>bs. (bs, totals\<lparr>dmt_Retried := dmt_Retried totals + 1\<rparr>)) (upd (\<lambda>a. a\<lparr>ac_retried := ac_retried a + 1\<rparr>))
             else Some (buckets, totals))"

fun count_events ::
  "(payload \<Rightarrow> int option) \<Rightarrow> time \<Rightarrow> duration \<Rightarrow> time \<Rightarrow> int \<Rightarrow> event list \<Rightarrow> accumulator list \<times> delivery_metrics \<Rightarrow>
   (accumulator list \<times> delivery_metrics) option" where
  "count_events latency windowStart bucketSize now numBuckets [] s = Some s"
| "count_events latency windowStart bucketSize now numBuckets (ev # evs) s =
     Option.bind (count_event latency windowStart bucketSize now numBuckets ev s)
       (count_events latency windowStart bucketSize now numBuckets evs)"

definition bucket_of :: "time \<Rightarrow> duration \<Rightarrow> nat \<Rightarrow> accumulator \<Rightarrow> bucket_metrics" where
  "bucket_of windowStart bucketSize i acc =
     \<lparr>bm_Start = windowStart + wrap64 (int i * bucketSize),
      bm_Delivered = ac_delivered acc, bm_Failed = ac_failed acc, bm_Retried = ac_retried acc,
      bm_SuccessRate = rate (ac_delivered acc) (ac_delivered acc + ac_failed acc),
      bm_AvgLatencyMs = (if ac_latencyCount acc > 0 then Some (ac_totalLatency acc sdiv ac_latencyCount acc) else None)\<rparr>"

definition AggregateHealthTimeSeries ::
  "(payload \<Rightarrow> int option) \<Rightarrow> event list \<Rightarrow> time \<Rightarrow> duration \<Rightarrow> time \<Rightarrow> health_time_series option" where
  "AggregateHealthTimeSeries latency events windowStart bucketSize now =
     (if bucketSize = 0 then None
      else let numBuckets = num_buckets windowStart bucketSize now
           in case count_events latency windowStart bucketSize now numBuckets events
                     (replicate (nat numBuckets) acc_zero, \<lparr>dmt_Delivered = 0, dmt_Failed = 0, dmt_Retried = 0\<rparr>) of
                None \<Rightarrow> None
              | Some (buckets, totals) \<Rightarrow>
                  Some \<lparr>hts_GeneratedAt = now, hts_Window = Duration_String (wrap64 (bucketSize * numBuckets)),
                        hts_BucketSize = Duration_String bucketSize,
                        hts_Buckets = map2 (bucket_of windowStart bucketSize) [0..<length buckets] buckets,
                        hts_Totals = totals\<rparr>)"

section \<open>The delivery log\<close>

record delivery_stats =
  ds_Delivered :: int
  ds_Failed :: int
  ds_Retried :: int

definition no_stats :: delivery_stats where "no_stats = \<lparr>ds_Delivered = 0, ds_Failed = 0, ds_Retried = 0\<rparr>"

text \<open>\<open>bufio.Scanner\<close>: lines without their newline and a final carriage return; a line of 65536 bytes or more ends the scan.\<close>

definition raw_lines :: "string \<Rightarrow> string list" where
  "raw_lines text = (let ls = Split (CHR 0x0A) text in if last ls = [] then butlast ls else ls)"

definition drop_CR :: "string \<Rightarrow> string" where
  "drop_CR l = (if l \<noteq> [] \<and> last l = CHR 0x0D then butlast l else l)"

definition scan_lines :: "string \<Rightarrow> string list" where
  "scan_lines text = map drop_CR (takeWhile (\<lambda>l. length l < 65536) (raw_lines text))"

definition count_line :: "time \<Rightarrow> string \<Rightarrow> delivery_stats \<Rightarrow> delivery_stats" where
  "count_line cutoff line s =
     (if length line < 20 then s
      else if CHR '' '' \<notin> set line then s
      else case parse_RFC3339 (takeWhile (\<lambda>c. c \<noteq> CHR '' '') line) of
             None \<Rightarrow> s
           | Some ts \<Rightarrow>
               if ts < cutoff then s
               else let rest = TrimSpace (tl (dropWhile (\<lambda>c. c \<noteq> CHR '' '') line));
                        action = takeWhile (\<lambda>c. c \<noteq> CHR '' '') rest
                    in if action = ''DELIVERED'' then s\<lparr>ds_Delivered := ds_Delivered s + 1\<rparr>
                       else if action = ''FAILED'' then s\<lparr>ds_Failed := ds_Failed s + 1\<rparr>
                       else if action = ''RETRIED'' then s\<lparr>ds_Retried := ds_Retried s + 1\<rparr>
                       else s)"

definition ParseDeliveryStats :: "go_error option \<Rightarrow> time \<Rightarrow> string option \<Rightarrow> delivery_stats" where
  "ParseDeliveryStats openErr now content =
     (case content of
        None \<Rightarrow> no_stats
      | Some text \<Rightarrow> if openErr \<noteq> None then no_stats
                     else fold (count_line (now - 24 * hour)) (scan_lines text) no_stats)"

section \<open>Every event falls into its bucket\<close>

definition in_window :: "time \<Rightarrow> time \<Rightarrow> event \<Rightarrow> bool" where
  "in_window start now ev \<longleftrightarrow> start \<le> evt_Timestamp ev \<and> evt_Timestamp ev \<le> now"

text \<open>The bucket by plain division, the last one taking what is beyond.\<close>

definition bucket_index :: "time \<Rightarrow> duration \<Rightarrow> int \<Rightarrow> event \<Rightarrow> nat" where
  "bucket_index start bsz n ev = nat (min ((evt_Timestamp ev - start) div bsz) (n - 1))"

definition counted :: "event_type \<Rightarrow> time \<Rightarrow> duration \<Rightarrow> time \<Rightarrow> int \<Rightarrow> nat \<Rightarrow> event \<Rightarrow> bool" where
  "counted t start bsz now n i ev \<longleftrightarrow> evt_Type ev = t \<and> in_window start now ev \<and> bucket_index start bsz n ev = i"

abbreviation count :: "('a \<Rightarrow> bool) \<Rightarrow> 'a list \<Rightarrow> int" where
  "count P xs \<equiv> int (length (filter P xs))"

definition tally :: "accumulator \<Rightarrow> event_type \<Rightarrow> int" where
  "tally a t = (if t = EventDeliveryCompleted then ac_delivered a else if t = EventDeliveryFailed then ac_failed a else ac_retried a)"

definition total_of :: "delivery_metrics \<Rightarrow> event_type \<Rightarrow> int" where
  "total_of m t = (if t = EventDeliveryCompleted then dmt_Delivered m else if t = EventDeliveryFailed then dmt_Failed m else dmt_Retried m)"

abbreviation delivery_types :: "event_type set" where
  "delivery_types \<equiv> {EventDeliveryCompleted, EventDeliveryFailed, EventErrorRetried}"

lemma tally_simps:
  "tally a EventDeliveryCompleted = ac_delivered a" "tally a EventDeliveryFailed = ac_failed a" "tally a EventErrorRetried = ac_retried a"
  "total_of m EventDeliveryCompleted = dmt_Delivered m" "total_of m EventDeliveryFailed = dmt_Failed m"
  "total_of m EventErrorRetried = dmt_Retried m"
  by (simp_all add: tally_def total_of_def event_types)

lemma sdiv_nonneg: "0 \<le> a \<Longrightarrow> 0 < b \<Longrightarrow> a sdiv b = a div (b :: int)"
  by (cases "a = 0") (simp_all add: signed_divide_int_def sgn_if)

lemma count_event_step:
  assumes bsz: "0 < bsz" and n: "0 < n" "length bs = nat n" and win: "now - start < 2 ^ 63"
  shows "\<exists>bs' m'. count_event lat start bsz now n ev (bs, m) = Some (bs', m') \<and> length bs' = nat n \<and>
    (\<forall>t \<in> delivery_types. total_of m' t = total_of m t + (if evt_Type ev = t \<and> in_window start now ev then 1 else 0) \<and>
       (\<forall>i < nat n. tally (bs' ! i) t = tally (bs ! i) t + (if counted t start bsz now n i ev then 1 else 0)))"
proof (cases "in_window start now ev")
  case False
  then have "count_event lat start bsz now n ev (bs, m) = Some (bs, m)" by (auto simp: count_event_def in_window_def)
  then show ?thesis using n False by (auto simp: counted_def)
next
  case True
  let ?ts = "evt_Timestamp ev - start" and ?i = "bucket_index start bsz n ev"
  have ts: "0 \<le> ?ts" "?ts < 2 ^ 63" using True win by (auto simp: in_window_def)
  then have "time_Sub (evt_Timestamp ev) start = ?ts" by (simp add: time_Sub_def)
  then have sd: "time_Sub (evt_Timestamp ev) start sdiv bsz = ?ts div bsz" using ts(1) bsz by (simp add: sdiv_nonneg)
  have nn: "0 \<le> ?ts div bsz" using ts(1) bsz by (simp add: pos_imp_zdiv_nonneg_iff)
  have idx: "(if ?ts div bsz \<ge> n then n - 1 else ?ts div bsz) = int ?i" "?i < nat n"
    using nn n(1) by (auto simp: bucket_index_def)
  have run: "count_event lat start bsz now n ev (bs, m) =
     (let upd = (\<lambda>f. Some (bs[?i := f (bs ! ?i)]))
      in if evt_Type ev = EventDeliveryCompleted then
               map_option (\<lambda>bs. (bs, m\<lparr>dmt_Delivered := dmt_Delivered m + 1\<rparr>))
                 (upd (\<lambda>a. let a = a\<lparr>ac_delivered := ac_delivered a + 1\<rparr>
                          in case Option.bind (evt_Data ev) lat of
                               None \<Rightarrow> a
                             | Some ms \<Rightarrow> if ms > 0 then a\<lparr>ac_totalLatency := wrap64 (ac_totalLatency a + ms),
                                                            ac_latencyCount := ac_latencyCount a + 1\<rparr> else a))
             else if evt_Type ev = EventDeliveryFailed then
               map_option (\<lambda>bs. (bs, m\<lparr>dmt_Failed := dmt_Failed m + 1\<rparr>)) (upd (\<lambda>a. a\<lparr>ac_failed := ac_failed a + 1\<rparr>))
             else if evt_Type ev = EventErrorRetried then
               map_option (\<lambda>bs. (bs, m\<lparr>dmt_Retried := dmt_Retried m + 1\<rparr>)) (upd (\<lambda>a. a\<lparr>ac_retried := ac_retried a + 1\<rparr>))
             else Some (bs, m))"
    using True idx n(2) unfolding count_event_def Let_def sd prod.case idx(1) nat_int by (simp add: in_window_def)
  consider "evt_Type ev = EventDeliveryCompleted" | "evt_Type ev = EventDeliveryFailed" | "evt_Type ev = EventErrorRetried"
    | "evt_Type ev \<notin> delivery_types" by blast
  then show ?thesis
  proof cases
    case 1
    then show ?thesis unfolding run using True idx(2) n(2)
      by (simp add: counted_def tally_def total_of_def nth_list_update event_types Let_def split: option.split)
  next
    case 2
    then show ?thesis unfolding run using True idx(2) n(2)
      by (simp add: counted_def tally_def total_of_def nth_list_update event_types Let_def)
  next
    case 3
    then show ?thesis unfolding run using True idx(2) n(2)
      by (simp add: counted_def tally_def total_of_def nth_list_update event_types Let_def)
  next
    case 4
    then show ?thesis unfolding run using n(2) by (auto simp: counted_def Let_def)
  qed
qed

lemma count_events_eq:
  assumes "0 < bsz" and "0 < n" and "now - start < 2 ^ 63"
  shows "length bs = nat n \<Longrightarrow> \<exists>bs' m'. count_events lat start bsz now n evs (bs, m) = Some (bs', m') \<and> length bs' = nat n \<and>
    (\<forall>t \<in> delivery_types. total_of m' t = total_of m t + count (\<lambda>ev. evt_Type ev = t \<and> in_window start now ev) evs \<and>
       (\<forall>i < nat n. tally (bs' ! i) t = tally (bs ! i) t + count (counted t start bsz now n i) evs))"
proof (induction evs arbitrary: bs m)
  case (Cons ev evs)
  obtain bs1 m1 where one: "count_event lat start bsz now n ev (bs, m) = Some (bs1, m1)" "length bs1 = nat n"
    "\<And>t. t \<in> delivery_types \<Longrightarrow> total_of m1 t = total_of m t + (if evt_Type ev = t \<and> in_window start now ev then 1 else 0)"
    "\<And>t i. t \<in> delivery_types \<Longrightarrow> i < nat n \<Longrightarrow> tally (bs1 ! i) t = tally (bs ! i) t + (if counted t start bsz now n i ev then 1 else 0)"
    using count_event_step[OF assms(1,2) Cons.prems assms(3)] by blast
  obtain bs' m' where rest: "count_events lat start bsz now n evs (bs1, m1) = Some (bs', m')" "length bs' = nat n"
    "\<And>t. t \<in> delivery_types \<Longrightarrow> total_of m' t = total_of m1 t + count (\<lambda>ev. evt_Type ev = t \<and> in_window start now ev) evs"
    "\<And>t i. t \<in> delivery_types \<Longrightarrow> i < nat n \<Longrightarrow> tally (bs' ! i) t = tally (bs1 ! i) t + count (counted t start bsz now n i) evs"
    using Cons.IH[OF one(2), of m1] by blast
  have "total_of m' t = total_of m t + count (\<lambda>ev. evt_Type ev = t \<and> in_window start now ev) (ev # evs)"
    "i < nat n \<Longrightarrow> tally (bs' ! i) t = tally (bs ! i) t + count (counted t start bsz now n i) (ev # evs)" if "t \<in> delivery_types" for t i
    using one(3,4)[OF that] rest(3,4)[OF that] by simp_all
  then show ?case using one(1) rest(1,2) by simp
qed simp

lemma num_buckets_eq:
  assumes "0 < bsz" and "start \<le> now" and "now - start < 2 ^ 63"
  shows "num_buckets start bsz now = max 1 ((now - start + bsz - 1) div bsz)"
proof -
  let ?d = "now - start"
  have d: "time_Sub now start = ?d" using assms(2,3) by (simp add: time_Sub_def)
  have "?d smod bsz = ?d mod bsz" "?d sdiv bsz = ?d div bsz" using assms(1,2) by (simp_all add: smod_int_alt_def sdiv_nonneg sgn_if)
  moreover have "(?d + bsz - 1) div bsz = (if ?d mod bsz > 0 then ?d div bsz + 1 else ?d div bsz)"
  proof -
    have e: "?d + bsz - 1 = (?d mod bsz + bsz - 1) + ?d div bsz * bsz" using div_mult_mod_eq[of ?d bsz] by linarith
    have *: "(?d + bsz - 1) div bsz = ?d div bsz + (?d mod bsz + bsz - 1) div bsz"
      unfolding e using assms(1) by (simp only: div_mult_self1)
    have m: "0 \<le> ?d mod bsz" "?d mod bsz < bsz" using assms(1) by simp_all
    show ?thesis
    proof (cases "?d mod bsz > 0")
      case True
      have "(?d mod bsz + bsz - 1) div bsz = ((?d mod bsz - 1) + bsz) div bsz" by (simp add: algebra_simps)
      also have "\<dots> = (?d mod bsz - 1) div bsz + 1" using assms(1) by simp
      also have "(?d mod bsz - 1) div bsz = 0" using True m(2) by (intro div_pos_pos_trivial) linarith+
      finally show ?thesis using * True by simp
    next
      case False
      then have "(?d mod bsz + bsz - 1) div bsz = 0" using m(1) assms(1) by (intro div_pos_pos_trivial) linarith+
      then show ?thesis using * False by simp
    qed
  qed
  ultimately show ?thesis using assms(2) by (auto simp: num_buckets_def Let_def d max_def)
qed

text \<open>Whole buckets are half-open intervals; the last one ends with the window.\<close>

definition in_bucket :: "time \<Rightarrow> duration \<Rightarrow> time \<Rightarrow> nat \<Rightarrow> nat \<Rightarrow> event \<Rightarrow> bool" where
  "in_bucket start bsz now n i ev \<longleftrightarrow> start + int i * bsz \<le> evt_Timestamp ev \<and> evt_Timestamp ev \<le> now \<and>
     (i < n - 1 \<longrightarrow> evt_Timestamp ev < start + (int i + 1) * bsz)"

lemma le_div_iff_mult_le: "0 < b \<Longrightarrow> (i :: int) \<le> d div b \<longleftrightarrow> i * b \<le> d"
proof
  assume b: "0 < b" and "i \<le> d div b"
  then have "i * b \<le> d div b * b" by simp
  also have "\<dots> \<le> d" using b minus_mod_eq_div_mult[of d b] pos_mod_sign[of b d] by linarith
  finally show "i * b \<le> d" .
next
  assume b: "0 < b" and "i * b \<le> d"
  then show "i \<le> d div b" using zdiv_mono1[of "i * b" d b] by simp
qed

lemma counted_iff:
  assumes "0 < bsz" and "i < n"
  shows "counted t start bsz now (int n) i ev \<longleftrightarrow> evt_Type ev = t \<and> in_bucket start bsz now n i ev"
proof -
  let ?d = "evt_Timestamp ev - start" and ?q = "(evt_Timestamp ev - start) div bsz"
  have le: "int i \<le> ?q \<longleftrightarrow> start + int i * bsz \<le> evt_Timestamp ev" "int i + 1 \<le> ?q \<longleftrightarrow> start + (int i + 1) * bsz \<le> evt_Timestamp ev"
    using le_div_iff_mult_le[OF assms(1)] by (simp_all add: algebra_simps)
  have nn: "0 \<le> ?q" if "start \<le> evt_Timestamp ev" using that assms(1) by (simp add: pos_imp_zdiv_nonneg_iff)
  have win: "start \<le> evt_Timestamp ev" if "start + int i * bsz \<le> evt_Timestamp ev"
  proof -
    have "0 \<le> int i * bsz" using assms(1) by simp
    with that show ?thesis by linarith
  qed
  have "bucket_index start bsz (int n) ev = i \<longleftrightarrow> int i \<le> ?q \<and> (i < n - 1 \<longrightarrow> \<not> int i + 1 \<le> ?q)" if "0 \<le> ?q"
    using assms(2) that by (auto simp: bucket_index_def min_def)
  then show ?thesis using nn win le unfolding counted_def in_window_def in_bucket_def by (metis not_less)
qed

lemma count_Cons: "count P (x # xs) = (if P x then 1 else 0) + count P xs"
  by simp

lemma sum_buckets:
  assumes "0 < bsz" and "0 < n"
  shows "(\<Sum>i = 0..<n. count (counted t start bsz now (int n) i) evs) = count (\<lambda>ev. evt_Type ev = t \<and> in_window start now ev) evs"
proof (induction evs)
  case (Cons ev evs)
  have lt: "bucket_index start bsz (int n) ev < n" using assms(2) by (auto simp: bucket_index_def)
  have "(\<Sum>i = 0..<n. if counted t start bsz now (int n) i ev then 1 else 0) =
      (\<Sum>i = 0..<n. if i = bucket_index start bsz (int n) ev then (if evt_Type ev = t \<and> in_window start now ev then 1 else 0) else 0 :: int)"
    by (rule sum.cong) (auto simp: counted_def)
  also have "\<dots> = (if evt_Type ev = t \<and> in_window start now ev then 1 else 0)" using lt by (simp add: sum.delta)
  finally show ?case using Cons unfolding count_Cons sum.distrib by simp
qed simp

lemma AggregateHealthTimeSeries_tallies:
  assumes bsz: "0 < bsz" and win: "start \<le> now" "now - start < 2 ^ 63"
  shows "\<exists>bs m. AggregateHealthTimeSeries lat evs start bsz now =
      Some \<lparr>hts_GeneratedAt = now, hts_Window = Duration_String (wrap64 (bsz * num_buckets start bsz now)),
            hts_BucketSize = Duration_String bsz, hts_Buckets = map2 (bucket_of start bsz) [0..<length bs] bs, hts_Totals = m\<rparr> \<and>
    length bs = nat (num_buckets start bsz now) \<and>
    (\<forall>t \<in> delivery_types. total_of m t = count (\<lambda>ev. evt_Type ev = t \<and> in_window start now ev) evs \<and>
       (\<forall>i < length bs. tally (bs ! i) t = count (counted t start bsz now (num_buckets start bsz now) i) evs))"
proof -
  let ?n = "num_buckets start bsz now"
  let ?bs = "replicate (nat ?n) acc_zero" and ?m = "\<lparr>dmt_Delivered = 0, dmt_Failed = 0, dmt_Retried = 0\<rparr>"
  have n: "0 < ?n" by (simp add: num_buckets_eq[OF assms])
  have zero: "total_of ?m t = 0" "i < nat ?n \<Longrightarrow> tally (?bs ! i) t = 0" for t i
    by (simp_all add: total_of_def tally_def acc_zero_def)
  obtain bs m where run: "count_events lat start bsz now ?n evs (?bs, ?m) = Some (bs, m)" "length bs = nat ?n"
    "\<And>t. t \<in> delivery_types \<Longrightarrow> total_of m t = total_of ?m t + count (\<lambda>ev. evt_Type ev = t \<and> in_window start now ev) evs"
    "\<And>t i. t \<in> delivery_types \<Longrightarrow> i < nat ?n \<Longrightarrow> tally (bs ! i) t = tally (?bs ! i) t + count (counted t start bsz now ?n i) evs"
    using count_events_eq[OF bsz n win(2), of ?bs lat evs ?m] unfolding length_replicate by blast
  have "AggregateHealthTimeSeries lat evs start bsz now =
      Some \<lparr>hts_GeneratedAt = now, hts_Window = Duration_String (wrap64 (bsz * ?n)),
            hts_BucketSize = Duration_String bsz, hts_Buckets = map2 (bucket_of start bsz) [0..<length bs] bs, hts_Totals = m\<rparr>"
    using bsz by (simp add: AggregateHealthTimeSeries_def Let_def run(1))
  moreover have "\<forall>t \<in> delivery_types. total_of m t = count (\<lambda>ev. evt_Type ev = t \<and> in_window start now ev) evs \<and>
       (\<forall>i < length bs. tally (bs ! i) t = count (counted t start bsz now ?n i) evs)"
  proof (intro ballI conjI allI impI)
    fix t i assume t: "t \<in> delivery_types"
    show "total_of m t = count (\<lambda>ev. evt_Type ev = t \<and> in_window start now ev) evs" using run(3)[OF t] zero(1)[of t] by linarith
    assume "i < length bs"
    then have i: "i < nat ?n" by (simp add: run(2))
    show "tally (bs ! i) t = count (counted t start bsz now ?n i) evs" using run(4)[OF t i] zero(2)[OF i, of t] by linarith
  qed
  ultimately show ?thesis using run(2) by blast
qed

lemma bucket_start_in_range:
  assumes "0 < bsz" and "start \<le> now" and "now - start < 2 ^ 63" and "int i < num_buckets start bsz now"
  shows "wrap64 (int i * bsz) = int i * bsz"
proof -
  have "int i * bsz \<le> now - start" if "0 < i"
  proof -
    have "int i + 1 \<le> (now - start + bsz - 1) div bsz" using assms(4) that unfolding num_buckets_eq[OF assms(1-3)] by auto
    then have "(int i + 1) * bsz \<le> now - start + bsz - 1" by (simp add: le_div_iff_mult_le[OF assms(1)])
    then show ?thesis by (simp add: algebra_simps)
  qed
  then have "int i * bsz < 2 ^ 63" using assms(3) by (cases "i = 0") auto
  moreover have "0 \<le> int i * bsz" using assms(1) by simp
  ultimately show ?thesis by (intro wrap64_id) (simp add: in_int64_def)
qed

definition sample_event :: "event_type \<Rightarrow> time \<Rightarrow> event" where
  "sample_event t at' = NewEvent ''id'' t (DeliveryCompletedPayload [] []) at' 0"

text \<open>C17: For a positive bucket size and a window that starts no later than now, the health time series is produced without a panic, as far as there is memory for the buckets; it has
  one bucket per started interval, at least one, the starts are the bucket size apart, every bucket counts exactly the completed, failed
  and retried deliveries whose time lies in its interval, and the buckets add up to the totals, which count the events of the window.
\<close>

theorem AggregateHealthTimeSeries_partitions:
  assumes "0 < bsz" and "start \<le> now" and "now - start < 2 ^ 63"
  shows "\<exists>ts. AggregateHealthTimeSeries lat evs start bsz now = Some ts \<and>
    (let bs = hts_Buckets ts; n = length bs; inside = (\<lambda>t i ev. evt_Type ev = t \<and> in_bucket start bsz now n i ev) in
     int n = max 1 ((now - start + bsz - 1) div bsz) \<and>
     (\<forall>i < n. bm_Start (bs ! i) = start + int i * bsz \<and>
        bm_Delivered (bs ! i) = count (inside EventDeliveryCompleted i) evs \<and>
        bm_Failed (bs ! i) = count (inside EventDeliveryFailed i) evs \<and>
        bm_Retried (bs ! i) = count (inside EventErrorRetried i) evs) \<and>
     (\<Sum>i = 0..<n. bm_Delivered (bs ! i)) = dmt_Delivered (hts_Totals ts) \<and>
     (\<Sum>i = 0..<n. bm_Failed (bs ! i)) = dmt_Failed (hts_Totals ts) \<and>
     (\<Sum>i = 0..<n. bm_Retried (bs ! i)) = dmt_Retried (hts_Totals ts) \<and>
     dmt_Delivered (hts_Totals ts) = count (\<lambda>ev. evt_Type ev = EventDeliveryCompleted \<and> in_window start now ev) evs)"
proof -
  let ?N = "num_buckets start bsz now"
  obtain bs m where run: "AggregateHealthTimeSeries lat evs start bsz now =
      Some \<lparr>hts_GeneratedAt = now, hts_Window = Duration_String (wrap64 (bsz * ?N)),
            hts_BucketSize = Duration_String bsz, hts_Buckets = map2 (bucket_of start bsz) [0..<length bs] bs, hts_Totals = m\<rparr>"
    and len: "length bs = nat ?N"
    and tot: "\<And>t. t \<in> delivery_types \<Longrightarrow> total_of m t = count (\<lambda>ev. evt_Type ev = t \<and> in_window start now ev) evs"
    and tal: "\<And>t i. t \<in> delivery_types \<Longrightarrow> i < length bs \<Longrightarrow> tally (bs ! i) t = count (counted t start bsz now ?N i) evs"
    using AggregateHealthTimeSeries_tallies[OF assms, of lat evs] by blast
  have N: "int (length bs) = ?N" "0 < length bs" using len by (simp_all add: num_buckets_eq[OF assms])
  have part: "tally (bs ! i) t = count (\<lambda>ev. evt_Type ev = t \<and> in_bucket start bsz now (length bs) i ev) evs"
    if "t \<in> delivery_types" "i < length bs" for t i
  proof -
    have "counted t start bsz now (int (length bs)) i = (\<lambda>ev. evt_Type ev = t \<and> in_bucket start bsz now (length bs) i ev)"
      using counted_iff[OF assms(1) that(2)] by (intro ext) blast
    then show ?thesis using tal[OF that] unfolding N(1)[symmetric] by simp
  qed
  have sums: "(\<Sum>i = 0..<length bs. tally (bs ! i) t) = total_of m t" if "t \<in> delivery_types" for t
    using sum_buckets[OF assms(1) N(2)] tal[OF that] tot[OF that] unfolding N(1)[symmetric] by simp
  have "\<forall>i < length bs. bm_Start (bucket_of start bsz i (bs ! i)) = start + int i * bsz"
    using bucket_start_in_range[OF assms] N(1) by (simp add: bucket_of_def)
  then show ?thesis
    unfolding run using N num_buckets_eq[OF assms] tot[of EventDeliveryCompleted]
      part[of EventDeliveryCompleted] part[of EventDeliveryFailed] part[of EventErrorRetried]
      sums[of EventDeliveryCompleted] sums[of EventDeliveryFailed] sums[of EventErrorRetried]
    by (simp add: bucket_of_def Let_def tally_simps)
qed

theorem AggregateHealthTimeSeries_partitions_witness:
  "\<exists>ts. AggregateHealthTimeSeries (\<lambda>_. None)
       [sample_event EventDeliveryCompleted 5, sample_event EventDeliveryFailed 12, sample_event EventDeliveryCompleted 25] 0 10 25 = Some ts \<and>
     map bm_Delivered (hts_Buckets ts) = [1, 0, 1] \<and> map bm_Start (hts_Buckets ts) = [0, 10, 20] \<and> dmt_Failed (hts_Totals ts) = 1"
proof -
  define evs where "evs = [sample_event EventDeliveryCompleted 5, sample_event EventDeliveryFailed 12, sample_event EventDeliveryCompleted 25]"
  obtain ts where run: "AggregateHealthTimeSeries (\<lambda>_. None) evs 0 10 25 = Some ts"
    and n: "int (length (hts_Buckets ts)) = max 1 ((25 - 0 + 10 - 1) div 10)"
    and each: "\<forall>i < length (hts_Buckets ts). bm_Start (hts_Buckets ts ! i) = 0 + int i * 10 \<and>
       bm_Delivered (hts_Buckets ts ! i) = count (\<lambda>ev. evt_Type ev = EventDeliveryCompleted \<and> in_bucket 0 10 25 (length (hts_Buckets ts)) i ev) evs \<and>
       bm_Failed (hts_Buckets ts ! i) = count (\<lambda>ev. evt_Type ev = EventDeliveryFailed \<and> in_bucket 0 10 25 (length (hts_Buckets ts)) i ev) evs \<and>
       bm_Retried (hts_Buckets ts ! i) = count (\<lambda>ev. evt_Type ev = EventErrorRetried \<and> in_bucket 0 10 25 (length (hts_Buckets ts)) i ev) evs"
    and tot: "(\<Sum>i = 0..<length (hts_Buckets ts). bm_Failed (hts_Buckets ts ! i)) = dmt_Failed (hts_Totals ts)"
    using AggregateHealthTimeSeries_partitions[of 10 0 25 "\<lambda>_. None" evs, unfolded Let_def] by fastforce
  have len: "length (hts_Buckets ts) = 3" using n by simp
  then obtain a b c where abc: "hts_Buckets ts = [a, b, c]" by (auto simp: length_Suc_conv numeral_3_eq_3)
  have "bm_Start a = 0" "bm_Start b = 10" "bm_Start c = 20" "bm_Delivered a = 1" "bm_Delivered b = 0" "bm_Delivered c = 1"
    "bm_Failed a = 0" "bm_Failed b = 1" "bm_Failed c = 0"
    using each[rule_format, of 0] each[rule_format, of 1] each[rule_format, of 2]
    by (simp_all add: abc evs_def in_bucket_def sample_event_def NewEvent_def event_types)
  then show ?thesis using run tot by (simp add: abc evs_def numeral_3_eq_3)
qed

section \<open>The log is read back\<close>

definition log_line :: "time \<times> string \<times> string \<Rightarrow> string" where
  "log_line = (\<lambda>(t, action, details). format_RFC3339 t @ '' '' @ pad_right 9 action @ '' '' @ details)"

abbreviation log_entries :: "(time \<times> string \<times> string) list \<Rightarrow> string \<Rightarrow> string" where
  "log_entries es \<equiv> fold (\<lambda>(t, action, details). dlog_write t action details) es"

abbreviation log_actions :: "string set" where
  "log_actions \<equiv> {''DELIVERED'', ''REMOVED'', ''FAILED'', ''RETRIED''}"

lemma log_entries_eq: "log_entries es l = l @ concat (map (\<lambda>e. log_line e @ [CHR 0x0A]) es)"
  by (induction es arbitrary: l) (auto simp: dlog_write_def log_line_def)

lemma raw_lines_concat: "\<forall>l \<in> set ls. CHR 0x0A \<notin> set l \<Longrightarrow> raw_lines (concat (map (\<lambda>l. l @ [CHR 0x0A]) ls)) = ls"
  by (simp add: raw_lines_def Split_lines)

lemma takeWhile_word: "c \<notin> set w \<Longrightarrow> q = [] \<or> hd q = c \<Longrightarrow> takeWhile (\<lambda>x. x \<noteq> c) (w @ q) = w"
  by (cases q) (auto simp: takeWhile_tail)

lemma log_action_read:
  assumes "a \<in> log_actions"
  shows "takeWhile (\<lambda>c. c \<noteq> CHR '' '') (TrimSpace (pad_right 9 a @ '' '' @ d)) = a"
proof -
  have pad: "pad_right 9 a @ '' '' @ d = a @ CHR '' '' # (replicate (9 - length a) CHR '' '' @ d)"
    by (simp add: pad_right_def replicate_app_Cons_same)
  have "a \<noteq> []" "\<forall>r \<in> set space_runes. hd a \<notin> set r" "\<forall>r \<in> set space_runes. last a \<notin> set r"
    using assms by (auto simp: space_runes_def)
  then obtain q u where q: "TrimSpace (a @ CHR '' '' # (replicate (9 - length a) CHR '' '' @ d)) = a @ q"
    "CHR '' '' # (replicate (9 - length a) CHR '' '' @ d) = q @ u"
    using TrimSpace_word[of a] by metis
  have "q = [] \<or> hd q = CHR '' ''" using q(2) by (cases q) auto
  then show ?thesis unfolding pad q(1) by (rule takeWhile_word[rotated]) (use assms in auto)
qed

text \<open>A line counts for its action when its second is not before the cutoff.\<close>

lemma count_log_line:
  assumes "a \<in> log_actions" and "fst (date_of t) \<in> {0..9999}"
  shows "count_line cutoff (drop_CR (log_line (t, a, d))) s =
    (if t - t mod second < cutoff \<or> a = ''REMOVED'' then s
     else if a = ''DELIVERED'' then s\<lparr>ds_Delivered := ds_Delivered s + 1\<rparr>
     else if a = ''FAILED'' then s\<lparr>ds_Failed := ds_Failed s + 1\<rparr> else s\<lparr>ds_Retried := ds_Retried s + 1\<rparr>)"
proof -
  let ?rest = "pad_right 9 a @ '' '' @ drop_CR d"
  have drop: "drop_CR (log_line (t, a, d)) = format_RFC3339 t @ CHR '' '' # ?rest"
    by (auto simp: drop_CR_def log_line_def butlast_append)
  have tw: "takeWhile (\<lambda>c. c \<noteq> CHR '' '') (format_RFC3339 t @ CHR '' '' # ?rest) = format_RFC3339 t"
    by (rule takeWhile_word) (simp_all add: format_RFC3339_no_space)
  have dw: "dropWhile (\<lambda>c. c \<noteq> CHR '' '') (format_RFC3339 t @ CHR '' '' # ?rest) = CHR '' '' # ?rest"
    using format_RFC3339_no_space[of t] by (subst dropWhile_append2) auto
  have "length (format_RFC3339 t) \<ge> 20" by (rule length_format_RFC3339)
  then have len: "\<not> length (format_RFC3339 t @ CHR '' '' # ?rest) < 20" by simp
  show ?thesis
    unfolding drop count_line_def tw dw list.sel if_not_P[OF len] log_action_read[OF assms(1)] Let_def
      parse_format_RFC3339[OF assms(2)] option.case
    using assms(1) by auto
qed

text \<open>What the daemon writes into the delivery log is what the status counts: reading back any sequence of log records, with actions
  DELIVERED, REMOVED, FAILED and RETRIED and details without a line break, gives the number of records of each kind whose second lies
  within the last 24 hours.
\<close>

theorem ParseDeliveryStats_counts:
  assumes "\<forall>(t, a, d) \<in> set es. a \<in> log_actions \<and> CHR 0x0A \<notin> set d \<and> fst (date_of t) \<in> {0..9999} \<and> length (log_line (t, a, d)) < 65536"
  shows "ParseDeliveryStats None now (Some (log_entries es [])) =
    (let recent = (\<lambda>k. count (\<lambda>(t, a, d). a = k \<and> now - 24 * hour \<le> t - t mod second) es)
     in \<lparr>ds_Delivered = recent ''DELIVERED'', ds_Failed = recent ''FAILED'', ds_Retried = recent ''RETRIED''\<rparr>)"
proof -
  let ?cut = "now - 24 * hour"
  let ?n = "\<lambda>k es. count (\<lambda>(t, a, d). a = k \<and> ?cut \<le> t - t mod second) es"
  have free: "CHR 0x0A \<notin> set (log_line e)" "length (log_line e) < 65536" if "e \<in> set es" for e
    using bspec[OF assms that] format_RFC3339_no_newline by (auto simp: log_line_def pad_right_def split: prod.splits)
  have "log_entries es [] = concat (map (\<lambda>l. l @ [CHR 0x0A]) (map log_line es))"
    by (simp add: log_entries_eq comp_def)
  then have "raw_lines (log_entries es []) = map log_line es" using raw_lines_concat[of "map log_line es"] free(1) by simp
  then have lines: "scan_lines (log_entries es []) = map (drop_CR \<circ> log_line) es"
    unfolding scan_lines_def using free(2) by (simp add: takeWhile_eq_all_conv[THEN iffD2])
  have "fold (count_line ?cut) (map (drop_CR \<circ> log_line) es) s =
      \<lparr>ds_Delivered = ds_Delivered s + ?n ''DELIVERED'' es, ds_Failed = ds_Failed s + ?n ''FAILED'' es,
       ds_Retried = ds_Retried s + ?n ''RETRIED'' es\<rparr>" for s
    using assms
  proof (induction es arbitrary: s)
    case (Cons e es)
    obtain t a d where e: "e = (t, a, d)" by (metis prod.exhaust)
    have a: "a \<in> log_actions" "fst (date_of t) \<in> {0..9999}" using Cons.prems e by auto
    have IH: "fold (count_line ?cut) (map (drop_CR \<circ> log_line) es) s =
      \<lparr>ds_Delivered = ds_Delivered s + ?n ''DELIVERED'' es, ds_Failed = ds_Failed s + ?n ''FAILED'' es,
       ds_Retried = ds_Retried s + ?n ''RETRIED'' es\<rparr>" for s
      by (rule Cons.IH) (use Cons.prems in simp)
    have step: "fold (count_line ?cut) (map (drop_CR \<circ> log_line) (e # es)) s =
        fold (count_line ?cut) (map (drop_CR \<circ> log_line) es) (count_line ?cut (drop_CR (log_line (t, a, d))) s)" by (simp add: e)
    from a(1) consider "a = ''DELIVERED''" | "a = ''REMOVED''" | "a = ''FAILED''" | "a = ''RETRIED''" by blast
    then show ?case unfolding step count_log_line[OF a] IH by cases (simp_all add: e)
  qed simp
  then show ?thesis by (simp add: ParseDeliveryStats_def lines no_stats_def Let_def)
qed

definition sample_log :: "(time \<times> string \<times> string) list" where
  "sample_log = [(699998 * (24 * hour), ''DELIVERED'', ''kind=report''), (700000 * (24 * hour) - 5, ''DELIVERED'', ''kind=report''),
     (700000 * (24 * hour) - 4, ''REMOVED'', ''from=x''), (700000 * (24 * hour) - 3, ''FAILED'', ''kind=report'')]"

theorem ParseDeliveryStats_counts_witness:
  "ParseDeliveryStats None (700000 * (24 * hour)) (Some (log_entries sample_log [])) =
   \<lparr>ds_Delivered = 1, ds_Failed = 1, ds_Retried = 0\<rparr>"
proof -
  have "list_all (\<lambda>(t, a, d). 0 \<le> fst (date_of t) \<and> fst (date_of t) \<le> 9999) sample_log" by code_simp
  then have "\<forall>(t, a, d) \<in> set sample_log. a \<in> log_actions \<and> CHR 0x0A \<notin> set d \<and> fst (date_of t) \<in> {0..9999} \<and> length (log_line (t, a, d)) < 65536"
    by (simp add: sample_log_def log_line_def length_format_RFC3339_eq pad_right_def)
  from ParseDeliveryStats_counts[OF this, of "700000 * (24 * hour)"] show ?thesis
    by (simp add: sample_log_def hour_def minute_def second_def)
qed

end
