(* ===== verification/Insight.thy ===== *)
theory Insight
  imports FileSys GoTime
begin

text \<open>
  The insight ledger: \<open>src/internal/domain/insight.go\<close> (entries, their Markdown form and the parser with its two regular
  expressions) and \<open>src/internal/session/insight_writer.go\<close> (appending an entry under a lock by temporary file and rename).
  The YAML frontmatter is encoded and decoded by parameters. The regular expressions are written out: both match from the start
  of a line, \<open>.\<close> stops at a line break, and the class \<open>[^*]\<close> does not.
\<close>

section \<open>Entries\<close>

definition InsightSchemaVersion :: string where "InsightSchemaVersion = ''1''"

record insight_entry =
  ie_Title :: string
  ie_What :: string
  ie_Why :: string
  ie_How :: string
  ie_When :: string
  ie_Who :: string
  ie_Constraints :: string
  ie_Extra :: meta_map

text \<open>\<open>if_Zone\<close> is the offset of the location of \<open>UpdatedAt\<close>.\<close>

record insight_file =
  if_SchemaVersion :: string
  if_Kind :: string
  if_Tool :: string
  if_UpdatedAt :: time
  if_Zone :: duration
  if_Entries :: "insight_entry list"

definition AddEntry :: "insight_entry \<Rightarrow> insight_file \<Rightarrow> bool \<times> insight_file" where
  "AddEntry entry f =
     (if list_ex (\<lambda>e. ie_Title e = ie_Title entry) (if_Entries f) then (False, f)
      else (True, f\<lparr>if_Entries := if_Entries f @ [entry]\<rparr>))"

record insight_frontmatter =
  ifm_SchemaVersion :: string
  ifm_Kind :: string
  ifm_Tool :: string
  ifm_UpdatedAt :: string
  ifm_EntryCount :: nat

section \<open>Printing\<close>

abbreviation newline :: char where "newline \<equiv> CHR 0x0A"

definition field_line :: "string \<Rightarrow> string \<Rightarrow> string" where
  "field_line k v = ''- **'' @ k @ ''**: '' @ v"

text \<open>The lines of an entry: the heading, an empty line, the six axes and the extra fields by key.\<close>

definition entry_fields :: "insight_entry \<Rightarrow> (string \<times> string) list" where
  "entry_fields e =
     [(''what'', ie_What e), (''why'', ie_Why e), (''how'', ie_How e), (''when'', ie_When e), (''who'', ie_Who e),
      (''constraints'', ie_Constraints e)] @
     map (\<lambda>k. (k, mget (ie_Extra e) k)) (sort (remdups (map fst (ie_Extra e))))"

definition Insight_Format :: "insight_entry \<Rightarrow> string" where
  "Insight_Format e =
     ''## Insight: '' @ ie_Title e @ [newline, newline] @
     concat (map (\<lambda>(k, v). field_line k v @ [newline]) (entry_fields e))"

fun format_entries :: "bool \<Rightarrow> insight_entry list \<Rightarrow> string" where
  "format_entries first [] = []"
| "format_entries first (e # es) = (if first then [] else [newline]) @ [newline] @ Insight_Format e @ format_entries False es"

text \<open>\<open>iy_timeErr\<close> is the error \<open>time.Parse\<close> reports for a text it rejects.\<close>

record insight_yaml =
  iy_timeErr :: "string \<Rightarrow> go_error"
  iy_marshal :: "insight_frontmatter \<Rightarrow> bytes result"
  iy_unmarshal :: "bytes \<Rightarrow> insight_frontmatter result"

definition Insight_Marshal :: "insight_yaml \<Rightarrow> insight_file \<Rightarrow> bytes result" where
  "Insight_Marshal yaml f =
     (case iy_marshal yaml \<lparr>ifm_SchemaVersion = if_SchemaVersion f, ifm_Kind = if_Kind f, ifm_Tool = if_Tool f,
             ifm_UpdatedAt = format_RFC3339_zone (if_Zone f) (if_UpdatedAt f), ifm_EntryCount = length (if_Entries f)\<rparr> of
        Inl e \<Rightarrow> Inl (wrapf ''marshal insight frontmatter: '' e)
      | Inr header \<Rightarrow> Inr (''---'' @ [newline] @ header @ ''---'' @ [newline] @ format_entries True (if_Entries f)))"

section \<open>Parsing\<close>

text \<open>A match of \<open>^- \*\*([^*]+)\*\*: (.+)$\<close> at the start of the text: key, value and what follows.\<close>

definition match_field :: "string \<Rightarrow> (string \<times> string \<times> string) option" where
  "match_field s =
     (if \<not> HasPrefix s ''- **'' then None
      else let k = takeWhile (\<lambda>c. c \<noteq> CHR ''*'') (drop 4 s); r = dropWhile (\<lambda>c. c \<noteq> CHR ''*'') (drop 4 s)
           in if k = [] \<or> \<not> HasPrefix r ''**: '' then None
              else let v = takeWhile (\<lambda>c. c \<noteq> newline) (drop 4 r)
                   in if v = [] then None else Some (k, v, dropWhile (\<lambda>c. c \<noteq> newline) (drop 4 r)))"

text \<open>All matches from left to right; \<open>bol\<close> says whether the text starts a line.\<close>

function find_fields :: "bool \<Rightarrow> string \<Rightarrow> (string \<times> string) list" where
  "find_fields bol [] = []"
| "find_fields bol (c # s) =
     (case (if bol then match_field (c # s) else None) of
        Some (k, v, rest) \<Rightarrow> (k, v) # find_fields False rest
      | None \<Rightarrow> find_fields (c = newline) s)"
  by pat_completeness auto

lemma match_field_shorter: "match_field s = Some (k, v, rest) \<Longrightarrow> length rest < length s"
proof -
  assume m: "match_field s = Some (k, v, rest)"
  have le: "length (dropWhile P xs) \<le> length xs" for P and xs :: string by (rule length_dropWhile_le)
  from m have "HasPrefix s ''- **''" "rest = dropWhile (\<lambda>c. c \<noteq> newline) (drop 4 (dropWhile (\<lambda>c. c \<noteq> CHR ''*'') (drop 4 s)))"
    by (auto simp: match_field_def Let_def split: if_splits)
  moreover have "4 \<le> length s" using \<open>HasPrefix s ''- **''\<close> by (auto simp: HasPrefix_iff)
  moreover have "length (dropWhile (\<lambda>c. c \<noteq> newline) (drop 4 (dropWhile (\<lambda>c. c \<noteq> CHR ''*'') (drop 4 s)))) \<le> length (drop 4 s)"
    by (rule order_trans[OF le order_trans[OF _ le[of "\<lambda>c. c \<noteq> CHR ''*''"]]]) simp
  ultimately show ?thesis by simp
qed

termination find_fields
  by (relation "measure (\<lambda>(bol, s). length s)") (auto dest: match_field_shorter split: if_splits)

declare find_fields.simps [simp del]

definition set_field :: "string \<times> string \<Rightarrow> insight_entry \<Rightarrow> insight_entry" where
  "set_field = (\<lambda>(k, v) e.
     if k = ''what'' then e\<lparr>ie_What := v\<rparr>
     else if k = ''why'' then e\<lparr>ie_Why := v\<rparr>
     else if k = ''how'' then e\<lparr>ie_How := v\<rparr>
     else if k = ''when'' then e\<lparr>ie_When := v\<rparr>
     else if k = ''who'' then e\<lparr>ie_Who := v\<rparr>
     else if k = ''constraints'' then e\<lparr>ie_Constraints := v\<rparr>
     else e\<lparr>ie_Extra := mput k v (ie_Extra e)\<rparr>)"

definition empty_entry :: "string \<Rightarrow> insight_entry" where
  "empty_entry title = \<lparr>ie_Title = title, ie_What = [], ie_Why = [], ie_How = [], ie_When = [], ie_Who = [], ie_Constraints = [], ie_Extra = []\<rparr>"

definition parse_entry :: "string \<Rightarrow> string \<Rightarrow> insight_entry" where
  "parse_entry title entryBody = fold set_field (find_fields True entryBody) (empty_entry title)"

text \<open>A line that \<open>^## Insight: (.+)$\<close> matches, with its title.\<close>

definition heading :: "string \<Rightarrow> string option" where
  "heading line = (if HasPrefix line ''## Insight: '' \<and> drop 12 line \<noteq> [] then Some (drop 12 line) else None)"

text \<open>From the lines of the body: each heading with the text up to the next heading, from the line break that ends the heading
  to the one before the next.\<close>

fun sections :: "string list \<Rightarrow> (string \<times> string) list" where
  "sections [] = []"
| "sections (line # lines) =
     (case heading line of
        None \<Rightarrow> sections lines
      | Some title \<Rightarrow>
          (title, concat (map (\<lambda>l. newline # l) (takeWhile (\<lambda>l. heading l = None) lines)) @
                  (if list_ex (\<lambda>l. heading l \<noteq> None) lines then [newline] else [])) # sections lines)"

definition UnmarshalInsightFile :: "insight_yaml \<Rightarrow> bytes \<Rightarrow> insight_file result" where
  "UnmarshalInsightFile yaml text =
     (let sep = ''---'' @ [newline]; missing = Inl (errorf ''invalid insight file: missing YAML frontmatter delimiters'')
      in case Index text sep of
           None \<Rightarrow> missing
         | Some i \<Rightarrow>
             let rest = drop (i + 4) text
             in case Index rest sep of
                  None \<Rightarrow> missing
                | Some j \<Rightarrow>
                    (case iy_unmarshal yaml (take j rest) of
                       Inl e \<Rightarrow> Inl (wrapf ''unmarshal insight frontmatter: '' e)
                     | Inr fm \<Rightarrow>
                         (case parse_RFC3339 (ifm_UpdatedAt fm) of
                            None \<Rightarrow> Inl (wrapf ''parse updated_at: '' (iy_timeErr yaml (ifm_UpdatedAt fm)))
                          | Some t \<Rightarrow>
                              Inr \<lparr>if_SchemaVersion = ifm_SchemaVersion fm, if_Kind = ifm_Kind fm, if_Tool = ifm_Tool fm,
                                   if_UpdatedAt = t, if_Zone = 0,
                                   if_Entries = map (\<lambda>(title, b). parse_entry title b) (sections (Split newline (drop (j + 4) rest)))\<rparr>)))"

section \<open>The writer\<close>

record insight_io =
  ii_lock :: "go_error option"
  ii_read :: "go_error option"
  ii_now :: time
  ii_zone :: duration
  ii_write :: write_fault
  ii_rename :: "go_error option"
  ii_remove :: "go_error option"

definition Insight_readFile :: "insight_yaml \<Rightarrow> go_error option \<Rightarrow> path \<Rightarrow> disk \<Rightarrow> insight_file result" where
  "Insight_readFile yaml err p d = (case os_ReadFile err p d of Inl e \<Rightarrow> Inl e | Inr data \<Rightarrow> UnmarshalInsightFile yaml data)"

definition Insight_Read :: "insight_yaml \<Rightarrow> go_error option \<Rightarrow> path \<Rightarrow> string \<Rightarrow> disk \<Rightarrow> insight_file result" where
  "Insight_Read yaml err insightsDir filename d = Insight_readFile yaml err (path_Join [insightsDir, filename]) d"

definition insight_rename :: "insight_io \<Rightarrow> path \<Rightarrow> path \<Rightarrow> bytes \<Rightarrow> disk \<Rightarrow> unit result \<times> disk" where
  "insight_rename io tmpPath p data d =
     (case ii_rename io of
        Some e \<Rightarrow> (Inl (wrapf ''rename insight file: '' e), snd (os_Remove (ii_remove io) tmpPath d))
      | None \<Rightarrow> (Inr (), d\<lparr>dk_files := (dk_files d)(tmpPath := None, p \<mapsto> data)\<rparr>))"

definition Insight_Append ::
  "insight_yaml \<Rightarrow> insight_io \<Rightarrow> path \<Rightarrow> string \<Rightarrow> string \<Rightarrow> string \<Rightarrow> insight_entry \<Rightarrow> disk \<Rightarrow> unit result \<times> disk" where
  "Insight_Append yaml io insightsDir filename kind tool entry d =
     (let p = path_Join [insightsDir, filename]
      in case ii_lock io of
           Some e \<Rightarrow> (Inl (wrapf ''acquire insight lock: '' e), d)
         | None \<Rightarrow>
             (let existing = (case Insight_readFile yaml (ii_read io) p d of
                                Inr file \<Rightarrow> Inr file
                              | Inl e \<Rightarrow>
                                  if errors_Is e ErrNotExist
                                  then Inr \<lparr>if_SchemaVersion = InsightSchemaVersion, if_Kind = kind, if_Tool = tool, if_UpdatedAt = 0,
                                            if_Zone = 0, if_Entries = []\<rparr>
                                  else Inl (wrapf (''read existing insight file '' @ p @ '': '') e))
              in case existing of
                   Inl e \<Rightarrow> (Inl e, d)
                 | Inr file \<Rightarrow>
                     (case AddEntry entry file of
                        (False, _) \<Rightarrow> (Inr (), d)
                      | (True, file) \<Rightarrow>
                          (case Insight_Marshal yaml (file\<lparr>if_UpdatedAt := ii_now io, if_Zone := ii_zone io\<rparr>) of
                             Inl e \<Rightarrow> (Inl (wrapf ''marshal insight file: '' e), d)
                           | Inr data \<Rightarrow>
                               let tmpPath = path_Join [insightsDir, ''.'' @ filename @ ''.tmp'']
                               in case os_WriteFile (ii_write io) tmpPath data d of
                                    (Inl e, d) \<Rightarrow> (Inl (wrapf ''write temp insight file: '' e), d)
                                  | (Inr _, d) \<Rightarrow> insight_rename io tmpPath p data d))))"

section \<open>Fields are read back\<close>

lemma takeWhile_stop: "c \<notin> set w \<Longrightarrow> takeWhile (\<lambda>x. x \<noteq> c) (w @ c # q) = w" "c \<notin> set w \<Longrightarrow> dropWhile (\<lambda>x. x \<noteq> c) (w @ c # q) = c # q"
  by (induction w) auto

lemma match_field_line:
  assumes "k \<noteq> []" and "CHR ''*'' \<notin> set k" and "newline \<notin> set v"
  shows "match_field (field_line k v @ newline # s) = (if v = [] then None else Some (k, v, newline # s))"
proof -
  let ?r = "CHR ''*'' # CHR ''*'' # CHR '':'' # CHR '' '' # v @ newline # s"
  have d4: "drop 4 (field_line k v @ newline # s) = k @ ?r" by (simp add: field_line_def)
  have "HasPrefix (field_line k v @ newline # s) ''- **''" "HasPrefix ?r ''**: ''" by (simp_all add: HasPrefix_def field_line_def)
  then show ?thesis
    unfolding match_field_def Let_def d4 takeWhile_stop[OF assms(2)]
    using assms(1) takeWhile_stop[OF assms(3)] by simp
qed

lemma match_field_newline: "match_field (newline # s) = None"
  by (simp add: match_field_def HasPrefix_def)

lemma find_fields_newline [simp]: "find_fields b (newline # s) = find_fields True s"
  by (simp add: find_fields.simps match_field_newline)

lemma find_fields_skip: "newline \<notin> set l \<Longrightarrow> find_fields False (l @ newline # s) = find_fields True s"
  by (induction l) (auto simp: find_fields.simps(2)[of False])

lemma find_fields_line:
  assumes "k \<noteq> []" and "CHR ''*'' \<notin> set k" and "newline \<notin> set k" and "newline \<notin> set v"
  shows "find_fields True (field_line k v @ newline # s) = (if v = [] then [] else [(k, v)]) @ find_fields True s"
proof -
  obtain c l where cl: "field_line k v = c # l" "newline \<notin> set l" "c \<noteq> newline" using assms(3,4) by (auto simp: field_line_def)
  show ?thesis
    using match_field_line[OF assms(1,2,4), of s] cl find_fields_skip[OF cl(2), of s]
    by (simp add: find_fields.simps(2)[of True c])
qed

definition field_ok :: "string \<times> string \<Rightarrow> bool" where
  "field_ok = (\<lambda>(k, v). k \<noteq> [] \<and> CHR ''*'' \<notin> set k \<and> newline \<notin> set k \<and> newline \<notin> set v)"

lemma find_fields_lines:
  "list_all field_ok fs \<Longrightarrow> find_fields True (concat (map (\<lambda>(k, v). newline # field_line k v) fs) @ newline # t) =
     filter (\<lambda>(k, v). v \<noteq> []) fs @ find_fields True t"
proof (induction fs)
  case (Cons f fs)
  obtain k v where f: "f = (k, v)" by fastforce
  let ?rest = "concat (map (\<lambda>(k, v). newline # field_line k v) fs) @ newline # t"
  obtain u where u: "?rest = newline # u" by (cases fs) (auto split: prod.splits)
  have "find_fields True (newline # field_line k v @ ?rest) = (if v = [] then [] else [(k, v)]) @ find_fields True u"
    using Cons.prems f u find_fields_line[of k v u] by (simp add: field_ok_def)
  moreover have "find_fields True u = find_fields True ?rest" unfolding u by simp
  ultimately show ?case using Cons f by (simp add: field_ok_def)
qed simp

text \<open>An entry that can be written and read: one line per value, and extra keys that are no markup and none of the six axes.\<close>

definition axes :: "string list" where
  "axes = [''what'', ''why'', ''how'', ''when'', ''who'', ''constraints'']"

definition entry_ok :: "insight_entry \<Rightarrow> bool" where
  "entry_ok e \<longleftrightarrow> ie_Title e \<noteq> [] \<and> newline \<notin> set (ie_Title e) \<and> list_all field_ok (entry_fields e) \<and>
     distinct (map fst (ie_Extra e)) \<and> (\<forall>(k, v) \<in> set (ie_Extra e). k \<notin> set axes \<and> v \<noteq> [])"

text \<open>The same entry, with the extra fields as a map.\<close>

definition same_entry :: "insight_entry \<Rightarrow> insight_entry \<Rightarrow> bool" where
  "same_entry a b \<longleftrightarrow> a\<lparr>ie_Extra := []\<rparr> = b\<lparr>ie_Extra := []\<rparr> \<and> map_of (ie_Extra a) = map_of (ie_Extra b)"

lemma map_of_mput: "map_of (mput k v m) = (map_of m)(k \<mapsto> v)"
proof -
  have "map_of (filter (\<lambda>(k', _). k' \<noteq> k) m) x = (if x = k then None else map_of m x)" for x
    by (induction m) auto
  then show ?thesis by (auto simp: mput_def fun_eq_iff)
qed

lemma set_extra_fields:
  "\<forall>k \<in> set ks. k \<notin> set axes \<Longrightarrow>
   fold set_field (map (\<lambda>k. (k, f k)) ks) e = e\<lparr>ie_Extra := fold (\<lambda>k. mput k (f k)) ks (ie_Extra e)\<rparr>"
  by (induction ks arbitrary: e) (auto simp: set_field_def axes_def)

lemma map_of_fold_mput: "map_of (fold (\<lambda>k. mput k (f k)) ks m) x = (if x \<in> set ks then Some (f x) else map_of m x)"
  by (induction ks arbitrary: m) (auto simp: map_of_mput)

lemma parse_fields:
  assumes "entry_ok e"
  shows "same_entry (fold set_field (filter (\<lambda>(k, v). v \<noteq> []) (entry_fields e)) (empty_entry (ie_Title e))) e"
proof -
  let ?ks = "sort (remdups (map fst (ie_Extra e)))"
  have val: "k \<notin> set axes \<and> mget (ie_Extra e) k \<noteq> [] \<and> map_of (ie_Extra e) k = Some (mget (ie_Extra e) k)" if k: "k \<in> set ?ks" for k
  proof -
    obtain v where v: "(k, v) \<in> set (ie_Extra e)" using k by auto
    then have "map_of (ie_Extra e) k = Some v" using assms by (simp add: entry_ok_def)
    then show ?thesis using v assms by (auto simp: mget_def entry_ok_def)
  qed
  let ?six = "[(''what'', ie_What e), (''why'', ie_Why e), (''how'', ie_How e), (''when'', ie_When e), (''who'', ie_Who e), (''constraints'', ie_Constraints e)]"
  have six: "fold set_field (filter (\<lambda>(k, v). v \<noteq> []) ?six) (empty_entry (ie_Title e)) = e\<lparr>ie_Extra := []\<rparr>"
    by (simp add: set_field_def empty_entry_def)
  have "filter (\<lambda>(k, v). v \<noteq> []) (entry_fields e) = filter (\<lambda>(k, v). v \<noteq> []) ?six @ map (\<lambda>k. (k, mget (ie_Extra e) k)) ?ks"
    using val by (simp add: entry_fields_def filter_id_conv)
  then have run: "fold set_field (filter (\<lambda>(k, v). v \<noteq> []) (entry_fields e)) (empty_entry (ie_Title e)) =
      e\<lparr>ie_Extra := fold (\<lambda>k. mput k (mget (ie_Extra e) k)) ?ks []\<rparr>"
    using six set_extra_fields[of ?ks "mget (ie_Extra e)" "e\<lparr>ie_Extra := []\<rparr>"] val by simp
  have "map_of (fold (\<lambda>k. mput k (mget (ie_Extra e) k)) ?ks []) = map_of (ie_Extra e)"
  proof
    show "map_of (fold (\<lambda>k. mput k (mget (ie_Extra e) k)) ?ks []) x = map_of (ie_Extra e) x" for x
      using val[of x] map_of_eq_None_iff[of "ie_Extra e" x] by (auto simp: map_of_fold_mput)
  qed
  then show ?thesis by (simp add: same_entry_def run)
qed

section \<open>Entries are read back\<close>

definition head_line :: "string \<Rightarrow> string" where
  "head_line title = ''## Insight: '' @ title"

definition entry_lines :: "insight_entry \<Rightarrow> string list" where
  "entry_lines e = [head_line (ie_Title e), []] @ map (\<lambda>(k, v). field_line k v) (entry_fields e)"

fun insight_lines :: "bool \<Rightarrow> insight_entry list \<Rightarrow> string list" where
  "insight_lines first [] = []"
| "insight_lines first (e # es) = (if first then [[]] else [[], []]) @ entry_lines e @ insight_lines False es"

lemma Insight_Format_lines: "Insight_Format e = concat (map (\<lambda>l. l @ [newline]) (entry_lines e))"
proof -
  have "concat (map (\<lambda>(k, v). field_line k v @ [newline]) fs) = concat (map (\<lambda>l. l @ [newline]) (map (\<lambda>(k, v). field_line k v) fs))" for fs
    by (induction fs) auto
  then show ?thesis by (simp add: Insight_Format_def entry_lines_def head_line_def)
qed

lemma format_entries_eq: "format_entries first es = concat (map (\<lambda>l. l @ [newline]) (insight_lines first es))"
  by (induction first es rule: format_entries.induct) (simp_all add: Insight_Format_lines)

lemma entry_lines_free:
  assumes "entry_ok e" shows "\<forall>l \<in> set (entry_lines e). newline \<notin> set l"
proof -
  have "newline \<notin> set (field_line k v)" if "(k, v) \<in> set (entry_fields e)" for k v
    using assms that by (auto simp: entry_ok_def list_all_iff field_ok_def field_line_def)
  then show ?thesis using assms by (auto simp: entry_lines_def entry_ok_def head_line_def)
qed

lemma insight_lines_free: "list_all entry_ok es \<Longrightarrow> \<forall>l \<in> set (insight_lines first es). newline \<notin> set l"
  by (induction first es rule: insight_lines.induct) (use entry_lines_free in auto)

lemma heading_simps: "heading [] = None" "heading (field_line k v) = None" "t \<noteq> [] \<Longrightarrow> heading (head_line t) = Some t"
  by (simp_all add: heading_def HasPrefix_def field_line_def head_line_def)

lemma sections_skip: "\<forall>l \<in> set ls. heading l = None \<Longrightarrow> sections (ls @ ms) = sections ms"
  by (induction ls) auto

lemma insight_lines_Cons_heading:
  assumes "list_all entry_ok es"
  shows "es = [] \<and> insight_lines False es = [] \<or> (\<exists>l ls. insight_lines False es = [[], [], l] @ ls \<and> heading l \<noteq> None)"
  using assms heading_simps(3) by (cases es) (auto simp: entry_lines_def entry_ok_def)

lemma sections_entry:
  assumes "entry_ok e" and "list_all entry_ok es"
  shows "\<exists>n. sections (entry_lines e @ insight_lines False es @ [[]]) =
    (ie_Title e, newline # concat (map (\<lambda>(k, v). newline # field_line k v) (entry_fields e)) @ newline # replicate n newline) #
    sections (insight_lines False es @ [[]])"
proof -
  let ?fs = "map (\<lambda>(k, v). field_line k v) (entry_fields e)"
  have none: "\<forall>l \<in> set ([] # ?fs). heading l = None" by (auto simp: heading_simps)
  have t: "heading (head_line (ie_Title e)) = Some (ie_Title e)" using assms(1) by (simp add: entry_ok_def heading_simps)
  have cc: "concat (map (\<lambda>l. newline # l) ?fs) = concat (map (\<lambda>(k, v). newline # field_line k v) (entry_fields e))"
    by (simp add: comp_def case_prod_unfold)
  have step: "sections (entry_lines e @ ms) = (ie_Title e, newline # concat (map (\<lambda>(k, v). newline # field_line k v) (entry_fields e)) @
      concat (map (\<lambda>l. newline # l) (takeWhile (\<lambda>l. heading l = None) ms)) @ (if list_ex (\<lambda>l. heading l \<noteq> None) ms then [newline] else [])) # sections ms" for ms
  proof -
    have tw: "takeWhile (\<lambda>l. heading l = None) (([] # ?fs) @ ms) = ([] # ?fs) @ takeWhile (\<lambda>l. heading l = None) ms"
      using none by (intro takeWhile_append2) auto
    have le: "list_ex (\<lambda>l. heading l \<noteq> None) (([] # ?fs) @ ms) = list_ex (\<lambda>l. heading l \<noteq> None) ms"
      using none by (auto simp: list_ex_iff)
    have el: "entry_lines e @ ms = head_line (ie_Title e) # (([] # ?fs) @ ms)" by (simp add: entry_lines_def)
    show ?thesis
      unfolding el sections.simps t option.case tw le sections_skip[OF none] by (simp add: cc[symmetric])
  qed
  consider "es = []" "insight_lines False es = []" | l ls where "insight_lines False es = [[], [], l] @ ls" "heading l \<noteq> None"
    using insight_lines_Cons_heading[OF assms(2)] by blast
  then show ?thesis
  proof cases
    case 1
    then show ?thesis using step[of "[[]]"] by (intro exI[of _ 0]) (simp add: heading_simps)
  next
    case 2
    then show ?thesis using step[of "insight_lines False es @ [[]]"] by (intro exI[of _ 2]) (simp add: heading_simps numeral_2_eq_2)
  qed
qed

lemma find_fields_newlines [simp]: "find_fields True (replicate n newline) = []"
  by (induction n) (simp_all add: find_fields.simps(1))

lemma parse_insight_lines:
  "list_all entry_ok es \<Longrightarrow>
   list_all2 same_entry (map (\<lambda>(title, b). parse_entry title b) (sections (insight_lines first es @ [[]]))) es"
proof (induction es arbitrary: first)
  case Nil
  show ?case by (simp add: heading_simps)
next
  case (Cons e es)
  then have ok: "entry_ok e" "list_all entry_ok es" by simp_all
  obtain n where n: "sections (entry_lines e @ insight_lines False es @ [[]]) =
    (ie_Title e, newline # concat (map (\<lambda>(k, v). newline # field_line k v) (entry_fields e)) @ newline # replicate n newline) #
    sections (insight_lines False es @ [[]])" using sections_entry[OF ok] by blast
  have "list_all field_ok (entry_fields e)" using ok(1) by (simp add: entry_ok_def)
  then have "same_entry (parse_entry (ie_Title e) (newline # concat (map (\<lambda>(k, v). newline # field_line k v) (entry_fields e)) @ newline # replicate n newline)) e"
    using parse_fields[OF ok(1)] by (simp add: parse_entry_def find_fields_lines)
  moreover have "sections (insight_lines first (e # es) @ [[]]) = sections (entry_lines e @ insight_lines False es @ [[]])"
    by (simp add: heading_simps)
  ultimately show ?case using n Cons.IH[OF ok(2), of False] by simp
qed

section \<open>Files are read back\<close>

text \<open>What the code relies on of YAML for a frontmatter: it can be encoded, ends with a line break, contains no delimiter and decodes to itself.\<close>

definition header_ok :: "insight_yaml \<Rightarrow> insight_frontmatter \<Rightarrow> bool" where
  "header_ok yaml fm \<longleftrightarrow> (\<exists>h. iy_marshal yaml fm = Inr (h @ [newline]) \<and> \<not> Contains (h @ [newline]) (''---'' @ [newline]) \<and>
     iy_unmarshal yaml (h @ [newline]) = Inr fm)"

definition frontmatter_of :: "insight_file \<Rightarrow> insight_frontmatter" where
  "frontmatter_of f = \<lparr>ifm_SchemaVersion = if_SchemaVersion f, ifm_Kind = if_Kind f, ifm_Tool = if_Tool f,
     ifm_UpdatedAt = format_RFC3339_zone (if_Zone f) (if_UpdatedAt f), ifm_EntryCount = length (if_Entries f)\<rparr>"

lemma Index_delimiter:
  assumes "\<not> Contains (h @ [newline]) (''---'' @ [newline])"
  shows "Index ((h @ [newline]) @ (''---'' @ [newline]) @ t) (''---'' @ [newline]) = Some (length (h @ [newline]))"
proof (rule Index_append)
  fix i assume i: "i < length (h @ [newline])"
  let ?s = "h @ [newline]" and ?p = "''---'' @ [newline]"
  show "\<not> HasPrefix (drop i (?s @ ?p @ t)) ?p"
  proof
    assume "HasPrefix (drop i (?s @ ?p @ t)) ?p"
    then obtain u where u: "drop i ?s @ ?p @ t = ?p @ u" using i by (auto simp: HasPrefix_iff)
    obtain w where w: "drop i ?s = w @ [newline]" using i by (cases "i \<le> length h") auto
    have eq: "w @ newline # ?p @ t = CHR ''-'' # CHR ''-'' # CHR ''-'' # newline # u" using u unfolding w by simp
    have "\<exists>x. w @ [newline] = ?p @ x"
      using eq by (cases w; cases "tl w"; cases "tl (tl w)"; cases "tl (tl (tl w))") auto
    then have "Contains (drop i ?s) ?p" unfolding w by (auto simp: Contains_iff) (metis append_Cons append_Nil)
    then have "Contains (take i ?s @ drop i ?s) ?p" by (rule Contains_appendI2)
    then show False using assms by (simp only: append_take_drop_id)
  qed
qed

lemma insight_file_roundtrip:
  assumes "header_ok yaml (frontmatter_of f)" and "list_all entry_ok (if_Entries f)"
    and "fst (date_of (if_UpdatedAt f + if_Zone f)) \<in> {0..9999}" and "minute dvd if_Zone f" and "\<bar>if_Zone f\<bar> < 24 * hour"
  shows "\<exists>b f'. Insight_Marshal yaml f = Inr b \<and> UnmarshalInsightFile yaml b = Inr f' \<and> if_SchemaVersion f' = if_SchemaVersion f \<and>
    if_Kind f' = if_Kind f \<and> if_Tool f' = if_Tool f \<and> if_UpdatedAt f' = if_UpdatedAt f - if_UpdatedAt f mod second \<and>
    list_all2 same_entry (if_Entries f') (if_Entries f)"
proof -
  obtain h where h: "iy_marshal yaml (frontmatter_of f) = Inr (h @ [newline])" "\<not> Contains (h @ [newline]) (''---'' @ [newline])"
    "iy_unmarshal yaml (h @ [newline]) = Inr (frontmatter_of f)" using assms(1) unfolding header_ok_def by blast
  define body where "body = format_entries True (if_Entries f)"
  define sep where "sep = ''---'' @ [newline]"
  let ?b = "sep @ ((h @ [newline]) @ sep @ body)"
  have m: "Insight_Marshal yaml f = Inr ?b"
    using h(1) by (simp add: Insight_Marshal_def frontmatter_of_def body_def sep_def)
  have i0: "Index ?b sep = Some 0" using Index_append[of "[]" sep] by simp
  have i1: "Index ((h @ [newline]) @ sep @ body) sep = Some (length (h @ [newline]))"
    unfolding sep_def by (rule Index_delimiter) (use h(2) in simp)
  have len: "length sep = 4" by (simp add: sep_def)
  have d0: "drop (0 + 4) ?b = (h @ [newline]) @ sep @ body" using len by simp
  have d1: "take (length (h @ [newline])) ((h @ [newline]) @ sep @ body) = h @ [newline]" by simp
  have d2: "drop (length (h @ [newline]) + 4) ((h @ [newline]) @ sep @ body) = body" using len by simp
  have ts: "parse_RFC3339 (ifm_UpdatedAt (frontmatter_of f)) = Some (if_UpdatedAt f - if_UpdatedAt f mod second)"
    using parse_format_zone[OF assms(3-5)] by (simp add: frontmatter_of_def)
  have lines: "Split newline body = insight_lines True (if_Entries f) @ [[]]"
    unfolding body_def format_entries_eq by (rule Split_lines) (rule insight_lines_free[OF assms(2)])
  have "UnmarshalInsightFile yaml ?b = Inr \<lparr>if_SchemaVersion = if_SchemaVersion f, if_Kind = if_Kind f, if_Tool = if_Tool f,
      if_UpdatedAt = if_UpdatedAt f - if_UpdatedAt f mod second, if_Zone = 0,
      if_Entries = map (\<lambda>(title, b). parse_entry title b) (sections (insight_lines True (if_Entries f) @ [[]]))\<rparr>"
    unfolding UnmarshalInsightFile_def Let_def sep_def[symmetric] i0 option.case d0 i1 d1 d2 h(3) sum.case ts lines
    by (simp add: frontmatter_of_def)
  with m show ?thesis using parse_insight_lines[OF assms(2), of True] by auto
qed

text \<open>The ledger a reader sees: the parsed file, or an empty one when there is none.\<close>

definition ledger :: "insight_yaml \<Rightarrow> path \<Rightarrow> string \<Rightarrow> string \<Rightarrow> string \<Rightarrow> disk \<Rightarrow> insight_file option" where
  "ledger yaml dir filename kind tool d =
     (if dk_files d (path_Join [dir, filename]) = None
      then Some \<lparr>if_SchemaVersion = InsightSchemaVersion, if_Kind = kind, if_Tool = tool, if_UpdatedAt = 0, if_Zone = 0, if_Entries = []\<rparr>
      else case Insight_Read yaml None dir filename d of Inl _ \<Rightarrow> None | Inr f \<Rightarrow> Some f)"

definition insight_io_ok :: "insight_io \<Rightarrow> bool" where
  "insight_io_ok io \<longleftrightarrow> ii_lock io = None \<and> ii_read io = None \<and> ii_write io = None \<and> ii_rename io = None \<and>
     fst (date_of (ii_now io + ii_zone io)) \<in> {0..9999} \<and> minute dvd ii_zone io \<and> \<bar>ii_zone io\<bar> < 24 * hour"

definition with_entry :: "insight_io \<Rightarrow> insight_entry \<Rightarrow> insight_file \<Rightarrow> insight_file" where
  "with_entry io entry f = f\<lparr>if_Entries := if_Entries f @ [entry], if_UpdatedAt := ii_now io, if_Zone := ii_zone io\<rparr>"

lemma Insight_Append_run:
  assumes "insight_io_ok io" and "ledger yaml dir filename kind tool d = Some f"
  shows "Insight_Append yaml io dir filename kind tool entry d =
    (if list_ex (\<lambda>e. ie_Title e = ie_Title entry) (if_Entries f) then (Inr (), d)
     else case Insight_Marshal yaml (with_entry io entry f) of
            Inl e \<Rightarrow> (Inl (wrapf ''marshal insight file: '' e), d)
          | Inr b \<Rightarrow> (Inr (), d\<lparr>dk_files := (dk_files d)(path_Join [dir, ''.'' @ filename @ ''.tmp''] := None, path_Join [dir, filename] \<mapsto> b)\<rparr>))"
proof -
  let ?p = "path_Join [dir, filename]"
  have read: "(case Insight_readFile yaml (ii_read io) ?p d of
       Inr file \<Rightarrow> Inr file
     | Inl e \<Rightarrow> if errors_Is e ErrNotExist
               then Inr \<lparr>if_SchemaVersion = InsightSchemaVersion, if_Kind = kind, if_Tool = tool, if_UpdatedAt = 0, if_Zone = 0, if_Entries = []\<rparr>
               else Inl (wrapf (''read existing insight file '' @ ?p @ '': '') e)) = Inr f"
  proof (cases "dk_files d ?p")
    case None
    then show ?thesis using assms by (simp add: Insight_readFile_def os_ReadFile_def not_exist_def errors_Is_def ledger_def)
  next
    case (Some b)
    then show ?thesis using assms by (auto simp: ledger_def Insight_Read_def insight_io_ok_def split: sum.splits)
  qed
  have io: "ii_lock io = None" "ii_write io = None" "ii_rename io = None" using assms(1) by (simp_all add: insight_io_ok_def)
  show ?thesis
    unfolding Insight_Append_def Let_def io(1) option.case read sum.case AddEntry_def
    by (simp add: io os_WriteFile_def insight_rename_def with_entry_def fun_upd_twist split: sum.split)
qed

lemma same_entry_refl: "list_all2 same_entry es es"
  by (simp add: list.rel_refl same_entry_def)

lemma same_entry_What: "same_entry a b \<Longrightarrow> ie_What a = ie_What b"
  unfolding same_entry_def by (drule conjunct1) (drule arg_cong[of _ _ ie_What], simp)

lemma Insight_Append_ledger:
  assumes "insight_io_ok io" and "ledger yaml dir filename kind tool d = Some f"
    and "list_all entry_ok (if_Entries f)" and "entry_ok entry" and "header_ok yaml (frontmatter_of (with_entry io entry f))"
  shows "\<exists>d' f'. Insight_Append yaml io dir filename kind tool entry d = (Inr (), d') \<and> ledger yaml dir filename kind tool d' = Some f' \<and>
    list_all2 same_entry (if_Entries f')
      (if ie_Title entry \<in> ie_Title ` set (if_Entries f) then if_Entries f else if_Entries f @ [entry])"
proof (cases "list_ex (\<lambda>e. ie_Title e = ie_Title entry) (if_Entries f)")
  case True
  moreover from True have "ie_Title entry \<in> ie_Title ` set (if_Entries f)" unfolding list_ex_iff by (elim bexE) (rule image_eqI, rule sym)
  ultimately show ?thesis using Insight_Append_run[OF assms(1,2), of entry] assms(2) same_entry_refl by auto
next
  case False
  then have nt: "ie_Title entry \<notin> ie_Title ` set (if_Entries f)" by (auto simp: list_ex_iff)
  let ?f = "with_entry io entry f"
  have ok: "list_all entry_ok (if_Entries ?f)" using assms(3,4) by (simp add: with_entry_def)
  have tm: "fst (date_of (if_UpdatedAt ?f + if_Zone ?f)) \<in> {0..9999}" "minute dvd if_Zone ?f" "\<bar>if_Zone ?f\<bar> < 24 * hour"
    using assms(1) by (simp_all add: with_entry_def insight_io_ok_def)
  obtain b f' where b: "Insight_Marshal yaml ?f = Inr b" "UnmarshalInsightFile yaml b = Inr f'" "list_all2 same_entry (if_Entries f') (if_Entries ?f)"
    using insight_file_roundtrip[OF assms(5) ok tm] by blast
  let ?d = "d\<lparr>dk_files := (dk_files d)(path_Join [dir, ''.'' @ filename @ ''.tmp''] := None, path_Join [dir, filename] \<mapsto> b)\<rparr>"
  have "Insight_Append yaml io dir filename kind tool entry d = (Inr (), ?d)" using Insight_Append_run[OF assms(1,2), of entry] False b(1) by simp
  moreover have "ledger yaml dir filename kind tool ?d = Some f'"
    using b(2) by (simp add: ledger_def Insight_Read_def Insight_readFile_def os_ReadFile_def)
  moreover have "if_Entries ?f = if_Entries f @ [entry]" by (simp add: with_entry_def)
  ultimately show ?thesis using b(3) nt by auto
qed

section \<open>The interface to the ledger\<close>

text \<open>
  What a client of the ledger may rely on: in a usable state, appending a well-formed entry succeeds, keeps the entries and adds the new
  one unless its title is taken.
\<close>

locale insight_store =
  fixes append :: "insight_entry \<Rightarrow> 's \<Rightarrow> unit result \<times> 's"
    and entries :: "'s \<Rightarrow> insight_entry list option"
    and usable :: "'s \<Rightarrow> bool"
  assumes usable_entries: "usable s \<Longrightarrow> \<exists>es. entries s = Some es"
    and append_law: "usable s \<Longrightarrow> entry_ok e \<Longrightarrow> entries s = Some es \<Longrightarrow>
      \<exists>s' es'. append e s = (Inr (), s') \<and> entries s' = Some es' \<and>
        list_all2 same_entry es' (if ie_Title e \<in> ie_Title ` set es then es else es @ [e])"
begin

text \<open>A count over the entries that depends on what they say grows by one with a new entry it holds for.\<close>

lemma append_counts:
  assumes "usable s" and "entry_ok e" and "entries s = Some es" and "ie_Title e \<notin> ie_Title ` set es" and "P e"
    and "\<And>a b. same_entry a b \<Longrightarrow> P a = P b"
  shows "\<exists>s' es'. append e s = (Inr (), s') \<and> entries s' = Some es' \<and> list_all2 same_entry es' (es @ [e]) \<and>
    length (filter P es') = length (filter P es) + 1"
proof -
  obtain s' es' where run: "append e s = (Inr (), s')" "entries s' = Some es'" "list_all2 same_entry es' (es @ [e])"
    using append_law[OF assms(1-3)] assms(4) by auto
  have "length (filter P xs) = length (filter P ys)" if "list_all2 same_entry xs ys" for xs ys
    using that by (induction rule: list_all2_induct) (simp_all add: assms(6))
  from this[OF run(3)] show ?thesis using run assms(5) by auto
qed

end

definition ledger_usable :: "insight_yaml \<Rightarrow> insight_io \<Rightarrow> path \<Rightarrow> string \<Rightarrow> string \<Rightarrow> string \<Rightarrow> disk \<Rightarrow> bool" where
  "ledger_usable yaml io dir filename kind tool d \<longleftrightarrow> insight_io_ok io \<and>
     (\<exists>f. ledger yaml dir filename kind tool d = Some f \<and> list_all entry_ok (if_Entries f) \<and>
        (\<forall>entry. header_ok yaml (frontmatter_of (with_entry io entry f))))"

interpretation ledgers: insight_store "Insight_Append yaml io dir filename kind tool"
  "\<lambda>d. map_option if_Entries (ledger yaml dir filename kind tool d)" "ledger_usable yaml io dir filename kind tool"
  for yaml io dir filename kind tool
proof unfold_locales
  show "\<exists>es. map_option if_Entries (ledger yaml dir filename kind tool d) = Some es" if "ledger_usable yaml io dir filename kind tool d" for d
    using that by (auto simp: ledger_usable_def)
  show "\<exists>s' es'. Insight_Append yaml io dir filename kind tool e d = (Inr (), s') \<and>
      map_option if_Entries (ledger yaml dir filename kind tool s') = Some es' \<and>
      list_all2 same_entry es' (if ie_Title e \<in> ie_Title ` set es then es else es @ [e])"
    if u: "ledger_usable yaml io dir filename kind tool d" and e: "entry_ok e" and es: "map_option if_Entries (ledger yaml dir filename kind tool d) = Some es" for d e es
  proof -
    obtain f where f: "insight_io_ok io" "ledger yaml dir filename kind tool d = Some f" "list_all entry_ok (if_Entries f)"
      "header_ok yaml (frontmatter_of (with_entry io e f))" using u by (auto simp: ledger_usable_def)
    obtain d' f' where r: "Insight_Append yaml io dir filename kind tool e d = (Inr (), d')" "ledger yaml dir filename kind tool d' = Some f'"
      "list_all2 same_entry (if_Entries f') (if ie_Title e \<in> ie_Title ` set (if_Entries f) then if_Entries f else if_Entries f @ [e])"
      using Insight_Append_ledger[OF f(1-3) e f(4)] by blast
    have fe: "if_Entries f = es" using es f(2) by simp
    show ?thesis using r unfolding fe by (intro exI[of _ d'] exI[of _ "if_Entries f'"]) simp
  qed
qed

text \<open>Appending an insight and reading the ledger again gives the entries that were there, unchanged and in their order, followed by
  the new entry, unless an entry with its title is already there, in which case nothing changes; this holds for every entry whose values
  are single lines, also across the Markdown text and the location of the clock.\<close>

theorem insight_append_is_read:
  assumes "insight_io_ok io" and "ledger yaml dir filename kind tool d = Some f"
    and "list_all entry_ok (if_Entries f)" and "entry_ok entry" and "header_ok yaml (frontmatter_of (with_entry io entry f))"
  shows "\<exists>d' f'. Insight_Append yaml io dir filename kind tool entry d = (Inr (), d') \<and> ledger yaml dir filename kind tool d' = Some f' \<and>
    list_all2 same_entry (if_Entries f')
      (if ie_Title entry \<in> ie_Title ` set (if_Entries f) then if_Entries f else if_Entries f @ [entry])"
  using assms by (rule Insight_Append_ledger)

definition sample_entry :: insight_entry where
  "sample_entry = \<lparr>ie_Title = ''t'', ie_What = ''w'', ie_Why = [], ie_How = ''h'', ie_When = ''n'', ie_Who = ''o'', ie_Constraints = ''c'',
     ie_Extra = [(''route'', ''/r'')]\<rparr>"

definition sample_insight_io :: insight_io where
  "sample_insight_io = \<lparr>ii_lock = None, ii_read = None, ii_now = 0, ii_zone = 0, ii_write = None, ii_rename = None, ii_remove = None\<rparr>"

definition sample_insight_fm :: insight_frontmatter where
  "sample_insight_fm = \<lparr>ifm_SchemaVersion = ''1'', ifm_Kind = ''delivery-failure'', ifm_Tool = ''phonewave'', ifm_UpdatedAt = format_RFC3339_zone 0 0, ifm_EntryCount = 1\<rparr>"

definition sample_insight_yaml :: insight_yaml where
  "sample_insight_yaml = \<lparr>iy_timeErr = errorf, iy_marshal = (\<lambda>_. Inr (''x'' @ [newline])), iy_unmarshal = (\<lambda>_. Inr sample_insight_fm)\<rparr>"

theorem insight_append_is_read_witness:
  "\<exists>d' f'. Insight_Append sample_insight_yaml sample_insight_io ''/i'' ''delivery.md'' ''delivery-failure'' ''phonewave'' sample_entry
       \<lparr>dk_files = Map.empty, dk_renamed = []\<rparr> = (Inr (), d') \<and>
     ledger sample_insight_yaml ''/i'' ''delivery.md'' ''delivery-failure'' ''phonewave'' d' = Some f' \<and> map ie_What (if_Entries f') = [''w'']"
proof -
  let ?d = "\<lparr>dk_files = Map.empty, dk_renamed = []\<rparr>"
  let ?f = "\<lparr>if_SchemaVersion = InsightSchemaVersion, if_Kind = ''delivery-failure'', if_Tool = ''phonewave'', if_UpdatedAt = 0, if_Zone = 0, if_Entries = []\<rparr>"
  have l: "ledger sample_insight_yaml ''/i'' ''delivery.md'' ''delivery-failure'' ''phonewave'' ?d = Some ?f" by (simp add: ledger_def)
  have "0 \<le> fst (date_of 0)" "fst (date_of 0) \<le> 9999" by code_simp+
  then have io: "insight_io_ok sample_insight_io" by (simp add: insight_io_ok_def sample_insight_io_def units)
  have e: "entry_ok sample_entry"
    by (simp add: entry_ok_def sample_entry_def entry_fields_def field_ok_def axes_def mget_def)
  have h: "header_ok sample_insight_yaml (frontmatter_of (with_entry sample_insight_io sample_entry ?f))"
    by (simp add: header_ok_def sample_insight_yaml_def sample_insight_fm_def frontmatter_of_def with_entry_def sample_insight_io_def
        InsightSchemaVersion_def HasPrefix_def)
  obtain d' f' where run: "Insight_Append sample_insight_yaml sample_insight_io ''/i'' ''delivery.md'' ''delivery-failure'' ''phonewave'' sample_entry ?d = (Inr (), d')"
    "ledger sample_insight_yaml ''/i'' ''delivery.md'' ''delivery-failure'' ''phonewave'' d' = Some f'" "list_all2 same_entry (if_Entries f') [sample_entry]"
    using insight_append_is_read[OF io l _ e h] by auto
  then obtain e' where "if_Entries f' = [e']" "same_entry e' sample_entry" by (auto simp: list_all2_Cons2)
  moreover from this(2) have "ie_What e' = ''w''" using same_entry_What by (simp add: sample_entry_def)
  ultimately show ?thesis using run by auto
qed

text \<open>A line break in a value is not kept: what follows it is lost, or read as another field.\<close>

lemma insight_line_break_is_lost:
  "map (\<lambda>(title, b). parse_entry title b) (sections (Split newline (format_entries True
     [(empty_entry ''t'')\<lparr>ie_What := ''open: '' @ [newline] @ ''- **who**: me''\<rparr>]))) = [(empty_entry ''t'')\<lparr>ie_What := ''open: '', ie_Who := ''me''\<rparr>]"
  by code_simp

end
