(* ===== verification/Policy.thy ===== *)
theory Policy
  imports Insight Emitter
begin

text \<open>
  The policies that react to events: the engine (\<open>src/internal/usecase/policy.go\<close>), the four handlers of the daemon with the
  insight they write for a failed delivery (\<open>policy_handlers.go\<close>), and their wiring with the emitter (\<open>daemon.go\<close>).

  A handler sees the event and changes the world around it: the disk with the insight ledger, the notifications it asked for and the
  metrics it recorded. Errors of the notifier are only logged. The timeouts of the notifier and the log lines are left out.
\<close>

section \<open>The engine\<close>

record policy_world =
  pw_disk :: disk
  pw_notes :: "(string \<times> string) list"
  pw_metrics :: "(string \<times> string) list"

text \<open>What the operating system does during one dispatch.\<close>

record policy_io =
  pi_insight :: insight_io
  pi_read :: "go_error option"

type_synonym policy_handler = "policy_io \<Rightarrow> event \<Rightarrow> policy_world \<Rightarrow> unit result \<times> policy_world"
type_synonym policy_engine = "event_type \<rightharpoonup> policy_handler list"

definition NewPolicyEngine :: policy_engine where
  "NewPolicyEngine = Map.empty"

definition Register :: "event_type \<Rightarrow> policy_handler \<Rightarrow> policy_engine \<Rightarrow> policy_engine" where
  "Register trigger handler e = e(trigger \<mapsto> (case e trigger of None \<Rightarrow> [] | Some hs \<Rightarrow> hs) @ [handler])"

fun run_handlers :: "policy_io \<Rightarrow> event \<Rightarrow> policy_handler list \<Rightarrow> policy_world \<Rightarrow> policy_world" where
  "run_handlers io ev [] w = w"
| "run_handlers io ev (h # hs) w = run_handlers io ev hs (snd (h io ev w))"

definition Dispatch :: "policy_engine \<Rightarrow> policy_io \<Rightarrow> event \<Rightarrow> policy_world \<Rightarrow> unit result \<times> policy_world" where
  "Dispatch e io ev w =
     (case e (evt_Type ev) of
        None \<Rightarrow> (Inr (), w)
      | Some handlers \<Rightarrow> (Inr (), run_handlers io ev handlers w))"

section \<open>Decoding payloads\<close>

text \<open>\<open>json.Unmarshal\<close> of the data into \<open>map[string]string\<close>: a payload with a number is rejected, as is empty data.\<close>

definition decode_strings :: "payload option \<Rightarrow> meta_map option" where
  "decode_strings data =
     (case data of
        Some (DeliveryCompletedPayload p k) \<Rightarrow> Some [(''path'', p), (''kind'', k)]
      | Some (DeliveryFailedPayload p k e) \<Rightarrow> Some [(''path'', p), (''kind'', k), (''error'', e)]
      | Some (ErrorRetriedPayload n k) \<Rightarrow> Some [(''name'', n), (''kind'', k)]
      | _ \<Rightarrow> None)"

text \<open>\<open>json.Unmarshal\<close> into \<open>DeliveryFailedPayload\<close> (path, kind, error) and \<open>ScanCompletedPayload\<close> (delivered, failed): fields
  that are missing keep their zero value, fields that are unknown are skipped.\<close>

definition decode_failed :: "payload option \<Rightarrow> (path \<times> string \<times> string) option" where
  "decode_failed data =
     (case data of
        None \<Rightarrow> None
      | Some (DeliveryCompletedPayload p k) \<Rightarrow> Some (p, k, [])
      | Some (DeliveryFailedPayload p k e) \<Rightarrow> Some (p, k, e)
      | Some (ErrorRetriedPayload _ k) \<Rightarrow> Some ([], k, [])
      | Some (ScanCompletedPayload _ _ _) \<Rightarrow> Some ([], [], [])
      | Some (CutoverPayload _ _) \<Rightarrow> Some ([], [], []))"

definition decode_scan :: "payload option \<Rightarrow> (int \<times> int) option" where
  "decode_scan data =
     (case data of
        None \<Rightarrow> None
      | Some (ScanCompletedPayload _ delivered failed) \<Rightarrow> Some (delivered, failed)
      | Some _ \<Rightarrow> Some (0, 0))"

section \<open>The insight of a failed delivery\<close>

definition containsAny :: "string \<Rightarrow> string list \<Rightarrow> bool" where
  "containsAny s substrs \<longleftrightarrow> list_ex (\<lambda>sub. Contains (ToLower s) (ToLower sub)) substrs"

definition categorizeDeliveryError :: "string \<Rightarrow> string" where
  "categorizeDeliveryError errMsg =
     (if containsAny errMsg [''permission denied'', ''access denied''] then ''Permission denied on target inbox directory''
      else if containsAny errMsg [''no such file'', ''not found'', ''does not exist''] then ''Target inbox directory not found''
      else if containsAny errMsg [''no space'', ''disk full''] then ''Insufficient disk space on target''
      else if containsAny errMsg [''no route'', ''no matching''] then ''No matching route for D-Mail kind''
      else ''Delivery error: '' @ errMsg)"

text \<open>The policies' configuration: the encoder of the ledger and its directory, and whether there are a reader and a recorder of metrics.\<close>

record policy_config =
  pc_yaml :: insight_yaml
  pc_insightsDir :: path
  pc_reader :: bool
  pc_metrics :: bool

definition countRouteFailures :: "policy_config \<Rightarrow> go_error option \<Rightarrow> string \<Rightarrow> disk \<Rightarrow> nat" where
  "countRouteFailures c readErr route d =
     (if \<not> pc_reader c then 0
      else case Insight_Read (pc_yaml c) readErr (pc_insightsDir c) ''delivery.md'' d of
             Inl _ \<Rightarrow> 0
           | Inr f \<Rightarrow> length (filter (\<lambda>entry. mget (ie_Extra entry) ''route'' = route) (if_Entries f)))"

definition em_dash :: string where
  "em_dash = [CHR 0xE2, CHR 0x80, CHR 0x94]"

definition failure_how :: "policy_config \<Rightarrow> go_error option \<Rightarrow> string \<Rightarrow> disk \<Rightarrow> string" where
  "failure_how c readErr route d =
     (let count = (if pc_reader c then countRouteFailures c readErr route d else 0)
      in if count > 0
         then ''Repeated failure ('' @ Itoa (int count) @ '' prior) on this route '' @ em_dash @
              '' check target inbox directory permissions and disk space''
         else ''Check target inbox directory permissions and disk space'')"

definition failure_route :: "path \<Rightarrow> string" where
  "failure_route p = Dir p @ '' -> targets''"

definition failure_entry :: "path \<times> string \<times> string \<Rightarrow> event \<Rightarrow> string \<Rightarrow> insight_entry" where
  "failure_entry = (\<lambda>(p, kind, err) ev how.
     \<lparr>ie_Title = ''delivery-failed-'' @ kind @ ''-'' @ format_compact (evt_Timestamp ev + evt_Zone ev),
      ie_What = ''Delivery failed for kind '' @ kind @ '' from '' @ Dir p @ '': '' @ err,
      ie_Why = categorizeDeliveryError err,
      ie_How = how,
      ie_When = ''During delivery scan cycle'',
      ie_Who = ''phonewave courier daemon (event-'' @ evt_ID ev @ '')'',
      ie_Constraints = ''Automatic retry via error queue'',
      ie_Extra = [(''route'', failure_route p)]\<rparr>)"

definition writeDeliveryFailureInsight :: "policy_config \<Rightarrow> policy_io \<Rightarrow> path \<times> string \<times> string \<Rightarrow> event \<Rightarrow> disk \<Rightarrow> disk" where
  "writeDeliveryFailureInsight c io data ev d =
     (let how = failure_how c (pi_read io) (failure_route (fst data)) d
      in snd (Insight_Append (pc_yaml c) (pi_insight io) (pc_insightsDir c) ''delivery.md'' ''delivery-failure'' ''phonewave''
                (failure_entry data ev how) d))"

section \<open>The handlers of the daemon\<close>

definition Notify :: "string \<Rightarrow> string \<Rightarrow> policy_world \<Rightarrow> policy_world" where
  "Notify title message w = w\<lparr>pw_notes := pw_notes w @ [(title, message)]\<rparr>"

definition RecordPolicyEvent :: "policy_config \<Rightarrow> string \<Rightarrow> string \<Rightarrow> policy_world \<Rightarrow> policy_world" where
  "RecordPolicyEvent c eventType status w =
     (if pc_metrics c then w\<lparr>pw_metrics := pw_metrics w @ [(eventType, status)]\<rparr> else w)"

definition on_completed :: "policy_config \<Rightarrow> policy_handler" where
  "on_completed c io ev w =
     (case decode_strings (evt_Data ev) of
        None \<Rightarrow> (Inr (), w)
      | Some data \<Rightarrow> (Inr (), RecordPolicyEvent c ''delivery.completed'' ''handled'' w))"

definition on_failed :: "policy_config \<Rightarrow> policy_handler" where
  "on_failed c io ev w =
     (case decode_failed (evt_Data ev) of
        None \<Rightarrow> (Inr (), RecordPolicyEvent c ''delivery.failed'' ''handled'' w)
      | Some data \<Rightarrow>
          (let w = Notify ''Phonewave'' ''Delivery failed'' w;
               w = w\<lparr>pw_disk := writeDeliveryFailureInsight c io data ev (pw_disk w)\<rparr>
           in (Inr (), RecordPolicyEvent c ''delivery.failed'' ''handled'' w)))"

definition on_retried :: "policy_config \<Rightarrow> policy_handler" where
  "on_retried c io ev w =
     (case decode_strings (evt_Data ev) of
        None \<Rightarrow> (Inr (), w)
      | Some data \<Rightarrow>
          (Inr (), RecordPolicyEvent c ''error.retried'' ''handled'' (Notify ''Phonewave'' (''Error retried: '' @ mget data ''name'') w)))"

definition on_scan :: "policy_config \<Rightarrow> policy_handler" where
  "on_scan c io ev w =
     (case decode_scan (evt_Data ev) of
        None \<Rightarrow> (Inr (), w)
      | Some (delivered, failed) \<Rightarrow>
          (Inr (), RecordPolicyEvent c ''scan.completed'' ''handled''
             (Notify ''Phonewave'' (''Scan completed: '' @ Itoa delivered @ '' delivered, '' @ Itoa failed @ '' failed'') w)))"

definition registerDaemonPolicies :: "policy_config \<Rightarrow> policy_engine \<Rightarrow> policy_engine" where
  "registerDaemonPolicies c engine =
     Register EventScanCompleted (on_scan c)
       (Register EventErrorRetried (on_retried c)
         (Register EventDeliveryFailed (on_failed c)
           (Register EventDeliveryCompleted (on_completed c) engine)))"

section \<open>Wiring\<close>

text \<open>\<open>PrepareDaemonRunner\<close> and the runner's \<open>SetEmitter\<close>: the emitter is given the counter if the runner has one.\<close>

definition SetEmitter :: "int option \<Rightarrow> emitter \<Rightarrow> emitter" where
  "SetEmitter seqAlloc e = (case seqAlloc of None \<Rightarrow> e | Some n \<Rightarrow> SetSeqAllocator (Some n) e)"

definition PrepareDaemonRunner :: "policy_config \<Rightarrow> event_dir option \<Rightarrow> int option \<Rightarrow> policy_engine \<times> emitter" where
  "PrepareDaemonRunner c store seqAlloc =
     (registerDaemonPolicies c NewPolicyEngine,
      SetEmitter seqAlloc (NewDeliveryEventEmitter (NewDeliveryAggregate []) store True))"

text \<open>The emitter hands an event to the engine within \<open>emit\<close>, after it was stored. The engine does not change the emitter, so the
  reactions to a recorded event are those to what the emitter dispatched meanwhile.\<close>

fun dispatch_all :: "policy_engine \<Rightarrow> policy_io \<Rightarrow> event list \<Rightarrow> policy_world \<Rightarrow> policy_world" where
  "dispatch_all engine pio [] w = w"
| "dispatch_all engine pio (ev # evs) w = dispatch_all engine pio evs (snd (Dispatch engine pio ev w))"

definition record_and_react ::
  "policy_engine \<Rightarrow> emit_io \<Rightarrow> policy_io \<Rightarrow> time \<Rightarrow> domain_event \<Rightarrow> emitter \<times> policy_world \<Rightarrow> emitter \<times> policy_world" where
  "record_and_react engine io pio now ev = (\<lambda>(e, w).
     let e' = the (record_event io now ev (Some e))
     in (e', dispatch_all engine pio (drop (length (et_dispatched e)) (et_dispatched e')) w))"

section \<open>Dispatch\<close>

abbreviation daemon_engine :: "policy_config \<Rightarrow> policy_engine" where
  "daemon_engine c \<equiv> registerDaemonPolicies c NewPolicyEngine"

lemma Dispatch_daemon:
  "Dispatch (daemon_engine c) io ev w =
     (if evt_Type ev = EventDeliveryCompleted then on_completed c io ev w
      else if evt_Type ev = EventDeliveryFailed then on_failed c io ev w
      else if evt_Type ev = EventErrorRetried then on_retried c io ev w
      else if evt_Type ev = EventScanCompleted then on_scan c io ev w
      else (Inr (), w))"
proof -
  have snd: "(Inr (), snd (h io ev w)) = h io ev w" if "h \<in> {on_completed c, on_failed c, on_retried c, on_scan c}" for h
    using that by (auto simp: on_completed_def on_failed_def on_retried_def on_scan_def Let_def split: option.split)
  show ?thesis
    using snd by (simp add: Dispatch_def registerDaemonPolicies_def Register_def NewPolicyEngine_def event_types)
qed

text \<open>Only a failed delivery writes to the ledger.\<close>

lemma Dispatch_keeps_disk:
  "evt_Type ev \<noteq> EventDeliveryFailed \<Longrightarrow> pw_disk (snd (Dispatch (daemon_engine c) io ev w)) = pw_disk w"
  unfolding Dispatch_daemon
  by (simp add: on_completed_def on_retried_def on_scan_def Notify_def RecordPolicyEvent_def split: option.split prod.split)

section \<open>What the emitter dispatches\<close>

text \<open>An emitted event reaches the dispatcher as it was made, but for the links and the number it is given, and only if it was stored.\<close>

lemma emit_dispatches:
  assumes "et_dispatcher e"
  shows "et_dispatched (snd (emit io ev e)) = et_dispatched e \<and> isl (fst (emit io ev e)) \<or>
    (\<exists>c d s. et_dispatched (snd (emit io ev e)) = et_dispatched e @ [ev\<lparr>evt_CorrelationID := c, evt_CausationID := d, evt_SeqNr := s\<rparr>]) \<and>
    fst (emit io ev e) = Inr ()"
proof -
  have store: "et_dispatched (snd (emit_store io x e1)) = et_dispatched e1 \<and> et_dispatcher (snd (emit_store io x e1)) = et_dispatcher e1" for x e1
    by (auto simp: emit_store_def split: option.split prod.split sum.split)
  have seq: "et_dispatched (snd (emit_seq io x e)) = et_dispatched e \<and> et_dispatcher (snd (emit_seq io x e)) = et_dispatcher e \<and>
      (\<forall>y. fst (emit_seq io x e) = Inr y \<longrightarrow> (\<exists>s. y = x\<lparr>evt_SeqNr := s\<rparr>))" for x
    by (auto simp: emit_seq_def split: option.split prod.split sum.split intro: exI[of _ "evt_SeqNr x"])
  obtain r e1 where s1: "emit_seq io (emit_enrich ev e) e = (r, e1)" by (rule prod.exhaust)
  show ?thesis
  proof (cases r)
    case (Inl x)
    then show ?thesis using s1 seq[of "emit_enrich ev e"] by (simp add: emit_def)
  next
    case (Inr ev3)
    obtain s where ev3: "ev3 = (emit_enrich ev e)\<lparr>evt_SeqNr := s\<rparr>" using s1 seq[of "emit_enrich ev e"] Inr by auto
    obtain r2 e2 where s2: "emit_store io ev3 e1 = (r2, e2)" by (rule prod.exhaust)
    have run: "emit io ev e = (case r2 of Inl err \<Rightarrow> (Inl err, e2) | Inr _ \<Rightarrow> (Inr (), emit_finish ev3 e2))"
      unfolding emit_def s1 Inr prod.case sum.case s2 by (simp split: sum.split)
    have keep: "et_dispatched e2 = et_dispatched e" "et_dispatcher e2" using store[of ev3 e1] seq[of "emit_enrich ev e"] s1 s2 assms by auto
    have "ev3 = ev\<lparr>evt_CorrelationID := evt_CorrelationID ev3, evt_CausationID := evt_CausationID ev3, evt_SeqNr := s\<rparr>"
      unfolding ev3 by (simp add: emit_enrich_def Let_def)
    then show ?thesis using run keep by (cases r2) (auto simp: emit_finish_def Let_def)
  qed
qed

definition failure_event :: "emit_io \<Rightarrow> path \<Rightarrow> string \<Rightarrow> string \<Rightarrow> time \<Rightarrow> delivery_aggregate \<Rightarrow> event" where
  "failure_event io p kind err now a = fst (RecordFailure_event (ei_uuid io) p kind err now a)"

lemma record_failure_dispatches:
  assumes "wired n e" and "et_dispatcher e" and "emit_ok (io, now, DeliveryFailed p kind err)"
  shows "\<exists>e' c d s. record_event io now (DeliveryFailed p kind err) (Some e) = Some e' \<and>
     et_dispatched e' = et_dispatched e @ [(failure_event io p kind err now (et_agg e))\<lparr>evt_CorrelationID := c, evt_CausationID := d, evt_SeqNr := s\<rparr>]"
proof -
  let ?ev = "failure_event io p kind err now (et_agg e)"
  let ?e = "e\<lparr>et_agg := snd (RecordFailure_event (ei_uuid io) p kind err now (et_agg e))\<rparr>"
  have w: "wired n ?e" "et_dispatcher ?e" using assms(1,2) by (simp_all add: wired_def)
  have io: "ei_alloc io = None" "no_faults (ei_append io)" "ei_uuid io \<noteq> []" "now \<noteq> 0" using assms(3) by (auto simp: emit_ok_def)
  have "ParseEvent (?ev\<lparr>evt_CorrelationID := c, evt_CausationID := d, evt_SeqNr := s\<rparr>) =
      Inr (?ev\<lparr>evt_CorrelationID := c, evt_CausationID := d, evt_SeqNr := s\<rparr>)" for c d s
    by (rule ParseEvent_ok) (use io in \<open>simp_all add: failure_event_def RecordFailure_event_def nextEvent_def NewEvent_def Let_def ValidEventType_def event_types\<close>)
  from emit_succeeds[OF w(1) io(1,2) this] have "fst (emit io ?ev ?e) = Inr ()" .
  with emit_dispatches[OF w(2), of io ?ev] obtain c d s where
    "et_dispatched (snd (emit io ?ev ?e)) = et_dispatched e @ [?ev\<lparr>evt_CorrelationID := c, evt_CausationID := d, evt_SeqNr := s\<rparr>]" by auto
  moreover have "record_event io now (DeliveryFailed p kind err) (Some e) = Some (snd (emit io ?ev ?e))"
    by (simp add: record_event_def EmitFailure_def emit_recorded_def failure_event_def split: prod.split)
  ultimately show ?thesis by blast
qed

section \<open>The entry of a failure can be read\<close>

lemma Clean_chars: "set (Clean s) \<subseteq> insert CHR ''/'' (insert CHR ''.'' (set s))"
proof -
  have push: "set (push_comp r st c) \<subseteq> insert c (set st)" for r st c
    by (cases st) (auto simp: push_comp_def)
  have "set (foldl (push_comp r) st cs) \<subseteq> set st \<union> set cs" for r st cs
    by (induction cs arbitrary: st) (use push in fastforce)+
  from this[of _ "[]"] have norm: "set (norm_comps r cs) \<subseteq> set cs" for r cs by (simp add: norm_comps_def)
  have join: "set (Join ''/'' cs) \<subseteq> insert CHR ''/'' (\<Union>c \<in> set cs. set c)" for cs
    by (induction "''/''" cs rule: Join.induct) auto
  have split: "(\<Union>c \<in> set (Split CHR ''/'' s). set c) \<subseteq> set s" for s
    by (induction "CHR ''/''" s rule: Split.induct) (auto 0 0 split: list.splits, blast+)
  have "set (Join ''/'' (norm_comps r (Split CHR ''/'' s))) \<subseteq> insert CHR ''/'' (set s)" for r
    using join[of "norm_comps r (Split CHR ''/'' s)"] norm[of r "Split CHR ''/'' s"] split[of s] by blast
  then show ?thesis unfolding Clean_def render_def by auto
qed

lemma Dir_newline: "newline \<notin> set p \<Longrightarrow> newline \<notin> set (Dir p)"
  using Clean_chars[of "dir_part p"] set_take_subset[of _ p] by (fastforce simp: Dir_def dir_part_def)

lemma pad0_newline: "newline \<notin> set (pad0 n i)"
  using pad0_chars[of newline n i] by (auto simp: digit_val_def Let_def)

lemma format_compact_newline: "newline \<notin> set (format_compact t)"
  by (simp add: format_compact_def pad0_newline split: prod.splits)

lemma Itoa_newline: "newline \<notin> set (Itoa i)"
  using set_nat_digits[of newline] by (auto simp: Itoa_def digit_val_def Let_def split: if_splits)

lemma failure_entry_ok:
  assumes "newline \<notin> set p" and "newline \<notin> set kind" and "newline \<notin> set err" and "newline \<notin> set (evt_ID ev)" and "newline \<notin> set how"
  shows "entry_ok (failure_entry (p, kind, err) ev how)"
proof -
  have "newline \<notin> set (categorizeDeliveryError err)" using assms(3) by (simp add: categorizeDeliveryError_def)
  then show ?thesis
    using assms Dir_newline[OF assms(1)] format_compact_newline
    by (simp add: entry_ok_def failure_entry_def entry_fields_def field_ok_def axes_def mget_def failure_route_def)
qed

lemma failure_how_newline: "newline \<notin> set (failure_how c r route d)"
  by (simp add: failure_how_def Let_def Itoa_newline em_dash_def)

section \<open>A failed delivery is recorded\<close>

abbreviation delivery_ledger :: "policy_config \<Rightarrow> disk \<Rightarrow> insight_file option" where
  "delivery_ledger c \<equiv> ledger (pc_yaml c) (pc_insightsDir c) ''delivery.md'' ''delivery-failure'' ''phonewave''"

abbreviation delivery_ledger_usable :: "policy_config \<Rightarrow> insight_io \<Rightarrow> disk \<Rightarrow> bool" where
  "delivery_ledger_usable c io \<equiv> ledger_usable (pc_yaml c) io (pc_insightsDir c) ''delivery.md'' ''delivery-failure'' ''phonewave''"

lemma same_entry_mget: "same_entry a b \<Longrightarrow> mget (ie_Extra a) k = mget (ie_Extra b) k"
  by (simp add: same_entry_def mget_def)

lemma countRouteFailures_ledger:
  "pc_reader c \<Longrightarrow> delivery_ledger c d = Some f \<Longrightarrow>
   countRouteFailures c None route d = length (filter (\<lambda>e. mget (ie_Extra e) ''route'' = route) (if_Entries f))"
  by (auto simp: countRouteFailures_def ledger_def Insight_Read_def Insight_readFile_def os_ReadFile_def split: sum.splits if_splits)

lemma writeDeliveryFailureInsight_counts:
  assumes "delivery_ledger_usable c (pi_insight pio) d" and "delivery_ledger c d = Some f" and "pc_reader c"
    and "newline \<notin> set p" and "newline \<notin> set kind" and "newline \<notin> set err" and "newline \<notin> set (evt_ID ev)"
    and "ie_Title (failure_entry (p, kind, err) ev []) \<notin> ie_Title ` set (if_Entries f)"
  shows "\<exists>f'. delivery_ledger c (writeDeliveryFailureInsight c pio (p, kind, err) ev d) = Some f' \<and>
     list_all2 same_entry (if_Entries f') (if_Entries f @ [failure_entry (p, kind, err) ev (failure_how c (pi_read pio) (failure_route p) d)]) \<and>
     countRouteFailures c None (failure_route p) (writeDeliveryFailureInsight c pio (p, kind, err) ev d) =
       countRouteFailures c None (failure_route p) d + 1"
proof -
  let ?e = "failure_entry (p, kind, err) ev (failure_how c (pi_read pio) (failure_route p) d)"
  have ok: "entry_ok ?e" using failure_entry_ok[OF assms(4-7) failure_how_newline] .
  have title: "ie_Title ?e \<notin> ie_Title ` set (if_Entries f)" using assms(8) by (simp add: failure_entry_def)
  have es: "map_option if_Entries (delivery_ledger c d) = Some (if_Entries f)" using assms(2) by simp
  have route: "mget (ie_Extra ?e) ''route'' = failure_route p" by (simp add: failure_entry_def mget_def)
  obtain d' es' where run: "Insight_Append (pc_yaml c) (pi_insight pio) (pc_insightsDir c) ''delivery.md'' ''delivery-failure'' ''phonewave'' ?e d = (Inr (), d')"
    "map_option if_Entries (delivery_ledger c d') = Some es'" "list_all2 same_entry es' (if_Entries f @ [?e])"
    "length (filter (\<lambda>e. mget (ie_Extra e) ''route'' = failure_route p) es') =
       length (filter (\<lambda>e. mget (ie_Extra e) ''route'' = failure_route p) (if_Entries f)) + 1"
    using ledgers.append_counts[OF assms(1) ok es title, of "\<lambda>e. mget (ie_Extra e) ''route'' = failure_route p", OF route]
      same_entry_mget[of _ _ "''route''"] by (auto simp del: map_option_eq_Some)
  obtain f' where f': "delivery_ledger c d' = Some f'" "if_Entries f' = es'" using run(2) by auto
  have w: "writeDeliveryFailureInsight c pio (p, kind, err) ev d = d'" using run(1) by (simp add: writeDeliveryFailureInsight_def)
  show ?thesis
    unfolding w countRouteFailures_ledger[OF assms(3) f'(1)] countRouteFailures_ledger[OF assms(3,2)] f'(2)
    using f' run(3,4) by (intro exI[of _ f']) simp
qed

text \<open>The title names the kind and the second only: another failure of the kind within that second leaves no entry, whatever its
  outbox and its error.\<close>

lemma same_second_failure_is_lost:
  assumes "insight_io_ok (pi_insight pio)" and "delivery_ledger c d = Some f"
    and "failure_entry (p, kind, err) ev how \<in> set (if_Entries f)"
    and "format_compact (evt_Timestamp ev' + evt_Zone ev') = format_compact (evt_Timestamp ev + evt_Zone ev)"
  shows "writeDeliveryFailureInsight c pio (p', kind, err') ev' d = d"
proof -
  have "list_ex (\<lambda>e. ie_Title e = ie_Title (failure_entry (p', kind, err') ev' how')) (if_Entries f)" for how'
    using assms(3,4) by (auto simp: list_ex_iff failure_entry_def intro!: bexI[of _ "failure_entry (p, kind, err) ev how"])
  then show ?thesis using Insight_Append_run[OF assms(1,2)] by (simp add: writeDeliveryFailureInsight_def)
qed

text \<open>C23: When the daemon records a failed delivery and nothing fails on the way, the event is stored, so that \<open>LoadAll\<close> returns it next to those from
  before, and dispatched; the user is notified once, one metric is recorded, and the insight ledger, read again, has one more entry, which
  names the kind, the outbox, the error and its category; the number of known failures of the route grows by one. This is for a
  ledger that can be read and has no entry yet with the title of this one, which names the kind and the second only, and for a path, a kind, an
  error text and an id without line breaks; the event is one that survives the JSON encoding.\<close>

theorem failure_is_recorded:
  assumes "wired n e" and "et_dispatcher e" and "emit_ok (io, now, DeliveryFailed p kind err)"
    and "pc_reader c" and "pc_metrics c"
    and "delivery_ledger_usable c (pi_insight pio) (pw_disk w)" and "delivery_ledger c (pw_disk w) = Some f"
    and "newline \<notin> set p" and "newline \<notin> set kind" and "newline \<notin> set err" and "newline \<notin> set (ei_uuid io)"
    and "''delivery-failed-'' @ kind @ ''-'' @ format_compact now \<notin> ie_Title ` set (if_Entries f)"
    and "0 \<le> n" and "n < 2 ^ 64" and "dir_ok (the (et_store e))"
  shows "\<exists>e' w' f' ev. record_and_react (fst (PrepareDaemonRunner c store seqAlloc)) io pio now (DeliveryFailed p kind err) (e, w) = (e', w') \<and>
     et_dispatched e' = et_dispatched e @ [ev] \<and> evt_ID ev = ei_uuid io \<and> evt_Timestamp ev = now \<and>
     evt_Data ev = Some (DeliveryFailedPayload p kind err) \<and>
     (encodes (ap_marshal (ei_append io)) u ev \<longrightarrow>
        (\<exists>old oldres new newres. LoadAll (load_ok u) (the (et_store e)) = Inr (old, oldres) \<and>
           LoadAll (load_ok u) (the (et_store e')) = Inr (new, newres) \<and> mset new = mset old + {#ev#})) \<and>
     pw_notes w' = pw_notes w @ [(''Phonewave'', ''Delivery failed'')] \<and>
     pw_metrics w' = pw_metrics w @ [(''delivery.failed'', ''handled'')] \<and>
     delivery_ledger c (pw_disk w') = Some f' \<and>
     list_all2 same_entry (if_Entries f')
       (if_Entries f @ [failure_entry (p, kind, err) ev (failure_how c (pi_read pio) (failure_route p) (pw_disk w))]) \<and>
     countRouteFailures c None (failure_route p) (pw_disk w') = countRouteFailures c None (failure_route p) (pw_disk w) + 1"
proof -
  obtain e' cid d s where e': "record_event io now (DeliveryFailed p kind err) (Some e) = Some e'"
    "et_dispatched e' = et_dispatched e @ [(failure_event io p kind err now (et_agg e))\<lparr>evt_CorrelationID := cid, evt_CausationID := d, evt_SeqNr := s\<rparr>]"
    using record_failure_dispatches[OF assms(1-3)] by blast
  define ev where "ev = (failure_event io p kind err now (et_agg e))\<lparr>evt_CorrelationID := cid, evt_CausationID := d, evt_SeqNr := s\<rparr>"
  have ev: "evt_ID ev = ei_uuid io" "evt_Timestamp ev = now" "evt_Zone ev = 0" "evt_Type ev = EventDeliveryFailed"
    "evt_Data ev = Some (DeliveryFailedPayload p kind err)"
    by (simp_all add: ev_def failure_event_def RecordFailure_event_def nextEvent_def NewEvent_def Let_def)
  let ?w = "RecordPolicyEvent c ''delivery.failed'' ''handled'' ((Notify ''Phonewave'' ''Delivery failed'' w)
     \<lparr>pw_disk := writeDeliveryFailureInsight c pio (p, kind, err) ev (pw_disk w)\<rparr>)"
  have disp: "snd (Dispatch (daemon_engine c) pio ev w) = ?w"
    unfolding Dispatch_daemon on_failed_def ev(4,5) by (simp add: event_types decode_failed_def Notify_def)
  have run: "record_and_react (fst (PrepareDaemonRunner c store seqAlloc)) io pio now (DeliveryFailed p kind err) (e, w) = (e', ?w)"
    by (simp add: record_and_react_def PrepareDaemonRunner_def e' ev_def[symmetric] disp)
  have disk: "pw_disk ?w = writeDeliveryFailureInsight c pio (p, kind, err) ev (pw_disk w)"
    "pw_notes ?w = pw_notes w @ [(''Phonewave'', ''Delivery failed'')]" "pw_metrics ?w = pw_metrics w @ [(''delivery.failed'', ''handled'')]"
    using assms(5) by (simp_all add: RecordPolicyEvent_def Notify_def)
  have "ie_Title (failure_entry (p, kind, err) ev []) \<notin> ie_Title ` set (if_Entries f)"
    using assms(12) ev by (simp add: failure_entry_def)
  moreover have "newline \<notin> set (evt_ID ev)" using assms(11) ev(1) by simp
  ultimately obtain f' where "delivery_ledger c (pw_disk ?w) = Some f'"
    "list_all2 same_entry (if_Entries f') (if_Entries f @ [failure_entry (p, kind, err) ev (failure_how c (pi_read pio) (failure_route p) (pw_disk w))])"
    "countRouteFailures c None (failure_route p) (pw_disk ?w) = countRouteFailures c None (failure_route p) (pw_disk w) + 1"
    using writeDeliveryFailureInsight_counts[OF assms(6,7,4,8-10)] unfolding disk(1) by blast
  moreover have "encodes (ap_marshal (ei_append io)) u ev \<longrightarrow>
      (\<exists>old oldres new newres. LoadAll (load_ok u) (the (et_store e)) = Inr (old, oldres) \<and>
         LoadAll (load_ok u) (the (et_store e')) = Inr (new, newres) \<and> mset new = mset old + {#ev#})"
    using record_event_stored[OF assms(1,13,14,3), of u] e' assms(15) by (auto simp: ev_def LoadAll_eq mset_all_events)
  ultimately show ?thesis using run e'(2) ev(1,2,5) disk(2,3) unfolding ev_def[symmetric] by blast
qed

definition sample_policy :: policy_config where
  "sample_policy = \<lparr>pc_yaml = sample_insight_yaml, pc_insightsDir = ''/i'', pc_reader = True, pc_metrics = True\<rparr>"

definition sample_policy_io :: policy_io where
  "sample_policy_io = \<lparr>pi_insight = sample_insight_io, pi_read = None\<rparr>"

definition sample_world :: policy_world where
  "sample_world = \<lparr>pw_disk = \<lparr>dk_files = Map.empty, dk_renamed = []\<rparr>, pw_notes = [], pw_metrics = []\<rparr>"

theorem failure_is_recorded_witness:
  "\<exists>e' w'. record_and_react (fst (PrepareDaemonRunner sample_policy None None)) sample_eio sample_policy_io 5
       (DeliveryFailed ''/r/outbox/a.md'' ''report'' ''disk full'') (sample_emitter, sample_world) = (e', w') \<and>
     pw_notes w' = [(''Phonewave'', ''Delivery failed'')] \<and>
     countRouteFailures sample_policy None ''/r/outbox -> targets'' (pw_disk w') = 1 \<and>
     (\<exists>ev res. LoadAll (load_ok (decode_as ev)) (the (et_store e')) = Inr ([ev], res))"
proof -
  let ?f = "\<lparr>if_SchemaVersion = InsightSchemaVersion, if_Kind = ''delivery-failure'', if_Tool = ''phonewave'', if_UpdatedAt = 0, if_Zone = 0, if_Entries = []\<rparr>"
  have w: "wired 1 sample_emitter" "et_dispatcher sample_emitter" by (simp_all add: wired_def sample_emitter_def SetSeqAllocator_def NewDeliveryEventEmitter_def)
  have ok: "emit_ok (sample_eio, 5, DeliveryFailed ''/r/outbox/a.md'' ''report'' ''disk full'')"
    using decode_as_ok(3) by (simp add: emit_ok_def sample_eio_def)
  have l: "delivery_ledger sample_policy (pw_disk sample_world) = Some ?f" by (simp add: ledger_def sample_world_def)
  have "0 \<le> fst (date_of 0)" "fst (date_of 0) \<le> 9999" by code_simp+
  then have "insight_io_ok sample_insight_io" by (simp add: insight_io_ok_def sample_insight_io_def units)
  moreover have "header_ok sample_insight_yaml (frontmatter_of (with_entry sample_insight_io entry ?f))" for entry
    by (simp add: header_ok_def sample_insight_yaml_def sample_insight_fm_def frontmatter_of_def with_entry_def sample_insight_io_def
        InsightSchemaVersion_def HasPrefix_def)
  ultimately have u: "delivery_ledger_usable sample_policy (pi_insight sample_policy_io) (pw_disk sample_world)"
    using l by (simp add: ledger_usable_def sample_policy_io_def sample_policy_def)
  have route: "failure_route ''/r/outbox/a.md'' = ''/r/outbox -> targets''" by code_simp
  have c: "pc_reader sample_policy" "pc_metrics sample_policy" by (simp_all add: sample_policy_def)
  have zero: "countRouteFailures sample_policy None ''/r/outbox -> targets'' (pw_disk sample_world) = 0"
    unfolding countRouteFailures_ledger[OF c(1) l] by simp
  have "newline \<notin> set ''/r/outbox/a.md''" "newline \<notin> set ''report''" "newline \<notin> set ''disk full''" "newline \<notin> set (ei_uuid sample_eio)"
    "''delivery-failed-'' @ ''report'' @ ''-'' @ format_compact 5 \<notin> ie_Title ` set (if_Entries ?f)" by (simp_all add: sample_eio_def)
  note recorded = failure_is_recorded[OF w ok c u l this]
  have st: "et_store sample_emitter = Some []" by (simp add: sample_emitter_def SetSeqAllocator_def NewDeliveryEventEmitter_def)
  then have "dir_ok (the (et_store sample_emitter))" by (simp add: dir_ok_def)
  note recorded = recorded[OF _ _ this, where store = None and seqAlloc = None]
  obtain e' w' ev where 1: "record_and_react (fst (PrepareDaemonRunner sample_policy None None)) sample_eio sample_policy_io 5
       (DeliveryFailed ''/r/outbox/a.md'' ''report'' ''disk full'') (sample_emitter, sample_world) = (e', w')"
    "et_dispatched e' = et_dispatched sample_emitter @ [ev]" using recorded[where u = "\<lambda>_. None"] by auto
  have "LoadAll (load_ok v) [] = Inr ([], \<lparr>lr_FileCount = 0, lr_CorruptLineCount = 0\<rparr>)" for v by (simp add: LoadAll_eq all_events_def dir_corrupt_def)
  moreover have "encodes (ap_marshal (ei_append sample_eio)) (decode_as ev) ev" using decode_as_ok(2) by (simp add: sample_eio_def)
  ultimately show ?thesis
    using recorded[where u = "decode_as ev"] 1 st unfolding route zero by (auto simp: sample_world_def)
qed

end
