(* ===== verification/Scanner.thy ===== *)
theory Scanner
  imports Routing FileSys
begin

text \<open>
  Finding the endpoints of a repository: the frontmatter of \<open>SKILL.md\<close> files and the scan of a repository's dot-directories
  (\<open>src/internal/session/scanner.go\<close>), and the optional validation of skills by an external tool
  (\<open>src/internal/session/validate.go\<close>). The YAML decoder and the tool are parameters; directories and files are read through
  functions that may fail.
\<close>

section \<open>Skill files\<close>

definition SkillSendable :: string where "SkillSendable = ''dmail-sendable''"
definition SkillReadable :: string where "SkillReadable = ''dmail-readable''"

record dmail_capability =
  cap_Kind :: string
  cap_Description :: string

record skill_metadata =
  sm_SchemaVersion :: string
  sm_Produces :: "dmail_capability list"
  sm_Consumes :: "dmail_capability list"

record skill_frontmatter =
  sf_Name :: string
  sf_Description :: string
  sf_Produces :: "dmail_capability list"
  sf_Consumes :: "dmail_capability list"
  sf_Metadata :: skill_metadata

type_synonym skill_decoder = "bytes \<Rightarrow> skill_frontmatter result"

fun check_kinds :: "string \<Rightarrow> dmail_capability list \<Rightarrow> go_error option" where
  "check_kinds field [] = None"
| "check_kinds field (c # cs) =
     (case ParseDMailKind (cap_Kind c) of
        Inl e \<Rightarrow> Some (wrapf (field @ '': '') e)
      | Inr _ \<Rightarrow> check_kinds field cs)"

text \<open>The checks after decoding, with the capabilities taken from the metadata.\<close>

definition check_skill :: "skill_frontmatter \<Rightarrow> skill_frontmatter result" where
  "check_skill skill =
     (if sf_Produces skill \<noteq> [] \<or> sf_Consumes skill \<noteq> []
      then Inl (errorf (''top-level produces/consumes is not supported; use metadata with dmail-schema-version: '' @ Quote ''1''))
      else let md = sf_Metadata skill
           in if sm_SchemaVersion md = [] \<and> (sm_Produces md \<noteq> [] \<or> sm_Consumes md \<noteq> [])
              then Inl (errorf ''metadata contains produces/consumes but missing required dmail-schema-version'')
              else if sm_SchemaVersion md \<noteq> [] \<and> sm_SchemaVersion md \<noteq> SupportedDMailSchemaVersion
              then Inl (errorf (''unsupported dmail-schema-version '' @ Quote (sm_SchemaVersion md) @ '': only '' @ Quote ''1'' @ '' is supported''))
              else let skill = (if sm_SchemaVersion md = [] then skill
                                else skill\<lparr>sf_Produces := sm_Produces md, sf_Consumes := sm_Consumes md\<rparr>)
                   in case check_kinds ''produces'' (sf_Produces skill) of
                        Some e \<Rightarrow> Inl e
                      | None \<Rightarrow> (case check_kinds ''consumes'' (sf_Consumes skill) of Some e \<Rightarrow> Inl e | None \<Rightarrow> Inr skill))"

definition ParseSkillFrontmatter :: "skill_decoder \<Rightarrow> bytes \<Rightarrow> skill_frontmatter result" where
  "ParseSkillFrontmatter yaml content =
     (if \<not> HasPrefix content ''---'' then Inl (errorf ''no YAML frontmatter found: file must start with ---'')
      else let rest = drop 3 content
           in case Index rest (CHR 0x0A # ''---'') of
                None \<Rightarrow> Inl (errorf ''no closing --- found for YAML frontmatter'')
              | Some idx \<Rightarrow> (case yaml (take idx rest) of Inl e \<Rightarrow> Inl e | Inr skill \<Rightarrow> check_skill skill))"

section \<open>Scanning\<close>

text \<open>What the scan sees of the file system: the entries of a directory with whether they are directories, files, absolute paths.\<close>

record tree =
  tr_ReadDir :: "path \<Rightarrow> (string \<times> bool) list result"
  tr_ReadFile :: "path \<Rightarrow> bytes result"
  tr_Abs :: "path \<Rightarrow> path result"

definition StateDir :: string where "StateDir = ''.phonewave''"

definition skill_path :: "path \<Rightarrow> string \<Rightarrow> string \<Rightarrow> path" where
  "skill_path repoPath dirName skill = path_Join [repoPath, dirName, ''skills'', skill, ''SKILL.md'']"

definition scanEndpoint :: "skill_decoder \<Rightarrow> tree \<Rightarrow> path \<Rightarrow> string \<Rightarrow> (endpoint \<times> bool) result" where
  "scanEndpoint yaml tree repoPath dirName =
     (let ep = \<lparr>ep_Dir = dirName, ep_Produces = [], ep_Consumes = []\<rparr>;
          sendable = (case tr_ReadFile tree (skill_path repoPath dirName SkillSendable) of
                        Inl _ \<Rightarrow> Inr (ep, False)
                      | Inr data \<Rightarrow>
                          (case ParseSkillFrontmatter yaml data of
                             Inl e \<Rightarrow> Inl e
                           | Inr skill \<Rightarrow> Inr (ep\<lparr>ep_Produces := map cap_Kind (sf_Produces skill)\<rparr>, True)))
      in case sendable of
           Inl e \<Rightarrow> Inl e
         | Inr (ep, found) \<Rightarrow>
             (case tr_ReadFile tree (skill_path repoPath dirName SkillReadable) of
                Inl _ \<Rightarrow> Inr (ep, found)
              | Inr data \<Rightarrow>
                  (case ParseSkillFrontmatter yaml data of
                     Inl e \<Rightarrow> Inl e
                   | Inr skill \<Rightarrow> Inr (ep\<lparr>ep_Consumes := map cap_Kind (sf_Consumes skill)\<rparr>, True))))"

definition is_tool_dir :: "string \<times> bool \<Rightarrow> bool" where
  "is_tool_dir = (\<lambda>(name, isDir). isDir \<and> HasPrefix name ''.'' \<and> name \<noteq> ''.git'' \<and> name \<noteq> ''.github'' \<and> name \<noteq> StateDir)"

fun scan_entries :: "skill_decoder \<Rightarrow> tree \<Rightarrow> path \<Rightarrow> (string \<times> bool) list \<Rightarrow> endpoint list result" where
  "scan_entries yaml tree repoPath [] = Inr []"
| "scan_entries yaml tree repoPath (entry # entries) =
     (if \<not> is_tool_dir entry then scan_entries yaml tree repoPath entries
      else case scanEndpoint yaml tree repoPath (fst entry) of
             Inl e \<Rightarrow> Inl e
           | Inr (ep, found) \<Rightarrow>
               (case scan_entries yaml tree repoPath entries of
                  Inl e \<Rightarrow> Inl e
                | Inr eps \<Rightarrow> Inr (if found then ep # eps else eps)))"

definition ScanRepository :: "skill_decoder \<Rightarrow> tree \<Rightarrow> path \<Rightarrow> endpoint list result" where
  "ScanRepository yaml tree repoPath =
     (case tr_ReadDir tree repoPath of Inl e \<Rightarrow> Inl e | Inr entries \<Rightarrow> scan_entries yaml tree repoPath entries)"

section \<open>Validation by skills-ref\<close>

text \<open>The directory ancestors are tried until \<open>filepath.Dir\<close> gives its argument back. A loop that would not end has the value \<open>None\<close>.\<close>

definition skills_ref_file :: "path \<Rightarrow> path" where
  "skills_ref_file dir = path_Join [dir, ''skills-ref'', ''skills-ref'', ''pyproject.toml'']"

partial_function (option) walk_up :: "(path \<Rightarrow> bool) \<Rightarrow> path \<Rightarrow> path option" where
  "walk_up exists dir =
     (if exists (skills_ref_file dir) then Some (path_Join [dir, ''skills-ref'', ''skills-ref''])
      else let parent = Dir dir in if parent = dir then Some [] else walk_up exists parent)"

definition walkUpForSkillsRef :: "(path \<Rightarrow> bool) \<Rightarrow> path \<Rightarrow> path option" where
  "walkUpForSkillsRef exists startDir = walk_up exists startDir"

text \<open>The environment variable, the resolved path of the executable and the working directory, as far as they are known.\<close>

definition findSkillsRefDir :: "(path \<Rightarrow> bool) \<Rightarrow> string \<Rightarrow> path option \<Rightarrow> path option \<Rightarrow> path option" where
  "findSkillsRefDir exists env exe cwd =
     (if env \<noteq> [] \<and> exists (path_Join [env, ''pyproject.toml'']) then Some env
      else Option.bind (case exe of None \<Rightarrow> Some [] | Some exe \<Rightarrow> walkUpForSkillsRef exists (Dir exe)) (\<lambda>dir.
             if dir \<noteq> [] then Some dir
             else case cwd of None \<Rightarrow> Some [] | Some cwd \<Rightarrow> walkUpForSkillsRef exists cwd))"

definition parseValidationOutput :: "string \<Rightarrow> string list" where
  "parseValidationOutput output =
     List.map_filter (\<lambda>line. let line = TrimSpace line in if HasPrefix line ''- '' then Some (drop 2 line) else None)
       (Split CHR 0x0A output)"

text \<open>A run of the tool: not available, success, exit code 1 with its output, or another failure.\<close>

datatype tool_run = ToolMissing | ToolPassed | ToolExit1 string | ToolFailed go_error string

definition ValidateSkillDir :: "(path \<Rightarrow> tool_run) \<Rightarrow> path \<Rightarrow> string list result" where
  "ValidateSkillDir run skillDir =
     (case run skillDir of
        ToolMissing \<Rightarrow> Inr []
      | ToolPassed \<Rightarrow> Inr []
      | ToolExit1 output \<Rightarrow> Inr (parseValidationOutput output)
      | ToolFailed e output \<Rightarrow> Inl (errorf (''skills-ref validate: '' @ err_msg e @ '': '' @ output)))"

definition validate_skill :: "(path \<Rightarrow> tool_run) \<Rightarrow> (path \<Rightarrow> go_error option) \<Rightarrow> path \<Rightarrow> endpoint \<Rightarrow> string \<Rightarrow> string list" where
  "validate_skill run stat repoPath ep skillName =
     (let epLabel = Base repoPath @ ''/'' @ ep_Dir ep;
          skillDir = path_Join [repoPath, ep_Dir ep, ''skills'', skillName]
      in case stat (path_Join [skillDir, ''SKILL.md'']) of
           Some err \<Rightarrow> if errors_Is err ErrNotExist then []
                       else [''skills-ref: cannot access '' @ epLabel @ ''/'' @ skillName @ '' SKILL.md: '' @ err_msg err]
         | None \<Rightarrow>
             (case ValidateSkillDir run skillDir of
                Inl e \<Rightarrow> [''skills-ref validate '' @ epLabel @ ''/'' @ skillName @ '': '' @ err_msg e]
              | Inr problems \<Rightarrow> map (\<lambda>p. ''skills-ref: '' @ epLabel @ ''/'' @ skillName @ '': '' @ p) problems))"

definition validateEndpointSkills :: "(path \<Rightarrow> tool_run) \<Rightarrow> (path \<Rightarrow> go_error option) \<Rightarrow> path \<Rightarrow> endpoint \<Rightarrow> string list" where
  "validateEndpointSkills run stat repoPath ep =
     concat (map (validate_skill run stat repoPath ep) [SkillSendable, SkillReadable])"

text \<open>\<open>pool\<close> is the worker pool of package \<open>pond\<close>: what waiting for the submitted tasks returns, given their values.\<close>

type_synonym 'a pool = "'a list \<Rightarrow> 'a list \<times> go_error option"

definition collectSkillWarnings ::
  "(path \<Rightarrow> tool_run) \<Rightarrow> (path \<Rightarrow> go_error option) \<Rightarrow> string list pool \<Rightarrow> config \<Rightarrow> path \<Rightarrow> string list" where
  "collectSkillWarnings run stat pool cfg filterRepoPath =
     (let targets = concat (map (\<lambda>repo. if filterRepoPath \<noteq> [] \<and> rp_Path repo \<noteq> filterRepoPath then []
                                        else map (Pair (rp_Path repo)) (rp_Endpoints repo)) (cfg_Repositories cfg))
      in if targets = [] then []
         else case pool (map (\<lambda>(repoPath, ep). validateEndpointSkills run stat repoPath ep) targets) of
                (results, waitErr) \<Rightarrow>
                  concat results @ (case waitErr of None \<Rightarrow> [] | Some e \<Rightarrow> [''skills_ref scan aborted: '' @ err_msg e]))"

section \<open>Walking up ends\<close>

text \<open>The first of the ancestors, the directory itself included, with the project file, if there is one below step \<open>n\<close>.\<close>

definition first_above :: "(path \<Rightarrow> bool) \<Rightarrow> nat \<Rightarrow> path \<Rightarrow> nat option" where
  "first_above exists n dir = List.find (\<lambda>k. exists (skills_ref_file ((Dir ^^ k) dir))) [0..<Suc n]"

lemma find_upt_Suc: "List.find P [0..<Suc n] = (if P 0 then Some 0 else map_option Suc (List.find (\<lambda>k. P (Suc k)) [0..<n]))"
proof -
  have "List.find P (map Suc xs) = map_option Suc (List.find (\<lambda>k. P (Suc k)) xs)" for xs by (induction xs) auto
  then show ?thesis by (simp add: upt_conv_Cons map_Suc_upt[symmetric] del: upt_Suc)
qed

lemma walk_up_eq:
  assumes "Dir ((Dir ^^ n) dir) = (Dir ^^ n) dir"
  shows "walk_up exists dir = Some (case first_above exists n dir of
    None \<Rightarrow> [] | Some k \<Rightarrow> path_Join [(Dir ^^ k) dir, ''skills-ref'', ''skills-ref''])"
  using assms
proof (induction n arbitrary: dir)
  case 0
  then show ?case by (subst walk_up.simps) (simp add: first_above_def)
next
  case (Suc n)
  show ?case
  proof (cases "exists (skills_ref_file dir)")
    case True
    then show ?thesis by (subst walk_up.simps) (simp add: first_above_def find_upt_Suc del: upt_Suc)
  next
    case no: False
    show ?thesis
    proof (cases "Dir dir = dir")
      case True
      then have "(Dir ^^ k) dir = dir" for k by (induction k) simp_all
      then have "first_above exists (Suc n) dir = None" using no by (auto simp: first_above_def find_None_iff)
      with True no show ?thesis by (subst walk_up.simps) simp
    next
      case False
      have "Dir ((Dir ^^ n) (Dir dir)) = (Dir ^^ n) (Dir dir)" using Suc.prems by (simp add: funpow_swap1)
      note IH = Suc.IH[OF this]
      have "first_above exists (Suc n) dir = map_option Suc (first_above exists n (Dir dir))"
        using no by (simp add: first_above_def find_upt_Suc[of _ "Suc n"] funpow_swap1 del: upt_Suc)
      with IH False no show ?thesis
        by (subst walk_up.simps) (simp add: funpow_swap1 split: option.splits)
    qed
  qed
qed

text \<open>C31: Searching the ancestors of a directory for the bundled validator ends for every start directory, clean or not, absolute or
  relative: going up reaches a directory that is its own parent, and the result is the nearest ancestor that has the project file,
  or empty when none of them has.\<close>

theorem walkUpForSkillsRef_terminates:
  "\<exists>n. Dir ((Dir ^^ n) startDir) = (Dir ^^ n) startDir \<and>
     walkUpForSkillsRef exists startDir = Some (case first_above exists n startDir of
       None \<Rightarrow> [] | Some k \<Rightarrow> path_Join [(Dir ^^ k) startDir, ''skills-ref'', ''skills-ref''])"
  using Dir_reaches_top[of startDir] walk_up_eq[of _ startDir exists] unfolding walkUpForSkillsRef_def by blast

end
