(* ===== verification/Setup.thy ===== *)
theory Setup
  imports Scanner "HOL-Library.AList" "HOL-Library.Multiset"
begin

text \<open>
  Building and maintaining the configuration: \<open>src/internal/session/setup.go\<close> (\<open>Init\<close>, \<open>Add\<close>, \<open>Remove\<close>, \<open>Sync\<close> and the
  differences a sync reports), the routing check of \<open>src/internal/session/crosscheck.go\<close> and the validated values that commands
  are made of (\<open>src/internal/domain/primitives.go\<close>, \<open>command.go\<close>). Go's maps with the snapshots are association lists; the order in
  which Go iterates over them is unspecified, and what is shown of the reported differences does not depend on it.
\<close>

section \<open>Validated values\<close>

definition NewRepoPath :: "string \<Rightarrow> path result" where
  "NewRepoPath raw = (if raw = [] then Inl (errorf ''RepoPath is required'') else Inr raw)"

definition NewConfigPath :: "string \<Rightarrow> path result" where
  "NewConfigPath raw = (if raw = [] then Inl (errorf ''ConfigPath is required'') else Inr raw)"

definition NewNonEmptyRepoPaths :: "path list \<Rightarrow> path list result" where
  "NewNonEmptyRepoPaths paths = (if paths = [] then Inl (errorf ''at least one RepoPath is required'') else Inr paths)"

definition NewRetryInterval :: "duration \<Rightarrow> duration result" where
  "NewRetryInterval d = (if d \<le> 0 then Inl (errorf ''RetryInterval must be positive'') else Inr d)"

definition NewMaxRetries :: "int \<Rightarrow> int result" where
  "NewMaxRetries n = (if n < 0 then Inl (errorf ''MaxRetries must be non-negative'') else Inr n)"

section \<open>Results\<close>

record init_result =
  ir_Config :: config
  ir_Orphans :: orphan_report
  ir_RepoCount :: nat
  ir_Warnings :: "string list"

record add_result =
  ar_Orphans :: orphan_report
  ar_Warnings :: "string list"

record endpoint_diff =
  ed_Repo :: string
  ed_Dir :: string
  ed_Change :: string

record route_diff =
  rd_Kind :: string
  rd_From :: string
  rd_Change :: string

record sync_report =
  sy_Orphans :: orphan_report
  sy_EndpointChanges :: "endpoint_diff list"
  sy_RouteChanges :: "route_diff list"
  sy_RepoCount :: nat
  sy_TotalRoutes :: nat
  sy_Warnings :: "string list"

section \<open>Snapshots and their differences\<close>

type_synonym 'v snapshot = "(string \<times> 'v) list"

definition endpoint_key :: "path \<Rightarrow> endpoint \<Rightarrow> string" where
  "endpoint_key repoPath ep = repoPath @ ''/'' @ ep_Dir ep"

definition snapshotEndpoints :: "config \<Rightarrow> endpoint snapshot" where
  "snapshotEndpoints cfg =
     fold (\<lambda>repo snap. fold (\<lambda>ep. AList.update (endpoint_key (rp_Path repo) ep) ep) (rp_Endpoints repo) snap) (cfg_Repositories cfg) []"

definition route_key :: "route_config \<Rightarrow> string" where
  "route_key r = rc_RepoPath r @ '':'' @ rc_Kind r @ '':'' @ rc_From r"

definition snapshotRoutes :: "config \<Rightarrow> route_config snapshot" where
  "snapshotRoutes cfg = fold (\<lambda>r. AList.update (route_key r) r) (cfg_Routes cfg) []"

definition splitEndpointKey :: "string \<Rightarrow> string \<times> string" where
  "splitEndpointKey key =
     (if CHR ''/'' \<notin> set key then (key, [])
      else let dir = last (Split CHR ''/'' key) in (Base (take (length key - length dir - 1) key), dir))"

definition slicesEqual :: "string list \<Rightarrow> string list \<Rightarrow> bool" where
  "slicesEqual a b = (length a = length b \<and> sort a = sort b)"

definition endpointEqual :: "endpoint \<Rightarrow> endpoint \<Rightarrow> bool" where
  "endpointEqual a b = (slicesEqual (ep_Produces a) (ep_Produces b) \<and> slicesEqual (ep_Consumes a) (ep_Consumes b))"

definition endpoint_diff_of :: "string \<Rightarrow> string \<Rightarrow> endpoint_diff" where
  "endpoint_diff_of key change = (case splitEndpointKey key of (repo, dir) \<Rightarrow> \<lparr>ed_Repo = repo, ed_Dir = dir, ed_Change = change\<rparr>)"

definition diffEndpoints :: "endpoint snapshot \<Rightarrow> endpoint snapshot \<Rightarrow> endpoint_diff list" where
  "diffEndpoints old latest =
     List.map_filter (\<lambda>(key, newEp).
       case map_of old key of
         None \<Rightarrow> Some (endpoint_diff_of key ''added'')
       | Some oldEp \<Rightarrow> if endpointEqual oldEp newEp then None else Some (endpoint_diff_of key ''changed'')) latest @
     List.map_filter (\<lambda>(key, _). if map_of latest key = None then Some (endpoint_diff_of key ''removed'') else None) old"

definition route_diff_of :: "route_config \<Rightarrow> string \<Rightarrow> route_diff" where
  "route_diff_of r change = \<lparr>rd_Kind = rc_Kind r, rd_From = rc_From r, rd_Change = change\<rparr>"

definition diffRoutes :: "route_config snapshot \<Rightarrow> route_config snapshot \<Rightarrow> route_diff list" where
  "diffRoutes old latest =
     List.map_filter (\<lambda>(key, r). if map_of old key = None then Some (route_diff_of r ''added'') else None) latest @
     List.map_filter (\<lambda>(key, r). if map_of latest key = None then Some (route_diff_of r ''removed'') else None) old"

section \<open>The four operations\<close>

text \<open>\<open>su_warnings\<close> is \<open>collectSkillWarnings\<close> on its own parameters, \<open>su_now\<close> the time.\<close>

record setup_io =
  su_yaml :: skill_decoder
  su_tree :: tree
  su_warnings :: "config \<Rightarrow> path \<Rightarrow> string list"
  su_now :: time
  su_initPool :: "(path \<times> endpoint list) result pool"
  su_syncPool :: "repo_config result pool"

definition scan_task :: "setup_io \<Rightarrow> path \<Rightarrow> (path \<times> endpoint list) result" where
  "scan_task io repoPath =
     (case tr_Abs (su_tree io) repoPath of
        Inl e \<Rightarrow> Inl (wrapf (''invalid path '' @ Quote repoPath @ '': '') e)
      | Inr absPath \<Rightarrow>
          (case ScanRepository (su_yaml io) (su_tree io) absPath of
             Inl e \<Rightarrow> Inl (wrapf (''scan '' @ Quote absPath @ '': '') e)
           | Inr eps \<Rightarrow> Inr (absPath, eps)))"

fun add_results :: "(path \<times> endpoint list) result list \<Rightarrow> config \<Rightarrow> config result" where
  "add_results [] cfg = Inr cfg"
| "add_results (Inl e # rs) cfg = Inl e"
| "add_results (Inr (absPath, eps) # rs) cfg = add_results rs (AddRepository cfg absPath eps)"

definition Init :: "setup_io \<Rightarrow> path list \<Rightarrow> init_result result" where
  "Init io repoPaths =
     (case su_initPool io (map (scan_task io) repoPaths) of
        (_, Some e) \<Rightarrow> Inl (wrapf ''repo scan tasks failed: '' e)
      | (scanResults, None) \<Rightarrow>
          (case add_results scanResults \<lparr>cfg_LastSynced = su_now io, cfg_Repositories = [], cfg_Routes = []\<rparr> of
             Inl e \<Rightarrow> Inl e
           | Inr cfg \<Rightarrow>
               let cfg = UpdateRoutes cfg
               in Inr \<lparr>ir_Config = cfg, ir_Orphans = DetectOrphansPerRepo cfg, ir_RepoCount = length repoPaths,
                       ir_Warnings = su_warnings io cfg []\<rparr>))"

definition Add :: "setup_io \<Rightarrow> path \<Rightarrow> config \<Rightarrow> add_result result \<times> config" where
  "Add io repoPath cfg =
     (case tr_Abs (su_tree io) repoPath of
        Inl e \<Rightarrow> (Inl (wrapf (''invalid path '' @ Quote repoPath @ '': '') e), cfg)
      | Inr absPath \<Rightarrow>
          if list_ex (\<lambda>repo. rp_Path repo = absPath) (cfg_Repositories cfg)
          then (Inl (errorf (''repository '' @ Quote absPath @ '' already exists in config'')), cfg)
          else (case ScanRepository (su_yaml io) (su_tree io) absPath of
                  Inl e \<Rightarrow> (Inl (wrapf (''scan '' @ Quote absPath @ '': '') e), cfg)
                | Inr eps \<Rightarrow>
                    let cfg = (UpdateRoutes (AddRepository cfg absPath eps))\<lparr>cfg_LastSynced := su_now io\<rparr>
                    in (Inr \<lparr>ar_Orphans = DetectOrphansPerRepo cfg, ar_Warnings = su_warnings io cfg absPath\<rparr>, cfg)))"

definition Remove :: "setup_io \<Rightarrow> path \<Rightarrow> config \<Rightarrow> orphan_report result \<times> config" where
  "Remove io repoPath cfg =
     (case tr_Abs (su_tree io) repoPath of
        Inl e \<Rightarrow> (Inl (wrapf (''invalid path '' @ Quote repoPath @ '': '') e), cfg)
      | Inr absPath \<Rightarrow>
          (case RemoveRepository cfg absPath of
             (False, cfg) \<Rightarrow> (Inl (errorf (''repository '' @ Quote absPath @ '' not found in config'')), cfg)
           | (True, cfg) \<Rightarrow>
               let cfg = (UpdateRoutes cfg)\<lparr>cfg_LastSynced := su_now io\<rparr> in (Inr (DetectOrphansPerRepo cfg), cfg)))"

definition sync_task :: "setup_io \<Rightarrow> path \<Rightarrow> repo_config result" where
  "sync_task io repoPath =
     (case ScanRepository (su_yaml io) (su_tree io) repoPath of
        Inl e \<Rightarrow> Inl (wrapf (''scan '' @ Quote repoPath @ '': '') e)
      | Inr eps \<Rightarrow> Inr \<lparr>rp_Path = repoPath, rp_Endpoints = eps\<rparr>)"

fun all_repos :: "repo_config result list \<Rightarrow> repo_config list result" where
  "all_repos [] = Inr []"
| "all_repos (Inl e # rs) = Inl e"
| "all_repos (Inr r # rs) = (case all_repos rs of Inl e \<Rightarrow> Inl e | Inr repos \<Rightarrow> Inr (r # repos))"

definition Sync :: "setup_io \<Rightarrow> config \<Rightarrow> sync_report result \<times> config" where
  "Sync io cfg =
     (let oldEndpoints = snapshotEndpoints cfg; oldRoutes = snapshotRoutes cfg
      in case su_syncPool io (map (sync_task io \<circ> rp_Path) (cfg_Repositories cfg)) of
           (_, Some e) \<Rightarrow> (Inl (wrapf ''repo rescan tasks failed: '' e), cfg)
         | (scanResults, None) \<Rightarrow>
             (case all_repos scanResults of
                Inl e \<Rightarrow> (Inl e, cfg)
              | Inr newRepos \<Rightarrow>
                  let cfg = (UpdateRoutes (cfg\<lparr>cfg_Repositories := newRepos\<rparr>))\<lparr>cfg_LastSynced := su_now io\<rparr>
                  in (Inr \<lparr>sy_Orphans = DetectOrphansPerRepo cfg,
                           sy_EndpointChanges = diffEndpoints oldEndpoints (snapshotEndpoints cfg),
                           sy_RouteChanges = diffRoutes oldRoutes (snapshotRoutes cfg),
                           sy_RepoCount = length (cfg_Repositories cfg), sy_TotalRoutes = length (cfg_Routes cfg),
                           sy_Warnings = su_warnings io cfg []\<rparr>, cfg)))"

section \<open>Routing check\<close>

record unified_check =
  uc_Name :: string
  uc_Status :: string
  uc_Message :: string
  uc_Hint :: string

definition orphan_check :: "string \<Rightarrow> string \<Rightarrow> string \<Rightarrow> string list \<Rightarrow> unified_check list" where
  "orphan_check name pre hint kinds =
     (if kinds = [] then [] else [\<lparr>uc_Name = name, uc_Status = ''WARN'', uc_Message = pre @ Join '', '' kinds, uc_Hint = hint\<rparr>])"

definition CheckRoutingConsistency :: "config option \<Rightarrow> unified_check list" where
  "CheckRoutingConsistency c =
     (case c of
        None \<Rightarrow> [\<lparr>uc_Name = ''routing'', uc_Status = ''SKIP'', uc_Message = ''no config loaded'', uc_Hint = []\<rparr>]
      | Some cfg \<Rightarrow>
          let orphans = DetectOrphansPerRepo cfg;
              checks = orphan_check ''routing-unconsumed'' ''produced but not consumed: ''
                         ''Add a consumer endpoint for these D-Mail kinds'' (or_UnconsumedKinds orphans) @
                       orphan_check ''routing-unproduced'' ''consumed but not produced: ''
                         ''Add a producer endpoint for these D-Mail kinds or remove the consumer'' (or_UnproducedKinds orphans);
              totalRoutes = sum_list (map (\<lambda>repo. length (DeriveRoutes (rp_Endpoints repo))) (cfg_Repositories cfg))
          in if checks \<noteq> [] then checks
             else [\<lparr>uc_Name = ''routing'', uc_Status = ''OK'',
                    uc_Message = Itoa (int totalRoutes) @ '' route(s) resolved, no orphans'', uc_Hint = []\<rparr>])"

section \<open>Well-formed configurations\<close>

definition endpoint_ok :: "endpoint \<Rightarrow> bool" where
  "endpoint_ok ep \<longleftrightarrow> is_tool_dir (ep_Dir ep, True) \<and> list_all IsValidDMailKind (ep_Produces ep) \<and> list_all IsValidDMailKind (ep_Consumes ep)"

text \<open>Endpoints are tool directories with valid kinds, and the routes are the ones their endpoints give.\<close>

definition config_ok :: "config \<Rightarrow> bool" where
  "config_ok c \<longleftrightarrow> (\<forall>repo \<in> set (cfg_Repositories c). list_all endpoint_ok (rp_Endpoints repo)) \<and> cfg_Routes c = cfg_Routes (UpdateRoutes c)"

lemma check_kinds_None: "check_kinds field cs = None \<longleftrightarrow> list_all IsValidDMailKind (map cap_Kind cs)"
  by (induction cs) (auto simp: ParseDMailKind_def)

lemma check_skill_valid:
  "check_skill sk = Inr sk' \<Longrightarrow> list_all IsValidDMailKind (map cap_Kind (sf_Produces sk')) \<and> list_all IsValidDMailKind (map cap_Kind (sf_Consumes sk'))"
  by (auto simp: check_skill_def Let_def check_kinds_None split: if_splits option.splits)

lemma ParseSkillFrontmatter_valid:
  assumes "ParseSkillFrontmatter yaml data = Inr sk"
  shows "list_all IsValidDMailKind (map cap_Kind (sf_Produces sk))" and "list_all IsValidDMailKind (map cap_Kind (sf_Consumes sk))"
proof -
  obtain sk0 where "check_skill sk0 = Inr sk"
    using assms by (auto simp: ParseSkillFrontmatter_def Let_def split: if_splits option.splits sum.splits)
  then show "list_all IsValidDMailKind (map cap_Kind (sf_Produces sk))" "list_all IsValidDMailKind (map cap_Kind (sf_Consumes sk))"
    using check_skill_valid by blast+
qed

lemma scanEndpoint_valid:
  "scanEndpoint yaml tree p dir = Inr (ep, found) \<Longrightarrow>
   ep_Dir ep = dir \<and> list_all IsValidDMailKind (ep_Produces ep) \<and> list_all IsValidDMailKind (ep_Consumes ep)"
  by (auto simp: scanEndpoint_def Let_def split: sum.splits) (erule ParseSkillFrontmatter_valid)+

lemma scan_entries_ok: "scan_entries yaml tree p es = Inr eps \<Longrightarrow> list_all endpoint_ok eps"
proof (induction es arbitrary: eps)
  case (Cons e es)
  then show ?case
    by (cases e) (auto simp: endpoint_ok_def is_tool_dir_def dest!: scanEndpoint_valid split: if_splits sum.splits)
qed simp

lemma ScanRepository_ok: "ScanRepository yaml tree p = Inr eps \<Longrightarrow> list_all endpoint_ok eps"
  by (auto simp: ScanRepository_def dest: scan_entries_ok split: sum.splits)

lemma UpdateRoutes_simps [simp]:
  "cfg_Repositories (UpdateRoutes c) = cfg_Repositories c"
  "cfg_LastSynced (UpdateRoutes c) = cfg_LastSynced c"
  "UpdateRoutes (UpdateRoutes c) = UpdateRoutes c"
  "UpdateRoutes (c\<lparr>cfg_LastSynced := t\<rparr>) = (UpdateRoutes c)\<lparr>cfg_LastSynced := t\<rparr>"
  by (simp_all add: UpdateRoutes_def)

lemma config_ok_UpdateRoutes:
  "config_ok ((UpdateRoutes c)\<lparr>cfg_LastSynced := t\<rparr>) \<longleftrightarrow> (\<forall>repo \<in> set (cfg_Repositories c). list_all endpoint_ok (rp_Endpoints repo))"
  by (simp add: config_ok_def)

lemma add_results_ok:
  "add_results rs c = Inr c' \<Longrightarrow> (\<forall>p eps. Inr (p, eps) \<in> set rs \<longrightarrow> list_all endpoint_ok eps) \<Longrightarrow>
   (\<forall>repo \<in> set (cfg_Repositories c). list_all endpoint_ok (rp_Endpoints repo)) \<Longrightarrow>
   (\<forall>repo \<in> set (cfg_Repositories c'). list_all endpoint_ok (rp_Endpoints repo))"
  by (induction rs c rule: add_results.induct) (auto simp: AddRepository_def)

text \<open>A worker pool that returns no error returns the values of its tasks in their order.\<close>

definition keeps_order :: "'a pool \<Rightarrow> bool" where
  "keeps_order pool \<longleftrightarrow> (\<forall>rs. snd (pool rs) = None \<longrightarrow> fst (pool rs) = rs)"

lemma keeps_orderD: "keeps_order pool \<Longrightarrow> pool rs = (rs', None) \<Longrightarrow> rs' = rs"
  unfolding keeps_order_def by (metis fst_conv snd_conv)

lemma Init_ok:
  assumes "keeps_order (su_initPool io)" and "Init io paths = Inr r"
  shows "config_ok (ir_Config r)"
proof -
  obtain c where run: "add_results (map (scan_task io) paths) \<lparr>cfg_LastSynced = su_now io, cfg_Repositories = [], cfg_Routes = []\<rparr> = Inr c"
    and r: "ir_Config r = UpdateRoutes c"
    using assms(2)
    by (auto simp: Init_def Let_def split: prod.splits option.splits sum.splits dest: keeps_orderD[OF assms(1)])
  have "list_all endpoint_ok eps" if "Inr (p, eps) \<in> set (map (scan_task io) paths)" for p eps
    using that by (auto simp: scan_task_def dest: ScanRepository_ok split: sum.splits)
  with add_results_ok[OF run] show ?thesis
    by (simp add: r config_ok_def)
qed

section \<open>Operations on a loaded configuration\<close>

text \<open>
  The contract the three operations share: an error leaves the configuration as it was, and a well-formed configuration stays so.
\<close>

locale config_operation =
  fixes run :: "config \<Rightarrow> 'r result \<times> config"
  assumes error_keeps: "run c = (Inl e, c') \<Longrightarrow> c' = c"
    and success_ok: "run c = (Inr r, c') \<Longrightarrow> config_ok c \<Longrightarrow> config_ok c'"
begin

lemma keeps_ok: "config_ok c \<Longrightarrow> config_ok (snd (run c))"
  by (cases "run c"; cases "fst (run c)") (auto dest: error_keeps success_ok)

end

interpretation add_op: config_operation "Add io p" for io p
proof unfold_locales
  show "Add io p c = (Inl e, c') \<Longrightarrow> c' = c" for c e c'
    by (auto simp: Add_def Let_def split: sum.splits if_splits)
  show "config_ok c'" if "Add io p c = (Inr r, c')" "config_ok c" for c r c'
    using that
    by (auto simp: Add_def Let_def config_ok_UpdateRoutes AddRepository_def config_ok_def[of c] dest: ScanRepository_ok split: sum.splits if_splits)
qed

lemma remove_first_repo_subset: "remove_first_repo p rs = Some rs' \<Longrightarrow> set rs' \<subseteq> set rs"
  by (induction rs arbitrary: rs') (auto split: if_splits)

interpretation remove_op: config_operation "Remove io p" for io p
proof unfold_locales
  show "Remove io p c = (Inl e, c') \<Longrightarrow> c' = c" for c e c'
    by (auto simp: Remove_def RemoveRepository_def Let_def split: sum.splits option.splits)
  show "config_ok c'" if "Remove io p c = (Inr r, c')" "config_ok c" for c r c'
    using that remove_first_repo_subset
    by (fastforce simp: Remove_def RemoveRepository_def Let_def config_ok_UpdateRoutes config_ok_def[of c] split: sum.splits option.splits)
qed

lemma all_repos_Inr: "all_repos rs = Inr repos \<longleftrightarrow> rs = map Inr repos"
proof (induction rs arbitrary: repos rule: all_repos.induct)
  case (3 r rs)
  show ?case
  proof (cases "all_repos rs")
    case (Inl e)
    then have "rs \<noteq> map Inr zs" for zs using 3[of zs] by auto
    then show ?thesis using Inl by (auto simp: Cons_eq_map_conv)
  next
    case (Inr zs)
    then show ?thesis using 3[of zs] by (auto dest: map_injective)
  qed
qed (auto simp: Cons_eq_map_conv)

lemma Sync_success:
  assumes "keeps_order (su_syncPool io)" and "Sync io c = (Inr rep, c')"
  shows "\<exists>repos. map (sync_task io \<circ> rp_Path) (cfg_Repositories c) = map Inr repos \<and>
    c' = (UpdateRoutes (c\<lparr>cfg_Repositories := repos\<rparr>))\<lparr>cfg_LastSynced := su_now io\<rparr> \<and>
    sy_EndpointChanges rep = diffEndpoints (snapshotEndpoints c) (snapshotEndpoints c') \<and>
    sy_RouteChanges rep = diffRoutes (snapshotRoutes c) (snapshotRoutes c')"
proof -
  obtain rs where pool: "su_syncPool io (map (sync_task io \<circ> rp_Path) (cfg_Repositories c)) = (rs, None)"
    using assms(2) by (auto simp: Sync_def Let_def split: prod.splits option.splits)
  then have rs: "rs = map (sync_task io \<circ> rp_Path) (cfg_Repositories c)" by (rule keeps_orderD[OF assms(1)])
  obtain repos where repos: "all_repos rs = Inr repos"
    using assms(2) pool by (auto simp: Sync_def Let_def split: sum.splits)
  then have "map (sync_task io \<circ> rp_Path) (cfg_Repositories c) = map Inr repos" using rs all_repos_Inr by metis
  then show ?thesis using assms(2) pool repos by (auto simp: Sync_def Let_def)
qed

lemma sync_task_ok: "sync_task io p = Inr repo \<Longrightarrow> rp_Path repo = p \<and> list_all endpoint_ok (rp_Endpoints repo)"
  by (auto simp: sync_task_def dest: ScanRepository_ok split: sum.splits)

lemma Sync_config_ok:
  assumes "keeps_order (su_syncPool io)" and "Sync io c = (Inr rep, c')"
  shows "config_ok c'"
proof -
  obtain repos where repos: "map (sync_task io \<circ> rp_Path) (cfg_Repositories c) = map Inr repos"
    and c': "c' = (UpdateRoutes (c\<lparr>cfg_Repositories := repos\<rparr>))\<lparr>cfg_LastSynced := su_now io\<rparr>"
    using Sync_success[OF assms] by blast
  have "list_all endpoint_ok (rp_Endpoints repo)" if "repo \<in> set repos" for repo
  proof -
    have "Inr repo \<in> set (map (sync_task io \<circ> rp_Path) (cfg_Repositories c))" using repos that by simp
    then show ?thesis by (auto dest: sync_task_ok[OF sym])
  qed
  then show ?thesis unfolding c' config_ok_UpdateRoutes by simp
qed

interpretation sync_op: config_operation "\<lambda>c. if keeps_order (su_syncPool io) then Sync io c else (Inl (errorf []), c)" for io
proof unfold_locales
  show "(if keeps_order (su_syncPool io) then Sync io c else (Inl (errorf []), c)) = (Inl e, c') \<Longrightarrow> c' = c" for c e c'
    by (auto simp: Sync_def Let_def split: prod.splits option.splits sum.splits if_splits)
  show "(if keeps_order (su_syncPool io) then Sync io c else (Inl (errorf []), c)) = (Inr r, c') \<Longrightarrow> config_ok c'" for c r c'
    using Sync_config_ok by (auto split: if_splits)
qed

text \<open>Any sequence of successful or failed operations by \<open>phonewave add\<close>, \<open>remove\<close> and \<open>sync\<close>.\<close>

inductive config_step :: "config \<Rightarrow> config \<Rightarrow> bool" where
  step_add: "config_step c (snd (Add io p c))"
| step_remove: "config_step c (snd (Remove io p c))"
| step_sync: "keeps_order (su_syncPool io) \<Longrightarrow> config_step c (snd (Sync io c))"

interpretation configs: stepping config_step config_ok "\<lambda>_ _. True"
proof unfold_locales
  show "config_ok c'" if "config_step c c'" "config_ok c" for c c'
    using that
  proof cases
    case (step_sync io)
    then show ?thesis using sync_op.keeps_ok[of c io] that(2) by simp
  qed (auto intro: add_op.keeps_ok remove_op.keeps_ok)
qed simp_all

lemma derived_kind_valid:
  assumes "config_ok c" and "r \<in> set (cfg_Routes c)"
  shows "IsValidDMailKind (rc_Kind r)"
proof -
  have "r \<in> set (cfg_Routes (UpdateRoutes c))" using assms by (simp add: config_ok_def)
  then obtain repo ep where repo: "repo \<in> set (cfg_Repositories c)" "ep \<in> set (rp_Endpoints repo)" "rc_Kind r \<in> set (ep_Produces ep)"
    by (auto simp: UpdateRoutes_def DeriveRoutes_def route_config_of_def derive_route_def Let_def map_filter_def split: if_splits)
  then have "endpoint_ok ep" using assms(1) by (auto simp: config_ok_def list_all_iff)
  then show ?thesis using repo(3) by (simp add: endpoint_ok_def list_all_iff)
qed

text \<open>C18: Whatever \<open>phonewave init\<close> writes and any sequence of add, remove and sync makes of it is well-formed: every endpoint is
  a dot-directory other than .git, .github and .phonewave with valid D-Mail kinds only, and the routes are exactly those derived from
  the endpoints, so every route carries a valid kind.\<close>

theorem configs_are_well_formed:
  assumes "keeps_order (su_initPool io)" and "Init io paths = Inr r" and "config_step\<^sup>*\<^sup>* (ir_Config r) c"
  shows "config_ok c \<and> (\<forall>route \<in> set (cfg_Routes c). IsValidDMailKind (rc_Kind route))"
  using configs.run_inv[OF assms(3) Init_ok[OF assms(1,2)]] derived_kind_valid by blast

text \<open>A repository with a gate that reads reports, and a tree that holds it.\<close>

definition sample_skill :: skill_frontmatter where
  "sample_skill = \<lparr>sf_Name = ''s'', sf_Description = [], sf_Produces = [], sf_Consumes = [],
     sf_Metadata = \<lparr>sm_SchemaVersion = ''1'', sm_Produces = [], sm_Consumes = [\<lparr>cap_Kind = ''report'', cap_Description = []\<rparr>]\<rparr>\<rparr>"

definition sample_tree :: tree where
  "sample_tree = \<lparr>tr_ReadDir = (\<lambda>_. Inr [(''.gate'', True), (''.git'', True), (''main.go'', False)]),
     tr_ReadFile = (\<lambda>p. if HasSuffix p ''dmail-readable/SKILL.md'' then Inr (''---'' @ [CHR 0x0A] @ ''name: s'' @ [CHR 0x0A] @ ''---'')
                        else Inl (not_exist ''open'' p)),
     tr_Abs = Inr\<rparr>"

definition sample_setup :: setup_io where
  "sample_setup = \<lparr>su_yaml = (\<lambda>_. Inr sample_skill), su_tree = sample_tree, su_warnings = (\<lambda>_ _. []), su_now = 5,
     su_initPool = (\<lambda>rs. (rs, None)), su_syncPool = (\<lambda>rs. (rs, None))\<rparr>"

lemma sample_scan:
  "ScanRepository (su_yaml sample_setup) (su_tree sample_setup) ''/r'' = Inr [\<lparr>ep_Dir = ''.gate'', ep_Produces = [], ep_Consumes = [''report'']\<rparr>]"
  by code_simp

lemma sample_pools: "keeps_order (su_initPool sample_setup)" "keeps_order (su_syncPool sample_setup)"
  "\<forall>rs. su_syncPool sample_setup rs = (rs, None)"
  by (simp_all add: keeps_order_def sample_setup_def)

theorem configs_are_well_formed_witness:
  "\<exists>r. Init sample_setup [''/r''] = Inr r \<and> config_ok (snd (Sync sample_setup (ir_Config r))) \<and> length (cfg_Repositories (ir_Config r)) = 1"
proof -
  have task: "scan_task sample_setup ''/r'' = Inr (''/r'', [\<lparr>ep_Dir = ''.gate'', ep_Produces = [], ep_Consumes = [''report'']\<rparr>])"
    using sample_scan by (simp add: scan_task_def sample_setup_def sample_tree_def)
  obtain r where r: "Init sample_setup [''/r''] = Inr r" "length (cfg_Repositories (ir_Config r)) = 1"
  proof -
    have "su_initPool sample_setup = (\<lambda>rs. (rs, None))" by (simp add: sample_setup_def)
    then have "\<exists>r. Init sample_setup [''/r''] = Inr r \<and> length (cfg_Repositories (ir_Config r)) = 1"
      by (simp add: Init_def task Let_def AddRepository_def)
    then show ?thesis using that by blast
  qed
  have "config_step\<^sup>*\<^sup>* (ir_Config r) (snd (Sync sample_setup (ir_Config r)))"
    by (rule r_into_rtranclp) (rule step_sync[OF sample_pools(2)])
  from configs_are_well_formed[OF sample_pools(1) r(1) this] r show ?thesis by blast
qed

section \<open>What a sync reports\<close>

lemma distinct_snapshotEndpoints: "distinct (map fst (snapshotEndpoints c))"
proof -
  have inner: "distinct (map fst s) \<Longrightarrow> distinct (map fst (fold (\<lambda>ep. AList.update (endpoint_key p ep) ep) eps s))" for p eps s
    by (induction eps arbitrary: s) (simp_all add: distinct_update)
  have "distinct (map fst s) \<Longrightarrow> distinct (map fst (fold (\<lambda>repo snap. fold (\<lambda>ep. AList.update (endpoint_key (rp_Path repo) ep) ep)
      (rp_Endpoints repo) snap) rs s))" for rs s
    by (induction rs arbitrary: s) (simp_all add: inner)
  from this[of "[]"] show ?thesis unfolding snapshotEndpoints_def by simp
qed

lemma distinct_snapshotRoutes: "distinct (map fst (snapshotRoutes c))"
proof -
  have "distinct (map fst s) \<Longrightarrow> distinct (map fst (fold (\<lambda>r. AList.update (route_key r) r) rs s))" for rs s
    by (induction rs arbitrary: s) (simp_all add: distinct_update)
  then show ?thesis by (simp add: snapshotRoutes_def)
qed

lemma set_map_filter: "y \<in> set (List.map_filter f xs) \<longleftrightarrow> (\<exists>x \<in> set xs. f x = Some y)"
  by (auto simp: map_filter_def) force

lemma bex_map_of: "distinct (map fst al) \<Longrightarrow> (\<exists>x \<in> set al. P x) \<longleftrightarrow> (\<exists>k v. map_of al k = Some v \<and> P (k, v))"
  by (metis map_of_SomeD map_of_is_SomeI prod.exhaust)

lemma diffEndpoints_iff:
  assumes "distinct (map fst old)" and "distinct (map fst latest)"
  shows "d \<in> set (diffEndpoints old latest) \<longleftrightarrow>
    (\<exists>k. map_of old k = None \<and> map_of latest k \<noteq> None \<and> d = endpoint_diff_of k ''added'') \<or>
    (\<exists>k a b. map_of old k = Some a \<and> map_of latest k = Some b \<and> \<not> endpointEqual a b \<and> d = endpoint_diff_of k ''changed'') \<or>
    (\<exists>k. map_of old k \<noteq> None \<and> map_of latest k = None \<and> d = endpoint_diff_of k ''removed'')"
proof -
  let ?f = "\<lambda>(key, newEp). case map_of old key of
         None \<Rightarrow> Some (endpoint_diff_of key ''added'')
       | Some oldEp \<Rightarrow> if endpointEqual oldEp newEp then None else Some (endpoint_diff_of key ''changed'')"
  let ?g = "\<lambda>(key, _). if map_of latest key = None then Some (endpoint_diff_of key ''removed'') else None"
  note bex_map_of[OF assms(2), of "\<lambda>x. ?f x = Some d"]
  moreover have "?f (k, v) = Some d \<longleftrightarrow> map_of old k = None \<and> d = endpoint_diff_of k ''added'' \<or>
      (\<exists>a. map_of old k = Some a \<and> \<not> endpointEqual a v \<and> d = endpoint_diff_of k ''changed'')" for k v
    by (auto split: option.splits if_splits)
  moreover have "(\<exists>x \<in> set old. ?g x = Some d) \<longleftrightarrow> (\<exists>k. map_of old k \<noteq> None \<and> map_of latest k = None \<and> d = endpoint_diff_of k ''removed'')"
    unfolding bex_map_of[OF assms(1)] by (auto split: if_splits)
  ultimately show ?thesis unfolding diffEndpoints_def set_append Un_iff set_map_filter by auto
qed

lemma diff_same [simp]:
  "distinct (map fst s) \<Longrightarrow> diffEndpoints s s = []" "distinct (map fst t) \<Longrightarrow> diffRoutes t t = []"
proof -
  have eq: "endpointEqual e e" for e by (simp add: endpointEqual_def slicesEqual_def)
  show "diffEndpoints s s = []" if "distinct (map fst s)"
    using that by (auto simp: diffEndpoints_def map_filter_def filter_empty_conv eq split: option.splits dest: weak_map_of_SomeI)
  show "diffRoutes t t = []" if "distinct (map fst t)"
    using that by (auto simp: diffRoutes_def map_filter_def filter_empty_conv split: if_splits)
qed

lemma repos_of_same_tree:
  assumes "su_yaml io' = su_yaml io" and "su_tree io' = su_tree io" and "map (sync_task io \<circ> rp_Path) rs = map Inr repos"
  shows "map (sync_task io' \<circ> rp_Path) repos = map Inr repos" and "map rp_Path repos = map rp_Path rs"
proof -
  have len: "length repos = length rs" using assms(3) by (metis length_map)
  have nth: "sync_task io (rp_Path (rs ! i)) = Inr (repos ! i)" if "i < length rs" for i
    using arg_cong[OF assms(3), of "\<lambda>l. l ! i"] that len by simp
  have p: "rp_Path (repos ! i) = rp_Path (rs ! i)" if "i < length rs" for i using sync_task_ok[OF nth[OF that]] by simp
  have "sync_task io' = sync_task io" unfolding fun_eq_iff sync_task_def assms(1,2) by simp
  then show "map (sync_task io' \<circ> rp_Path) repos = map Inr repos" by (intro nth_equalityI) (simp_all add: len nth p)
  show "map rp_Path repos = map rp_Path rs" by (intro nth_equalityI) (simp_all add: len p)
qed

text \<open>A sync over the files of the last one.\<close>

lemma Sync_again:
  assumes "\<forall>rs. su_syncPool io rs = (rs, None)" and "map (sync_task io \<circ> rp_Path) (cfg_Repositories c) = map Inr (cfg_Repositories c)"
    and "UpdateRoutes c = c"
  shows "\<exists>rep. Sync io c = (Inr rep, c\<lparr>cfg_LastSynced := su_now io\<rparr>) \<and> sy_EndpointChanges rep = [] \<and> sy_RouteChanges rep = []"
proof -
  have sn: "snapshotEndpoints (c\<lparr>cfg_LastSynced := t\<rparr>) = snapshotEndpoints c" "snapshotRoutes (c\<lparr>cfg_LastSynced := t\<rparr>) = snapshotRoutes c" for t
    by (simp_all add: snapshotEndpoints_def snapshotRoutes_def)
  have "all_repos (map (sync_task io \<circ> rp_Path) (cfg_Repositories c)) = Inr (cfg_Repositories c)" using assms(2) all_repos_Inr by simp
  then show ?thesis
    using assms(1,3) by (simp add: Sync_def Let_def sn distinct_snapshotEndpoints distinct_snapshotRoutes)
qed

lemma Sync_settles:
  assumes "keeps_order (su_syncPool io)" and "Sync io cfg = (Inr rep, cfg')"
    and "\<forall>rs. su_syncPool io' rs = (rs, None)" and "su_yaml io' = su_yaml io" and "su_tree io' = su_tree io"
  shows "map rp_Path (cfg_Repositories cfg') = map rp_Path (cfg_Repositories cfg)"
    and "\<forall>repo \<in> set (cfg_Repositories cfg'). ScanRepository (su_yaml io) (su_tree io) (rp_Path repo) = Inr (rp_Endpoints repo)"
    and "\<exists>rep'. Sync io' cfg' = (Inr rep', cfg'\<lparr>cfg_LastSynced := su_now io'\<rparr>) \<and> sy_EndpointChanges rep' = [] \<and> sy_RouteChanges rep' = []"
proof -
  obtain repos where repos: "map (sync_task io \<circ> rp_Path) (cfg_Repositories cfg) = map Inr repos"
    and c': "cfg' = (UpdateRoutes (cfg\<lparr>cfg_Repositories := repos\<rparr>))\<lparr>cfg_LastSynced := su_now io\<rparr>"
    using Sync_success[OF assms(1,2)] by blast
  note same = repos_of_same_tree[OF assms(4,5) repos]
  have r': "cfg_Repositories cfg' = repos" by (simp add: c')
  show "map rp_Path (cfg_Repositories cfg') = map rp_Path (cfg_Repositories cfg)" using same(2) r' by simp
  show "\<exists>rep'. Sync io' cfg' = (Inr rep', cfg'\<lparr>cfg_LastSynced := su_now io'\<rparr>) \<and> sy_EndpointChanges rep' = [] \<and> sy_RouteChanges rep' = []"
    by (rule Sync_again[OF assms(3)]) (use same(1) r' in \<open>simp_all add: c'\<close>)
  show "\<forall>repo \<in> set (cfg_Repositories cfg'). ScanRepository (su_yaml io) (su_tree io) (rp_Path repo) = Inr (rp_Endpoints repo)"
  proof
    fix repo assume "repo \<in> set (cfg_Repositories cfg')"
    then have "sync_task io' (rp_Path repo) = Inr repo" using same(1) r' by (auto simp: map_eq_conv)
    then obtain eps where "ScanRepository (su_yaml io) (su_tree io) (rp_Path repo) = Inr eps" "repo = \<lparr>rp_Path = rp_Path repo, rp_Endpoints = eps\<rparr>"
      using assms(4,5) by (auto simp: sync_task_def split: sum.splits)
    then show "ScanRepository (su_yaml io) (su_tree io) (rp_Path repo) = Inr (rp_Endpoints repo)" by (metis repo_config.select_convs(2))
  qed
qed

text \<open>C19: A successful sync keeps the repositories and their order and replaces their endpoints by what the scan finds; it reports
  exactly the endpoint directories that were added, removed or changed their kinds; and a second sync over the same files reports no
  change and changes nothing but the time of the last sync.\<close>

theorem Sync_converges:
  assumes "keeps_order (su_syncPool io)" and "Sync io cfg = (Inr rep, cfg')"
    and "\<forall>rs. su_syncPool io' rs = (rs, None)" and "su_yaml io' = su_yaml io" and "su_tree io' = su_tree io"
  shows "map rp_Path (cfg_Repositories cfg') = map rp_Path (cfg_Repositories cfg) \<and>
    (\<forall>repo \<in> set (cfg_Repositories cfg'). ScanRepository (su_yaml io) (su_tree io) (rp_Path repo) = Inr (rp_Endpoints repo)) \<and>
    (\<forall>d. d \<in> set (sy_EndpointChanges rep) \<longleftrightarrow>
      (let old = map_of (snapshotEndpoints cfg); new = map_of (snapshotEndpoints cfg') in
       (\<exists>k. old k = None \<and> new k \<noteq> None \<and> d = endpoint_diff_of k ''added'') \<or>
       (\<exists>k a b. old k = Some a \<and> new k = Some b \<and> \<not> endpointEqual a b \<and> d = endpoint_diff_of k ''changed'') \<or>
       (\<exists>k. old k \<noteq> None \<and> new k = None \<and> d = endpoint_diff_of k ''removed''))) \<and>
    (\<exists>rep'. Sync io' cfg' = (Inr rep', cfg'\<lparr>cfg_LastSynced := su_now io'\<rparr>) \<and> sy_EndpointChanges rep' = [] \<and> sy_RouteChanges rep' = [])"
proof -
  have "sy_EndpointChanges rep = diffEndpoints (snapshotEndpoints cfg) (snapshotEndpoints cfg')" using Sync_success[OF assms(1,2)] by blast
  then show ?thesis
    unfolding Let_def using diffEndpoints_iff[OF distinct_snapshotEndpoints distinct_snapshotEndpoints] Sync_settles[OF assms] by auto
qed

theorem Sync_converges_witness:
  "\<exists>rep cfg' rep'. Sync sample_setup \<lparr>cfg_LastSynced = 0, cfg_Repositories = [\<lparr>rp_Path = ''/r'', rp_Endpoints = []\<rparr>], cfg_Routes = []\<rparr> = (Inr rep, cfg') \<and>
     endpoint_diff_of ''/r/.gate'' ''added'' \<in> set (sy_EndpointChanges rep) \<and>
     Sync sample_setup cfg' = (Inr rep', cfg'\<lparr>cfg_LastSynced := 5\<rparr>) \<and> sy_EndpointChanges rep' = []"
proof -
  let ?c = "\<lparr>cfg_LastSynced = 0, cfg_Repositories = [\<lparr>rp_Path = ''/r'', rp_Endpoints = []\<rparr>], cfg_Routes = []\<rparr>"
  let ?repo = "\<lparr>rp_Path = ''/r'', rp_Endpoints = [\<lparr>ep_Dir = ''.gate'', ep_Produces = [], ep_Consumes = [''report'']\<rparr>]\<rparr>"
  have task: "sync_task sample_setup ''/r'' = Inr ?repo" using sample_scan by (simp add: sync_task_def)
  have pool: "su_syncPool sample_setup = (\<lambda>rs. (rs, None))" "su_now sample_setup = 5" by (simp_all add: sample_setup_def)
  obtain rep cfg' where run: "Sync sample_setup ?c = (Inr rep, cfg')" "cfg_Repositories cfg' = [?repo]"
    by (simp add: Sync_def Let_def task pool)
  have snap: "map_of (snapshotEndpoints cfg') ''/r/.gate'' \<noteq> None" "map_of (snapshotEndpoints ?c) k = None" for k
    by (simp_all add: snapshotEndpoints_def run(2) endpoint_key_def)
  note res = Sync_converges[OF sample_pools(2) run(1) sample_pools(3) refl refl]
  have "endpoint_diff_of ''/r/.gate'' ''added'' \<in> set (sy_EndpointChanges rep)"
    using res snap unfolding Let_def by blast
  with res run(1) show ?thesis unfolding pool(2) by blast
qed

end
