(* ===== verification/ConfigFile.thy ===== *)
theory ConfigFile
  imports Setup
begin

text \<open>
  The configuration on disk (\<open>src/internal/session/config.go\<close>): the manifest \<open>config.yaml\<close> with the repositories, the resolved
  state \<open>.run/resolved.yaml\<close> with routes and the time of the last sync, the conversion between absolute and relative paths and the
  migration of the old file; the state directory and its \<open>.gitignore\<close> (\<open>state.go\<close>, \<open>init_dirs.go\<close>, \<open>init_gitignore.go\<close>) and the
  adapter that runs \<open>phonewave init\<close> (\<open>init_adapter.go\<close>). The YAML encoder and decoder are parameters. Directories are not part of
  the disk: creating one either fails with an error that is an argument, or not.
\<close>

section \<open>File names\<close>

definition ConfigFile :: string where "ConfigFile = ''config.yaml''"
definition LegacyConfigFile :: string where "LegacyConfigFile = ''phonewave.yaml''"
definition ResolvedStateFile :: string where "ResolvedStateFile = ''resolved.yaml''"

definition DefaultConfigPath :: "path \<Rightarrow> path" where
  "DefaultConfigPath projectRoot = path_Join [projectRoot, StateDir, ConfigFile]"

definition resolvedStatePath :: "path \<Rightarrow> path" where
  "resolvedStatePath cfgPath = path_Join [Dir cfgPath, ''.run'', ResolvedStateFile]"

section \<open>Relative and absolute paths\<close>

definition toRel :: "path \<Rightarrow> path \<Rightarrow> path" where
  "toRel base target = (if target = [] then [] else case Rel base target of Inl _ \<Rightarrow> target | Inr rel \<Rightarrow> rel)"

definition toAbs :: "path \<Rightarrow> path \<Rightarrow> path" where
  "toAbs base target = (if target = [] \<or> IsAbs target then target else path_Join [base, target])"

definition map_paths :: "(path \<Rightarrow> path) \<Rightarrow> config \<Rightarrow> config" where
  "map_paths f cfg =
     cfg\<lparr>cfg_Repositories := map (\<lambda>r. r\<lparr>rp_Path := f (rp_Path r)\<rparr>) (cfg_Repositories cfg),
         cfg_Routes := map (\<lambda>r. r\<lparr>rc_RepoPath := f (rc_RepoPath r)\<rparr>) (cfg_Routes cfg)\<rparr>"

definition convertToRelPaths :: "config \<Rightarrow> path \<Rightarrow> config" where
  "convertToRelPaths cfg configDir = map_paths (toRel configDir) cfg"

definition resolveRelPaths :: "config \<Rightarrow> path \<Rightarrow> config" where
  "resolveRelPaths cfg configDir = map_paths (toAbs configDir) cfg"

section \<open>Reading and writing\<close>

record resolved_state =
  rs_LastSynced :: time
  rs_Routes :: "route_config list"

record config_yaml =
  cy_marshalManifest :: "repo_config list \<Rightarrow> bytes result"
  cy_marshalResolved :: "resolved_state \<Rightarrow> bytes result"
  cy_config :: "bytes \<Rightarrow> config result"
  cy_resolved :: "bytes \<Rightarrow> resolved_state result"

definition LoadConfig :: "config_yaml \<Rightarrow> go_error option \<Rightarrow> go_error option \<Rightarrow> path \<Rightarrow> disk \<Rightarrow> config result" where
  "LoadConfig yaml err rerr p d =
     (case os_ReadFile err p d of
        Inl e \<Rightarrow> Inl e
      | Inr data \<Rightarrow>
          (case cy_config yaml data of
             Inl e \<Rightarrow> Inl (wrapf (''parse '' @ p @ '': '') e)
           | Inr cfg \<Rightarrow>
               let configDir = Dir p;
                   projectRoot = Dir configDir;
                   cfg = resolveRelPaths cfg projectRoot
               in if cfg_Routes cfg \<noteq> [] then Inr cfg
                  else let cfg = (case os_ReadFile rerr (path_Join [configDir, ''.run'', ResolvedStateFile]) d of
                                    Inl _ \<Rightarrow> cfg
                                  | Inr rdata \<Rightarrow>
                                      (case cy_resolved yaml rdata of
                                         Inl _ \<Rightarrow> cfg
                                       | Inr rs \<Rightarrow> resolveRelPaths (cfg\<lparr>cfg_Routes := rs_Routes rs, cfg_LastSynced := rs_LastSynced rs\<rparr>) projectRoot))
                       in Inr (if cfg_Routes cfg = [] \<and> cfg_Repositories cfg \<noteq> [] then UpdateRoutes cfg else cfg)))"

definition config_header :: string where
  "config_header = ''# phonewave configuration'' @ [CHR 0x0A] @ ''# Run '' @ [CHR 0x27] @ ''phonewave init --force'' @ [CHR 0x27] @
     '' to regenerate'' @ [CHR 0x0A, CHR 0x0A]"

record config_io =
  ci_manifest :: write_fault
  ci_mkdir :: "go_error option"
  ci_resolved :: write_fault

text \<open>The part \<open>WriteConfig\<close> and \<open>WriteResolvedOnly\<close> share: the resolved state below the state directory.\<close>

definition write_resolved :: "config_yaml \<Rightarrow> config_io \<Rightarrow> path \<Rightarrow> config \<Rightarrow> disk \<Rightarrow> unit result \<times> disk" where
  "write_resolved yaml io stateDir rel d =
     (case ci_mkdir io of
        Some e \<Rightarrow> (Inl (wrapf ''create .run dir: '' e), d)
      | None \<Rightarrow>
          (case cy_marshalResolved yaml \<lparr>rs_LastSynced = cfg_LastSynced rel, rs_Routes = cfg_Routes rel\<rparr> of
             Inl e \<Rightarrow> (Inl e, d)
           | Inr rsdata \<Rightarrow>
               (case os_WriteFile (ci_resolved io) (path_Join [path_Join [stateDir, ''.run''], ResolvedStateFile]) rsdata d of
                  (Inl e, d) \<Rightarrow> (Inl (wrapf ''write resolved state: '' e), d)
                | (Inr _, d) \<Rightarrow> (Inr (), d))))"

definition WriteConfig :: "config_yaml \<Rightarrow> config_io \<Rightarrow> path \<Rightarrow> config \<Rightarrow> disk \<Rightarrow> unit result \<times> disk" where
  "WriteConfig yaml io p cfg d =
     (let configDir = Dir p;
          rel = convertToRelPaths cfg (Dir configDir)
      in case cy_marshalManifest yaml (cfg_Repositories rel) of
           Inl e \<Rightarrow> (Inl e, d)
         | Inr mdata \<Rightarrow>
             (case os_WriteFile (ci_manifest io) p (config_header @ mdata) d of
                (Inl e, d) \<Rightarrow> (Inl e, d)
              | (Inr _, d) \<Rightarrow> write_resolved yaml io configDir rel d))"

definition WriteResolvedOnly :: "config_yaml \<Rightarrow> config_io \<Rightarrow> path \<Rightarrow> config \<Rightarrow> disk \<Rightarrow> unit result \<times> disk" where
  "WriteResolvedOnly yaml io stateDir cfg d = write_resolved yaml io stateDir (convertToRelPaths cfg (Dir stateDir)) d"

section \<open>The state directory\<close>

text \<open>\<open>.gitignore\<close> entries are searched for as substrings of the file.\<close>

definition missing_entries :: "string \<Rightarrow> string list \<Rightarrow> string list" where
  "missing_entries existing required = filter (\<lambda>entry. \<not> Contains existing entry) required"

definition EnsureGitignoreEntries :: "go_error option \<Rightarrow> write_fault \<Rightarrow> path \<Rightarrow> string list \<Rightarrow> disk \<Rightarrow> unit result \<times> disk" where
  "EnsureGitignoreEntries rerr fault p required d =
     (let existing = (case os_ReadFile rerr p d of Inl _ \<Rightarrow> [] | Inr b \<Rightarrow> b);
          missing = missing_entries existing required
      in if missing = [] then (Inr (), d)
         else let sep = (if existing \<noteq> [] \<and> \<not> HasSuffix existing [CHR 0x0A] then [CHR 0x0A] else []);
                  content = sep @ Join [CHR 0x0A] missing @ [CHR 0x0A];
                  old = (case dk_files d p of None \<Rightarrow> [] | Some b \<Rightarrow> b)
              in case fault of
                   None \<Rightarrow> (Inr (), d\<lparr>dk_files := (dk_files d)(p \<mapsto> old @ content)\<rparr>)
                 | Some (e, None) \<Rightarrow> (Inl e, d)
                 | Some (e, Some part) \<Rightarrow> (Inl e, d\<lparr>dk_files := (dk_files d)(p \<mapsto> old @ part)\<rparr>))"

definition phonewaveGitignoreEntries :: "string list" where
  "phonewaveGitignoreEntries =
     [''watch.pid'', ''watch.started'', ''provider-state.json'', ''delivery.log'', ''events/'', ''.run/'', ''.otel.env'', ''!config.yaml'']"

datatype init_action = InitCreated | InitSkipped | InitUpdated | InitWarning

definition relOrBase :: "path \<Rightarrow> path \<Rightarrow> string \<Rightarrow> string" where
  "relOrBase stateDir p base =
     (if p = stateDir then base @ ''/'' else case Rel (Dir stateDir) p of Inl _ \<Rightarrow> Base p | Inr rel \<Rightarrow> rel @ ''/'')"

record dirs_io =
  dio_existed :: "path \<Rightarrow> bool"
  dio_mkdir :: "path \<Rightarrow> go_error option"

fun make_dirs :: "dirs_io \<Rightarrow> path \<Rightarrow> path list \<Rightarrow> (string \<times> init_action) list \<times> go_error option" where
  "make_dirs io stateDir [] = ([], None)"
| "make_dirs io stateDir (d # ds) =
     (case dio_mkdir io d of
        Some e \<Rightarrow> ([], Some e)
      | None \<Rightarrow>
          let entry = (relOrBase stateDir d (Base stateDir), if dio_existed io d then InitSkipped else InitCreated)
          in case make_dirs io stateDir ds of (entries, e) \<Rightarrow> (entry # entries, e))"

definition EnsureStateDir :: "dirs_io \<Rightarrow> bool \<Rightarrow> string list \<Rightarrow> path \<Rightarrow> (string \<times> init_action) list \<times> go_error option" where
  "EnsureStateDir io mailDirs extraDirs stateDir =
     make_dirs io stateDir
       ([stateDir, path_Join [stateDir, ''.run''], path_Join [stateDir, ''events''], path_Join [stateDir, ''insights'']] @
        (if mailDirs then map (\<lambda>sub. path_Join [stateDir, sub]) [''inbox'', ''outbox'', ''archive''] else []) @
        map (\<lambda>sub. path_Join [stateDir, sub]) extraDirs)"

record state_io =
  si_dirs :: dirs_io
  si_read :: "go_error option"
  si_append :: write_fault

definition EnsurePhonewaveStateDir :: "state_io \<Rightarrow> path \<Rightarrow> disk \<Rightarrow> unit result \<times> disk" where
  "EnsurePhonewaveStateDir io base d =
     (let stateDir = path_Join [base, StateDir]
      in case snd (EnsureStateDir (si_dirs io) False [] stateDir) of
           Some e \<Rightarrow> (Inl e, d)
         | None \<Rightarrow> EnsureGitignoreEntries (si_read io) (si_append io) (path_Join [stateDir, ''.gitignore'']) phonewaveGitignoreEntries d)"

section \<open>Migration of the old file\<close>

record migrate_io =
  mg_statLegacy :: "go_error option"
  mg_statNew :: "go_error option"
  mg_removeStale :: "go_error option"
  mg_mkdir :: "go_error option"
  mg_read :: "go_error option"
  mg_write :: write_fault
  mg_remove :: "go_error option"
  mg_state :: state_io

definition os_Stat :: "go_error option \<Rightarrow> path \<Rightarrow> disk \<Rightarrow> go_error option" where
  "os_Stat err p d = (case dk_files d p of None \<Rightarrow> Some (not_exist ''stat'' p) | Some _ \<Rightarrow> err)"

definition MigrateConfigIfNeeded :: "migrate_io \<Rightarrow> path \<Rightarrow> disk \<Rightarrow> unit result \<times> disk" where
  "MigrateConfigIfNeeded io projectRoot d =
     (let legacyPath = path_Join [projectRoot, LegacyConfigFile]; newPath = DefaultConfigPath projectRoot
      in case os_Stat (mg_statLegacy io) legacyPath d of
           Some e \<Rightarrow> if errors_Is e ErrNotExist then (Inr (), d) else (Inl (wrapf (''check legacy config '' @ legacyPath @ '': '') e), d)
         | None \<Rightarrow>
             if os_Stat (mg_statNew io) newPath d = None
             then (case os_Remove (mg_removeStale io) legacyPath d of
                     (Inl e, d) \<Rightarrow> (Inl (wrapf (''remove stale legacy config '' @ legacyPath @ '': '') e), d)
                   | (Inr _, d) \<Rightarrow> (Inr (), d))
             else (case mg_mkdir io of
                     Some e \<Rightarrow> (Inl (wrapf ''create state dir for migration: '' e), d)
                   | None \<Rightarrow>
                       (case os_ReadFile (mg_read io) legacyPath d of
                          Inl e \<Rightarrow> (Inl (wrapf ''read legacy config: '' e), d)
                        | Inr data \<Rightarrow>
                            (case os_WriteFile (mg_write io) newPath data d of
                               (Inl e, d) \<Rightarrow> (Inl (wrapf ''write migrated config: '' e), d)
                             | (Inr _, d) \<Rightarrow>
                                 (case os_Remove (mg_remove io) legacyPath d of
                                    (Inl e, d) \<Rightarrow> (Inl (wrapf ''remove legacy config: '' e), d)
                                  | (Inr _, d) \<Rightarrow>
                                      (case EnsurePhonewaveStateDir (mg_state io) projectRoot d of
                                         (Inl e, d) \<Rightarrow> (Inl (wrapf ''update state dir gitignore: '' e), d)
                                       | (Inr _, d) \<Rightarrow> (Inr (), d)))))))"

section \<open>Running init\<close>

definition ScanAndInit ::
  "setup_io \<Rightarrow> config_yaml \<Rightarrow> state_io \<Rightarrow> config_io \<Rightarrow> path list \<Rightarrow> path \<Rightarrow> disk \<Rightarrow> init_result result \<times> disk" where
  "ScanAndInit setup yaml sio cio repoPaths cfgPath d =
     (case Init setup repoPaths of
        Inl e \<Rightarrow> (Inl e, d)
      | Inr result \<Rightarrow>
          (case EnsurePhonewaveStateDir sio (Dir (Dir cfgPath)) d of
             (Inl e, d) \<Rightarrow> (Inl (wrapf ''create state dir: '' e), d)
           | (Inr _, d) \<Rightarrow>
               (case WriteConfig yaml cio cfgPath (ir_Config result) d of
                  (Inl e, d) \<Rightarrow> (Inl (wrapf ''write config: '' e), d)
                | (Inr _, d) \<Rightarrow> (Inr result, d))))"

section \<open>Keeping what is there\<close>

text \<open>A second run finds every entry and writes nothing; the old text stays in front.\<close>

lemma Contains_Join: "e \<in> set es \<Longrightarrow> Contains (Join sep es) e"
proof (induction es rule: induct_list012)
  case (3 x y zs)
  then show ?case by (auto intro: Contains_appendI2 Contains_appendI1)
qed (use Contains_self_append[of e "[]"] in auto)

lemma EnsureGitignoreEntries_stable:
  assumes "EnsureGitignoreEntries None None p required d = (Inr u, d')"
  shows "EnsureGitignoreEntries None fault p required d' = (Inr (), d')"
    and "\<exists>added. (case dk_files d' p of None \<Rightarrow> [] | Some b \<Rightarrow> b) = (case dk_files d p of None \<Rightarrow> [] | Some b \<Rightarrow> b) @ added"
proof -
  define old where "old = (case dk_files d p of None \<Rightarrow> [] | Some b \<Rightarrow> b)"
  have rd: "(case os_ReadFile None p d of Inl _ \<Rightarrow> [] | Inr b \<Rightarrow> b) = old" by (simp add: os_ReadFile_def old_def split: option.splits)
  have "\<exists>added. (case os_ReadFile None p d' of Inl _ \<Rightarrow> [] | Inr b \<Rightarrow> b) = old @ added \<and> missing_entries (old @ added) required = []"
  proof (cases "missing_entries old required = []")
    case True
    then have "d' = d" using assms rd by (simp add: EnsureGitignoreEntries_def Let_def)
    then show ?thesis using rd True by (intro exI[of _ "[]"]) simp
  next
    case False
    define content where "content = (if old \<noteq> [] \<and> \<not> HasSuffix old [CHR 0x0A] then [CHR 0x0A] else []) @ Join [CHR 0x0A] (missing_entries old required) @ [CHR 0x0A]"
    have d': "d' = d\<lparr>dk_files := (dk_files d)(p \<mapsto> old @ content)\<rparr>"
      using assms rd False by (simp add: EnsureGitignoreEntries_def Let_def content_def old_def[symmetric])
    have "Contains (old @ content) e" if "e \<in> set required" for e
    proof (cases "Contains old e")
      case False
      then have "e \<in> set (missing_entries old required)" using that by (simp add: missing_entries_def)
      then show ?thesis unfolding content_def by (intro Contains_appendI2 Contains_appendI1 Contains_Join)
    qed (rule Contains_appendI1)
    then show ?thesis by (intro exI[of _ content]) (simp add: d' os_ReadFile_def missing_entries_def filter_empty_conv)
  qed
  then obtain added where a: "(case os_ReadFile None p d' of Inl _ \<Rightarrow> [] | Inr b \<Rightarrow> b) = old @ added" "missing_entries (old @ added) required = []" by blast
  show "EnsureGitignoreEntries None fault p required d' = (Inr (), d')" using a by (simp add: EnsureGitignoreEntries_def Let_def)
  show "\<exists>added. (case dk_files d' p of None \<Rightarrow> [] | Some b \<Rightarrow> b) = (case dk_files d p of None \<Rightarrow> [] | Some b \<Rightarrow> b) @ added"
    using a(1) by (auto simp: os_ReadFile_def old_def[symmetric] split: option.splits)
qed

lemma DefaultConfigPath_Base: "Base (DefaultConfigPath root) = ConfigFile" "Base (path_Join [root, LegacyConfigFile]) = LegacyConfigFile"
proof -
  have "file_name StateDir" "file_name ConfigFile" "file_name LegacyConfigFile"
    by (simp_all add: file_name_def plain_comp_def StateDir_def ConfigFile_def LegacyConfigFile_def)
  then show "Base (DefaultConfigPath root) = ConfigFile" "Base (path_Join [root, LegacyConfigFile]) = LegacyConfigFile"
    by (simp_all add: DefaultConfigPath_def path_Join_three Base_path_Join_file)
qed

text \<open>A successful migration leaves the old content, or the newer file when there was one, at the new place and nothing at the old one.\<close>

lemma EnsurePhonewaveStateDir_other:
  assumes "Base q \<noteq> ''.gitignore''"
  shows "dk_files (snd (EnsurePhonewaveStateDir io base d)) q = dk_files d q"
proof -
  have "file_name ''.gitignore''" by (simp add: file_name_def plain_comp_def)
  then have "q \<noteq> path_Join [path_Join [base, StateDir], ''.gitignore'']" using assms Base_path_Join_file by metis
  then show ?thesis
    by (auto simp: EnsurePhonewaveStateDir_def EnsureGitignoreEntries_def Let_def split: option.splits)
qed

lemma MigrateConfigIfNeeded_moves:
  assumes "MigrateConfigIfNeeded io root d = (Inr (), d')" and "dk_files d (path_Join [root, LegacyConfigFile]) = Some old"
    and "mg_statLegacy io = None" and "mg_statNew io = None"
  shows "dk_files d' (path_Join [root, LegacyConfigFile]) = None \<and>
    dk_files d' (DefaultConfigPath root) = Some (case dk_files d (DefaultConfigPath root) of None \<Rightarrow> old | Some b \<Rightarrow> b)"
proof -
  let ?l = "path_Join [root, LegacyConfigFile]" and ?n = "DefaultConfigPath root"
  have "LegacyConfigFile \<noteq> ConfigFile" by (simp add: ConfigFile_def LegacyConfigFile_def)
  then have ne: "?l \<noteq> ?n" "?n \<noteq> ?l" using DefaultConfigPath_Base[of root] by metis+
  have g: "Base ?l \<noteq> ''.gitignore''" "Base ?n \<noteq> ''.gitignore''" unfolding DefaultConfigPath_Base by (simp_all add: ConfigFile_def LegacyConfigFile_def)
  note keep = EnsurePhonewaveStateDir_other[OF g(1)] EnsurePhonewaveStateDir_other[OF g(2)]
  show ?thesis
  proof (cases "dk_files d ?n")
    case (Some b)
    then show ?thesis using assms ne
      by (auto simp: MigrateConfigIfNeeded_def Let_def os_Stat_def os_Remove_def split: option.splits sum.splits)
  next
    case None
    let ?d2 = "d\<lparr>dk_files := (dk_files d)(?n \<mapsto> old, ?l := None)\<rparr>"
    have "d' = snd (EnsurePhonewaveStateDir (mg_state io) root ?d2)"
      using assms ne None
      by (auto simp: MigrateConfigIfNeeded_def Let_def os_Stat_def os_Remove_def os_ReadFile_def os_WriteFile_def
          split: option.splits sum.splits prod.splits)
    then show ?thesis using keep[of _ _ ?d2] None ne by simp
  qed
qed

section \<open>What was written is what is read\<close>

definition clean_abs :: "path \<Rightarrow> bool" where
  "clean_abs p \<longleftrightarrow> IsAbs p \<and> Clean p = p"

lemma IsAbs_rooted: "IsAbs p = rooted p"
  by (simp add: IsAbs_def rooted_def)

lemma toAbs_toRel: "clean_abs p \<Longrightarrow> toAbs base (toRel base p) = p"
proof -
  assume p: "clean_abs p"
  then have ne: "p \<noteq> []" "rooted p" by (auto simp: clean_abs_def IsAbs_rooted rooted_iff)
  show ?thesis
  proof (cases "rooted base")
    case True
    from Rel_abs[OF this ne(2)] obtain rel where "Rel base p = Inr rel" "rel \<noteq> []" "\<not> rooted rel" "path_Join [base, rel] = Clean p" by blast
    then show ?thesis using p ne by (simp add: toAbs_def toRel_def IsAbs_rooted clean_abs_def)
  next
    case False
    obtain r cs where "canon (rooted base) cs" "Clean base = render (rooted base) cs" using Clean_eq_render by blast
    then have "\<not> rooted (Clean base)" using False by simp
    then have "Rel base p = Inl (errorf (''Rel: can'' @ [CHR 0x27] @ ''t make '' @ p @ '' relative to '' @ base))"
      using p ne by (auto simp: Rel_def Let_def clean_abs_def)
    then show ?thesis using p ne by (simp add: toAbs_def toRel_def clean_abs_def)
  qed
qed

lemma toAbs_abs [simp]: "clean_abs p \<Longrightarrow> toAbs base p = p"
  by (simp add: toAbs_def clean_abs_def)

definition paths_ok :: "config \<Rightarrow> bool" where
  "paths_ok c \<longleftrightarrow> (\<forall>r \<in> set (cfg_Repositories c). clean_abs (rp_Path r)) \<and> (\<forall>r \<in> set (cfg_Routes c). clean_abs (rc_RepoPath r))"

lemma map_paths_cong:
  assumes "paths_ok c" and "\<And>p. clean_abs p \<Longrightarrow> f p = p"
  shows "map_paths f c = c"
proof -
  have "map (\<lambda>r. r\<lparr>rp_Path := f (rp_Path r)\<rparr>) (cfg_Repositories c) = cfg_Repositories c"
    using assms by (intro map_idI) (simp add: paths_ok_def)
  moreover have "map (\<lambda>r. r\<lparr>rc_RepoPath := f (rc_RepoPath r)\<rparr>) (cfg_Routes c) = cfg_Routes c"
    using assms by (intro map_idI) (simp add: paths_ok_def)
  ultimately show ?thesis by (simp add: map_paths_def)
qed

lemma map_paths_map_paths: "map_paths f (map_paths g c) = map_paths (f \<circ> g) c"
  by (simp add: map_paths_def comp_def)

text \<open>What the code relies on of YAML: decoding the bytes that encoding a value gave returns the value; a manifest, behind the two
  comment lines, decodes to a configuration without routes and time.\<close>

definition yaml_inverse :: "config_yaml \<Rightarrow> bool" where
  "yaml_inverse yaml \<longleftrightarrow>
     (\<forall>repos b. cy_marshalManifest yaml repos = Inr b \<longrightarrow>
        cy_config yaml (config_header @ b) = Inr \<lparr>cfg_LastSynced = 0, cfg_Repositories = repos, cfg_Routes = []\<rparr>) \<and>
     (\<forall>rs b. cy_marshalResolved yaml rs = Inr b \<longrightarrow> cy_resolved yaml b = Inr rs)"

lemma run_file_names: "file_name ''.run''" "file_name ResolvedStateFile"
  by (simp_all add: file_name_def plain_comp_def ResolvedStateFile_def)

lemma WriteConfig_success:
  assumes "WriteConfig yaml io p c d = (Inr (), d')" and "Base p \<noteq> ResolvedStateFile"
  shows "\<exists>m b. cy_marshalManifest yaml (cfg_Repositories (convertToRelPaths c (Dir (Dir p)))) = Inr m \<and>
    cy_marshalResolved yaml \<lparr>rs_LastSynced = cfg_LastSynced c, rs_Routes = cfg_Routes (convertToRelPaths c (Dir (Dir p)))\<rparr> = Inr b \<and>
    dk_files d' p = Some (config_header @ m) \<and> dk_files d' (path_Join [Dir p, ''.run'', ResolvedStateFile]) = Some b"
proof -
  let ?rel = "convertToRelPaths c (Dir (Dir p))" and ?rp = "path_Join [path_Join [Dir p, ''.run''], ResolvedStateFile]"
  have rp: "path_Join [Dir p, ''.run'', ResolvedStateFile] = ?rp" by (rule path_Join_three) (rule run_file_names)+
  have "Base ?rp = ResolvedStateFile" using Base_path_Join_file[OF run_file_names(2)] .
  then have ne: "p \<noteq> ?rp" using assms(2) by metis
  have ls: "cfg_LastSynced ?rel = cfg_LastSynced c" by (simp add: convertToRelPaths_def map_paths_def)
  obtain m d1 where m: "cy_marshalManifest yaml (cfg_Repositories ?rel) = Inr m"
    and w1: "os_WriteFile (ci_manifest io) p (config_header @ m) d = (Inr (), d1)" and w: "write_resolved yaml io (Dir p) ?rel d1 = (Inr (), d')"
    using assms(1) by (auto simp: WriteConfig_def Let_def split: sum.splits prod.splits)
  obtain b where b: "cy_marshalResolved yaml \<lparr>rs_LastSynced = cfg_LastSynced c, rs_Routes = cfg_Routes ?rel\<rparr> = Inr b"
    and w2: "os_WriteFile (ci_resolved io) ?rp b d1 = (Inr (), d')"
    using w ls by (auto simp: write_resolved_def split: option.splits sum.splits prod.splits)
  show ?thesis unfolding rp using m b os_WriteFile_ok[OF w1] os_WriteFile_ok[OF w2] ne by auto
qed

lemma WriteConfig_LoadConfig:
  assumes "yaml_inverse yaml" and "paths_ok c" and "config_ok c" and "Base p \<noteq> ResolvedStateFile"
    and "WriteConfig yaml io p c d = (Inr (), d')"
  shows "LoadConfig yaml None None p d' = Inr c"
proof -
  let ?root = "Dir (Dir p)"
  let ?rel = "convertToRelPaths c ?root"
  obtain m b where m: "cy_marshalManifest yaml (cfg_Repositories ?rel) = Inr m"
    and b: "cy_marshalResolved yaml \<lparr>rs_LastSynced = cfg_LastSynced c, rs_Routes = cfg_Routes ?rel\<rparr> = Inr b"
    and onDisk: "dk_files d' p = Some (config_header @ m)" "dk_files d' (path_Join [Dir p, ''.run'', ResolvedStateFile]) = Some b"
    using WriteConfig_success[OF assms(5,4)] by blast
  have undo: "resolveRelPaths ?rel ?root = c"
    unfolding resolveRelPaths_def convertToRelPaths_def map_paths_map_paths
    by (rule map_paths_cong[OF assms(2)]) (simp add: toAbs_toRel)
  have repos: "map (\<lambda>r. r\<lparr>rp_Path := toAbs ?root (rp_Path r)\<rparr>) (cfg_Repositories ?rel) = cfg_Repositories c"
    using arg_cong[OF undo, of cfg_Repositories] by (simp add: resolveRelPaths_def map_paths_def)
  let ?c0 = "\<lparr>cfg_LastSynced = 0, cfg_Repositories = cfg_Repositories ?rel, cfg_Routes = []\<rparr>"
  have c0: "resolveRelPaths ?c0 ?root = \<lparr>cfg_LastSynced = 0, cfg_Repositories = cfg_Repositories c, cfg_Routes = []\<rparr>"
    using repos by (simp add: resolveRelPaths_def map_paths_def)
  have c1: "resolveRelPaths \<lparr>cfg_LastSynced = cfg_LastSynced c, cfg_Repositories = cfg_Repositories c, cfg_Routes = cfg_Routes ?rel\<rparr> ?root = c"
  proof -
    have same: "map_paths (toAbs ?root) c = c" by (rule map_paths_cong[OF assms(2)]) simp
    have "map (\<lambda>r. r\<lparr>rp_Path := toAbs ?root (rp_Path r)\<rparr>) (cfg_Repositories c) = cfg_Repositories c"
      using arg_cong[OF same, of cfg_Repositories] by (simp add: map_paths_def)
    moreover have "map (\<lambda>r. r\<lparr>rc_RepoPath := toAbs ?root (rc_RepoPath r)\<rparr>) (cfg_Routes ?rel) = cfg_Routes c"
      using arg_cong[OF undo, of cfg_Routes] by (simp add: resolveRelPaths_def map_paths_def)
    ultimately show ?thesis by (simp add: resolveRelPaths_def map_paths_def)
  qed
  have routes: "UpdateRoutes c = c" if "cfg_Routes c = []" using assms(3) that by (cases c) (auto simp: config_ok_def UpdateRoutes_def)
  have yaml: "cy_config yaml (config_header @ m) = Inr ?c0" "cy_resolved yaml b = Inr \<lparr>rs_LastSynced = cfg_LastSynced c, rs_Routes = cfg_Routes ?rel\<rparr>"
    using assms(1) m b by (auto simp: yaml_inverse_def)
  show ?thesis
    unfolding LoadConfig_def os_ReadFile_def onDisk option.case sum.case yaml Let_def c0
    using c1 routes by simp
qed

text \<open>C22: Writing a configuration and loading it again gives the same configuration, time of the last sync and routes included,
  although on disk it is split over two files with paths relative to the project: every absolute clean path survives being made
  relative and joined again, whatever the directory of the configuration.\<close>

theorem config_file_roundtrip:
  assumes "yaml_inverse yaml" and "paths_ok c" and "config_ok c" and "Base p \<noteq> ResolvedStateFile"
    and "WriteConfig yaml io p c d = (Inr (), d')"
  shows "LoadConfig yaml None None p d' = Inr c"
  by (rule WriteConfig_LoadConfig[OF assms])

definition sample_config :: config where
  "sample_config = UpdateRoutes \<lparr>cfg_LastSynced = 7, cfg_Repositories = [\<lparr>rp_Path = ''/r'', rp_Endpoints =
     [\<lparr>ep_Dir = ''.gate'', ep_Produces = [], ep_Consumes = [''report'']\<rparr>, \<lparr>ep_Dir = ''.siren'', ep_Produces = [''report''], ep_Consumes = []\<rparr>]\<rparr>],
     cfg_Routes = []\<rparr>"

text \<open>An encoder that knows one configuration.\<close>

definition sample_config_yaml :: config_yaml where
  "sample_config_yaml = (let rel = convertToRelPaths sample_config ''/p''; rs = \<lparr>rs_LastSynced = 7, rs_Routes = cfg_Routes rel\<rparr> in
     \<lparr>cy_marshalManifest = (\<lambda>repos. if repos = cfg_Repositories rel then Inr ''m'' else Inl (errorf ''unknown'')),
      cy_marshalResolved = (\<lambda>r. if r = rs then Inr ''r'' else Inl (errorf ''unknown'')),
      cy_config = (\<lambda>b. Inr \<lparr>cfg_LastSynced = 0, cfg_Repositories = cfg_Repositories rel, cfg_Routes = []\<rparr>),
      cy_resolved = (\<lambda>b. Inr rs)\<rparr>)"

theorem config_file_roundtrip_witness:
  "\<exists>d'. WriteConfig sample_config_yaml \<lparr>ci_manifest = None, ci_mkdir = None, ci_resolved = None\<rparr> ''/p/.phonewave/config.yaml'' sample_config
       \<lparr>dk_files = Map.empty, dk_renamed = []\<rparr> = (Inr (), d') \<and>
     LoadConfig sample_config_yaml None None ''/p/.phonewave/config.yaml'' d' = Inr sample_config"
proof -
  let ?io = "\<lparr>ci_manifest = None, ci_mkdir = None, ci_resolved = None\<rparr>" and ?p = "''/p/.phonewave/config.yaml''" and ?d = "\<lparr>dk_files = Map.empty, dk_renamed = []\<rparr>"
  have yaml: "yaml_inverse sample_config_yaml" by (simp add: yaml_inverse_def sample_config_yaml_def Let_def)
  have routes: "cfg_Routes sample_config = [\<lparr>rc_Kind = ''report'', rc_From = ''.siren/outbox'', rc_To = [''.gate/inbox''], rc_Scope = ''same_repository'', rc_RepoPath = ''/r''\<rparr>]"
    by code_simp
  have repos: "map rp_Path (cfg_Repositories sample_config) = [''/r'']" by code_simp
  have "clean_abs ''/r''" unfolding clean_abs_def by code_simp
  then have paths: "paths_ok sample_config" using routes repos by (auto simp: paths_ok_def)
  have "\<forall>repo \<in> set (cfg_Repositories sample_config). list_all endpoint_ok (rp_Endpoints repo)" by code_simp
  then have ok: "config_ok sample_config" by (simp add: config_ok_def sample_config_def)
  have dir: "Dir (Dir ?p) = ''/p''" "Base ?p \<noteq> ResolvedStateFile" by code_simp+
  have "\<exists>d'. WriteConfig sample_config_yaml ?io ?p sample_config ?d = (Inr (), d')"
    by (simp add: WriteConfig_def write_resolved_def dir Let_def sample_config_yaml_def os_WriteFile_def)
       (simp add: convertToRelPaths_def map_paths_def sample_config_def)
  then show ?thesis using config_file_roundtrip[OF yaml paths ok dir(2)] by blast
qed

end
