(* ===== verification/Runner.thy ===== *)
theory Runner
  imports Policy ConfigFile
begin

text \<open>
  The construction and the end of the daemon process: \<open>NewDaemonRunner\<close>, \<open>Close\<close> (\<open>src/internal/session/daemon_runner_adapter.go\<close>),
  the lock that makes the daemon a singleton (\<open>daemon_lock_unix.go\<close>), the cutover at start (\<open>store_factory.go\<close>), \<open>NewDaemon\<close>
  (\<open>daemon_runner.go\<close>) and the command \<open>phonewave run\<close> (\<open>src/internal/cmd/run.go\<close>).

  The world keeps the files, the event store and which resources the process holds. Errors of the system are arguments. What the daemon
  does while it runs is the subject of the theories \<open>Daemon\<close> and \<open>DaemonCorrect\<close>; here its end is an argument.
\<close>

section \<open>Resources\<close>

datatype resource = DaemonLock | SeqDb | QueueDb | DedupDb | Watcher | WorkerPool | LogFile

text \<open>
  An advisory lock is held on a file, not on its name: \<open>rw_names\<close> says which file (inode) a lock file's name leads to, \<open>rw_fresh\<close> is the next file
  that is created, and \<open>rw_locks\<close> are the files some process holds the lock on. A file whose name is removed stays locked for those who have
  it open. \<open>rw_seq\<close> is the row of the sequence counter.
\<close>

type_synonym inode = nat

record runner_world =
  rw_disk :: disk
  rw_dir :: event_dir
  rw_snapshots :: snapshot_dir
  rw_seq :: "int option"
  rw_names :: "path \<rightharpoonup> inode"
  rw_fresh :: inode
  rw_locks :: "inode set"
  rw_open :: "resource multiset"

record runner_io =
  rr_cfgRead :: "go_error option"
  rr_resolvedRead :: "go_error option"
  rr_state :: state_io
  rr_lockMkdir :: "go_error option"
  rr_lockOpen :: "go_error option"
  rr_flock :: bool
  rr_runDir :: "go_error option"
  rr_cutoverDir :: "go_error option"
  rr_seqOpen :: "go_error option"
  rr_cutover :: cutover_io
  rr_queueOpen :: "go_error option"
  rr_dedupOpen :: "go_error option"
  rr_watcher :: "go_error option"
  rr_logOpen :: "go_error option"

definition acquire :: "resource \<Rightarrow> runner_world \<Rightarrow> runner_world" where
  "acquire r w = w\<lparr>rw_open := add_mset r (rw_open w)\<rparr>"

definition release :: "resource \<Rightarrow> runner_world \<Rightarrow> runner_world" where
  "release r w = w\<lparr>rw_open := rw_open w - {#r#}\<rparr>"

section \<open>The singleton lock\<close>

text \<open>\<open>OpenFile\<close> with \<open>O_CREATE\<close>: the file of that name, or a new one.\<close>

definition open_create :: "path \<Rightarrow> runner_world \<Rightarrow> inode \<times> runner_world" where
  "open_create p w =
     (case rw_names w p of
        Some i \<Rightarrow> (i, w)
      | None \<Rightarrow> (rw_fresh w, w\<lparr>rw_names := (rw_names w)(p \<mapsto> rw_fresh w), rw_fresh := Suc (rw_fresh w)\<rparr>))"

text \<open>\<open>rr_flock\<close> says whether the system call fails although nobody holds the lock. The result is the file the returned closure unlocks.\<close>

definition TryLockDaemon :: "runner_io \<Rightarrow> path \<Rightarrow> runner_world \<Rightarrow> inode result \<times> runner_world" where
  "TryLockDaemon io stateDir w =
     (case rr_lockMkdir io of Some e \<Rightarrow> (Inl (wrapf ''create lock dir: '' e), w) | None \<Rightarrow>
      case rr_lockOpen io of Some e \<Rightarrow> (Inl (wrapf ''open lock file: '' e), w) | None \<Rightarrow>
      let lockPath = path_Join [stateDir, ''daemon.lock'']
      in case open_create lockPath w of (i, w) \<Rightarrow>
         if i \<in> rw_locks w \<or> rr_flock io
         then (Inl (errorf (''daemon already running (lock held on '' @ lockPath @ '')'')), w)
         else (Inr i, acquire DaemonLock (w\<lparr>rw_locks := insert i (rw_locks w)\<rparr>)))"

definition unlock :: "inode \<Rightarrow> runner_world \<Rightarrow> runner_world" where
  "unlock i w = release DaemonLock (w\<lparr>rw_locks := rw_locks w - {i}\<rparr>)"

section \<open>The cutover at start\<close>

definition EnsureRunDir :: "go_error option \<Rightarrow> unit result" where
  "EnsureRunDir err = (case err of Some e \<Rightarrow> Inl (wrapf ''ensure run dir: '' e) | None \<Rightarrow> Inr ())"

definition EnsureCutover :: "runner_io \<Rightarrow> string \<Rightarrow> runner_world \<Rightarrow> unit result \<times> runner_world" where
  "EnsureCutover io aggregateType w =
     (case EnsureRunDir (rr_cutoverDir io) of Inl e \<Rightarrow> (Inl e, w) | Inr _ \<Rightarrow>
      case rr_seqOpen io of Some e \<Rightarrow> (Inl (wrapf ''ensure cutover: seq counter: '' e), w) | None \<Rightarrow>
      let w = acquire SeqDb w
      in case RunCutover (rr_cutover io) aggregateType \<lparr>st_dir = rw_dir w, st_snapshots = rw_snapshots w, st_next = NewSeqCounter (rw_seq w)\<rparr> of
           (r, s) \<Rightarrow>
             let w = w\<lparr>rw_dir := st_dir s, rw_snapshots := st_snapshots s, rw_seq := Some (st_next s)\<rparr>
             in case r of
                  Inl e \<Rightarrow> (Inl (wrapf ''ensure cutover: '' e), release SeqDb w)
                | Inr _ \<Rightarrow> (Inr (), w))"

section \<open>The runner\<close>

record run_daemon_command =
  rc_verbose :: bool
  rc_dryRun :: bool
  rc_retryInterval :: duration
  rc_maxRetries :: int
  rc_idleTimeout :: duration

record runner =
  ru_lock :: inode  \<comment> \<open>what the field \<open>unlock\<close> releases\<close>
  ru_opts :: daemon_options
  ru_insightsDir :: path
  ru_routeCount :: nat
  ru_outboxCount :: nat

definition NewDaemon :: "runner_io \<Rightarrow> runner_world \<Rightarrow> unit result \<times> runner_world" where
  "NewDaemon io w =
     (case rr_watcher io of
        Some e \<Rightarrow> (Inl (wrapf ''create watcher: '' e), w)
      | None \<Rightarrow> (Inr (), acquire WorkerPool (acquire Watcher w)))"

definition new_runner :: "inode \<Rightarrow> run_daemon_command \<Rightarrow> path \<Rightarrow> config \<Rightarrow> resolved_route list \<Rightarrow> runner" where
  "new_runner lock cmd stateDir cfg routes =
     \<lparr>ru_lock = lock,
      ru_opts = \<lparr>do_Routes = routes, do_OutboxDirs = CollectOutboxDirs cfg, do_StateDir = stateDir, do_Verbose = rc_verbose cmd,
        do_DryRun = rc_dryRun cmd, do_RetryInterval = rc_retryInterval cmd, do_MaxRetries = rc_maxRetries cmd,
        do_IdleTimeout = rc_idleTimeout cmd\<rparr>,
      ru_insightsDir = path_Join [stateDir, ''insights''], ru_routeCount = length routes, ru_outboxCount = length (CollectOutboxDirs cfg)\<rparr>"

text \<open>The part of \<open>NewDaemonRunner\<close> that runs with the lock held.\<close>

definition open_stores :: "runner_io \<Rightarrow> inode \<Rightarrow> runner_world \<Rightarrow> unit result \<times> runner_world" where
  "open_stores io lock w =
     (case EnsureRunDir (rr_runDir io) of Inl e \<Rightarrow> (Inl e, unlock lock w) | Inr _ \<Rightarrow>
      case EnsureCutover io ''phonewave.state'' w of
        (Inl e, w) \<Rightarrow> (Inl (wrapf ''cutover: '' e), unlock lock w)
      | (Inr _, w) \<Rightarrow>
          (case rr_queueOpen io of
             Some e \<Rightarrow> (Inl (wrapf ''create error queue store: '' e), unlock lock (release SeqDb w))
           | None \<Rightarrow>
               let w = acquire QueueDb w
               in case rr_dedupOpen io of
                    Some e \<Rightarrow> (Inl (wrapf ''create dedup store: '' e), unlock lock (release SeqDb (release QueueDb w)))
                  | None \<Rightarrow>
                      let w = acquire DedupDb w
                      in case NewDaemon io w of
                           (Inl e, w) \<Rightarrow> (Inl (wrapf ''create daemon: '' e), unlock lock (release SeqDb (release QueueDb w)))
                         | (Inr _, w) \<Rightarrow>
                             (case rr_logOpen io of
                                Some e \<Rightarrow> (Inl (wrapf ''open delivery log: '' (wrapf ''open delivery log: '' e)),
                                           unlock lock (release SeqDb (release QueueDb (release DedupDb w))))
                              | None \<Rightarrow> (Inr (), acquire LogFile w))))"

definition NewDaemonRunner ::
  "config_yaml \<Rightarrow> runner_io \<Rightarrow> run_daemon_command \<Rightarrow> path \<Rightarrow> path \<Rightarrow> runner_world \<Rightarrow> runner result \<times> runner_world" where
  "NewDaemonRunner yaml io cmd cfgPath baseDir w =
     (case LoadConfig yaml (rr_cfgRead io) (rr_resolvedRead io) cfgPath (rw_disk w) of
        Inl e \<Rightarrow> (Inl (wrapf ''load config: '' e), w)
      | Inr cfg \<Rightarrow>
          (case ResolveRoutes cfg of
             Inl e \<Rightarrow> (Inl (wrapf ''resolve routes: '' e), w)
           | Inr routes \<Rightarrow>
               (case EnsurePhonewaveStateDir (rr_state io) (Dir baseDir) (rw_disk w) of
                  (Inl e, d) \<Rightarrow> (Inl (wrapf ''create state dir: '' e), w\<lparr>rw_disk := d\<rparr>)
                | (Inr _, d) \<Rightarrow>
                    (case TryLockDaemon io (path_Join [baseDir, ''.run'']) (w\<lparr>rw_disk := d\<rparr>) of
                       (Inl e, w) \<Rightarrow> (Inl (wrapf ''daemon lock: '' e), w)
                     | (Inr lock, w) \<Rightarrow>
                         (case open_stores io lock w of
                            (Inl e, w) \<Rightarrow> (Inl e, w)
                          | (Inr _, w) \<Rightarrow> (Inr (new_runner lock cmd baseDir cfg routes), w))))))"

definition Runner_Close :: "runner \<Rightarrow> runner_world \<Rightarrow> runner_world" where
  "Runner_Close r w = unlock (ru_lock r) (release QueueDb (release LogFile (release SeqDb (release DedupDb w))))"

text \<open>\<open>Run\<close> closes the watcher and stops the pool however it ends.\<close>

definition Runner_Run :: "(runner \<Rightarrow> unit result) \<Rightarrow> runner \<Rightarrow> runner_world \<Rightarrow> unit result \<times> runner_world" where
  "Runner_Run outcome r w = (outcome r, release WorkerPool (release Watcher w))"

section \<open>The command\<close>

definition runDaemon ::
  "config_yaml \<Rightarrow> runner_io \<Rightarrow> run_daemon_command \<Rightarrow> path \<Rightarrow> (runner \<Rightarrow> unit result) \<Rightarrow> runner_world \<Rightarrow> unit result \<times> runner_world" where
  "runDaemon yaml io flags configPath outcome w =
     (case NewRetryInterval (rc_retryInterval flags) of Inl e \<Rightarrow> (Inl e, w) | Inr ri \<Rightarrow>
      case NewMaxRetries (rc_maxRetries flags) of Inl e \<Rightarrow> (Inl e, w) | Inr mr \<Rightarrow>
      case NewDaemonRunner yaml io (flags\<lparr>rc_retryInterval := ri, rc_maxRetries := mr\<rparr>) configPath (Dir configPath) w of
        (Inl e, w) \<Rightarrow> (Inl e, w)
      | (Inr r, w) \<Rightarrow>
          if ru_outboxCount r = 0 then (Inr (), Runner_Close r w)
          else (case Runner_Run outcome r w of
                  (Inl e, w) \<Rightarrow> (Inl (wrapf ''daemon: '' e), Runner_Close r w)
                | (Inr _, w) \<Rightarrow> (Inr (), Runner_Close r w)))"

section \<open>What is held\<close>

text \<open>Locks and resources of a world; names of lock files are only added.\<close>

definition lock_wf :: "runner_world \<Rightarrow> bool" where
  "lock_wf w \<longleftrightarrow> (\<forall>i \<in> rw_locks w. i < rw_fresh w) \<and> (\<forall>p i. rw_names w p = Some i \<longrightarrow> i < rw_fresh w)"

definition holds :: "(path \<rightharpoonup> inode) \<Rightarrow> inode set \<Rightarrow> resource multiset \<Rightarrow> runner_world \<Rightarrow> bool" where
  "holds names locks rs w \<longleftrightarrow> lock_wf w \<and> names \<subseteq>\<^sub>m rw_names w \<and> rw_locks w = locks \<and> rw_open w = rs"

lemmas holding = holds_def lock_wf_def unlock_def release_def acquire_def

lemma EnsureCutover_holds:
  assumes "holds ns l rs w"
  shows "case EnsureCutover io t w of (Inl _, w') \<Rightarrow> holds ns l rs w' | (Inr _, w') \<Rightarrow> holds ns l (add_mset SeqDb rs) w'"
  using assms by (auto simp: EnsureCutover_def EnsureRunDir_def Let_def holding split: option.split sum.split prod.split)

text \<open>What a failed construction leaves open.\<close>

definition leaked :: "runner_io \<Rightarrow> resource multiset set" where
  "leaked io = {{#}} \<union> (if rr_watcher io \<noteq> None then {{#DedupDb#}} else if rr_logOpen io \<noteq> None then {{#Watcher, WorkerPool#}} else {})"

abbreviation all_resources :: "resource multiset" where
  "all_resources \<equiv> {#DaemonLock, SeqDb, QueueDb, DedupDb, Watcher, WorkerPool, LogFile#}"

lemma open_stores_holds:
  assumes "holds ns (insert i l) (add_mset DaemonLock rs) w" and "i \<notin> l"
  shows "case open_stores io i w of
      (Inl _, w') \<Rightarrow> (\<exists>x \<in> leaked io. holds ns l (rs + x) w')
    | (Inr _, w') \<Rightarrow> holds ns (insert i l) (rs + all_resources) w'"
proof (cases "EnsureRunDir (rr_runDir io)")
  case Inl
  then show ?thesis using assms by (simp add: open_stores_def leaked_def holding)
next
  case (Inr u)
  obtain r w1 where cut: "EnsureCutover io ''phonewave.state'' w = (r, w1)" by (rule prod.exhaust)
  note c = EnsureCutover_holds[OF assms(1), of io "''phonewave.state''", unfolded cut]
  show ?thesis
  proof (cases r)
    case (Inl e)
    then show ?thesis using c assms(2) \<open>EnsureRunDir _ = Inr u\<close> cut by (simp add: open_stores_def leaked_def holding)
  next
    case (Inr v)
    then have "holds ns (insert i l) (add_mset SeqDb (add_mset DaemonLock rs)) w1" using c by simp
    then show ?thesis
      using Inr assms(2) \<open>EnsureRunDir _ = Inr u\<close> cut
      by (auto simp: open_stores_def leaked_def holding NewDaemon_def Let_def add_mset_commute split: option.split)
  qed
qed

abbreviation lock_file :: "path \<Rightarrow> path" where
  "lock_file baseDir \<equiv> path_Join [path_Join [baseDir, ''.run''], ''daemon.lock'']"

lemma TryLockDaemon_holds:
  assumes "holds ns l rs w"
  shows "case TryLockDaemon io p w of
      (Inl _, w') \<Rightarrow> holds ns l rs w'
    | (Inr i, w') \<Rightarrow> i \<notin> l \<and> holds (ns(path_Join [p, ''daemon.lock''] \<mapsto> i)) (insert i l) (add_mset DaemonLock rs) w' \<and>
        (\<forall>j. ns (path_Join [p, ''daemon.lock'']) = Some j \<longrightarrow> i = j)"
  using assms
  by (auto simp: TryLockDaemon_def open_create_def holding Let_def map_le_def dom_def split: option.split intro: less_SucI)

lemma holds_le: "holds ns' l rs w \<Longrightarrow> ns \<subseteq>\<^sub>m ns' \<Longrightarrow> holds ns l rs w"
  unfolding holds_def using map_le_trans by blast

lemma NewDaemonRunner_holds:
  assumes "holds ns l rs w"
  shows "case NewDaemonRunner yaml io cmd cfgPath baseDir w of
      (Inl _, w') \<Rightarrow> (\<exists>x \<in> leaked io. holds ns l (rs + x) w')
    | (Inr r, w') \<Rightarrow> ru_lock r \<notin> l \<and> holds (ns(lock_file baseDir \<mapsto> ru_lock r)) (insert (ru_lock r) l) (rs + all_resources) w' \<and>
        (\<forall>j. ns (lock_file baseDir) = Some j \<longrightarrow> ru_lock r = j)"
proof -
  have same: "\<exists>x \<in> leaked io. holds ns l (rs + x) (w\<lparr>rw_disk := d\<rparr>)" for d
    using assms by (intro bexI[of _ "{#}"]) (simp_all add: leaked_def holding)
  have same0: "\<exists>x \<in> leaked io. holds ns l (rs + x) w" using same[of "rw_disk w"] by simp
  show ?thesis
  proof (cases "LoadConfig yaml (rr_cfgRead io) (rr_resolvedRead io) cfgPath (rw_disk w)")
    case Inl
    then show ?thesis using same0 by (simp add: NewDaemonRunner_def)
  next
    case (Inr cfg)
    note load = Inr
    show ?thesis
    proof (cases "ResolveRoutes cfg")
      case Inl
      then show ?thesis using same0 load by (simp add: NewDaemonRunner_def)
    next
      case (Inr routes)
      note res = Inr
      obtain r d where dirs: "EnsurePhonewaveStateDir (rr_state io) (Dir baseDir) (rw_disk w) = (r, d)" by (rule prod.exhaust)
      have h: "holds ns l rs (w\<lparr>rw_disk := d\<rparr>)" using assms by (simp add: holding)
      obtain rl w1 where lock: "TryLockDaemon io (path_Join [baseDir, ''.run'']) (w\<lparr>rw_disk := d\<rparr>) = (rl, w1)" by (rule prod.exhaust)
      note t = TryLockDaemon_holds[OF h, where io = io and p = "path_Join [baseDir, ''.run'']", unfolded lock]
      have run: "NewDaemonRunner yaml io cmd cfgPath baseDir w =
          (case r of Inl e \<Rightarrow> (Inl (wrapf ''create state dir: '' e), w\<lparr>rw_disk := d\<rparr>) | Inr _ \<Rightarrow>
           case rl of Inl e \<Rightarrow> (Inl (wrapf ''daemon lock: '' e), w1) | Inr i \<Rightarrow>
           case open_stores io i w1 of (Inl e, w2) \<Rightarrow> (Inl e, w2) | (Inr _, w2) \<Rightarrow> (Inr (new_runner i cmd baseDir cfg routes), w2))"
        unfolding NewDaemonRunner_def load res dirs sum.case prod.case lock by (simp split: sum.split)
      show ?thesis
      proof (cases "\<exists>i. \<not> isl r \<and> rl = Inr i")
        case True
        then obtain i where i: "\<not> isl r" "rl = Inr i" by blast
        then have held: "i \<notin> l" "holds (ns(lock_file baseDir \<mapsto> i)) (insert i l) (add_mset DaemonLock rs) w1" "\<forall>j. ns (lock_file baseDir) = Some j \<longrightarrow> i = j"
          using t by auto
        have "ns \<subseteq>\<^sub>m ns(lock_file baseDir \<mapsto> i)" using held(3) by (auto simp: map_le_def)
        note le = holds_le[OF _ this]
        obtain x w2 where st: "open_stores io i w1 = (x, w2)" by (rule prod.exhaust)
        note os = open_stores_holds[OF held(2,1), of io, unfolded st]
        show ?thesis
        proof (cases x)
          case (Inl e)
          then have "\<exists>y \<in> leaked io. holds ns l (rs + y) w2" using os le by auto
          then show ?thesis unfolding run using i Inl st by (auto split: sum.splits)
        next
          case (Inr u)
          then show ?thesis unfolding run using i st os held(1,3) by (auto simp: new_runner_def split: sum.splits)
        qed
      next
        case False
        have "\<exists>x \<in> leaked io. holds ns l (rs + x) w1" if "isl rl"
          using t that by (intro bexI[of _ "{#}"]) (auto simp: leaked_def split: sum.splits)
        then show ?thesis unfolding run using same[of d] False by (auto split: sum.split)
      qed
    qed
  qed
qed

lemma Close_holds:
  "holds ns (insert (ru_lock r) l) (rs + all_resources) w \<Longrightarrow> ru_lock r \<notin> l \<Longrightarrow> holds ns l (rs + {#Watcher, WorkerPool#}) (Runner_Close r w)"
  unfolding Runner_Close_def by (simp add: holding add_mset_commute)

lemma Run_Close_holds:
  "holds ns (insert (ru_lock r) l) (rs + all_resources) w \<Longrightarrow> ru_lock r \<notin> l \<Longrightarrow> holds ns l rs (Runner_Close r (snd (Runner_Run outcome r w)))"
  unfolding Runner_Close_def Runner_Run_def by (simp add: holding add_mset_commute)

section \<open>Other processes\<close>

definition unlink :: "path set \<Rightarrow> runner_world \<Rightarrow> runner_world" where
  "unlink ps w = w\<lparr>rw_names := rw_names w |` (- ps)\<rparr>"

text \<open>What happens beside a daemon that holds the lock on file \<open>i\<close> under the name \<open>lock\<close>: others try to start, run and end, files change, and names of
  lock files are removed, but for this one.\<close>

inductive meanwhile :: "path \<Rightarrow> inode \<Rightarrow> runner_world \<Rightarrow> runner_world \<Rightarrow> bool" for lock i where
  attempted: "meanwhile lock i w (snd (NewDaemonRunner yaml io cmd cfgPath baseDir w))"
| ran: "meanwhile lock i w (snd (Runner_Run outcome r w))"
| closed: "ru_lock r \<noteq> i \<Longrightarrow> meanwhile lock i w (Runner_Close r w)"
| removed: "lock \<notin> ps \<Longrightarrow> meanwhile lock i w (unlink ps w)"
| changed: "meanwhile lock i w (w\<lparr>rw_disk := d, rw_dir := dir, rw_snapshots := sn, rw_seq := n\<rparr>)"

definition held :: "path \<Rightarrow> inode \<Rightarrow> runner_world \<Rightarrow> bool" where
  "held lock i w \<longleftrightarrow> lock_wf w \<and> rw_names w lock = Some i \<and> i \<in> rw_locks w"

lemma held_holds: "held lock i w \<Longrightarrow> holds (rw_names w) (rw_locks w) (rw_open w) w"
  by (simp add: held_def holds_def)

lemma held_same: "held lock i w \<Longrightarrow> rw_names w' = rw_names w \<Longrightarrow> rw_fresh w' = rw_fresh w \<Longrightarrow> rw_locks w' = rw_locks w \<Longrightarrow> held lock i w'"
  by (simp add: held_def lock_wf_def)

lemma attempt_keeps:
  assumes "held lock i w"
  shows "held lock i (snd (NewDaemonRunner yaml io cmd cfgPath baseDir w))"
proof -
  have "rw_names w lock = Some i" "i \<in> rw_locks w" using assms by (auto simp: held_def)
  then have keep: "held lock i w'" if "holds (rw_names w) l rs w'" "rw_locks w \<subseteq> l" for l rs w'
    using that by (force simp: held_def holds_def map_le_def dom_def)
  obtain r w' where run: "NewDaemonRunner yaml io cmd cfgPath baseDir w = (r, w')" by (rule prod.exhaust)
  note n = NewDaemonRunner_holds[OF held_holds[OF assms], where yaml = yaml and io = io and cmd = cmd and cfgPath = cfgPath and baseDir = baseDir, unfolded run]
  show ?thesis
  proof (cases r)
    case Inl
    then show ?thesis using n run keep by fastforce
  next
    case (Inr ru)
    have "rw_names w \<subseteq>\<^sub>m (rw_names w)(lock_file baseDir \<mapsto> ru_lock ru)" using n Inr by (auto simp: map_le_def)
    then have "holds (rw_names w) (insert (ru_lock ru) (rw_locks w)) (rw_open w + all_resources) w'" using n Inr holds_le by fastforce
    from keep[OF this] show ?thesis using run by auto
  qed
qed

lemma meanwhile_keeps: "meanwhile lock i w w' \<Longrightarrow> held lock i w \<Longrightarrow> held lock i w'"
proof (induction rule: meanwhile.induct)
  case (removed ps w)
  then show ?case by (auto simp: held_def lock_wf_def unlink_def restrict_map_def split: if_splits)
next
  case (closed r w)
  then show ?case by (auto simp: held_def lock_wf_def Runner_Close_def unlock_def release_def)
qed (auto simp: attempt_keeps Runner_Run_def release_def intro: held_same)

lemma held_excludes:
  assumes "held (lock_file baseDir) i w"
  shows "isl (fst (NewDaemonRunner yaml io cmd cfgPath baseDir w))"
proof -
  have "rw_names w (lock_file baseDir) = Some i" "i \<in> rw_locks w" using assms by (auto simp: held_def)
  then show ?thesis using NewDaemonRunner_holds[OF held_holds[OF assms], where yaml = yaml and io = io and cmd = cmd and cfgPath = cfgPath and baseDir = baseDir]
    by (cases "NewDaemonRunner yaml io cmd cfgPath baseDir w") (auto split: sum.splits)
qed

text \<open>C12: Only one daemon runs on a state directory at a time, for as long as its lock file stays: once a runner is built, it holds a lock
  nobody held, and whatever other processes do meanwhile short of removing the name of the lock file, every other attempt to build a
  runner there fails until the runner is closed. The lock is on the file and not on its name: when the name is removed, as \<open>phonewave
  clean\<close> does, the next attempt gets a lock of its own while the first daemon still holds its lock. An attempt that fails leaves the
  locks as they were and closes what it opened, except for the dedup store when the watcher cannot be created, and for the watcher and the
  pool when the delivery log cannot be opened. After the daemon has run, however that ended, and the runner is closed, nothing is held any
  more. (Files that are locked or named exist.)\<close>

theorem one_daemon_at_a_time:
  assumes "lock_wf w"
  shows "case NewDaemonRunner yaml io cmd cfgPath baseDir w of
     (Inl _, w') \<Rightarrow> rw_locks w' = rw_locks w \<and> (\<exists>x \<in> leaked io. rw_open w' = rw_open w + x)
   | (Inr r, w') \<Rightarrow> rw_locks w' = insert (ru_lock r) (rw_locks w) \<and> ru_lock r \<notin> rw_locks w \<and>
       (\<forall>w''. (meanwhile (lock_file baseDir) (ru_lock r))\<^sup>*\<^sup>* w' w'' \<longrightarrow> isl (fst (NewDaemonRunner yaml' io' cmd' cfgPath' baseDir w''))) \<and>
       (\<forall>ps. lock_file baseDir \<in> ps \<and> rr_lockMkdir io' = None \<and> rr_lockOpen io' = None \<and> \<not> rr_flock io' \<longrightarrow>
          (\<exists>j w''. TryLockDaemon io' (path_Join [baseDir, ''.run'']) (unlink ps w') = (Inr j, w'') \<and> j \<noteq> ru_lock r \<and> ru_lock r \<in> rw_locks w'')) \<and>
       rw_locks (Runner_Close r (snd (Runner_Run outcome r w'))) = rw_locks w \<and> rw_open (Runner_Close r (snd (Runner_Run outcome r w'))) = rw_open w"
proof -
  have h: "holds (rw_names w) (rw_locks w) (rw_open w) w" using assms by (simp add: holds_def)
  obtain r w' where run: "NewDaemonRunner yaml io cmd cfgPath baseDir w = (r, w')" by (rule prod.exhaust)
  note n = NewDaemonRunner_holds[OF h, where yaml = yaml and io = io and cmd = cmd and cfgPath = cfgPath and baseDir = baseDir, unfolded run]
  show ?thesis
  proof (cases r)
    case Inl
    then show ?thesis using n run by (auto simp: holds_def)
  next
    case (Inr ru)
    then have fresh: "ru_lock ru \<notin> rw_locks w" and all: "holds ((rw_names w)(lock_file baseDir \<mapsto> ru_lock ru)) (insert (ru_lock ru) (rw_locks w)) (rw_open w + all_resources) w'"
      using n by simp_all
    then have here: "held (lock_file baseDir) (ru_lock ru) w'" by (auto simp: held_def holds_def map_le_def)
    have "isl (fst (NewDaemonRunner yaml' io' cmd' cfgPath' baseDir w''))" if "(meanwhile (lock_file baseDir) (ru_lock ru))\<^sup>*\<^sup>* w' w''" for w''
    proof (rule held_excludes)
      show "held (lock_file baseDir) (ru_lock ru) w''" using that here by (induction rule: rtranclp_induct) (auto intro: meanwhile_keeps)
    qed
    moreover have "\<exists>j w''. TryLockDaemon io' (path_Join [baseDir, ''.run'']) (unlink ps w') = (Inr j, w'') \<and> j \<noteq> ru_lock ru \<and> ru_lock ru \<in> rw_locks w''"
      if "lock_file baseDir \<in> ps" "rr_lockMkdir io' = None" "rr_lockOpen io' = None" "\<not> rr_flock io'" for ps
      using that here by (auto simp: TryLockDaemon_def open_create_def unlink_def acquire_def Let_def held_def lock_wf_def)
    moreover note Run_Close_holds[OF all fresh, of outcome]
    ultimately show ?thesis using fresh all Inr run by (simp add: holds_def)
  qed
qed

definition sample_runner_io :: runner_io where
  "sample_runner_io = \<lparr>rr_cfgRead = None, rr_resolvedRead = None, rr_state = \<lparr>si_dirs = \<lparr>dio_existed = (\<lambda>_. False), dio_mkdir = (\<lambda>_. None)\<rparr>, si_read = None, si_append = None\<rparr>,
     rr_lockMkdir = None, rr_lockOpen = None, rr_flock = False, rr_runDir = None, rr_cutoverDir = None, rr_seqOpen = None, rr_cutover = cutover_ok,
     rr_queueOpen = None, rr_dedupOpen = None, rr_watcher = None, rr_logOpen = None\<rparr>"

definition sample_runner_world :: runner_world where
  "sample_runner_world = \<lparr>rw_disk = \<lparr>dk_files = [''/p/.phonewave/config.yaml'' \<mapsto> ''m''], dk_renamed = []\<rparr>, rw_dir = [], rw_snapshots = Map.empty, rw_seq = None,
     rw_names = Map.empty, rw_fresh = 0, rw_locks = {}, rw_open = {#}\<rparr>"

definition empty_config_yaml :: config_yaml where
  "empty_config_yaml = \<lparr>cy_marshalManifest = (\<lambda>_. Inr []), cy_marshalResolved = (\<lambda>_. Inr []),
     cy_config = (\<lambda>_. Inr \<lparr>cfg_LastSynced = 0, cfg_Repositories = [], cfg_Routes = []\<rparr>), cy_resolved = (\<lambda>_. Inl (errorf ''no state''))\<rparr>"

definition sample_run_command :: run_daemon_command where
  "sample_run_command = \<lparr>rc_verbose = False, rc_dryRun = False, rc_retryInterval = 0, rc_maxRetries = 10, rc_idleTimeout = 0\<rparr>"

theorem one_daemon_at_a_time_witness:
  "case NewDaemonRunner empty_config_yaml sample_runner_io sample_run_command ''/p/.phonewave/config.yaml'' ''/p/.phonewave'' sample_runner_world of
     (Inl _, _) \<Rightarrow> False
   | (Inr r, w) \<Rightarrow> rw_locks w = {ru_lock r} \<and>
       isl (fst (NewDaemonRunner empty_config_yaml sample_runner_io sample_run_command ''/p/.phonewave/config.yaml'' ''/p/.phonewave'' w)) \<and>
       (\<exists>j w'. TryLockDaemon sample_runner_io (path_Join [''/p/.phonewave'', ''.run'']) (unlink UNIV w) = (Inr j, w') \<and> j \<noteq> ru_lock r)"
proof -
  have wf: "lock_wf sample_runner_world" by (simp add: lock_wf_def sample_runner_world_def)
  have empty: "rw_locks sample_runner_world = {}" by (simp add: sample_runner_world_def)
  obtain r w where run: "NewDaemonRunner empty_config_yaml sample_runner_io sample_run_command ''/p/.phonewave/config.yaml'' ''/p/.phonewave'' sample_runner_world = (r, w)"
    by (rule prod.exhaust)
  have "\<not> isl (fst (NewDaemonRunner empty_config_yaml sample_runner_io sample_run_command ''/p/.phonewave/config.yaml'' ''/p/.phonewave'' sample_runner_world))"
    by code_simp
  then obtain ru where r: "r = Inr ru" unfolding run by (cases r) simp_all
  have io: "rr_lockMkdir sample_runner_io = None" "rr_lockOpen sample_runner_io = None" "\<not> rr_flock sample_runner_io" by (simp_all add: sample_runner_io_def)
  note one = one_daemon_at_a_time[OF wf, where yaml = empty_config_yaml and io = sample_runner_io and cmd = sample_run_command
      and cfgPath = "''/p/.phonewave/config.yaml''" and baseDir = "''/p/.phonewave''" and yaml' = empty_config_yaml and io' = sample_runner_io
      and cmd' = sample_run_command and cfgPath' = "''/p/.phonewave/config.yaml''", unfolded run r prod.case sum.case empty]
  have "rw_locks w = {ru_lock ru}" using one by blast
  moreover have "isl (fst (NewDaemonRunner empty_config_yaml sample_runner_io sample_run_command ''/p/.phonewave/config.yaml'' ''/p/.phonewave'' w))"
    using one by blast
  moreover have "\<exists>j w'. TryLockDaemon sample_runner_io (path_Join [''/p/.phonewave'', ''.run'']) (unlink UNIV w) = (Inr j, w') \<and> j \<noteq> ru_lock ru"
    using one io UNIV_I by blast
  ultimately show ?thesis unfolding run r prod.case sum.case by blast
qed

text \<open>The command leaves the locks as it found them, and leaks the watcher and the pool when there is nothing to watch.\<close>

lemma runDaemon_unlocks:
  assumes "lock_wf w"
  shows "rw_locks (snd (runDaemon yaml io flags configPath outcome w)) = rw_locks w"
proof -
  have h: "holds (rw_names w) (rw_locks w) (rw_open w) w" using assms by (simp add: holds_def)
  show ?thesis
  proof (cases "\<exists>ri mr. NewRetryInterval (rc_retryInterval flags) = Inr ri \<and> NewMaxRetries (rc_maxRetries flags) = Inr mr")
    case True
    then obtain ri mr where ok: "NewRetryInterval (rc_retryInterval flags) = Inr ri" "NewMaxRetries (rc_maxRetries flags) = Inr mr" by blast
    obtain r w' where run: "NewDaemonRunner yaml io (flags\<lparr>rc_retryInterval := ri, rc_maxRetries := mr\<rparr>) configPath (Dir configPath) w = (r, w')"
      by (rule prod.exhaust)
    note n = NewDaemonRunner_holds[OF h, where yaml = yaml and io = io and cmd = "flags\<lparr>rc_retryInterval := ri, rc_maxRetries := mr\<rparr>" and cfgPath = configPath
      and baseDir = "Dir configPath", unfolded run]
    show ?thesis
    proof (cases r)
      case Inl
      then show ?thesis using n run ok by (auto simp: runDaemon_def holds_def)
    next
      case (Inr ru)
      then have fresh: "ru_lock ru \<notin> rw_locks w"
        and all: "holds ((rw_names w)(lock_file (Dir configPath) \<mapsto> ru_lock ru)) (insert (ru_lock ru) (rw_locks w)) (rw_open w + all_resources) w'"
        using n by simp_all
      obtain ro wo where ro: "Runner_Run outcome ru w' = (ro, wo)" by (rule prod.exhaust)
      from Run_Close_holds[OF all fresh, of outcome] Close_holds[OF all fresh] show ?thesis
        using run ok Inr ro by (cases ro) (simp_all add: runDaemon_def holds_def)
    qed
  qed (auto simp: runDaemon_def split: sum.split)
qed

end
