(* ===== verification/Mcp.thy ===== *)
theory Mcp
  imports Metrics ConfigFile
begin

text \<open>
  The visibility server of \<open>src/internal/session/mcp_server.go\<close>: JSON-RPC requests, one per line, and the tools that report the
  depth of the outboxes and inboxes.

  Requests are kept as what \<open>json.Unmarshal\<close> makes of their line, responses as the values that are marshalled; encoding these
  never fails. Directory listings, times of files, the state of the delivery store and errors of the system are arguments, as is the
  conversion of an age to seconds, which goes through floating point.
\<close>

section \<open>Messages\<close>

datatype json = JNum int | JText string | JBool bool | JList "json list" | JObj "(string \<times> json) list"

text \<open>The parameters of \<open>tools/call\<close>: undecodable, or the name of the tool and the member \<open>tool\<close> of its arguments, which stays
  empty when the arguments are missing or do not decode.\<close>

datatype call_params = BadParams | CallParams string string

text \<open>\<open>rq_ID\<close> is the text of the id, empty when there is none.\<close>

record rpc_request =
  rq_ID :: string
  rq_Method :: string
  rq_Params :: call_params

datatype rpc_line = BlankLine | BadLine go_error | Request rpc_request

datatype rpc_body = RpcResult json | RpcError int string

record rpc_response =
  rp_ID :: string
  rp_Body :: rpc_body

definition mcpProtocolVersion :: string where
  "mcpProtocolVersion = ''2024-11-05''"

definition instructions :: string where
  "instructions = ''phonewave is the D-Mail courier daemon and its visibility surface for the tap 5-tool ecosystem: query queue depths, dead-letter counts and 24h delivery stats (outbox_status / inbox_status) to check whether emitted d-mails were delivered. Do NOT start `phonewave run` from the session '' @ [CHR 0xE2, CHR 0x80, CHR 0x94] @ '' the daemon runs independently as the only surviving daemon post jun15 pivot.''"

definition initializeResult :: json where
  "initializeResult = JObj
     [(''protocolVersion'', JText mcpProtocolVersion),
      (''capabilities'', JObj [(''tools'', JObj [(''listChanged'', JBool False)])]),
      (''serverInfo'', JObj [(''name'', JText ''phonewave''), (''version'', JText ''0.1.0'')]),
      (''instructions'', JText instructions)]"

definition tool_schema :: "string \<Rightarrow> json" where
  "tool_schema description = JObj
     [(''type'', JText ''object''),
      (''properties'', JObj [(''tool'', JObj [(''type'', JText ''string''), (''description'', JText description)])]),
      (''required'', JList [JText ''tool''])]"

definition toolDescriptors :: "json list" where
  "toolDescriptors =
     [JObj [(''name'', JText ''ping''), (''description'', JText (''Health check. Returns '' @ [CHR 0x27] @ ''pong'' @ [CHR 0x27] @ ''.'')),
        (''inputSchema'', JObj [(''type'', JText ''object''), (''properties'', JObj [])])],
      JObj [(''name'', JText ''outbox_status''),
        (''description'', JText (''Return outbox queue depth + dead-letter count (SQLite delivery store) + oldest age in seconds + 24h delivery stats (delivered/failed/retried '' @ [CHR 0xE2, CHR 0x80, CHR 0x94] @ '' answers whether emitted d-mails were delivered) for the given source tool.'')),
        (''inputSchema'', tool_schema ''source tool name (paintress / sightjack / amadeus / dominator)'')],
      JObj [(''name'', JText ''inbox_status''),
        (''description'', JText ''Return inbox queue depth + oldest age in seconds for the given target tool. Inbox has no dead-letter count (that is an outbox-side concept).''),
        (''inputSchema'', tool_schema ''target tool name (paintress / sightjack / amadeus / dominator)'')]]"

section \<open>The depth of directories\<close>

text \<open>An entry of a directory: whether it is a directory itself, and its modification time unless asking for it fails.\<close>

record listed_entry =
  le_IsDir :: bool
  le_ModTime :: "time option"

record mcp_io =
  mc_readDir :: "path \<Rightarrow> listed_entry list result"
  mc_yaml :: config_yaml
  mc_cfgRead :: "go_error option"
  mc_resolvedRead :: "go_error option"
  mc_dbMissing :: bool
  mc_dbOpen :: "go_error option"
  mc_dbCount :: "go_error option"
  mc_staged :: staged_table
  mc_now :: time
  mc_seconds :: "duration \<Rightarrow> int"
  mc_logOpen :: "go_error option"

text \<open>The older of two instants, where the zero time stands for none.\<close>

definition older :: "time \<Rightarrow> time \<Rightarrow> time" where
  "older oldest mt = (if IsZero oldest \<or> mt < oldest then mt else oldest)"

fun scan_entries_depth :: "listed_entry list \<Rightarrow> int \<times> time \<Rightarrow> int \<times> time" where
  "scan_entries_depth [] s = s"
| "scan_entries_depth (e # es) (depth, oldest) =
     scan_entries_depth es
       (if le_IsDir e then (depth, oldest)
        else (depth + 1, case le_ModTime e of None \<Rightarrow> oldest | Some mt \<Rightarrow> older oldest mt))"

definition scanDirDepth :: "mcp_io \<Rightarrow> path \<Rightarrow> int \<times> time" where
  "scanDirDepth io dir = (case mc_readDir io dir of Inl _ \<Rightarrow> (0, 0) | Inr entries \<Rightarrow> scan_entries_depth entries (0, 0))"

definition loadDeadLetterCount :: "mcp_io \<Rightarrow> int result" where
  "loadDeadLetterCount io =
     (if mc_dbMissing io then Inr 0
      else case mc_dbOpen io of
             Some e \<Rightarrow> Inl (wrapf ''open delivery store: '' e)
           | None \<Rightarrow> (case DeadLetterCount (mc_dbCount io) (mc_staged io) of
                        Inl e \<Rightarrow> Inl (wrapf ''delivery store dead-letter count: '' e)
                      | Inr n \<Rightarrow> Inr n))"

text \<open>The loop over repositories and endpoints that both tools share; \<open>uses\<close> selects the endpoints, \<open>box\<close> names the mailbox.\<close>

fun count_endpoints :: "mcp_io \<Rightarrow> (endpoint \<Rightarrow> bool) \<Rightarrow> string \<Rightarrow> path \<Rightarrow> endpoint list \<Rightarrow> int \<times> int \<times> time \<Rightarrow> int \<times> int \<times> time" where
  "count_endpoints io uses box repoPath [] s = s"
| "count_endpoints io uses box repoPath (ep # eps) (endpoints, totalDepth, globalOldest) =
     count_endpoints io uses box repoPath eps
       (if \<not> uses ep then (endpoints, totalDepth, globalOldest)
        else case scanDirDepth io (path_Join [repoPath, ep_Dir ep, box]) of
               (depth, oldest) \<Rightarrow>
                 (endpoints + 1, totalDepth + depth, if \<not> IsZero oldest then older globalOldest oldest else globalOldest))"

fun count_repos :: "mcp_io \<Rightarrow> (endpoint \<Rightarrow> bool) \<Rightarrow> string \<Rightarrow> string \<Rightarrow> repo_config list \<Rightarrow> int \<times> int \<times> time \<Rightarrow> int \<times> int \<times> time" where
  "count_repos io uses box tool [] s = s"
| "count_repos io uses box tool (repo # repos) s =
     count_repos io uses box tool repos
       (if tool \<noteq> [] \<and> \<not> Contains (rp_Path repo) tool then s
        else count_endpoints io uses box (rp_Path repo) (rp_Endpoints repo) s)"

definition oldest_age :: "mcp_io \<Rightarrow> time \<Rightarrow> int" where
  "oldest_age io globalOldest = (if IsZero globalOldest then 0 else mc_seconds io (mc_now io - globalOldest))"

section \<open>The tools\<close>

definition textResult :: "json \<Rightarrow> json" where
  "textResult t = JObj [(''content'', JList [JObj [(''type'', JText ''text''), (''text'', t)]])]"

definition uninitialized :: "string \<Rightarrow> string \<Rightarrow> json" where
  "uninitialized reason tool = textResult (JObj [(''initialized'', JBool False), (''reason'', JText reason), (''tool'', JText tool)])"

definition realOutboxStatus :: "mcp_io \<Rightarrow> path \<Rightarrow> string \<Rightarrow> disk \<Rightarrow> json" where
  "realOutboxStatus io configPath tool d =
     (if configPath = [] then uninitialized ''phonewave mcp config path not configured'' tool
      else case LoadConfig (mc_yaml io) (mc_cfgRead io) (mc_resolvedRead io) configPath d of
             Inl e \<Rightarrow> uninitialized (''config load failed: '' @ err_msg e) tool
           | Inr cfg \<Rightarrow>
               (case count_repos io (\<lambda>ep. ep_Produces ep \<noteq> []) ''outbox'' tool (cfg_Repositories cfg) (0, 0, 0) of
                  (endpoints, totalDepth, globalOldest) \<Rightarrow>
                    let stateDir = Dir configPath;
                        deadLetters = loadDeadLetterCount io;
                        logPath = path_Join [stateDir, ''delivery.log''];
                        stats = ParseDeliveryStats (mc_logOpen io) (mc_now io) (dk_files d logPath)
                    in textResult (JObj
                         ([(''initialized'', JBool True), (''tool'', JText tool), (''endpoint_count'', JNum endpoints),
                           (''total_depth'', JNum totalDepth),
                           (''dead_letter_count'', JNum (case deadLetters of Inl _ \<Rightarrow> 0 | Inr n \<Rightarrow> n)),
                           (''oldest_age_seconds'', JNum (oldest_age io globalOldest)),
                           (''delivered_24h'', JNum (ds_Delivered stats)), (''failed_24h'', JNum (ds_Failed stats)),
                           (''retried_24h'', JNum (ds_Retried stats))] @
                          (case deadLetters of Inl e \<Rightarrow> [(''dead_letter_error'', JText (err_msg e))] | Inr _ \<Rightarrow> [])))))"

definition realInboxStatus :: "mcp_io \<Rightarrow> path \<Rightarrow> string \<Rightarrow> disk \<Rightarrow> json" where
  "realInboxStatus io configPath tool d =
     (if configPath = [] then uninitialized ''phonewave mcp config path not configured'' tool
      else case LoadConfig (mc_yaml io) (mc_cfgRead io) (mc_resolvedRead io) configPath d of
             Inl e \<Rightarrow> uninitialized (''config load failed: '' @ err_msg e) tool
           | Inr cfg \<Rightarrow>
               (case count_repos io (\<lambda>ep. ep_Consumes ep \<noteq> []) ''inbox'' tool (cfg_Repositories cfg) (0, 0, 0) of
                  (endpoints, totalDepth, globalOldest) \<Rightarrow>
                    textResult (JObj
                      [(''initialized'', JBool True), (''tool'', JText tool), (''endpoint_count'', JNum endpoints),
                       (''total_depth'', JNum totalDepth), (''oldest_age_seconds'', JNum (oldest_age io globalOldest))])))"

section \<open>The server\<close>

text \<open>What the server has written and the invocations it has recorded, with their status.\<close>

record mcp_out =
  mo_written :: "rpc_response list"
  mo_metrics :: "(string \<times> string) list"

definition respond :: "go_error option \<Rightarrow> string \<Rightarrow> rpc_body \<Rightarrow> mcp_out \<Rightarrow> unit result \<times> mcp_out" where
  "respond err rid body out =
     (case err of
        Some e \<Rightarrow> (Inl (wrapf ''write response: '' e), out)
      | None \<Rightarrow> (Inr (), out\<lparr>mo_written := mo_written out @ [\<lparr>rp_ID = rid, rp_Body = body\<rparr>]\<rparr>))"

definition RecordMCPInvocation :: "string \<Rightarrow> string \<Rightarrow> mcp_out \<Rightarrow> mcp_out" where
  "RecordMCPInvocation name status out = out\<lparr>mo_metrics := mo_metrics out @ [(name, status)]\<rparr>"

definition call_tool :: "mcp_io \<Rightarrow> path \<Rightarrow> disk \<Rightarrow> string \<Rightarrow> string \<Rightarrow> (json \<times> string) option" where
  "call_tool io configPath d name tool =
     (if name = ''ping'' then Some (textResult (JText ''pong''), ''ok'')
      else if name = ''outbox_status'' then Some (realOutboxStatus io configPath tool d, ''visibility'')
      else if name = ''inbox_status'' then Some (realInboxStatus io configPath tool d, ''visibility'')
      else None)"

definition handleToolsCall :: "mcp_io \<Rightarrow> go_error option \<Rightarrow> path \<Rightarrow> disk \<Rightarrow> rpc_request \<Rightarrow> mcp_out \<Rightarrow> unit result \<times> mcp_out" where
  "handleToolsCall io err configPath d msg out =
     (case rq_Params msg of
        BadParams \<Rightarrow> respond err (rq_ID msg) (RpcError (- 32602) ''invalid tools/call params'') (RecordMCPInvocation [] ''error'' out)
      | CallParams name tool \<Rightarrow>
          (case call_tool io configPath d name tool of
             None \<Rightarrow> respond err (rq_ID msg) (RpcError (- 32601) (''unknown tool: '' @ name)) (RecordMCPInvocation name ''error'' out)
           | Some (result, status) \<Rightarrow>
               (case respond err (rq_ID msg) (RpcResult result) out of
                  (Inl e, out) \<Rightarrow> (Inl e, RecordMCPInvocation name ''error'' out)
                | (Inr _, out) \<Rightarrow> (Inr (), RecordMCPInvocation name status out))))"

definition mcp_handle :: "mcp_io \<Rightarrow> go_error option \<Rightarrow> path \<Rightarrow> disk \<Rightarrow> rpc_line \<Rightarrow> mcp_out \<Rightarrow> unit result \<times> mcp_out" where
  "mcp_handle io err configPath d line out =
     (case line of
        BlankLine \<Rightarrow> (Inr (), out)
      | BadLine e \<Rightarrow> (Inl (wrapf ''decode request: '' e), out)
      | Request msg \<Rightarrow>
          if rq_Method msg = ''initialize'' then respond err (rq_ID msg) (RpcResult initializeResult) out
          else if rq_Method msg = ''notifications/initialized'' then (Inr (), out)
          else if rq_Method msg = ''tools/list'' then respond err (rq_ID msg) (RpcResult (JObj [(''tools'', JList toolDescriptors)])) out
          else if rq_Method msg = ''tools/call'' then handleToolsCall io err configPath d msg out
          else if rq_ID msg = [] then (Inr (), out)
          else respond err (rq_ID msg) (RpcError (- 32601) (''method not implemented: '' @ rq_Method msg)) out)"

text \<open>One line as \<open>Serve\<close> sees it: the line, what the system does meanwhile, and whether the context was cancelled before.\<close>

record served_line =
  sv_line :: rpc_line
  sv_io :: mcp_io
  sv_disk :: disk
  sv_writeErr :: "go_error option"
  sv_cancelled :: "go_error option"

fun Serve :: "path \<Rightarrow> go_error option \<Rightarrow> served_line list \<Rightarrow> mcp_out \<Rightarrow> unit result \<times> mcp_out" where
  "Serve configPath scanErr [] out =
     (case scanErr of Some e \<Rightarrow> (Inl (wrapf ''mcp server: read stdin: '' e), out) | None \<Rightarrow> (Inr (), out))"
| "Serve configPath scanErr (l # ls) out =
     (case sv_cancelled l of
        Some e \<Rightarrow> (Inl e, out)
      | None \<Rightarrow> Serve configPath scanErr ls (snd (mcp_handle (sv_io l) (sv_writeErr l) configPath (sv_disk l) (sv_line l) out)))"

section \<open>What the counts are\<close>

definition dir_files :: "mcp_io \<Rightarrow> path \<Rightarrow> listed_entry list" where
  "dir_files io dir = (case mc_readDir io dir of Inl _ \<Rightarrow> [] | Inr es \<Rightarrow> filter (\<lambda>e. \<not> le_IsDir e) es)"

definition file_times :: "mcp_io \<Rightarrow> path \<Rightarrow> time list" where
  "file_times io dir = List.map_filter le_ModTime (dir_files io dir)"

definition oldest_of :: "time list \<Rightarrow> time" where
  "oldest_of ts = (if ts = [] then 0 else Min (set ts))"

lemma older_oldest: "\<forall>t \<in> set ts. 0 < t \<Longrightarrow> 0 < mt \<Longrightarrow> older (oldest_of ts) mt = oldest_of (mt # ts)"
proof -
  assume pos: "\<forall>t \<in> set ts. 0 < t" "0 < mt"
  show ?thesis
  proof (cases "ts = []")
    case False
    then have "Min (set ts) \<in> set ts" by simp
    then have "0 < Min (set ts)" using pos(1) by blast
    moreover have "oldest_of ts = Min (set ts)" "oldest_of (mt # ts) = min mt (Min (set ts))" using False by (simp_all add: oldest_of_def)
    ultimately show ?thesis unfolding older_def IsZero_def by (simp only: min_def) auto
  qed (simp add: older_def oldest_of_def IsZero_def)
qed

lemma oldest_of_set: "set ts = set us \<Longrightarrow> oldest_of ts = oldest_of us"
  by (cases ts; cases us) (simp_all add: oldest_of_def)

lemma oldest_of_zero: "\<forall>t \<in> set ts. 0 < t \<Longrightarrow> (IsZero (oldest_of ts) \<longleftrightarrow> ts = [])"
proof (cases "ts = []")
  case False
  assume pos: "\<forall>t \<in> set ts. 0 < t"
  have "Min (set ts) \<in> set ts" using False by simp
  then have "0 < Min (set ts)" using pos by blast
  then show ?thesis using False unfolding oldest_of_def IsZero_def if_not_P[OF False] by (metis less_irrefl)
qed (simp add: oldest_of_def IsZero_def)

lemma older_append:
  assumes "\<forall>t \<in> set ts. 0 < t" and "\<forall>t \<in> set us. 0 < t"
  shows "(if \<not> IsZero (oldest_of us) then older (oldest_of ts) (oldest_of us) else oldest_of ts) = oldest_of (us @ ts)"
proof (cases "us = []")
  case True
  then show ?thesis by (simp add: oldest_of_def IsZero_def)
next
  case False
  then have m: "oldest_of us = Min (set us)" "Min (set us) \<in> set us" by (simp_all add: oldest_of_def)
  then have pos: "0 < Min (set us)" using assms(2) by blast
  have "older (oldest_of ts) (Min (set us)) = oldest_of (Min (set us) # ts)" by (rule older_oldest[OF assms(1) pos])
  also have "\<dots> = oldest_of (us @ ts)" using False by (cases "ts = []") (simp_all add: oldest_of_def Min_Un)
  finally show ?thesis using False assms(2) m(1) oldest_of_zero[of us] by simp
qed

lemma scan_entries_depth_eq:
  assumes "\<forall>e \<in> set es. \<forall>mt. le_ModTime e = Some mt \<longrightarrow> 0 < mt" and "\<forall>t \<in> set ts. 0 < t"
  shows "scan_entries_depth es (n, oldest_of ts) =
    (n + int (length (filter (\<lambda>e. \<not> le_IsDir e) es)), oldest_of (List.map_filter le_ModTime (filter (\<lambda>e. \<not> le_IsDir e) es) @ ts))"
  using assms
proof (induction es arbitrary: n ts)
  case (Cons e es)
  show ?case
  proof (cases "le_IsDir e")
    case False
    show ?thesis
    proof (cases "le_ModTime e")
      case None
      then show ?thesis using Cons False by (simp add: List.map_filter_simps)
    next
      case (Some mt)
      then have "0 < mt" using Cons.prems(1) by simp
      then have "scan_entries_depth (e # es) (n, oldest_of ts) = scan_entries_depth es (n + 1, oldest_of (mt # ts))"
        using False Some older_oldest[OF Cons.prems(2)] by simp
      also have "\<dots> = (n + 1 + int (length (filter (\<lambda>e. \<not> le_IsDir e) es)), oldest_of (List.map_filter le_ModTime (filter (\<lambda>e. \<not> le_IsDir e) es) @ mt # ts))"
        using Cons.IH[of "mt # ts" "n + 1"] Cons.prems \<open>0 < mt\<close> by simp
      finally show ?thesis using False Some by (simp add: List.map_filter_simps) (rule oldest_of_set, auto)
    qed
  qed (use Cons in simp)
qed (simp add: List.map_filter_simps)

text \<open>Times of files are after the zero time.\<close>

definition times_positive :: "mcp_io \<Rightarrow> bool" where
  "times_positive io \<longleftrightarrow> (\<forall>dir es e mt. mc_readDir io dir = Inr es \<longrightarrow> e \<in> set es \<longrightarrow> le_ModTime e = Some mt \<longrightarrow> 0 < mt)"

lemma map_filter_set: "t \<in> set (List.map_filter f xs) \<longleftrightarrow> (\<exists>x \<in> set xs. f x = Some t)"
  by (induction xs) (auto simp: List.map_filter_simps split: option.split)

lemma file_times_positive: "times_positive io \<Longrightarrow> \<forall>t \<in> set (file_times io dir). 0 < t"
  by (auto simp: times_positive_def file_times_def dir_files_def map_filter_set split: sum.splits)

lemma scanDirDepth_eq:
  assumes "times_positive io"
  shows "scanDirDepth io dir = (int (length (dir_files io dir)), oldest_of (file_times io dir))"
proof (cases "mc_readDir io dir")
  case (Inr es)
  then have "\<forall>e \<in> set es. \<forall>mt. le_ModTime e = Some mt \<longrightarrow> 0 < mt" using assms by (auto simp: times_positive_def)
  from scan_entries_depth_eq[OF this, of "[]" 0] show ?thesis
    using Inr by (simp add: scanDirDepth_def dir_files_def file_times_def) (simp add: oldest_of_def)
qed (simp add: scanDirDepth_def dir_files_def file_times_def oldest_of_def List.map_filter_simps)

text \<open>The mailboxes that are counted.\<close>

definition boxes :: "(endpoint \<Rightarrow> bool) \<Rightarrow> string \<Rightarrow> string \<Rightarrow> repo_config list \<Rightarrow> path list" where
  "boxes uses box tool repos =
     concat (map (\<lambda>repo. map (\<lambda>ep. path_Join [rp_Path repo, ep_Dir ep, box]) (filter uses (rp_Endpoints repo)))
       (filter (\<lambda>repo. tool = [] \<or> Contains (rp_Path repo) tool) repos))"

definition box_total :: "mcp_io \<Rightarrow> path list \<Rightarrow> int" where
  "box_total io ds = (\<Sum>dir \<leftarrow> ds. int (length (dir_files io dir)))"

definition box_times :: "mcp_io \<Rightarrow> path list \<Rightarrow> time list" where
  "box_times io ds = concat (map (file_times io) ds)"

lemma count_endpoints_eq:
  assumes "times_positive io"
  shows "\<forall>t \<in> set ts. 0 < t \<Longrightarrow> count_endpoints io uses box rp eps (n, k, oldest_of ts) =
    (let ds = map (\<lambda>ep. path_Join [rp, ep_Dir ep, box]) (filter uses eps)
     in (n + int (length ds), k + box_total io ds, oldest_of (ts @ box_times io ds)))"
proof (induction eps arbitrary: n k ts)
  case (Cons ep eps)
  let ?dir = "path_Join [rp, ep_Dir ep, box]"
  show ?case
  proof (cases "uses ep")
    case True
    have pos: "\<forall>t \<in> set (file_times io ?dir @ ts). 0 < t" using Cons.prems file_times_positive[OF assms, of ?dir] by auto
    have eq: "oldest_of ((file_times io ?dir @ ts) @ us) = oldest_of (ts @ file_times io ?dir @ us)" for us
      by (rule oldest_of_set) auto
    have "count_endpoints io uses box rp (ep # eps) (n, k, oldest_of ts) =
        count_endpoints io uses box rp eps (n + 1, k + int (length (dir_files io ?dir)), oldest_of (file_times io ?dir @ ts))"
      using True scanDirDepth_eq[OF assms, of ?dir] older_append[OF Cons.prems file_times_positive[OF assms, of ?dir]] by simp
    then show ?thesis unfolding Cons.IH[OF pos] Let_def using True eq by (simp add: box_total_def box_times_def)
  next
    case False
    then show ?thesis using Cons.IH[OF Cons.prems] by simp
  qed
qed (simp add: box_total_def box_times_def)

lemma boxes_Cons:
  "boxes uses box tool (repo # repos) =
     (if tool = [] \<or> Contains (rp_Path repo) tool then map (\<lambda>ep. path_Join [rp_Path repo, ep_Dir ep, box]) (filter uses (rp_Endpoints repo)) else []) @
     boxes uses box tool repos"
  by (simp add: boxes_def)

lemma box_sums_append: "box_total io (xs @ ys) = box_total io xs + box_total io ys" "box_times io (xs @ ys) = box_times io xs @ box_times io ys"
  by (simp_all add: box_total_def box_times_def)

lemma box_times_positive: "times_positive io \<Longrightarrow> \<forall>t \<in> set (box_times io ds). 0 < t"
  using file_times_positive by (fastforce simp: box_times_def)

lemma count_repos_eq:
  assumes "times_positive io"
  shows "\<forall>t \<in> set ts. 0 < t \<Longrightarrow> count_repos io uses box tool repos (n, k, oldest_of ts) =
    (n + int (length (boxes uses box tool repos)), k + box_total io (boxes uses box tool repos), oldest_of (ts @ box_times io (boxes uses box tool repos)))"
proof (induction repos arbitrary: n k ts)
  case (Cons repo repos)
  let ?ds = "map (\<lambda>ep. path_Join [rp_Path repo, ep_Dir ep, box]) (filter uses (rp_Endpoints repo))"
  show ?case
  proof (cases "tool = [] \<or> Contains (rp_Path repo) tool")
    case True
    have pos: "\<forall>t \<in> set (ts @ box_times io ?ds). 0 < t" using Cons.prems box_times_positive[OF assms, of ?ds] by auto
    have sel: "\<not> (tool \<noteq> [] \<and> \<not> Contains (rp_Path repo) tool)" using True by blast
    have "count_repos io uses box tool (repo # repos) (n, k, oldest_of ts) =
        count_repos io uses box tool repos (n + int (length ?ds), k + box_total io ?ds, oldest_of (ts @ box_times io ?ds))"
      unfolding count_repos.simps if_not_P[OF sel] count_endpoints_eq[OF assms Cons.prems] Let_def ..
    then show ?thesis unfolding Cons.IH[OF pos] boxes_Cons using True by (simp add: box_sums_append)
  next
    case False
    then show ?thesis using Cons.IH[OF Cons.prems] by (simp add: boxes_Cons)
  qed
qed (simp add: boxes_def box_total_def box_times_def)

lemma boxes_watched: "boxes (\<lambda>ep. ep_Produces ep \<noteq> []) ''outbox'' [] (cfg_Repositories cfg) = CollectOutboxDirs cfg"
  by (simp add: boxes_def CollectOutboxDirs_def)

section \<open>Answers\<close>

text \<open>What the server writes on one line alone.\<close>

definition answers :: "path \<Rightarrow> served_line \<Rightarrow> rpc_response list" where
  "answers configPath l =
     mo_written (snd (mcp_handle (sv_io l) (sv_writeErr l) configPath (sv_disk l) (sv_line l) \<lparr>mo_written = [], mo_metrics = []\<rparr>))"

lemma respond_written: "mo_written (snd (respond err rid body out)) = mo_written out @ (if err = None then [\<lparr>rp_ID = rid, rp_Body = body\<rparr>] else [])"
  by (simp add: respond_def split: option.split)

lemma record_written [simp]: "mo_written (RecordMCPInvocation name status out) = mo_written out"
  by (simp add: RecordMCPInvocation_def)

definition tool_body :: "mcp_io \<Rightarrow> path \<Rightarrow> disk \<Rightarrow> call_params \<Rightarrow> rpc_body" where
  "tool_body io configPath d params =
     (case params of
        BadParams \<Rightarrow> RpcError (- 32602) ''invalid tools/call params''
      | CallParams name tool \<Rightarrow>
          (case call_tool io configPath d name tool of None \<Rightarrow> RpcError (- 32601) (''unknown tool: '' @ name) | Some (result, _) \<Rightarrow> RpcResult result))"

lemma handleToolsCall_written:
  "mo_written (snd (handleToolsCall io err configPath d msg out)) =
     mo_written out @ (if err = None then [\<lparr>rp_ID = rq_ID msg, rp_Body = tool_body io configPath d (rq_Params msg)\<rparr>] else [])"
  by (auto simp: handleToolsCall_def tool_body_def respond_def split: call_params.split option.split prod.split)

text \<open>The handler adds to the output what it would write on its own.\<close>

lemma mcp_handle_local:
  "mo_written (snd (mcp_handle (sv_io l) (sv_writeErr l) configPath (sv_disk l) (sv_line l) out)) = mo_written out @ answers configPath l"
  by (simp add: answers_def mcp_handle_def respond_written handleToolsCall_written split: rpc_line.split)

lemma Serve_written:
  "\<forall>l \<in> set ls. sv_cancelled l = None \<Longrightarrow> mo_written (snd (Serve configPath scanErr ls out)) = mo_written out @ concat (map (answers configPath) ls) \<and>
     (scanErr = None \<longrightarrow> fst (Serve configPath scanErr ls out) = Inr ())"
  by (induction ls arbitrary: out) (simp_all add: mcp_handle_local split: option.split)

text \<open>What is promised of one line.\<close>

definition well_answered :: "path \<Rightarrow> served_line \<Rightarrow> bool" where
  "well_answered configPath l \<longleftrightarrow>
     (case sv_line l of
        Request msg \<Rightarrow>
          if sv_writeErr l \<noteq> None \<or> rq_Method msg = ''notifications/initialized'' then answers configPath l = []
          else (rq_ID msg \<noteq> [] \<longrightarrow>
                  (\<exists>body. answers configPath l = [\<lparr>rp_ID = rq_ID msg, rp_Body = body\<rparr>] \<and>
                     (rq_Method msg \<in> {''initialize'', ''tools/list''} \<longrightarrow> (\<exists>result. body = RpcResult result)) \<and>
                     (rq_Method msg \<notin> {''initialize'', ''tools/list'', ''tools/call''} \<longrightarrow>
                        body = RpcError (- 32601) (''method not implemented: '' @ rq_Method msg)))) \<and>
               (rq_ID msg = [] \<longrightarrow>
                  (if rq_Method msg \<in> {''initialize'', ''tools/list'', ''tools/call''} then \<exists>body. answers configPath l = [\<lparr>rp_ID = [], rp_Body = body\<rparr>]
                   else answers configPath l = []))
      | _ \<Rightarrow> answers configPath l = [])"

lemma well_answered_all: "well_answered configPath l"
proof (cases "sv_line l")
  case (Request msg)
  note defs = well_answered_def answers_def mcp_handle_def respond_written handleToolsCall_written Request
  consider "rq_Method msg = ''initialize''" | "rq_Method msg = ''notifications/initialized''" | "rq_Method msg = ''tools/list''"
    | "rq_Method msg = ''tools/call''"
    | "rq_Method msg \<notin> {''initialize'', ''notifications/initialized'', ''tools/list'', ''tools/call''}" by blast
  then show ?thesis by cases (cases "sv_writeErr l"; simp add: defs)+
qed (simp_all add: well_answered_def answers_def mcp_handle_def)


definition sample_mcp_io :: mcp_io where
  "sample_mcp_io = \<lparr>mc_readDir = (\<lambda>dir. if dir = ''/p/r/.siren/outbox'' then Inr [\<lparr>le_IsDir = False, le_ModTime = Some 5\<rparr>, \<lparr>le_IsDir = True, le_ModTime = None\<rparr>] else Inl (errorf ''x'')),
     mc_yaml = \<lparr>cy_marshalManifest = (\<lambda>_. Inl (errorf ''x'')), cy_marshalResolved = (\<lambda>_. Inl (errorf ''x'')),
       cy_config = (\<lambda>_. Inr \<lparr>cfg_LastSynced = 0, cfg_Repositories = [\<lparr>rp_Path = ''/p/r'', rp_Endpoints = [\<lparr>ep_Dir = ''.siren'', ep_Produces = [''report''], ep_Consumes = []\<rparr>]\<rparr>], cfg_Routes = []\<rparr>),
       cy_resolved = (\<lambda>_. Inl (errorf ''x''))\<rparr>,
     mc_cfgRead = None, mc_resolvedRead = None, mc_dbMissing = True, mc_dbOpen = None, mc_dbCount = None, mc_staged = [], mc_now = 9,
     mc_seconds = (\<lambda>d. d), mc_logOpen = None\<rparr>"

definition sample_mcp_disk :: disk where
  "sample_mcp_disk = \<lparr>dk_files = [''/p/.phonewave/config.yaml'' \<mapsto> ''x''], dk_renamed = []\<rparr>"

definition sample_line :: "rpc_line \<Rightarrow> served_line" where
  "sample_line line = \<lparr>sv_line = line, sv_io = sample_mcp_io, sv_disk = sample_mcp_disk, sv_writeErr = None, sv_cancelled = None\<rparr>"


text \<open>C28: Without a tool named, \<open>outbox_status\<close> reports on exactly the outboxes the daemon watches: their number, the number of
  files in them, and the age of the oldest file.\<close>

theorem outbox_status_counts:
  assumes "configPath \<noteq> []" and "LoadConfig (mc_yaml io) (mc_cfgRead io) (mc_resolvedRead io) configPath d = Inr cfg" and "times_positive io"
  shows "\<exists>fields. realOutboxStatus io configPath [] d = textResult (JObj fields) \<and>
    map_of fields ''endpoint_count'' = Some (JNum (int (length (CollectOutboxDirs cfg)))) \<and>
    map_of fields ''total_depth'' = Some (JNum (\<Sum>dir \<leftarrow> CollectOutboxDirs cfg. int (length (dir_files io dir)))) \<and>
    map_of fields ''oldest_age_seconds'' = Some (JNum
      (let times = concat (map (file_times io) (CollectOutboxDirs cfg)) in if times = [] then 0 else mc_seconds io (mc_now io - Min (set times))))"
proof -
  let ?ds = "CollectOutboxDirs cfg"
  have none: "oldest_of [] = 0" by (simp add: oldest_of_def)
  have run: "count_repos io (\<lambda>ep. ep_Produces ep \<noteq> []) ''outbox'' [] (cfg_Repositories cfg) (0, 0, 0) =
      (int (length ?ds), box_total io ?ds, oldest_of (box_times io ?ds))"
    using count_repos_eq[OF assms(3), of "[]" "\<lambda>ep. ep_Produces ep \<noteq> []" "''outbox''" "[]" "cfg_Repositories cfg" 0 0]
    unfolding boxes_watched none by simp
  have "oldest_age io (oldest_of (box_times io ?ds)) =
      (let times = box_times io ?ds in if times = [] then 0 else mc_seconds io (mc_now io - Min (set times)))"
    using oldest_of_zero[OF box_times_positive[OF assms(3), of ?ds]] by (simp add: oldest_age_def oldest_of_def)
  then show ?thesis
    unfolding realOutboxStatus_def if_not_P[OF assms(1)] assms(2) sum.case run prod.case Let_def
    by (intro exI) (rule conjI, rule refl, simp add: box_total_def box_times_def)
qed

theorem outbox_status_counts_witness:
  "\<exists>fields. realOutboxStatus sample_mcp_io ''/p/.phonewave/config.yaml'' [] sample_mcp_disk = textResult (JObj fields) \<and>
     map_of fields ''total_depth'' = Some (JNum 1) \<and> map_of fields ''oldest_age_seconds'' = Some (JNum 4)"
proof -
  define cfg where "cfg = UpdateRoutes \<lparr>cfg_LastSynced = 0, cfg_Repositories = [\<lparr>rp_Path = ''/p/r'', rp_Endpoints = [\<lparr>ep_Dir = ''.siren'', ep_Produces = [''report''], ep_Consumes = []\<rparr>]\<rparr>], cfg_Routes = []\<rparr>"
  have l: "LoadConfig (mc_yaml sample_mcp_io) (mc_cfgRead sample_mcp_io) (mc_resolvedRead sample_mcp_io) ''/p/.phonewave/config.yaml'' sample_mcp_disk = Inr cfg"
    unfolding cfg_def by code_simp
  have pos: "times_positive sample_mcp_io" by (auto simp: times_positive_def sample_mcp_io_def split: if_splits)
  have ds: "CollectOutboxDirs cfg = [''/p/r/.siren/outbox'']" unfolding cfg_def by code_simp
  have files: "dir_files sample_mcp_io ''/p/r/.siren/outbox'' = [\<lparr>le_IsDir = False, le_ModTime = Some 5\<rparr>]" by (simp add: dir_files_def sample_mcp_io_def)
  have times: "file_times sample_mcp_io ''/p/r/.siren/outbox'' = [5]" unfolding file_times_def files by (simp add: List.map_filter_simps)
  have clock: "mc_seconds sample_mcp_io x = x" "mc_now sample_mcp_io = 9" for x by (simp_all add: sample_mcp_io_def)
  show ?thesis using outbox_status_counts[OF _ l pos] unfolding ds by (simp add: files times clock) blast
qed

end
