(* ===== verification/ArchiveIndex.thy ===== *)
theory ArchiveIndex
  imports Metrics
begin

text \<open>
  The index of the archive (\<open>src/internal/session/archive_index.go\<close>): what is read from a Markdown file, with the regular
  expressions written out, the JSON line of an entry as \<open>json.Marshal\<close> prints it, and the two ways to write the index file.
  The files a walk over a directory finds, their times, and errors of the system are arguments.
\<close>

section \<open>Summaries\<close>

definition maxSummaryLen :: nat where "maxSummaryLen = 100"

definition truncate_summary :: "string \<Rightarrow> nat \<Rightarrow> string" where
  "truncate_summary s m = (if length s \<le> m then s else take m s)"

text \<open>The loop over the lines after the first: \<open>inFrontmatter\<close> and the first line with text so far.\<close>

fun summary_lines :: "bool \<Rightarrow> string \<Rightarrow> string list \<Rightarrow> string" where
  "summary_lines inFM fallback [] = truncate_summary fallback maxSummaryLen"
| "summary_lines inFM fallback (line # ls) =
     (let trimmed = TrimSpace line
      in if inFM then summary_lines (trimmed \<noteq> ''---'') fallback ls
         else if trimmed = [] then summary_lines False fallback ls
         else if HasPrefix trimmed ''# '' then truncate_summary (drop 2 trimmed) maxSummaryLen
         else summary_lines False (if fallback = [] then trimmed else fallback) ls)"

definition summary_of :: "string \<Rightarrow> string" where
  "summary_of text =
     (case scan_lines text of
        [] \<Rightarrow> truncate_summary [] maxSummaryLen
      | line # ls \<Rightarrow> if TrimSpace line = ''---'' then summary_lines True [] ls else summary_lines False [] (line # ls))"

definition ExtractSummary :: "go_error option \<Rightarrow> path \<Rightarrow> disk \<Rightarrow> string" where
  "ExtractSummary err p d = (case os_ReadFile err p d of Inl _ \<Rightarrow> [] | Inr text \<Rightarrow> summary_of text)"

section \<open>Patterns\<close>

abbreviation is_digit :: "char \<Rightarrow> bool" where "is_digit c \<equiv> digit_val c \<noteq> None"

definition is_upper :: "char \<Rightarrow> bool" where
  "is_upper c \<longleftrightarrow> 65 \<le> (of_char c :: nat) \<and> (of_char c :: nat) \<le> 90"

text \<open>\<open>[A-Z]+-\d+\<close>, the leftmost match or the empty string.\<close>

fun find_issue :: "string \<Rightarrow> string" where
  "find_issue [] = []"
| "find_issue (c # s) =
     (let letters = takeWhile is_upper (c # s); rest = dropWhile is_upper (c # s)
      in if letters \<noteq> [] \<and> HasPrefix rest ''-'' \<and> takeWhile is_digit (drop 1 rest) \<noteq> []
         then letters @ ''-'' @ takeWhile is_digit (drop 1 rest)
         else find_issue s)"

text \<open>A shape: the digit 9 stands for any digit, everything else for itself.\<close>

fun has_shape :: "string \<Rightarrow> string \<Rightarrow> bool" where
  "has_shape [] s \<longleftrightarrow> True"
| "has_shape (p # ps) [] \<longleftrightarrow> False"
| "has_shape (p # ps) (c # s) \<longleftrightarrow> (if p = CHR ''9'' then is_digit c else c = p) \<and> has_shape ps s"

definition date_shape :: string where "date_shape = ''9999-99-99''"
definition clock_shape :: string where "clock_shape = ''99:99:99''"

text \<open>\<open>(\d{4}-\d{2}-\d{2})[T ](\d{2}:\d{2}:\d{2})\<close>: date and time of the leftmost match.\<close>

fun find_date_time :: "string \<Rightarrow> (string \<times> string) option" where
  "find_date_time [] = None"
| "find_date_time (c # s) =
     (if has_shape (date_shape @ ''T'' @ clock_shape) (c # s) \<or> has_shape (date_shape @ '' '' @ clock_shape) (c # s)
      then Some (take 10 (c # s), take 8 (drop 11 (c # s)))
      else find_date_time s)"

fun find_date :: "string \<Rightarrow> string option" where
  "find_date [] = None"
| "find_date (c # s) = (if has_shape date_shape (c # s) then Some (take 10 (c # s)) else find_date s)"

definition re_space :: "char \<Rightarrow> bool" where
  "re_space c \<longleftrightarrow> c \<in> {CHR 0x09, CHR 0x0A, CHR 0x0C, CHR 0x0D, CHR 0x20}"

text \<open>\<open>\*\*Status\*\*:\s*(success|failed|skipped)\<close>.\<close>

fun find_status :: "string \<Rightarrow> string option" where
  "find_status [] = None"
| "find_status (c # s) =
     (let rest = dropWhile re_space (drop 11 (c # s))
      in if HasPrefix (c # s) ''**Status**:'' \<and> (HasPrefix rest ''success'' \<or> HasPrefix rest ''skipped'') then Some (take 7 rest)
         else if HasPrefix (c # s) ''**Status**:'' \<and> HasPrefix rest ''failed'' then Some ''failed''
         else find_status s)"

section \<open>Entries\<close>

record index_entry =
  ix_Timestamp :: string
  ix_Operation :: string
  ix_Issue :: string
  ix_Status :: string
  ix_Tool :: string
  ix_Path :: path
  ix_Summary :: string

definition opFromTool :: "string \<Rightarrow> string" where
  "opFromTool tool =
     (if tool = ''paintress'' then ''expedition'' else if tool = ''amadeus'' then ''divergence''
      else if tool = ''sightjack'' then ''wave'' else if tool = ''phonewave'' then ''dmail'' else [])"

definition normalizeToRFC3339 :: "string \<Rightarrow> string" where
  "normalizeToRFC3339 s = (if has_shape date_shape s \<and> length s = 10 then s @ ''T00:00:00Z'' else s)"

definition Trim_quotes :: "string \<Rightarrow> string" where
  "Trim_quotes s = (let q = (\<lambda>c. c = CHR 0x22 \<or> c = CHR 0x27) in rev (dropWhile q (rev (dropWhile q s))))"

definition fm_value :: "string \<Rightarrow> string \<Rightarrow> string" where
  "fm_value key trimmed = Trim_quotes (TrimSpace (drop (length key) trimmed))"

fun fm_timestamp :: "string list \<Rightarrow> string option" where
  "fm_timestamp [] = None"
| "fm_timestamp (line # ls) =
     (let trimmed = TrimSpace line
      in if trimmed = ''---'' then None
         else if HasPrefix trimmed ''updated_at:'' \<and> fm_value ''updated_at:'' trimmed \<noteq> [] then Some (fm_value ''updated_at:'' trimmed)
         else if HasPrefix trimmed ''date:'' \<and> fm_value ''date:'' trimmed \<noteq> [] then Some (normalizeToRFC3339 (fm_value ''date:'' trimmed))
         else fm_timestamp ls)"

fun body_timestamp :: "string list \<Rightarrow> string option" where
  "body_timestamp [] = None"
| "body_timestamp (line # ls) =
     (case if Contains line ''**Date**:'' then find_date_time line else None of
        Some (d, t) \<Rightarrow> Some (d @ ''T'' @ t @ ''Z'')
      | None \<Rightarrow> body_timestamp ls)"

record file_io =
  fi_open :: "go_error option"
  fi_read :: "go_error option"
  fi_mtime :: "time option"
  fi_now :: time

definition extractTimestamp :: "file_io \<Rightarrow> path \<Rightarrow> string \<Rightarrow> string" where
  "extractTimestamp io p content =
     (let ls = Split (CHR 0x0A) content
      in case if TrimSpace (hd ls) = ''---'' then fm_timestamp (tl ls) else None of
           Some ts \<Rightarrow> ts
         | None \<Rightarrow>
             (case body_timestamp ls of
                Some ts \<Rightarrow> ts
              | None \<Rightarrow>
                  (case find_date (Base p) of
                     Some d \<Rightarrow> d @ ''T00:00:00Z''
                   | None \<Rightarrow> format_RFC3339 (case fi_mtime io of None \<Rightarrow> fi_now io | Some t \<Rightarrow> t))))"

definition ExtractMeta :: "file_io \<Rightarrow> path \<Rightarrow> path \<Rightarrow> string \<Rightarrow> disk \<Rightarrow> index_entry" where
  "ExtractMeta io p stateDir tool d =
     (let relPath = (case Rel stateDir p of Inl _ \<Rightarrow> p | Inr r \<Rightarrow> r);
          firstSeg = takeWhile (\<lambda>c. c \<noteq> CHR ''/'') relPath;
          entry = \<lparr>ix_Timestamp = [], ix_Operation = (if firstSeg = ''archive'' then ''dmail'' else opFromTool tool), ix_Issue = [], ix_Status = [],
                   ix_Tool = tool, ix_Path = relPath, ix_Summary = ExtractSummary (fi_open io) p d\<rparr>
      in case os_ReadFile (fi_read io) p d of
           Inl _ \<Rightarrow> entry
         | Inr content \<Rightarrow>
             entry\<lparr>ix_Issue := find_issue content,
                   ix_Status := (case find_status content of None \<Rightarrow> ''unknown'' | Some s \<Rightarrow> s),
                   ix_Timestamp := extractTimestamp io p content\<rparr>)"

section \<open>JSON lines\<close>

text \<open>The length of the UTF-8 sequence at the start of a text that does not start with an ASCII character, 0 if it is invalid.\<close>

definition in_range :: "nat \<Rightarrow> nat \<Rightarrow> char \<Rightarrow> bool" where
  "in_range lo hi c \<longleftrightarrow> lo \<le> of_char c \<and> (of_char c :: nat) \<le> hi"

definition byte_at :: "string \<Rightarrow> nat \<Rightarrow> nat \<Rightarrow> nat \<Rightarrow> bool" where
  "byte_at s i lo hi \<longleftrightarrow> i < length s \<and> in_range lo hi (s ! i)"

definition rune2 :: "string \<Rightarrow> bool" where
  "rune2 s \<longleftrightarrow> byte_at s 0 0xC2 0xDF \<and> byte_at s 1 0x80 0xBF"

definition rune3 :: "string \<Rightarrow> bool" where
  "rune3 s \<longleftrightarrow>
     (byte_at s 0 0xE0 0xE0 \<and> byte_at s 1 0xA0 0xBF \<or> byte_at s 0 0xE1 0xEC \<and> byte_at s 1 0x80 0xBF \<or>
      byte_at s 0 0xED 0xED \<and> byte_at s 1 0x80 0x9F \<or> byte_at s 0 0xEE 0xEF \<and> byte_at s 1 0x80 0xBF) \<and> byte_at s 2 0x80 0xBF"

definition rune4 :: "string \<Rightarrow> bool" where
  "rune4 s \<longleftrightarrow>
     (byte_at s 0 0xF0 0xF0 \<and> byte_at s 1 0x90 0xBF \<or> byte_at s 0 0xF1 0xF3 \<and> byte_at s 1 0x80 0xBF \<or>
      byte_at s 0 0xF4 0xF4 \<and> byte_at s 1 0x80 0x8F) \<and> byte_at s 2 0x80 0xBF \<and> byte_at s 3 0x80 0xBF"

definition rune_len :: "string \<Rightarrow> nat" where
  "rune_len s = (if rune2 s then 2 else if rune3 s then 3 else if rune4 s then 4 else 0)"

definition json_ascii :: "char \<Rightarrow> string" where
  "json_ascii c =
     (if c = CHR 0x22 \<or> c = bslash then [bslash, c]
      else if c = CHR 0x08 then [bslash, CHR ''b''] else if c = CHR 0x0C then [bslash, CHR ''f'']
      else if c = CHR 0x0A then [bslash, CHR ''n''] else if c = CHR 0x0D then [bslash, CHR ''r'']
      else if c = CHR 0x09 then [bslash, CHR ''t'']
      else if in_range 0 0x1F c \<or> c \<in> {CHR ''<'', CHR ''>'', CHR ''&''} then bslash # ''u00'' @ hex_byte c
      else [c])"

function json_chars :: "string \<Rightarrow> string" where
  "json_chars [] = []"
| "json_chars (c # s) =
     (if in_range 0 0x7F c then json_ascii c @ json_chars s
      else let n = rune_len (c # s)
           in if n = 0 then bslash # ''ufffd'' @ json_chars s
              else if take 3 (c # s) = [CHR 0xE2, CHR 0x80, CHR 0xA8] then bslash # ''u2028'' @ json_chars (drop n (c # s))
              else if take 3 (c # s) = [CHR 0xE2, CHR 0x80, CHR 0xA9] then bslash # ''u2029'' @ json_chars (drop n (c # s))
              else take n (c # s) @ json_chars (drop n (c # s)))"
  by pat_completeness auto

termination json_chars
  by (relation "measure length") auto

definition json_string :: "string \<Rightarrow> string" where
  "json_string s = CHR 0x22 # json_chars s @ [CHR 0x22]"

definition index_line :: "index_entry \<Rightarrow> string" where
  "index_line e =
     ''{'' @ Join '','' (map (\<lambda>(k, v). json_string k @ '':'' @ json_string v)
       [(''ts'', ix_Timestamp e), (''op'', ix_Operation e), (''issue'', ix_Issue e), (''status'', ix_Status e), (''tool'', ix_Tool e),
        (''path'', ix_Path e), (''summary'', ix_Summary e)]) @ ''}''"

definition index_text :: "index_entry list \<Rightarrow> bytes" where
  "index_text es = concat (map (\<lambda>e. index_line e @ [CHR 0x0A]) es)"

section \<open>Writing the index\<close>

record index_io =
  xi_mkdir :: "go_error option"
  xi_lockOpen :: "go_error option"
  xi_flock :: "go_error option"
  xi_open :: "go_error option"
  xi_write :: write_fault
  xi_rename :: "go_error option"
  xi_stat :: "path \<Rightarrow> bool"
  xi_walk :: "path \<Rightarrow> path list"
  xi_file :: "path \<Rightarrow> file_io"

text \<open>A failed write may have appended a part.\<close>

definition Index_Append :: "index_io \<Rightarrow> path \<Rightarrow> index_entry list \<Rightarrow> disk \<Rightarrow> unit result \<times> disk" where
  "Index_Append io indexPath entries d =
     (if entries = [] then (Inr (), d)
      else case xi_lockOpen io of Some e \<Rightarrow> (Inl (wrapf ''open lock: '' e), d) | None \<Rightarrow>
           case xi_flock io of Some e \<Rightarrow> (Inl (wrapf ''flock: '' e), d) | None \<Rightarrow>
           case xi_open io of Some e \<Rightarrow> (Inl (wrapf ''open index: '' e), d) | None \<Rightarrow>
           let old = (case dk_files d indexPath of None \<Rightarrow> [] | Some b \<Rightarrow> b)
           in case xi_write io of
                None \<Rightarrow> (Inr (), d\<lparr>dk_files := (dk_files d)(indexPath \<mapsto> old @ index_text entries)\<rparr>)
              | Some (e, part) \<Rightarrow> (Inl (wrapf ''write index: '' e),
                  d\<lparr>dk_files := (dk_files d)(indexPath \<mapsto> old @ (case part of None \<Rightarrow> [] | Some b \<Rightarrow> b))\<rparr>))"

definition indexDirs :: "string list" where
  "indexDirs = [''archive'', ''journal'', ''journals'', ''insights'']"

definition index_files :: "index_io \<Rightarrow> path \<Rightarrow> path list" where
  "index_files io stateDir =
     concat (map (\<lambda>sub. let dir = path_Join [stateDir, sub]
                        in if xi_stat io dir then filter (\<lambda>p. Ext p = ''.md'') (xi_walk io dir) else []) indexDirs)"

definition index_entries :: "index_io \<Rightarrow> path \<Rightarrow> string \<Rightarrow> disk \<Rightarrow> index_entry list" where
  "index_entries io stateDir tool d = map (\<lambda>p. ExtractMeta (xi_file io p) p stateDir tool d) (index_files io stateDir)"

definition Rebuild :: "index_io \<Rightarrow> path \<Rightarrow> path \<Rightarrow> string \<Rightarrow> disk \<Rightarrow> int result \<times> disk" where
  "Rebuild io indexPath stateDir tool d =
     (case xi_mkdir io of Some e \<Rightarrow> (Inl (wrapf ''mkdir index dir: '' e), d) | None \<Rightarrow>
      case xi_lockOpen io of Some e \<Rightarrow> (Inl (wrapf ''open lock: '' e), d) | None \<Rightarrow>
      case xi_flock io of Some e \<Rightarrow> (Inl (wrapf ''flock: '' e), d) | None \<Rightarrow>
      let entries = index_entries io stateDir tool d; tmpPath = indexPath @ ''.tmp''; buf = index_text entries
      in case os_WriteFile (xi_write io) tmpPath buf d of
           (Inl e, d) \<Rightarrow> (Inl (wrapf ''write tmp: '' e), d)
         | (Inr _, d) \<Rightarrow>
             (case xi_rename io of
                Some e \<Rightarrow> (Inl (wrapf ''rename: '' e), d)
              | None \<Rightarrow> (Inr (int (length entries)), d\<lparr>dk_files := (dk_files d)(tmpPath := None, indexPath \<mapsto> buf)\<rparr>)))"

section \<open>One line per entry\<close>

lemma hex_digit_newline: "d < 16 \<Longrightarrow> hex_digit d \<noteq> CHR 0x0A"
proof
  assume d: "d < 16" and h: "hex_digit d = CHR 0x0A"
  have "(of_char (hex_digit d) :: nat) \<ge> 48" using d by (simp add: hex_digit_def)
  with h show False by simp
qed

lemma json_ascii_newline: "CHR 0x0A \<notin> set (json_ascii c)"
proof -
  have "(of_char c :: nat) div 16 < 16" using nat_of_char_less_256[of c] by (simp add: less_mult_imp_div_less)
  then have "CHR 0x0A \<notin> set (hex_byte c)"
    using hex_digit_newline[of "of_char c div 16"] hex_digit_newline[of "of_char c mod 16"] by (auto simp: hex_byte_def)
  then show ?thesis by (auto simp: json_ascii_def bslash_def)
qed

definition high_byte :: "string \<Rightarrow> nat \<Rightarrow> bool" where
  "high_byte s i \<longleftrightarrow> i < length s \<and> 0x80 \<le> (of_char (s ! i) :: nat)"

lemma byte_at_high: "byte_at s i lo hi \<Longrightarrow> 0x80 \<le> lo \<Longrightarrow> high_byte s i"
  by (simp add: byte_at_def high_byte_def in_range_def)

lemma rune_bytes: "i < rune_len s \<Longrightarrow> high_byte s i"
proof -
  assume i: "i < rune_len s"
  have two: "rune2 s \<Longrightarrow> high_byte s 0 \<and> high_byte s 1"
    unfolding rune2_def by (auto elim: byte_at_high)
  have three: "rune3 s \<Longrightarrow> high_byte s 0 \<and> high_byte s 1 \<and> high_byte s 2"
    unfolding rune3_def by (elim conjE disjE) (auto elim: byte_at_high)
  have four: "rune4 s \<Longrightarrow> high_byte s 0 \<and> high_byte s 1 \<and> high_byte s 2 \<and> high_byte s 3"
    unfolding rune4_def by (elim conjE disjE) (auto elim: byte_at_high)
  from i consider "rune2 s" "i < 2" | "rune3 s" "i < 3" | "rune4 s" "i < 4" by (auto simp: rune_len_def split: if_splits)
  then show ?thesis
  proof cases
    case 1
    then have "i = 0 \<or> i = 1" by auto
    with 1 two show ?thesis by auto
  next
    case 2
    then have "i = 0 \<or> i = 1 \<or> i = 2" by auto
    with 2 three show ?thesis by auto
  next
    case 3
    then have "i = 0 \<or> i = 1 \<or> i = 2 \<or> i = 3" by auto
    with 3 four show ?thesis by auto
  qed
qed

lemma rune_newline: "CHR 0x0A \<notin> set (take (rune_len s) s)"
proof
  assume "CHR 0x0A \<in> set (take (rune_len s) s)"
  then obtain i where "i < rune_len s" "s ! i = CHR 0x0A" by (auto simp: in_set_conv_nth)
  with rune_bytes[of i s] show False by (simp add: high_byte_def)
qed

lemma json_chars_newline: "CHR 0x0A \<notin> set (json_chars s)"
proof (induction s rule: json_chars.induct)
  case (2 c s)
  show ?case
  proof (cases "in_range 0 0x7F c")
    case True
    then show ?thesis using 2(1) json_ascii_newline by simp
  next
    case False
    then show ?thesis
      using 2(2-5)[OF False refl] rune_newline[of "c # s"] by (simp add: Let_def bslash_def)
  qed
qed simp

lemma index_line_newline: "CHR 0x0A \<notin> set (index_line e)"
proof -
  have "CHR 0x0A \<notin> set (json_string v)" for v by (simp add: json_string_def json_chars_newline)
  then show ?thesis unfolding index_line_def by simp
qed

lemma index_text_lines: "Split (CHR 0x0A) (index_text es) = map index_line es @ [[]]"
  using Split_lines[of "map index_line es" "CHR 0x0A"] index_line_newline by (simp add: index_text_def comp_def)

text \<open>A rebuild of the archive index replaces it as a whole or not at all: if it fails, the old index is still there; if it succeeds,
  the new index has exactly one line for each Markdown file of the four directories, in the order of the walk, whatever the files contain,
  and the returned number is theirs.\<close>

theorem Rebuild_is_atomic:
  "case Rebuild io indexPath stateDir tool d of
     (Inl _, d') \<Rightarrow> dk_files d' indexPath = dk_files d indexPath
   | (Inr n, d') \<Rightarrow> n = int (length (index_files io stateDir)) \<and>
       (\<exists>text. dk_files d' indexPath = Some text \<and>
          Split (CHR 0x0A) text = map (\<lambda>p. index_line (ExtractMeta (xi_file io p) p stateDir tool d)) (index_files io stateDir) @ [[]])"
proof -
  have "indexPath \<noteq> indexPath @ ''.tmp''" by simp
  then have tmp: "dk_files (snd (os_WriteFile e (indexPath @ ''.tmp'') b d)) indexPath = dk_files d indexPath" for e b
    by (rule os_WriteFile_other)
  obtain r d1 where w: "os_WriteFile (xi_write io) (indexPath @ ''.tmp'') (index_text (index_entries io stateDir tool d)) d = (r, d1)" by (rule prod.exhaust)
  have keep: "dk_files d1 indexPath = dk_files d indexPath" using tmp[of "xi_write io" "index_text (index_entries io stateDir tool d)"] w by simp
  have n: "length (index_entries io stateDir tool d) = length (index_files io stateDir)" by (simp add: index_entries_def)
  have new: "Split (CHR 0x0A) (index_text (index_entries io stateDir tool d)) =
      map (\<lambda>p. index_line (ExtractMeta (xi_file io p) p stateDir tool d)) (index_files io stateDir) @ [[]]"
    unfolding index_text_lines by (simp add: index_entries_def)
  show ?thesis
    unfolding Rebuild_def Let_def w using keep n new by (simp split: option.split sum.split)
qed

text \<open>A summary has at most 100 bytes.\<close>

lemma summary_bounded: "length (ix_Summary (ExtractMeta io p stateDir tool d)) \<le> maxSummaryLen"
proof -
  have t: "length (truncate_summary s maxSummaryLen) \<le> maxSummaryLen" for s by (simp add: truncate_summary_def)
  have "length (summary_lines b f ls) \<le> maxSummaryLen" for b f ls
    by (induction b f ls rule: summary_lines.induct) (simp_all add: t Let_def)
  then have "length (summary_of s) \<le> maxSummaryLen" for s by (simp add: summary_of_def t del: summary_lines.simps split: list.split)
  then show ?thesis by (simp add: ExtractMeta_def ExtractSummary_def Let_def split: sum.split)
qed

end
