(* ===== verification/DaemonFiles.thy ===== *)
theory DaemonFiles
  imports DaemonCorrect
begin

text \<open>
  The two files the daemon keeps about itself, \<open>watch.pid\<close> and \<open>watch.started\<close> (\<open>src/internal/session/daemon_runner.go\<close>): what \<open>run_start\<close>
  writes is still there when the start is over, since the startup scan touches D-Mails, their targets and temporary files only.
\<close>

section \<open>Files no delivery touches\<close>

definition own_path :: "path \<Rightarrow> bool" where
  "own_path q \<longleftrightarrow> \<not> IsDMailFile q \<and> \<not> HasPrefix (Base q) ''.phonewave-tmp-''"

definition mail_targets :: "staged_table \<Rightarrow> bool" where
  "mail_targets t \<longleftrightarrow> (\<forall>r \<in> set t. IsDMailFile (sr_target r))"

lemma tmp_path_base: "CHR ''/'' \<notin> set (wi_suffix io) \<Longrightarrow> HasPrefix (Base (tmp_path io x)) ''.phonewave-tmp-''"
  unfolding tmp_path_def by (subst Base_path_Join_file) (simp_all add: file_name_def plain_comp_def HasPrefix_def)

lemma atomicWrite_own:
  assumes "own_path q" and "CHR ''/'' \<notin> set (wi_suffix io)" and "IsDMailFile x"
  shows "dk_files (snd (atomicWrite io x b d)) q = dk_files d q"
proof -
  have "q \<noteq> tmp_path io x" "q \<noteq> x" using assms tmp_path_base[OF assms(2)] by (auto simp: own_path_def)
  then show ?thesis
    using atomicWrite_failure[of io x b d q] atomicWrite_success[of io x b d] by (cases "write_fails io") auto
qed

lemma mail_targets_update: "mail_targets t \<Longrightarrow> (\<And>r. sr_target (f r) = sr_target r) \<Longrightarrow> mail_targets (update_where P f t)"
  by (auto simp: mail_targets_def update_where_def)

lemma mail_targets_stage: "mail_targets t \<Longrightarrow> IsDMailFile x \<Longrightarrow> mail_targets (stage_row p b x t)"
  unfolding stage_row_def by (auto intro: mail_targets_update) (simp add: mail_targets_def)

lemma mail_targets_fold: "mail_targets t \<Longrightarrow> \<forall>x \<in> set xs. IsDMailFile x \<Longrightarrow> mail_targets (fold (stage_row p b) xs t)"
  by (induction xs arbitrary: t) (simp_all add: mail_targets_stage)

lemma flush_loop_own:
  "own_path q \<Longrightarrow> suffixes_ok io \<Longrightarrow> mail_targets t \<Longrightarrow> \<forall>i \<in> set items. IsDMailFile (sd_Target i) \<Longrightarrow>
   flush_loop io items fl t d = (fl', e, t', d') \<Longrightarrow> dk_files d' q = dk_files d q \<and> mail_targets t'"
proof (induction items arbitrary: fl t d)
  case (Cons i items)
  obtain e1 f1 t1 d1 where f: "flush_one io i t d = (e1, f1, t1, d1)" by (cases "flush_one io i t d")
  have "d1 = snd (atomicWrite (fl_write io (item_key i)) (sd_Target i) (sd_Data i) d)" and t1: "mail_targets t1"
    using flush_one_cases[of io i t d] f Cons.prems(3) by (auto intro: mail_targets_update)
  then have d1: "dk_files d1 q = dk_files d q" using Cons.prems(1,2,4) atomicWrite_own unfolding suffixes_ok_def by (metis list.set_intros(1))
  show ?case
  proof (cases e1)
    case None
    then have "flush_loop io items (fl @ f1) t1 d1 = (fl', e, t', d')" using Cons.prems(5) f by simp
    with Cons.IH[OF Cons.prems(1,2) t1] Cons.prems(4) d1 show ?thesis by simp
  qed (use Cons.prems(5) f d1 t1 in simp)
qed simp

lemma FlushDeliveries_own:
  assumes "own_path q" and "suffixes_ok io" and "mail_targets t" and "FlushDeliveries io t d = (fl, e, t', d')"
  shows "dk_files d' q = dk_files d q \<and> mail_targets t'"
proof (cases "collectUnflushed (fl_select io) t")
  case (Inr items)
  have "\<forall>i \<in> set items. IsDMailFile (sd_Target i)" using Inr assms(3) by (auto simp: collectUnflushed_def mail_targets_def)
  then show ?thesis
    using assms(3,4) Inr flush_loop_own[OF assms(1,2,3)] by (cases "items = []") (auto simp: FlushDeliveries_def)
qed (use assms in \<open>simp add: FlushDeliveries_def\<close>)

lemma mail_target: "file_name (Base p) \<Longrightarrow> IsDMailFile p \<Longrightarrow> IsDMailFile (path_Join [i, Base p])"
  by (subst IsDMailFile_Join) (auto simp: IsDMailFile_def Let_def split: if_splits)

text \<open>A delivery leaves the own files alone and stages D-Mails only.\<close>

lemma DeliverData_own:
  assumes "own_path q" and "suffixes_ok (di_flush io)" and "mail_targets (pl_staged s)" and "IsDMailFile p" and "file_name (Base p)"
    and "DeliverData yaml io p data routes dedup s = ((r, e), s')"
  shows "dk_files (pl_disk s') q = dk_files (pl_disk s) q \<and> mail_targets (pl_staged s')"
  using assms(6)
proof (cases rule: DeliverData_cases)
  case (reject e0)
  then show ?thesis using assms(3) by simp
next
  case (skip sel res)
  have "q \<noteq> p" using assms(1,4) by (auto simp: own_path_def)
  then show ?thesis using skip assms(3) by (simp add: os_Remove_other)
next
  case (go sel inboxes res)
  let ?xs = "map (\<lambda>inbox. path_Join [inbox, Base p]) inboxes"
  let ?oc = "flush_outcome_of io dedup (ContentIdempotencyKey data) p data inboxes s"
  obtain fl fe t d where f: "FlushDeliveries (di_flush io) (fold (stage_row p data) ?xs (pl_staged s)) (pl_disk s) = (fl, fe, t, d)"
    by (metis prod_cases4)
  have "mail_targets (fold (stage_row p data) ?xs (pl_staged s))"
    using mail_target[OF assms(5,4)] by (intro mail_targets_fold assms(3)) auto
  note flushed = FlushDeliveries_own[OF assms(1,2) this f]
  have oc: "fo_table ?oc = t" "fo_disk ?oc = d" by (simp_all add: flush_outcome_of_def f split: prod.splits)
  have ne: "q \<noteq> p" using assms(1,4) by (auto simp: own_path_def)
  from go(3) show ?thesis
  proof (cases rule: stage_and_flush_cases)
    case (stage e0)
    then show ?thesis using assms(3) by simp
  next
    case flush
    then show ?thesis using flushed oc ne by (simp add: os_Remove_other)
  qed
qed

section \<open>The startup scan\<close>

definition own_kept :: "path \<Rightarrow> daemon \<Rightarrow> daemon \<Rightarrow> bool" where
  "own_kept q s s' \<longleftrightarrow> dk_files (pl_disk (dm_pipe s')) q = dk_files (pl_disk (dm_pipe s)) q \<and>
     (mail_targets (pl_staged (dm_pipe s)) \<longrightarrow> mail_targets (pl_staged (dm_pipe s')))"

lemma own_kept_trans: "own_kept q a b \<Longrightarrow> own_kept q b c \<Longrightarrow> own_kept q a c"
  by (simp add: own_kept_def)

lemma move_to_queue_own: "q \<noteq> p \<Longrightarrow> own_kept q s (move_to_queue io rm p data meta s)"
  by (simp add: own_kept_def move_to_queue_def os_Remove_other split: option.split prod.split sum.split)

lemma Base_file: "file_name f \<Longrightarrow> Base f = f"
  using file_name_last[of f] by (simp add: Base_def trim_slashes_noop file_name_def plain_comp_def)

definition handler_ok :: "handle_io \<Rightarrow> bool" where
  "handler_ok io \<longleftrightarrow> suffixes_ok (di_flush (hi_deliver io))"

lemma scan_one_own:
  assumes "own_path q" and "handler_ok io" and "mail_targets (pl_staged (dm_pipe s))" and "file_name name" and "IsDMailFile name"
    and "scan_one yaml routes io dir name s = Some (rs, es, s')"
  shows "own_kept q s s'"
proof -
  let ?p = "path_Join [dir, name]"
  have base: "Base ?p = name" by (rule Base_path_Join_file[OF assms(4)])
  then have mail: "IsDMailFile ?p" using assms(5) Base_file[OF assms(4)] by (simp add: IsDMailFile_def)
  have ne: "q \<noteq> ?p" using assms(1) mail by (auto simp: own_path_def)
  have deliver: "own_kept q s (s\<lparr>dm_pipe := pipe\<rparr>)"
    if "DeliverData yaml (hi_deliver io) ?p data routes (dm_dedup s) (dm_pipe s) = (re, pipe)" for data re pipe
    using DeliverData_own[OF assms(1) _ assms(3) mail, of "hi_deliver io"] assms(2,4) base that
    by (cases re) (simp add: own_kept_def handler_ok_def)
  have "own_kept q s s" by (simp add: own_kept_def)
  with assms(6) deliver show ?thesis
    unfolding scan_one_def Let_def
    by (auto split: option.splits bool.splits sum.splits prod.splits intro: own_kept_trans[OF _ move_to_queue_own[OF ne]])
qed

lemma scan_loop_own:
  "own_path q \<Longrightarrow> \<forall>n. handler_ok (io n) \<Longrightarrow> mail_targets (pl_staged (dm_pipe s)) \<Longrightarrow> \<forall>n \<in> set names. file_name n \<and> IsDMailFile n \<Longrightarrow>
   scan_loop yaml routes io dir names s = Some (rs, es, s') \<Longrightarrow> own_kept q s s'"
proof (induction names arbitrary: s rs es)
  case (Cons n names)
  from Cons.prems(5) obtain rs1 es1 s1 rs2 es2 where one: "scan_one yaml routes (io n) dir n s = Some (rs1, es1, s1)"
    and rest: "scan_loop yaml routes io dir names s1 = Some (rs2, es2, s')" by (auto split: option.splits prod.splits)
  have k: "own_kept q s s1" using scan_one_own[OF Cons.prems(1) _ Cons.prems(3) _ _ one] Cons.prems(2,4) by simp
  then have "mail_targets (pl_staged (dm_pipe s1))" using Cons.prems(3) by (simp add: own_kept_def)
  from own_kept_trans[OF k Cons.IH[OF Cons.prems(1,2) this _ rest]] show ?case using Cons.prems(4) by simp
qed (simp add: own_kept_def)

definition listing_ok :: "dir_entry list result \<Rightarrow> bool" where
  "listing_ok l \<longleftrightarrow> (\<forall>entries. l = Inr entries \<longrightarrow> (\<forall>e \<in> set entries. file_name (den_Name e)))"

lemma ScanAndDeliver_own:
  assumes "own_path q" and "\<forall>n. handler_ok (io n)" and "mail_targets (pl_staged (dm_pipe s))" and "listing_ok l"
    and "ScanAndDeliver yaml routes io l dir s = Some (rs, es, s')"
  shows "own_kept q s s'"
proof (cases l)
  case (Inr entries)
  let ?names = "map den_Name (filter (\<lambda>d. \<not> den_IsDir d \<and> IsDMailFile (den_Name d)) entries)"
  have "\<forall>n \<in> set ?names. file_name n \<and> IsDMailFile n" using assms(4) Inr by (auto simp: listing_ok_def)
  moreover have "scan_loop yaml routes io dir ?names s = Some (rs, es, s')" using assms(5) Inr by (simp add: ScanAndDeliver_def)
  ultimately show ?thesis by (rule scan_loop_own[OF assms(1-3)])
qed (use assms(5) in \<open>simp add: ScanAndDeliver_def own_kept_def\<close>)

lemma scan_results_pipe: "scan_results now rs s = Some s' \<Longrightarrow> dm_pipe s' = dm_pipe s"
proof (induction rs arbitrary: s)
  case (Cons res rs)
  then obtain s1 where s1: "mark_bloom (dr_SourcePath res) res (log_delivered now res s) = Some s1" "scan_results now rs s1 = Some s'"
    by (auto split: option.splits)
  from s1(1) have "dm_pipe s1 = dm_pipe s" by (auto simp: mark_bloom_def log_delivered_def Let_def split: if_splits)
  with Cons.IH[OF s1(2)] show ?case by simp
qed simp

lemma runStartupScan_own:
  "own_path q \<Longrightarrow> \<forall>dir n. handler_ok (io dir n) \<Longrightarrow> \<forall>dir. listing_ok (listing dir) \<Longrightarrow> mail_targets (pl_staged (dm_pipe s)) \<Longrightarrow>
   runStartupScan yaml opts now io listing dirs s = Some s' \<Longrightarrow> own_kept q s s'"
proof (induction dirs arbitrary: s)
  case (Cons dir dirs)
  from Cons.prems(5) obtain rs es s1 s2 where scan: "ScanAndDeliver yaml (do_Routes opts) (io dir) (listing dir) dir s = Some (rs, es, s1)"
    and res: "scan_results now rs s1 = Some s2" and rest: "runStartupScan yaml opts now io listing dirs s2 = Some s'"
    by (auto split: option.splits prod.splits)
  have "own_kept q s s1" using ScanAndDeliver_own[OF Cons.prems(1) _ Cons.prems(4) _ scan] Cons.prems(2,3) by blast
  then have k: "own_kept q s s2" using scan_results_pipe[OF res] by (simp add: own_kept_def)
  then have "mail_targets (pl_staged (dm_pipe s2))" using Cons.prems(4) by (simp add: own_kept_def)
  from own_kept_trans[OF k Cons.IH[OF Cons.prems(1-3) this rest]] show ?case .
qed (simp add: own_kept_def)

section \<open>After the start\<close>

lemma own_state_files: "own_path (pid_path sd)" "own_path (started_path sd)"
  unfolding own_path_def pid_path_def started_path_def
  by (simp_all add: IsDMailFile_Join Base_path_Join_file file_name_def plain_comp_def Ext_def HasPrefix_def)

lemma state_files_distinct: "pid_path s \<noteq> started_path s" "filter_path s \<noteq> pid_path s" "filter_path s \<noteq> started_path s"
proof -
  have f: "file_name ''watch.pid''" "file_name ''watch.started''" "file_name ''delivered.bloom''" by (simp_all add: file_name_def plain_comp_def)
  show "pid_path s \<noteq> started_path s" unfolding pid_path_def started_path_def using path_Join_file_inject[OF f(1,2)] by auto
  have "filter_path s = path_Join [path_Join [s, ''.run''], ''delivered.bloom'']"
    unfolding filter_path_def by (rule path_Join_three) (simp_all add: file_name_def plain_comp_def)
  then show "filter_path s \<noteq> pid_path s" "filter_path s \<noteq> started_path s"
    unfolding pid_path_def started_path_def using path_Join_file_inject[OF f(3,1)] path_Join_file_inject[OF f(3,2)] by auto
qed

text \<open>
  What a start relies on: temporary names without a slash (\<open>os.CreateTemp\<close>), directory entries that are file names (\<open>os.ReadDir\<close>), and
  staged rows that are deliveries of D-Mails, as \<open>DeliverData_own\<close> shows of all this program stages.
\<close>

definition scan_ok :: "run_io \<Rightarrow> daemon \<Rightarrow> bool" where
  "scan_ok io d \<longleftrightarrow> suffixes_ok (rn_flush io) \<and> (\<forall>dir n. handler_ok (rn_scan io dir n)) \<and> (\<forall>dir. listing_ok (rn_listing io dir)) \<and>
     mail_targets (pl_staged (dm_pipe d))"

lemma recover_targets: "suffixes_ok io \<Longrightarrow> mail_targets (pl_staged (dm_pipe d)) \<Longrightarrow> mail_targets (pl_staged (dm_pipe (recover err io d)))"
  using FlushDeliveries_own[OF own_state_files(1)] by (fastforce simp: recover_def split: sum.split prod.split)

lemma init_loop_pipe: "init_loop opts io old d = Some (ls, w) \<Longrightarrow> dm_pipe (ls_daemon ls) = dm_pipe d"
  by (auto simp: init_loop_def Let_def split: if_splits option.splits)

theorem run_start_files:
  assumes "run_start yaml opts io old d = Started ls w idle" and "scan_ok io d"
  shows "dk_files (pl_disk (dm_pipe (ls_daemon ls))) (pid_path (do_StateDir opts)) = Some (Itoa (rn_pid io)) \<and>
    dk_files (pl_disk (dm_pipe (ls_daemon ls))) (started_path (do_StateDir opts)) = Some (format_RFC3339 (rn_now io))"
proof -
  let ?sd = "do_StateDir opts"
  from assms(1) obtain bf d1 d2 k1 k2 where d1: "d1 = recover (rn_recover io) (rn_flush io) (d\<lparr>dm_bloom := bf\<rparr>)"
    and pid: "os_WriteFile (rn_writePid io) (pid_path ?sd) (Itoa (rn_pid io)) (pl_disk (dm_pipe d1)) = (Inr (), k1)"
    and started: "os_WriteFile (rn_writeStarted io) (started_path ?sd) (format_RFC3339 (rn_now io)) k1 = (Inr (), k2)"
    and scan: "runStartupScan yaml opts (rn_now io) (rn_scan io) (rn_listing io) (do_OutboxDirs opts) (on_disk (\<lambda>_. k2) d1) = Some d2"
    and loop: "init_loop opts io old d2 = Some (ls, w)"
    unfolding run_start_def Let_def by (auto split: option.splits sum.splits prod.splits)
  have "mail_targets (pl_staged (dm_pipe (on_disk (\<lambda>_. k2) d1)))" using assms(2) recover_targets by (simp add: d1 scan_ok_def)
  then have "own_kept q (on_disk (\<lambda>_. k2) d1) d2" if "own_path q" for q
    using that assms(2) runStartupScan_own[OF _ _ _ _ scan] by (simp add: scan_ok_def)
  then have "dk_files (pl_disk (dm_pipe (ls_daemon ls))) q = dk_files k2 q" if "own_path q" for q
    using that init_loop_pipe[OF loop] by (simp add: own_kept_def)
  then show ?thesis
    using own_state_files[of ?sd] state_files_distinct(1)[of ?sd] os_WriteFile_ok[OF pid] os_WriteFile_ok[OF started] by simp
qed

end
