(* ===== verification/Doctor.thy ===== *)
theory Doctor
  imports Metrics ConfigFile DaemonFiles
begin

text \<open>
  Looking at a running system: the health report of \<open>phonewave doctor\<close> with its repairs (\<open>src/internal/domain/doctor.go\<close>,
  \<open>unified_doctor.go\<close>, \<open>src/internal/session/doctor.go\<close>) and the status report (\<open>src/internal/session/status.go\<close>,
  \<open>src/internal/domain/status_report.go\<close>).

  Directories that exist are part of the world, since the doctor creates them. The programs on the path, the installer and the search
  for the validator are function variables of the package and arguments here, as are processes and errors of the system.
\<close>

section \<open>Reports\<close>

datatype check_status = CheckOK | CheckFail | CheckSkip | CheckWarn | CheckFixed

fun StatusLabel :: "check_status \<Rightarrow> string" where
  "StatusLabel CheckOK = ''OK''"
| "StatusLabel CheckFail = ''FAIL''"
| "StatusLabel CheckSkip = ''SKIP''"
| "StatusLabel CheckWarn = ''WARN''"
| "StatusLabel CheckFixed = ''FIX''"

record doctor_check =
  ch_Name :: string
  ch_Status :: check_status
  ch_Message :: string
  ch_Hint :: string

record daemon_health =
  dh_Checked :: bool
  dh_Running :: bool
  dh_PID :: int

record endpoint_health =
  eh_Repo :: path
  eh_Dir :: string
  eh_Produces :: "string list"
  eh_Consumes :: "string list"
  eh_OK :: bool

record doctor_report =
  dr_Healthy :: bool
  dr_Checks :: "doctor_check list"
  dr_Endpoints :: "endpoint_health list"
  dr_DaemonStatus :: daemon_health

definition add_check :: "string \<Rightarrow> check_status \<Rightarrow> string \<Rightarrow> string \<Rightarrow> doctor_report \<Rightarrow> doctor_report" where
  "add_check name st msg hint r =
     r\<lparr>dr_Checks := dr_Checks r @ [\<lparr>ch_Name = name, ch_Status = st, ch_Message = msg, ch_Hint = hint\<rparr>]\<rparr>"

definition AddErrorWithHint :: "string \<Rightarrow> string \<Rightarrow> string \<Rightarrow> doctor_report \<Rightarrow> doctor_report" where
  "AddErrorWithHint name msg hint r = add_check name CheckFail msg hint (r\<lparr>dr_Healthy := False\<rparr>)"

definition AddError :: "string \<Rightarrow> string \<Rightarrow> doctor_report \<Rightarrow> doctor_report" where
  "AddError name msg r = add_check name CheckFail msg [] (r\<lparr>dr_Healthy := False\<rparr>)"

definition AddWarnWithHint :: "string \<Rightarrow> string \<Rightarrow> string \<Rightarrow> doctor_report \<Rightarrow> doctor_report" where
  "AddWarnWithHint name msg hint = add_check name CheckWarn msg hint"

definition AddWarn :: "string \<Rightarrow> string \<Rightarrow> doctor_report \<Rightarrow> doctor_report" where
  "AddWarn name msg = add_check name CheckWarn msg []"

definition AddFixed :: "string \<Rightarrow> string \<Rightarrow> doctor_report \<Rightarrow> doctor_report" where
  "AddFixed name msg = add_check name CheckFixed msg []"

definition AddOK :: "string \<Rightarrow> string \<Rightarrow> doctor_report \<Rightarrow> doctor_report" where
  "AddOK name msg = add_check name CheckOK msg []"

section \<open>The world of the doctor\<close>

record doctor_world =
  dw_disk :: disk
  dw_dirs :: "path list"

record doctor_io =
  dc_lookPath :: "string \<Rightarrow> path option"
  dc_lookPathAfter :: "string \<Rightarrow> path option"
  dc_install :: "go_error option"
  dc_skillsRefDir :: path
  dc_venv :: bool
  dc_tempDir :: path
  dc_mkdir :: "path \<Rightarrow> go_error option"
  dc_read :: "path \<Rightarrow> go_error option"
  dc_stat :: "path \<Rightarrow> go_error option"
  dc_remove :: "path \<Rightarrow> go_error option"
  dc_skillYaml :: skill_decoder
  dc_tool :: "path \<Rightarrow> tool_run"
  dc_configYaml :: config_yaml
  dc_config :: config_io
  dc_storeOpen :: "go_error option"
  dc_deadCount :: "go_error option"
  dc_staged :: staged_table
  dc_watcher :: "go_error option"
  dc_now :: time
  dc_pct :: string
  dc_alive :: "int \<Rightarrow> bool"
  dc_load :: load_io
  dc_events :: event_dir

text \<open>
  The error of \<open>os.Stat\<close>: what the system reports (\<open>dc_stat\<close>, an error that does not speak about existence), a regular file in the place
  of a directory above the path, or that there is nothing. Only the last one is \<open>ErrNotExist\<close>; the doctor takes every other outcome for a
  path that exists.
\<close>

definition not_dir :: "path \<Rightarrow> go_error" where
  "not_dir p = errorf (''stat '' @ p @ '': not a directory'')"

definition other_error :: "go_error \<Rightarrow> go_error" where
  "other_error e = e\<lparr>err_chain := removeAll ErrNotExist (err_chain e)\<rparr>"

definition below_file :: "disk \<Rightarrow> path \<Rightarrow> bool" where
  "below_file d p \<longleftrightarrow> list_ex (\<lambda>i. p ! i = CHR ''/'' \<and> dk_files d (take i p) \<noteq> None) [0..<length p]"

definition stat_error :: "doctor_io \<Rightarrow> disk \<Rightarrow> path list \<Rightarrow> path \<Rightarrow> go_error option" where
  "stat_error io d dirs p =
     (case dc_stat io p of
        Some e \<Rightarrow> Some (other_error e)
      | None \<Rightarrow> if below_file d p then Some (not_dir p)
                else if p \<in> set dirs \<or> dk_files d p \<noteq> None then None
                else Some (not_exist ''stat'' p))"

definition missing :: "doctor_io \<Rightarrow> doctor_world \<Rightarrow> path \<Rightarrow> bool" where
  "missing io w p \<longleftrightarrow> (case stat_error io (dw_disk w) (dw_dirs w) p of None \<Rightarrow> False | Some e \<Rightarrow> errors_Is e ErrNotExist)"

definition stat_ok :: "doctor_io \<Rightarrow> doctor_world \<Rightarrow> path \<Rightarrow> bool" where
  "stat_ok io w p \<longleftrightarrow> stat_error io (dw_disk w) (dw_dirs w) p = None"

section \<open>The checks\<close>

definition SkillsRefVenvName :: string where
  "SkillsRefVenvName = ''phonewave-skills-ref-venv''"

definition skillsRefBinNames :: "string list" where
  "skillsRefBinNames = [''skills-ref'', ''agentskills'']"

definition findSkillsRefBin :: "(string \<Rightarrow> path option) \<Rightarrow> path option" where
  "findSkillsRefBin look = (case List.map_filter look skillsRefBinNames of [] \<Rightarrow> None | p # _ \<Rightarrow> Some p)"

definition dquote :: char where "dquote = CHR 0x22"

definition checkSkillsRefToolchain :: "doctor_io \<Rightarrow> bool \<Rightarrow> doctor_report \<Rightarrow> doctor_report" where
  "checkSkillsRefToolchain io repair =
     (let install = dquote # ''uv tool install skills-ref'' @ [dquote]
      in case findSkillsRefBin (dc_lookPath io) of
           Some p \<Rightarrow> AddOK ''skills-ref'' (''skills-ref found on PATH ('' @ Base p @ '')'')
         | None \<Rightarrow>
             if dc_lookPath io ''uv'' = None
             then AddWarnWithHint ''skills-ref'' ''uv not found on PATH: SKILL.md spec validation is unavailable''
                    (''install uv (https://docs.astral.sh/uv/) or '' @ install)
             else if dc_skillsRefDir io \<noteq> []
             then let venvDir = path_Join [dc_tempDir io, SkillsRefVenvName]
                  in if dc_venv io then AddOK ''skills-ref'' (''uv + submodule ready (venv: '' @ venvDir @ '')'')
                     else AddOK ''skills-ref'' (''uv + submodule ready (venv will be created at '' @ venvDir @ '' on first use)'')
             else if repair
             then (case dc_install io of
                     Some e \<Rightarrow> AddWarnWithHint ''skills-ref'' (''uv tool install skills-ref failed: '' @ err_msg e) (''try manually: '' @ install)
                   | None \<Rightarrow>
                       if findSkillsRefBin (dc_lookPathAfter io) = None
                       then AddWarnWithHint ''skills-ref'' ''uv tool install skills-ref succeeded but skills-ref is not on PATH''
                              (''add uv'' @ [CHR 0x27] @ ''s tool bin directory to your PATH (e.g. ~/.local/bin)'')
                       else AddFixed ''skills-ref'' ''installed skills-ref via uv tool install'')
             else AddWarnWithHint ''skills-ref'' ''uv found but skills-ref not installed''
                    (''run '' @ [dquote] @ ''phonewave doctor --repair'' @ [dquote] @ '' or '' @ install))"

text \<open>The mailboxes of an endpoint are created when they are missing; the flag is the \<open>OK\<close> of the endpoint.\<close>

fun check_mailboxes ::
  "doctor_io \<Rightarrow> string \<Rightarrow> path \<Rightarrow> string list \<Rightarrow> doctor_report \<times> bool \<times> doctor_world \<Rightarrow> doctor_report \<times> bool \<times> doctor_world" where
  "check_mailboxes io epLabel epDir [] s = s"
| "check_mailboxes io epLabel epDir (sub # subs) (r, ok, w) =
     check_mailboxes io epLabel epDir subs
       (let subDir = path_Join [epDir, sub]
        in if missing io w subDir
           then (case dc_mkdir io subDir of
                   Some e \<Rightarrow> (AddErrorWithHint epLabel (''Failed to create '' @ sub @ ''/: '' @ err_msg e)
                                ''check file permissions on the endpoint directory'' r, False, w)
                 | None \<Rightarrow> (AddFixed epLabel (''Created missing '' @ sub @ ''/ directory'') r, ok, w\<lparr>dw_dirs := subDir # dw_dirs w\<rparr>))
           else (r, ok, w))"

definition spec_hint :: string where
  "spec_hint = ''see Agent Skills spec for compliance requirements''"

definition check_skill_file :: "doctor_io \<Rightarrow> doctor_world \<Rightarrow> string \<Rightarrow> path \<Rightarrow> string \<Rightarrow> doctor_report \<Rightarrow> doctor_report" where
  "check_skill_file io w epLabel epDir skillName r =
     (let skillDir = path_Join [epDir, ''skills'', skillName];
          skillPath = path_Join [skillDir, ''SKILL.md'']
      in case os_ReadFile (dc_read io skillPath) skillPath (dw_disk w) of
           Inl e \<Rightarrow>
             if errors_Is e ErrNotExist then r
             else AddWarnWithHint epLabel (''Failed to read '' @ skillName @ '' SKILL.md: '' @ err_msg e)
                    ''check file permissions on the skills directory'' r
         | Inr data \<Rightarrow>
             let r = (case ParseSkillFrontmatter (dc_skillYaml io) data of
                        Inl e \<Rightarrow> AddWarnWithHint epLabel (skillName @ '' SKILL.md parse error: '' @ err_msg e) ''fix YAML frontmatter in SKILL.md'' r
                      | Inr _ \<Rightarrow> r)
             in case ValidateSkillDir (dc_tool io) skillDir of
                  Inl e \<Rightarrow> AddWarnWithHint epLabel (''skills-ref validate '' @ skillName @ '': '' @ err_msg e) spec_hint r
                | Inr problems \<Rightarrow> fold (\<lambda>p. AddWarnWithHint epLabel (''skills-ref: '' @ p) spec_hint) problems r)"

text \<open>The verb \<open>%v\<close> of a slice of strings.\<close>

definition show_strings :: "string list \<Rightarrow> string" where
  "show_strings xs = ''['' @ Join '' '' xs @ '']''"

definition add_endpoint :: "endpoint_health \<Rightarrow> doctor_report \<Rightarrow> doctor_report" where
  "add_endpoint h r = r\<lparr>dr_Endpoints := dr_Endpoints r @ [h]\<rparr>"

definition check_endpoint :: "doctor_io \<Rightarrow> repo_config \<Rightarrow> endpoint \<Rightarrow> doctor_report \<times> doctor_world \<Rightarrow> doctor_report \<times> doctor_world" where
  "check_endpoint io repo ep = (\<lambda>(r, w).
     let epLabel = Base (rp_Path repo) @ ''/'' @ ep_Dir ep;
         epHealth = \<lparr>eh_Repo = rp_Path repo, eh_Dir = ep_Dir ep, eh_Produces = ep_Produces ep, eh_Consumes = ep_Consumes ep, eh_OK = True\<rparr>;
         epDir = path_Join [rp_Path repo, ep_Dir ep]
     in if missing io w epDir
        then (add_endpoint (epHealth\<lparr>eh_OK := False\<rparr>)
                (AddErrorWithHint epLabel (''Endpoint directory missing: '' @ epDir)
                   (''create the directory or run '' @ [dquote] @ ''phonewave sync'' @ [dquote] @ '' to reconcile'') r), w)
        else case check_mailboxes io epLabel epDir [''outbox'', ''inbox''] (r, True, w) of
               (r, ok, w) \<Rightarrow>
                 let r = fold (check_skill_file io w epLabel epDir) [SkillSendable, SkillReadable] r;
                     r = AddOK epLabel (''OK (produces: '' @ show_strings (ep_Produces ep) @ '', consumes: '' @ show_strings (ep_Consumes ep) @ '')'') r
                 in (add_endpoint (epHealth\<lparr>eh_OK := ok\<rparr>) r, w))"

definition check_repo :: "doctor_io \<Rightarrow> repo_config \<Rightarrow> doctor_report \<times> doctor_world \<Rightarrow> doctor_report \<times> doctor_world" where
  "check_repo io repo = (\<lambda>(r, w).
     if missing io w (rp_Path repo)
     then (AddErrorWithHint [] (''Repository path does not exist: '' @ rp_Path repo)
             (''check config.yaml repositories.path or run '' @ [dquote] @ ''phonewave remove <path>'' @ [dquote]) r, w)
     else fold (check_endpoint io repo) (rp_Endpoints repo) (r, w))"

definition check_orphans :: "config \<Rightarrow> doctor_report \<Rightarrow> doctor_report" where
  "check_orphans cfg r =
     (let orphans = DetectOrphansPerRepo cfg; sync = dquote # ''phonewave sync'' @ [dquote]
      in fold (\<lambda>kind. AddWarnWithHint [] (''Orphaned: kind='' @ Quote kind @ '' is consumed but not produced'')
                        (''add a producer for this kind or run '' @ sync)) (or_UnproducedKinds orphans)
         (fold (\<lambda>kind. AddWarnWithHint [] (''Orphaned: kind='' @ Quote kind @ '' is produced but not consumed'')
                        (''add a consumer for this kind or run '' @ sync)) (or_UnconsumedKinds orphans) r))"

definition check_resolved :: "doctor_io \<Rightarrow> config \<Rightarrow> path \<Rightarrow> bool \<Rightarrow> doctor_report \<times> doctor_world \<Rightarrow> doctor_report \<times> doctor_world" where
  "check_resolved io cfg stateDir repair = (\<lambda>(r, w).
     let sync = dquote # ''phonewave sync'' @ [dquote]
     in if \<not> missing io w (path_Join [stateDir, ''.run'', ResolvedStateFile]) then (r, w)
        else if repair
        then (case WriteResolvedOnly (dc_configYaml io) (dc_config io) stateDir (UpdateRoutes cfg) (dw_disk w) of
                (Inl e, d) \<Rightarrow> (AddWarnWithHint [] (''resolved.yaml repair failed: '' @ err_msg e) (''run '' @ sync @ '' manually'') r, w\<lparr>dw_disk := d\<rparr>)
              | (Inr _, d) \<Rightarrow> (AddFixed [] ''generated resolved.yaml via sync'' r, w\<lparr>dw_disk := d\<rparr>))
        else (AddWarnWithHint [] ''resolved.yaml not found: routes are being derived on-the-fly''
                (''run '' @ [dquote] @ ''phonewave doctor --repair'' @ [dquote] @ '' or '' @ sync @ '' to generate resolved state'') r, w))"

definition checkDeadLetters :: "doctor_io \<Rightarrow> path \<Rightarrow> doctor_world \<Rightarrow> doctor_report \<Rightarrow> doctor_report" where
  "checkDeadLetters io stateDir w r =
     (if \<not> stat_ok io w (path_Join [stateDir, ''.run'', ''delivery.db'']) then r
      else case dc_storeOpen io of
             Some e \<Rightarrow> AddWarnWithHint [] (''dead-letter check: cannot open delivery store: '' @ err_msg e)
                         ''check file permissions on .phonewave/.run/delivery.db'' r
           | None \<Rightarrow>
               (case DeadLetterCount (dc_deadCount io) (dc_staged io) of
                  Inl e \<Rightarrow> AddWarnWithHint [] (''dead-letter check: count failed: '' @ err_msg e) ''delivery store may be corrupted'' r
                | Inr n \<Rightarrow>
                    if n > 0
                    then AddWarnWithHint [] (Itoa n @ '' dead-lettered delivery item(s)'')
                           (''run '' @ [CHR 0x27] @ ''phonewave dead-letters purge --execute'' @ [CHR 0x27] @ '' to remove'') r
                    else AddOK ''dead-letters'' ''no dead-lettered items'' r))"

definition checkFsnotify :: "doctor_io \<Rightarrow> doctor_report \<Rightarrow> doctor_report" where
  "checkFsnotify io =
     (case dc_watcher io of
        Some e \<Rightarrow> AddErrorWithHint ''fsnotify'' (''cannot create file watcher: '' @ err_msg e)
                    ''on Linux, increase inotify limit: sysctl fs.inotify.max_user_watches=524288''
      | None \<Rightarrow> AddOK ''fsnotify'' ''file watcher available'')"

text \<open>\<open>alive\<close> is \<open>IsProcessAlive\<close>: what a process is told by signal 0.\<close>

definition checkDaemonStatus :: "(int \<Rightarrow> bool) \<Rightarrow> go_error option \<Rightarrow> path \<Rightarrow> disk \<Rightarrow> daemon_health" where
  "checkDaemonStatus alive err stateDir d =
     (let stopped = \<lparr>dh_Checked = True, dh_Running = False, dh_PID = 0\<rparr>
      in case os_ReadFile err (pid_path stateDir) d of
           Inl _ \<Rightarrow> stopped
         | Inr data \<Rightarrow>
             (case Atoi (TrimSpace data) of
                None \<Rightarrow> stopped
              | Some pid \<Rightarrow> if alive pid then stopped\<lparr>dh_Running := True, dh_PID := pid\<rparr> else stopped))"

definition checkEventStoreIntegrity :: "doctor_io \<Rightarrow> path \<Rightarrow> doctor_world \<Rightarrow> doctor_report \<Rightarrow> doctor_report" where
  "checkEventStoreIntegrity io stateDir w r =
     (let eventsDir = path_Join [stateDir, ''events'']
      in if \<not> stat_ok io w eventsDir then r
         else case LoadAll (dc_load io) (dc_events io) of
                Inl e \<Rightarrow> AddWarnWithHint ''event-store'' (''event store load failed: '' @ err_msg e) (''check permissions on '' @ eventsDir) r
              | Inr (_, result) \<Rightarrow>
                  if lr_CorruptLineCount result > 0
                  then AddWarnWithHint ''event-store''
                         (Itoa (lr_CorruptLineCount result) @ '' corrupt line(s) in event store ('' @ Itoa (lr_FileCount result) @ '' file(s) scanned)'')
                         (''corrupt lines are skipped during replay '' @ [CHR 0xE2, CHR 0x80, CHR 0x94] @ '' review JSONL files in '' @ eventsDir) r
                  else AddOK ''event-store'' (''event store OK ('' @ Itoa (lr_FileCount result) @ '' file(s), 0 corrupt lines)'') r)"

definition remove_stale :: "doctor_io \<Rightarrow> path \<Rightarrow> string \<Rightarrow> string \<Rightarrow> doctor_report \<times> doctor_world \<Rightarrow> doctor_report \<times> doctor_world" where
  "remove_stale io p msg hint = (\<lambda>(r, w).
     case os_Remove (dc_remove io p) p (dw_disk w) of
       (Inl e, d) \<Rightarrow> (if errors_Is e ErrNotExist then r else AddWarnWithHint ''stale-pid'' (msg @ err_msg e) hint r, w\<lparr>dw_disk := d\<rparr>)
     | (Inr _, d) \<Rightarrow> (r, w\<lparr>dw_disk := d\<rparr>))"

definition repair_pid :: "doctor_io \<Rightarrow> path \<Rightarrow> bool \<Rightarrow> doctor_report \<times> doctor_world \<Rightarrow> doctor_report \<times> doctor_world" where
  "repair_pid io stateDir repair = (\<lambda>(r, w).
     if repair \<and> \<not> dh_Running (dr_DaemonStatus r) \<and> stat_ok io w (pid_path stateDir)
     then remove_stale io (started_path stateDir) ''failed to remove stale start marker: '' ''check file permissions on .phonewave/watch.started''
            (remove_stale io (pid_path stateDir) ''failed to remove stale PID file: '' ''check file permissions on .phonewave/watch.pid'' (r, w))
     else (r, w))"

section \<open>The doctor\<close>

definition new_report :: doctor_report where
  "new_report = \<lparr>dr_Healthy = True, dr_Checks = [], dr_Endpoints = [], dr_DaemonStatus = \<lparr>dh_Checked = True, dh_Running = False, dh_PID = 0\<rparr>\<rparr>"

definition success_rate_check :: "doctor_io \<Rightarrow> path \<Rightarrow> doctor_world \<Rightarrow> doctor_report \<Rightarrow> doctor_report" where
  "success_rate_check io stateDir w =
     (let logPath = path_Join [stateDir, ''delivery.log''];
          stats = ParseDeliveryStats (dc_read io logPath) (dc_now io) (dk_files (dw_disk w) logPath)
      in AddOK ''success-rate'' (FormatSuccessRate (dc_pct io) (ds_Delivered stats) (ds_Delivered stats + ds_Failed stats)))"

definition Doctor :: "doctor_io \<Rightarrow> config \<Rightarrow> path \<Rightarrow> bool \<Rightarrow> doctor_world \<Rightarrow> doctor_report \<times> doctor_world" where
  "Doctor io cfg stateDir repair w =
     (let r = checkSkillsRefToolchain io repair new_report
      in case fold (check_repo io) (cfg_Repositories cfg) (r, w) of
           (r, w) \<Rightarrow>
             (case check_resolved io cfg stateDir repair (check_orphans cfg r, w) of
                (r, w) \<Rightarrow>
                  let r = checkDeadLetters io stateDir w r;
                      r = checkFsnotify io r;
                      r = success_rate_check io stateDir w r;
                      r = r\<lparr>dr_DaemonStatus := checkDaemonStatus (dc_alive io) (dc_read io (pid_path stateDir)) stateDir (dw_disk w)\<rparr>;
                      r = checkEventStoreIntegrity io stateDir w r
                  in repair_pid io stateDir repair (r, w)))"

section \<open>The aggregated report\<close>

record tool_section =
  ts_Tool :: string
  ts_Path :: path
  ts_Checks :: "unified_check list"
  ts_Error :: string

record unified_doctor_report =
  ud_Sections :: "tool_section list"
  ud_CrossTool :: "unified_check list"

definition IsHealthy :: "unified_doctor_report \<Rightarrow> bool" where
  "IsHealthy r \<longleftrightarrow>
     list_all (\<lambda>s. ts_Error s = [] \<and> list_all (\<lambda>c. uc_Status c \<noteq> ''FAIL'') (ts_Checks s)) (ud_Sections r) \<and>
     list_all (\<lambda>c. uc_Status c \<noteq> ''FAIL'') (ud_CrossTool r)"

section \<open>Status\<close>

record status_report =
  sr_DaemonRunning :: bool
  sr_DaemonPID :: int
  sr_OutboxCount :: nat
  sr_RouteCount :: nat
  sr_RepoCount :: nat
  sr_PendingErrors :: int
  sr_ProviderState :: string
  sr_ProviderReason :: string
  sr_ProviderRetryBudget :: int
  sr_ProviderResumeAt :: time
  sr_ProviderResumeWhen :: string
  sr_Uptime :: duration
  sr_Delivered24h :: int
  sr_Failed24h :: int
  sr_Retried24h :: int
  sr_SuccessRate24h :: rat
  sr_SkillsRefVenv :: path
  sr_SkillsRefReady :: bool

text \<open>\<open>so_queue\<close> is the error queue if it can be opened, \<open>so_snapshot\<close> what \<open>loadProviderStateSnapshot\<close> finds.\<close>

record status_io =
  so_alive :: "int \<Rightarrow> bool"
  so_read :: "path \<Rightarrow> go_error option"
  so_now :: time
  so_queue :: "error_table option"
  so_count :: "go_error option"
  so_snapshot :: "provider_state_snapshot option"
  so_tempDir :: path
  so_lookPath :: "string \<Rightarrow> path option"
  so_skillsRefDir :: path

definition outbox_count :: "config \<Rightarrow> nat" where
  "outbox_count cfg =
     sum_list (map (\<lambda>repo. length (filter (\<lambda>ep. ep_Produces ep \<noteq> []) (rp_Endpoints repo))) (cfg_Repositories cfg))"

definition uptime :: "status_io \<Rightarrow> path \<Rightarrow> disk \<Rightarrow> duration" where
  "uptime io stateDir d =
     (let p = started_path stateDir
      in case os_ReadFile (so_read io p) p d of
           Inl _ \<Rightarrow> 0
         | Inr data \<Rightarrow> (case parse_RFC3339 (TrimSpace data) of None \<Rightarrow> 0 | Some t \<Rightarrow> so_now io - t))"

definition pending_errors :: "status_io \<Rightarrow> int" where
  "pending_errors io =
     (case so_queue io of
        None \<Rightarrow> 0
      | Some t \<Rightarrow> (case PendingCount (so_count io) (2 ^ 31 - 1) t of Inl _ \<Rightarrow> 0 | Inr n \<Rightarrow> n))"

definition provider_snapshot :: "status_io \<Rightarrow> int \<Rightarrow> provider_state_snapshot" where
  "provider_snapshot io pending =
     (case so_snapshot io of
        Some s \<Rightarrow> s
      | None \<Rightarrow>
          if pending > 0
          then \<lparr>ps_State = ''waiting'', ps_Reason = ''delivery_retry_backoff'', ps_RetryBudget = 1, ps_ResumeAt = 0,
                 ps_ResumeCondition = ''backoff-elapses''\<rparr>
          else ActiveProviderState)"

definition Status :: "status_io \<Rightarrow> config \<Rightarrow> path \<Rightarrow> disk \<Rightarrow> status_report" where
  "Status io cfg stateDir d =
     (let health = checkDaemonStatus (so_alive io) (so_read io (pid_path stateDir)) stateDir d;
          logPath = path_Join [stateDir, ''delivery.log''];
          stats = ParseDeliveryStats (so_read io logPath) (so_now io) (dk_files d logPath);
          pending = pending_errors io;
          snapshot = provider_snapshot io pending
      in \<lparr>sr_DaemonRunning = dh_Running health, sr_DaemonPID = dh_PID health, sr_OutboxCount = outbox_count cfg,
          sr_RouteCount = length (cfg_Routes cfg), sr_RepoCount = length (cfg_Repositories cfg), sr_PendingErrors = pending,
          sr_ProviderState = ps_State snapshot, sr_ProviderReason = ps_Reason snapshot, sr_ProviderRetryBudget = ps_RetryBudget snapshot,
          sr_ProviderResumeAt = ps_ResumeAt snapshot, sr_ProviderResumeWhen = ps_ResumeCondition snapshot,
          sr_Uptime = uptime io stateDir d,
          sr_Delivered24h = ds_Delivered stats, sr_Failed24h = ds_Failed stats, sr_Retried24h = ds_Retried stats,
          sr_SuccessRate24h = SuccessRate \<lparr>dmt_Delivered = ds_Delivered stats, dmt_Failed = ds_Failed stats, dmt_Retried = 0\<rparr>,
          sr_SkillsRefVenv = path_Join [so_tempDir io, SkillsRefVenvName],
          sr_SkillsRefReady = (so_lookPath io ''skills-ref'' \<noteq> None \<or> so_lookPath io ''uv'' \<noteq> None \<and> so_skillsRefDir io \<noteq> [])\<rparr>)"

text \<open>\<open>Duration.String\<close> of a duration of whole seconds that is not negative.\<close>

definition seconds_text :: "int \<Rightarrow> string" where
  "seconds_text n =
     (let s = n mod 60; m = n div 60
      in (if m = 0 then [] else if m < 60 then Itoa m @ ''m'' else Itoa (m div 60) @ ''h'' @ Itoa (m mod 60) @ ''m'') @ Itoa s @ ''s'')"

definition status_line :: "string \<Rightarrow> string \<Rightarrow> string" where
  "status_line label text = ''  '' @ pad_right 16 label @ '' '' @ text @ [CHR 0x0A]"

definition FormatText :: "string \<Rightarrow> status_report \<Rightarrow> string" where
  "FormatText pct r =
     ''phonewave status'' @ [CHR 0x0A, CHR 0x0A] @
     status_line ''Daemon:'' (if sr_DaemonRunning r then ''running (PID '' @ Itoa (sr_DaemonPID r) @ '')'' else ''stopped'') @
     (if sr_Uptime r > 0 then status_line ''Uptime:'' (seconds_text (sr_Uptime r div second)) else []) @
     status_line ''Watching:'' (Itoa (int (sr_OutboxCount r)) @ '' outbox dirs across '' @ Itoa (int (sr_RepoCount r)) @ '' repos'') @
     status_line ''Routes:'' (Itoa (int (sr_RouteCount r))) @
     status_line ''Pending:'' (Itoa (sr_PendingErrors r) @ '' items in error queue'') @
     (if sr_ProviderState r = [] then []
      else status_line ''Provider:'' (sr_ProviderState r @ (if sr_ProviderReason r = [] then [] else '' ('' @ sr_ProviderReason r @ '')'')) @
           (if sr_ProviderRetryBudget r > 0 then status_line ''Retry budget:'' (Itoa (sr_ProviderRetryBudget r)) else []) @
           (if sr_ProviderResumeWhen r = [] then [] else status_line ''Resume when:'' (sr_ProviderResumeWhen r)) @
           (if IsZero (sr_ProviderResumeAt r) then [] else status_line ''Resume at:'' (format_RFC3339 (sr_ProviderResumeAt r)))) @
     status_line ''Last 24h:'' (Itoa (sr_Delivered24h r) @ '' delivered, '' @ Itoa (sr_Failed24h r) @ '' failed, '' @ Itoa (sr_Retried24h r) @ '' retried'') @
     status_line ''Success:'' (FormatSuccessRate pct (sr_Delivered24h r) (sr_Delivered24h r + sr_Failed24h r)) @
     (if sr_SkillsRefReady r then status_line ''Skills-ref:'' (''ready (venv: '' @ sr_SkillsRefVenv r @ '')'')
      else status_line ''Skills-ref:'' ''not available'')"

section \<open>What a healthy report means\<close>

text \<open>The flag of a report and its checks agree.\<close>

definition report_inv :: "doctor_report \<Rightarrow> bool" where
  "report_inv r \<longleftrightarrow> (dr_Healthy r \<longleftrightarrow> list_all (\<lambda>c. ch_Status c \<noteq> CheckFail) (dr_Checks r))"

lemmas add_defs = AddErrorWithHint_def AddWarnWithHint_def AddFixed_def AddOK_def add_check_def add_endpoint_def

text \<open>A stage of the report: it keeps the invariant, an unhealthy report stays unhealthy, and the endpoints are kept.\<close>

definition stage :: "(doctor_report \<Rightarrow> doctor_report) \<Rightarrow> bool" where
  "stage f \<longleftrightarrow> (\<forall>r. (report_inv r \<longrightarrow> report_inv (f r)) \<and> (dr_Healthy (f r) \<longrightarrow> dr_Healthy r) \<and> dr_Endpoints (f r) = dr_Endpoints r)"

lemma stageD:
  "stage f \<Longrightarrow> report_inv r \<Longrightarrow> report_inv (f r)"
  "stage f \<Longrightarrow> dr_Healthy (f r) \<Longrightarrow> dr_Healthy r"
  "stage f \<Longrightarrow> dr_Endpoints (f r) = dr_Endpoints r"
  unfolding stage_def by blast+

named_theorems stages

lemma stage_add [stages]:
  "stage (AddErrorWithHint n m h)" "stage (AddWarnWithHint n m h)" "stage (AddFixed n m)" "stage (AddOK n m)"
  by (simp_all add: stage_def report_inv_def add_defs)

lemma stage_id [stages]: "stage (\<lambda>r. r)"
  by (simp add: stage_def)

lemma stage_comp: "stage f \<Longrightarrow> stage g \<Longrightarrow> stage (\<lambda>r. g (f r))"
  unfolding stage_def by metis

lemma stage_fold [stages]: "(\<And>x. stage (f x)) \<Longrightarrow> stage (fold f xs)"
proof (induction xs)
  case (Cons x xs)
  then show ?case using stage_comp[of "f x" "fold f xs"] by (simp add: comp_def)
qed (simp add: stage_def)

lemma stage_status [stages]: "stage (\<lambda>r. r\<lparr>dr_DaemonStatus := s\<rparr>)"
  by (simp add: stage_def report_inv_def)

lemma stage_if: "stage f \<Longrightarrow> stage g \<Longrightarrow> stage (\<lambda>r. if b then f r else g r)"
  by (cases b) simp_all

lemma stage_option: "stage f \<Longrightarrow> (\<And>y. stage (g y)) \<Longrightarrow> stage (\<lambda>r. case x of None \<Rightarrow> f r | Some y \<Rightarrow> g y r)"
  by (cases x) simp_all

lemma stage_sum: "(\<And>y. stage (f y)) \<Longrightarrow> (\<And>y. stage (g y)) \<Longrightarrow> stage (\<lambda>r. case x of Inl y \<Rightarrow> f y r | Inr y \<Rightarrow> g y r)"
  by (cases x) simp_all

lemma stage_case_prod: "(\<And>a b. stage (f a b)) \<Longrightarrow> stage (\<lambda>r. case x of (a, b) \<Rightarrow> f a b r)"
  by (cases x) simp

lemma stage_toolchain [stages]: "stage (checkSkillsRefToolchain io repair)"
proof -
  have "checkSkillsRefToolchain io repair = (\<lambda>r. checkSkillsRefToolchain io repair r)" ..
  then show ?thesis
    unfolding checkSkillsRefToolchain_def Let_def if_distribR option.case_distrib[of "\<lambda>f. f _"]
    by (intro stage_if stage_option stage_add)
qed

lemma stage_skill_file [stages]: "stage (check_skill_file io w l d k)"
proof (cases "os_ReadFile (dc_read io (path_Join [path_Join [d, ''skills'', k], ''SKILL.md''])) (path_Join [path_Join [d, ''skills'', k], ''SKILL.md'']) (dw_disk w)")
  case (Inl e)
  have "check_skill_file io w l d k = (\<lambda>r. if errors_Is e ErrNotExist then r
      else AddWarnWithHint l (''Failed to read '' @ k @ '' SKILL.md: '' @ err_msg e) ''check file permissions on the skills directory'' r)"
    using Inl by (simp add: check_skill_file_def Let_def fun_eq_iff)
  then show ?thesis by (cases "errors_Is e ErrNotExist") (simp_all add: stages)
next
  case (Inr b)
  define f where "f = (case ParseSkillFrontmatter (dc_skillYaml io) b of
      Inl e \<Rightarrow> AddWarnWithHint l (k @ '' SKILL.md parse error: '' @ err_msg e) ''fix YAML frontmatter in SKILL.md'' | Inr _ \<Rightarrow> (\<lambda>r. r))"
  define g where "g = (case ValidateSkillDir (dc_tool io) (path_Join [d, ''skills'', k]) of
      Inl e \<Rightarrow> AddWarnWithHint l (''skills-ref validate '' @ k @ '': '' @ err_msg e) spec_hint
    | Inr problems \<Rightarrow> fold (\<lambda>p. AddWarnWithHint l (''skills-ref: '' @ p) spec_hint) problems)"
  have "stage f" "stage g" by (simp_all add: f_def g_def stages split: sum.split)
  moreover have "check_skill_file io w l d k = (\<lambda>r. g (f r))"
    using Inr by (auto simp: check_skill_file_def Let_def f_def g_def fun_eq_iff split: sum.split)
  ultimately show ?thesis by (simp add: stage_comp)
qed

lemma stage_orphans [stages]: "stage (check_orphans cfg)"
  unfolding check_orphans_def[abs_def] Let_def by (rule stage_comp[OF stage_fold stage_fold]; rule stage_add)

lemma stage_dead_letters [stages]: "stage (checkDeadLetters io stateDir w)"
  unfolding checkDeadLetters_def[abs_def] by (intro stage_if stage_option stage_sum stages)

lemma stage_fsnotify [stages]: "stage (checkFsnotify io)"
  unfolding checkFsnotify_def by (cases "dc_watcher io") (simp_all only: option.case stage_add)

lemma stage_rate [stages]: "stage (success_rate_check io stateDir w)"
  unfolding success_rate_check_def Let_def by (rule stage_add)

lemma stage_events [stages]: "stage (checkEventStoreIntegrity io stateDir w)"
  unfolding checkEventStoreIntegrity_def[abs_def] Let_def by (intro stage_if stage_sum stage_case_prod stage_id stage_add)

text \<open>The stages that also change the world.\<close>

lemma resolved_stage: "\<exists>f. stage f \<and> fst (check_resolved io cfg stateDir repair (r, w)) = f r \<and> dw_dirs (snd (check_resolved io cfg stateDir repair (r, w))) = dw_dirs w"
  by (auto simp: check_resolved_def Let_def intro: stages split: sum.split prod.split)

lemma remove_stale_stage: "\<exists>f. stage f \<and> fst (remove_stale io p msg hint (r, w)) = f r \<and> dw_dirs (snd (remove_stale io p msg hint (r, w))) = dw_dirs w"
  by (auto simp: remove_stale_def intro: stages split: sum.split prod.split)

lemma repair_stage: "\<exists>f. stage f \<and> fst (repair_pid io stateDir repair (r, w)) = f r \<and> dw_dirs (snd (repair_pid io stateDir repair (r, w))) = dw_dirs w"
proof (cases "repair \<and> \<not> dh_Running (dr_DaemonStatus r) \<and> stat_ok io w (pid_path stateDir)")
  case True
  obtain r1 w1 where one: "remove_stale io (pid_path stateDir) ''failed to remove stale PID file: '' ''check file permissions on .phonewave/watch.pid'' (r, w) = (r1, w1)"
    by (rule prod.exhaust)
  obtain f where f: "stage f" "r1 = f r" "dw_dirs w1 = dw_dirs w"
    using remove_stale_stage[of io "pid_path stateDir" "''failed to remove stale PID file: ''" "''check file permissions on .phonewave/watch.pid''" r w] one by auto
  obtain g where "stage g" "fst (repair_pid io stateDir repair (r, w)) = g r1" "dw_dirs (snd (repair_pid io stateDir repair (r, w))) = dw_dirs w1"
    using remove_stale_stage[of io "started_path stateDir" "''failed to remove stale start marker: ''" "''check file permissions on .phonewave/watch.started''" r1 w1]
      True one by (auto simp: repair_pid_def)
  then show ?thesis using f stage_comp[of f g] by auto
qed (auto simp: repair_pid_def intro: stages)

text \<open>An endpoint is ready when its directory and both mailboxes are there; files are those the doctor found at the start.\<close>

definition present :: "doctor_io \<Rightarrow> disk \<Rightarrow> path list \<Rightarrow> path \<Rightarrow> bool" where
  "present io d dirs p \<longleftrightarrow> (case stat_error io d dirs p of None \<Rightarrow> True | Some e \<Rightarrow> \<not> errors_Is e ErrNotExist)"

lemma missing_iff: "missing io w p \<longleftrightarrow> \<not> present io (dw_disk w) (dw_dirs w) p"
  by (simp add: missing_def present_def split: option.split)

lemma present_mono: "present io d dirs p \<Longrightarrow> set dirs \<subseteq> set dirs' \<Longrightarrow> present io d dirs' p"
  by (auto simp: present_def stat_error_def split: option.splits if_splits)

lemma present_created: "present io d (p # dirs) p"
  by (auto simp: present_def stat_error_def other_error_def not_dir_def errorf_def errors_Is_def split: option.splits)

text \<open>Without errors and regular files in the way, what is present is a directory.\<close>

definition undisturbed :: "doctor_io \<Rightarrow> disk \<Rightarrow> path \<Rightarrow> bool" where
  "undisturbed io d p \<longleftrightarrow> dc_stat io p = None \<and> \<not> below_file d p \<and> dk_files d p = None"

lemma present_dir: "present io d dirs p \<Longrightarrow> undisturbed io d p \<Longrightarrow> p \<in> set dirs"
  by (auto simp: present_def stat_error_def undisturbed_def not_exist_def errors_Is_def split: if_splits)

definition endpoint_paths :: "repo_config \<Rightarrow> endpoint \<Rightarrow> path set" where
  "endpoint_paths repo ep =
     (let epDir = path_Join [rp_Path repo, ep_Dir ep]
      in {rp_Path repo, epDir, path_Join [epDir, ''outbox''], path_Join [epDir, ''inbox'']})"

definition endpoint_ready :: "doctor_io \<Rightarrow> disk \<Rightarrow> path list \<Rightarrow> repo_config \<Rightarrow> endpoint \<Rightarrow> bool" where
  "endpoint_ready io d dirs repo ep \<longleftrightarrow> (\<forall>p \<in> endpoint_paths repo ep. present io d dirs p)"

lemma endpoint_ready_mono: "endpoint_ready io d dirs repo ep \<Longrightarrow> set dirs \<subseteq> set dirs' \<Longrightarrow> endpoint_ready io d dirs' repo ep"
  by (auto simp: endpoint_ready_def intro: present_mono)

definition healthy_endpoint :: "repo_config \<Rightarrow> endpoint \<Rightarrow> endpoint_health" where
  "healthy_endpoint repo ep =
     \<lparr>eh_Repo = rp_Path repo, eh_Dir = ep_Dir ep, eh_Produces = ep_Produces ep, eh_Consumes = ep_Consumes ep, eh_OK = True\<rparr>"

text \<open>What a step over the endpoints does: \<open>hs\<close> are the endpoints it found in order, \<open>P\<close> holds of the directories then.\<close>

definition progress :: "endpoint_health list \<Rightarrow> (path list \<Rightarrow> bool) \<Rightarrow> doctor_report \<times> doctor_world \<Rightarrow> doctor_report \<times> doctor_world \<Rightarrow> bool" where
  "progress hs P = (\<lambda>(r, w) (r', w').
     (report_inv r \<longrightarrow> report_inv r') \<and> dw_disk w' = dw_disk w \<and> set (dw_dirs w) \<subseteq> set (dw_dirs w') \<and>
     (dr_Healthy r' \<longrightarrow> dr_Healthy r \<and> dr_Endpoints r' = dr_Endpoints r @ hs \<and> P (dw_dirs w')))"

definition persistent :: "(path list \<Rightarrow> bool) \<Rightarrow> bool" where
  "persistent P \<longleftrightarrow> (\<forall>dirs dirs'. P dirs \<longrightarrow> set dirs \<subseteq> set dirs' \<longrightarrow> P dirs')"

lemma progress_trans:
  "progress hs P s s' \<Longrightarrow> progress hs' Q s' s'' \<Longrightarrow> persistent P \<Longrightarrow> progress (hs @ hs') (\<lambda>dirs. P dirs \<and> Q dirs) s s''"
  unfolding progress_def persistent_def by (clarsimp split: prod.splits) blast

lemma progress_fold:
  assumes "\<And>x s. x \<in> set xs \<Longrightarrow> dw_disk (snd s) = d \<Longrightarrow> Q (dw_dirs (snd s)) \<Longrightarrow> progress (h x) (P x) s (f x s)"
    and "\<And>x. persistent (P x)" and "persistent Q"
  shows "dw_disk (snd s) = d \<Longrightarrow> Q (dw_dirs (snd s)) \<Longrightarrow> progress (concat (map h xs)) (\<lambda>dirs. \<forall>x \<in> set xs. P x dirs) s (fold f xs s)"
  using assms(1)
proof (induction xs arbitrary: s)
  case Nil
  then show ?case by (simp add: progress_def split: prod.split)
next
  case (Cons x xs)
  have one: "progress (h x) (P x) s (f x s)" using Cons.prems by simp
  then have "dw_disk (snd (f x s)) = d" "Q (dw_dirs (snd (f x s)))"
    using Cons.prems(1,2) assms(3) by (auto simp: progress_def persistent_def split: prod.splits)
  from progress_trans[OF one Cons.IH[OF this] assms(2)] Cons.prems(3) show ?case by simp
qed

text \<open>The mailboxes.\<close>

lemma check_mailboxes_step:
  "case check_mailboxes io l epDir subs (r, ok, w) of (r', ok', w') \<Rightarrow>
     (report_inv r \<longrightarrow> report_inv r') \<and> dw_disk w' = dw_disk w \<and> set (dw_dirs w) \<subseteq> set (dw_dirs w') \<and> dr_Endpoints r' = dr_Endpoints r \<and>
     (dr_Healthy r' \<longrightarrow> dr_Healthy r \<and> ok' = ok \<and> (\<forall>sub \<in> set subs. present io (dw_disk w) (dw_dirs w') (path_Join [epDir, sub])))"
proof (induction subs arbitrary: r ok w)
  case (Cons sub subs)
  let ?p = "path_Join [epDir, sub]"
  let ?s = "if missing io w ?p
      then (case dc_mkdir io ?p of
              Some e \<Rightarrow> (AddErrorWithHint l (''Failed to create '' @ sub @ ''/: '' @ err_msg e) ''check file permissions on the endpoint directory'' r, False, w)
            | None \<Rightarrow> (AddFixed l (''Created missing '' @ sub @ ''/ directory'') r, ok, w\<lparr>dw_dirs := ?p # dw_dirs w\<rparr>))
      else (r, ok, w)"
  obtain r1 ok1 w1 where s: "?s = (r1, ok1, w1)" by (metis prod_cases3)
  have one: "(report_inv r \<longrightarrow> report_inv r1) \<and> dw_disk w1 = dw_disk w \<and> set (dw_dirs w) \<subseteq> set (dw_dirs w1) \<and> dr_Endpoints r1 = dr_Endpoints r \<and>
      (dr_Healthy r1 \<longrightarrow> dr_Healthy r \<and> ok1 = ok \<and> present io (dw_disk w) (dw_dirs w1) ?p)"
    using s by (auto simp: report_inv_def add_defs missing_iff present_created split: if_splits option.splits)
  have run: "check_mailboxes io l epDir (sub # subs) (r, ok, w) = check_mailboxes io l epDir subs (r1, ok1, w1)"
    unfolding check_mailboxes.simps Let_def s ..
  obtain r2 ok2 w2 where t: "check_mailboxes io l epDir subs (r1, ok1, w1) = (r2, ok2, w2)" by (metis prod_cases3)
  have "present io (dw_disk w) (dw_dirs w2) ?p" if "present io (dw_disk w) (dw_dirs w1) ?p" "set (dw_dirs w1) \<subseteq> set (dw_dirs w2)"
    using present_mono[OF that] .
  with one Cons.IH[where r = r1 and ok = ok1 and w = w1] show ?case unfolding run t by auto
qed simp

lemma stage_fold_skills: "stage (fold (check_skill_file io w l d) ks)"
  by (rule stage_fold) (rule stage_skill_file)

lemma check_endpoint_step:
  assumes "dw_disk (snd s) = d" and "present io d (dw_dirs (snd s)) (rp_Path repo)"
  shows "progress [healthy_endpoint repo ep] (\<lambda>dirs. endpoint_ready io d dirs repo ep) s (check_endpoint io repo ep s)"
proof -
  obtain r w where s: "s = (r, w)" by (rule prod.exhaust)
  let ?epDir = "path_Join [rp_Path repo, ep_Dir ep]" and ?l = "Base (rp_Path repo) @ ''/'' @ ep_Dir ep"
  show ?thesis
  proof (cases "missing io w ?epDir")
    case True
    then show ?thesis by (simp add: s check_endpoint_def progress_def report_inv_def add_defs Let_def)
  next
    case False
    obtain r1 ok w1 where m: "check_mailboxes io ?l ?epDir [''outbox'', ''inbox''] (r, True, w) = (r1, ok, w1)" by (metis prod_cases3)
    note box = check_mailboxes_step[where io = io and l = ?l and epDir = ?epDir and subs = "[''outbox'', ''inbox'']" and r = r and ok = True and w = w, unfolded m]
    define f where "f = (\<lambda>r. AddOK ?l (''OK (produces: '' @ show_strings (ep_Produces ep) @ '', consumes: '' @ show_strings (ep_Consumes ep) @ '')'')
        (fold (check_skill_file io w1 ?l ?epDir) [SkillSendable, SkillReadable] r))"
    have f: "stage f" unfolding f_def by (rule stage_comp[OF stage_fold_skills]) (rule stage_add)
    have run: "check_endpoint io repo ep (r, w) = (add_endpoint ((healthy_endpoint repo ep)\<lparr>eh_OK := ok\<rparr>) (f r1), w1)"
      using False m unfolding check_endpoint_def Let_def prod.case if_not_P[OF False] m by (simp only: prod.case f_def healthy_endpoint_def)
    have add: "report_inv (add_endpoint h x) = report_inv x" "dr_Healthy (add_endpoint h x) = dr_Healthy x" "dr_Endpoints (add_endpoint h x) = dr_Endpoints x @ [h]" for h x
      by (simp_all add: add_endpoint_def report_inv_def)
    have fr: "report_inv r1 \<longrightarrow> report_inv (f r1)" "dr_Healthy (f r1) \<longrightarrow> dr_Healthy r1" "dr_Endpoints (f r1) = dr_Endpoints r1"
      using stageD[OF f] by blast+
    have ok_id: "(healthy_endpoint repo ep)\<lparr>eh_OK := True\<rparr> = healthy_endpoint repo ep" by (simp add: healthy_endpoint_def)
    have there: "present io d (dw_dirs w1) (rp_Path repo)" "present io d (dw_dirs w1) ?epDir"
      using present_mono[OF assms(2), of "dw_dirs w1"] present_mono[of io d "dw_dirs w" ?epDir "dw_dirs w1"] False assms(1) box s by (auto simp: missing_iff)
    show ?thesis
      unfolding progress_def s run prod.case using box fr there assms(1) ok_id
      by (auto simp: add endpoint_ready_def endpoint_paths_def Let_def s)
  qed
qed

lemma check_repo_step:
  assumes "dw_disk (snd s) = d"
  shows "progress (map (healthy_endpoint repo) (rp_Endpoints repo)) (\<lambda>dirs. \<forall>ep \<in> set (rp_Endpoints repo). endpoint_ready io d dirs repo ep)
    s (check_repo io repo s)"
proof -
  obtain r w where s: "s = (r, w)" by (rule prod.exhaust)
  show ?thesis
  proof (cases "missing io w (rp_Path repo)")
    case True
    then show ?thesis by (simp add: s check_repo_def progress_def report_inv_def add_defs)
  next
    case False
    have "progress (concat (map (\<lambda>ep. [healthy_endpoint repo ep]) (rp_Endpoints repo))) (\<lambda>dirs. \<forall>ep \<in> set (rp_Endpoints repo). endpoint_ready io d dirs repo ep)
        s (fold (check_endpoint io repo) (rp_Endpoints repo) s)"
      by (rule progress_fold[where Q = "\<lambda>dirs. present io d dirs (rp_Path repo)" and d = d])
        (use assms False in \<open>auto simp: s missing_iff persistent_def intro: check_endpoint_step endpoint_ready_mono present_mono\<close>)
    then show ?thesis using False by (simp add: s check_repo_def concat_map_singleton)
  qed
qed

lemma check_repos_step:
  assumes "dw_disk (snd s) = d"
  shows "progress (concat (map (\<lambda>repo. map (healthy_endpoint repo) (rp_Endpoints repo)) repos))
    (\<lambda>dirs. \<forall>repo \<in> set repos. \<forall>ep \<in> set (rp_Endpoints repo). endpoint_ready io d dirs repo ep) s (fold (check_repo io) repos s)"
proof -
  have "persistent (\<lambda>dirs. \<forall>ep \<in> set (rp_Endpoints repo). endpoint_ready io d dirs repo ep)" for repo
    by (auto simp: persistent_def intro: endpoint_ready_mono)
  then show ?thesis
    using assms by (intro progress_fold[where Q = "\<lambda>_. True" and d = d]) (auto simp: persistent_def intro: check_repo_step)
qed

lemma Doctor_run:
  "\<exists>f r1 w1. fold (check_repo io) (cfg_Repositories cfg) (checkSkillsRefToolchain io repair new_report, w) = (r1, w1) \<and> stage f \<and>
     fst (Doctor io cfg stateDir repair w) = f r1 \<and> dw_dirs (snd (Doctor io cfg stateDir repair w)) = dw_dirs w1"
proof -
  obtain r1 w1 where one: "fold (check_repo io) (cfg_Repositories cfg) (checkSkillsRefToolchain io repair new_report, w) = (r1, w1)" by (rule prod.exhaust)
  obtain r2 w2 where two: "check_resolved io cfg stateDir repair (check_orphans cfg r1, w1) = (r2, w2)" by (rule prod.exhaust)
  obtain g where g: "stage g" "r2 = g (check_orphans cfg r1)" "dw_dirs w2 = dw_dirs w1"
    using resolved_stage[of io cfg stateDir repair "check_orphans cfg r1" w1] two by auto
  define h where "h = (\<lambda>r. checkEventStoreIntegrity io stateDir w2
     ((success_rate_check io stateDir w2 (checkFsnotify io (checkDeadLetters io stateDir w2 r)))
        \<lparr>dr_DaemonStatus := checkDaemonStatus (dc_alive io) (dc_read io (pid_path stateDir)) stateDir (dw_disk w2)\<rparr>))"
  have h: "stage h" unfolding h_def
    by (rule stage_comp[OF stage_comp[OF stage_comp[OF stage_comp[OF stage_dead_letters stage_fsnotify] stage_rate] stage_status] stage_events])
  obtain k where k: "stage k" "fst (repair_pid io stateDir repair (h r2, w2)) = k (h r2)" "dw_dirs (snd (repair_pid io stateDir repair (h r2, w2))) = dw_dirs w2"
    using repair_stage[of io stateDir repair "h r2" w2] by blast
  have run: "Doctor io cfg stateDir repair w = repair_pid io stateDir repair (h r2, w2)"
    unfolding Doctor_def Let_def one prod.case two h_def ..
  show ?thesis
    using one run g k stage_comp[OF stage_comp[OF stage_comp[OF stage_orphans g(1)] h] k(1)]
    by (intro exI[of _ "\<lambda>r. k (h (g (check_orphans cfg r)))"] exI[of _ r1] exI[of _ w1]) simp
qed

lemma Doctor_sound:
  "case Doctor io cfg stateDir repair w of (r, w') \<Rightarrow>
     (dr_Healthy r \<longleftrightarrow> list_all (\<lambda>c. ch_Status c \<noteq> CheckFail) (dr_Checks r)) \<and>
     (dr_Healthy r \<longrightarrow>
        dr_Endpoints r = concat (map (\<lambda>repo. map (healthy_endpoint repo) (rp_Endpoints repo)) (cfg_Repositories cfg)) \<and>
        (\<forall>repo \<in> set (cfg_Repositories cfg). \<forall>ep \<in> set (rp_Endpoints repo). endpoint_ready io (dw_disk w) (dw_dirs w') repo ep))"
proof -
  obtain f r1 w1 where run: "fold (check_repo io) (cfg_Repositories cfg) (checkSkillsRefToolchain io repair new_report, w) = (r1, w1)"
    "stage f" "fst (Doctor io cfg stateDir repair w) = f r1" "dw_dirs (snd (Doctor io cfg stateDir repair w)) = dw_dirs w1"
    using Doctor_run[of io cfg repair w stateDir] by blast
  have start: "report_inv (checkSkillsRefToolchain io repair new_report)" "dr_Endpoints (checkSkillsRefToolchain io repair new_report) = []"
    using stageD(1,3)[OF stage_toolchain[of io repair], of new_report] by (simp_all add: report_inv_def new_report_def)
  have "progress (concat (map (\<lambda>repo. map (healthy_endpoint repo) (rp_Endpoints repo)) (cfg_Repositories cfg)))
     (\<lambda>dirs. \<forall>repo \<in> set (cfg_Repositories cfg). \<forall>ep \<in> set (rp_Endpoints repo). endpoint_ready io (dw_disk w) dirs repo ep)
     (checkSkillsRefToolchain io repair new_report, w) (r1, w1)"
    using check_repos_step[of "(checkSkillsRefToolchain io repair new_report, w)" "dw_disk w" "cfg_Repositories cfg" io] run(1) by simp
  then have step: "report_inv r1" "dr_Healthy r1 \<longrightarrow> dr_Endpoints r1 = concat (map (\<lambda>repo. map (healthy_endpoint repo) (rp_Endpoints repo)) (cfg_Repositories cfg)) \<and>
     (\<forall>repo \<in> set (cfg_Repositories cfg). \<forall>ep \<in> set (rp_Endpoints repo). endpoint_ready io (dw_disk w) (dw_dirs w1) repo ep)"
    using start by (simp_all add: progress_def)
  have fin: "report_inv (f r1)" "dr_Healthy (f r1) \<longrightarrow> dr_Healthy r1" "dr_Endpoints (f r1) = dr_Endpoints r1"
    using stageD[OF run(2), of r1] step(1) by blast+
  obtain r w' where dr: "Doctor io cfg stateDir repair w = (r, w')" by (rule prod.exhaust)
  then have r: "r = f r1" "dw_dirs w' = dw_dirs w1" using run(3,4) by simp_all
  have "dr_Healthy r \<longleftrightarrow> list_all (\<lambda>c. ch_Status c \<noteq> CheckFail) (dr_Checks r)" using fin(1) unfolding report_inv_def r(1) .
  moreover have "dr_Healthy r \<longrightarrow> dr_Healthy r1" "dr_Endpoints r = dr_Endpoints r1" using fin(2,3) unfolding r(1) by blast+
  ultimately show ?thesis using step(2) unfolding dr prod.case r(2) by simp
qed

text \<open>C24: What the verdict of the doctor means: the report is healthy exactly if none of its checks failed; after a healthy report the
  endpoints are all listed as healthy, in the order of the configuration, and for no path of an endpoint (repository, endpoint directory,
  outbox, inbox) does \<open>os.Stat\<close> say that it does not exist: missing mailboxes were created. Where \<open>os.Stat\<close> reports no other error and no
  regular file stands in the way, these paths are therefore directories; where it does, the doctor takes them for present.\<close>

theorem doctor_verdict:
  "case Doctor io cfg stateDir repair w of (r, w') \<Rightarrow>
     (dr_Healthy r \<longleftrightarrow> list_all (\<lambda>c. ch_Status c \<noteq> CheckFail) (dr_Checks r)) \<and>
     (dr_Healthy r \<longrightarrow>
        dr_Endpoints r = concat (map (\<lambda>repo. map (healthy_endpoint repo) (rp_Endpoints repo)) (cfg_Repositories cfg)) \<and>
        (\<forall>repo \<in> set (cfg_Repositories cfg). \<forall>ep \<in> set (rp_Endpoints repo). \<forall>p \<in> endpoint_paths repo ep.
           (case stat_error io (dw_disk w) (dw_dirs w') p of None \<Rightarrow> True | Some e \<Rightarrow> \<not> errors_Is e ErrNotExist) \<and>
           (dc_stat io p = None \<and> \<not> below_file (dw_disk w) p \<and> dk_files (dw_disk w) p = None \<longrightarrow> p \<in> set (dw_dirs w'))))"
  using Doctor_sound[where io = io and cfg = cfg and stateDir = stateDir and repair = repair and w = w] present_dir[of io "dw_disk w"]
  unfolding endpoint_ready_def undisturbed_def present_def[symmetric] by (clarsimp split: prod.splits)

definition sample_doctor_io :: doctor_io where
  "sample_doctor_io = \<lparr>dc_lookPath = (\<lambda>_. None), dc_lookPathAfter = (\<lambda>_. None), dc_install = None, dc_skillsRefDir = [], dc_venv = False,
     dc_tempDir = ''/tmp'', dc_mkdir = (\<lambda>_. None), dc_read = (\<lambda>_. None), dc_stat = (\<lambda>_. None), dc_remove = (\<lambda>_. None),
     dc_skillYaml = (\<lambda>_. Inl (errorf ''x'')), dc_tool = (\<lambda>_. ToolMissing), dc_configYaml = sample_config_yaml,
     dc_config = \<lparr>ci_manifest = None, ci_mkdir = None, ci_resolved = None\<rparr>, dc_storeOpen = None, dc_deadCount = None, dc_staged = [],
     dc_watcher = None, dc_now = 0, dc_pct = [], dc_alive = (\<lambda>_. False), dc_load = load_ok (\<lambda>_. None), dc_events = []\<rparr>"

definition sample_doctor_world :: doctor_world where
  "sample_doctor_world = \<lparr>dw_disk = \<lparr>dk_files = Map.empty, dk_renamed = []\<rparr>, dw_dirs = [''/r'', ''/r/.gate'', ''/r/.siren'']\<rparr>"

theorem doctor_verdict_witness:
  "\<exists>r w'. Doctor sample_doctor_io sample_config ''/p/.phonewave'' False sample_doctor_world = (r, w') \<and> dr_Healthy r \<and>
     length (dr_Endpoints r) = 2 \<and> ''/r/.siren/outbox'' \<in> set (dw_dirs w')"
proof -
  obtain r w' where run: "Doctor sample_doctor_io sample_config ''/p/.phonewave'' False sample_doctor_world = (r, w')" by (rule prod.exhaust)
  have "dr_Healthy (fst (Doctor sample_doctor_io sample_config ''/p/.phonewave'' False sample_doctor_world))" by code_simp
  then have h: "dr_Healthy r" using run by simp
  have repos: "cfg_Repositories sample_config = [\<lparr>rp_Path = ''/r'', rp_Endpoints =
     [\<lparr>ep_Dir = ''.gate'', ep_Produces = [], ep_Consumes = [''report'']\<rparr>, \<lparr>ep_Dir = ''.siren'', ep_Produces = [''report''], ep_Consumes = []\<rparr>]\<rparr>]"
    by code_simp
  have path: "path_Join [path_Join [''/r'', ''.siren''], ''outbox''] = ''/r/.siren/outbox''" by code_simp
  have free: "dc_stat sample_doctor_io p = None" "\<not> below_file (dw_disk sample_doctor_world) p" "dk_files (dw_disk sample_doctor_world) p = None" for p
    by (simp_all add: sample_doctor_io_def sample_doctor_world_def below_file_def list_ex_iff)
  from doctor_verdict[where io = sample_doctor_io and cfg = sample_config and stateDir = "''/p/.phonewave''" and repair = False and w = sample_doctor_world] run h
  show ?thesis unfolding repos by (auto simp: endpoint_paths_def Let_def path free)
qed

text \<open>A regular file in the place of an endpoint directory goes unnoticed: the report is healthy although the endpoint has no mailboxes.\<close>

theorem doctor_accepts_file:
  "\<exists>r w'. Doctor sample_doctor_io sample_config ''/p/.phonewave'' False
      \<lparr>dw_disk = \<lparr>dk_files = [''/r/.gate'' \<mapsto> ''text''], dk_renamed = []\<rparr>, dw_dirs = [''/r'', ''/r/.siren'']\<rparr> = (r, w') \<and>
     dr_Healthy r \<and> ''/r/.gate/inbox'' \<notin> set (dw_dirs w') \<and> ''/r/.gate'' \<notin> set (dw_dirs w')"
proof -
  let ?run = "Doctor sample_doctor_io sample_config ''/p/.phonewave'' False
      \<lparr>dw_disk = \<lparr>dk_files = [''/r/.gate'' \<mapsto> ''text''], dk_renamed = []\<rparr>, dw_dirs = [''/r'', ''/r/.siren'']\<rparr>"
  have "dr_Healthy (fst ?run)" "''/r/.gate/inbox'' \<notin> set (dw_dirs (snd ?run))" "''/r/.gate'' \<notin> set (dw_dirs (snd ?run))" by code_simp+
  then show ?thesis by (metis prod.collapse)
qed

section \<open>The status follows the daemon\<close>

lemma clean_char:
  assumes "33 \<le> (of_char c :: nat)" and "(of_char c :: nat) < 128" and "r \<in> set space_runes"
  shows "c \<notin> set r"
  using assms by (auto simp: space_runes_def)

lemma TrimSpace_clean:
  assumes "s \<noteq> []" and "\<And>c. c \<in> set s \<Longrightarrow> 33 \<le> (of_char c :: nat) \<and> (of_char c :: nat) < 128"
  shows "TrimSpace s = s"
proof -
  have "hd s \<in> set s" "last s \<in> set s" using assms(1) by simp_all
  then have "\<forall>r \<in> set space_runes. hd s \<notin> set r" "\<forall>r \<in> set space_runes. last s \<notin> set r"
    using assms(2) clean_char by blast+
  from TrimSpace_word[OF assms(1) this, of "[]"] show ?thesis by simp
qed

lemma digit_clean: "digit_val c \<noteq> None \<Longrightarrow> 33 \<le> (of_char c :: nat) \<and> (of_char c :: nat) < 128"
  by (simp add: digit_val_def Let_def split: if_splits)

lemma pad0_clean: "c \<in> set (pad0 n i) \<Longrightarrow> 33 \<le> (of_char c :: nat) \<and> (of_char c :: nat) < 128"
  using pad0_chars[of c n i] digit_clean[of c] by auto

lemma TrimSpace_Itoa: "TrimSpace (Itoa i) = Itoa i"
proof (rule TrimSpace_clean)
  show "33 \<le> (of_char c :: nat) \<and> (of_char c :: nat) < 128" if "c \<in> set (Itoa i)" for c
    using pad0_clean[of c 0 i] that by (simp add: pad0_def)
qed simp

lemma TrimSpace_RFC3339: "TrimSpace (format_RFC3339 t) = format_RFC3339 t"
proof (rule TrimSpace_clean)
  show "format_RFC3339 t \<noteq> []" using length_format_RFC3339[of t] by auto
  show "33 \<le> (of_char c :: nat) \<and> (of_char c :: nat) < 128" if "c \<in> set (format_RFC3339 t)" for c
    using that pad0_clean[of c] unfolding format_RFC3339_def format_date_def by (auto split: prod.splits)
qed

lemma outbox_count_eq: "outbox_count cfg = length (CollectOutboxDirs cfg)"
  by (simp add: outbox_count_def CollectOutboxDirs_def length_concat comp_def)

lemma stopped_files:
  assumes "rn_removePid rio = None" and "rn_removeStarted rio = None"
  shows "dk_files (pl_disk (dm_pipe (run_stop opts rio s))) (pid_path (do_StateDir opts)) = None \<and>
    dk_files (pl_disk (dm_pipe (run_stop opts rio s))) (started_path (do_StateDir opts)) = None"
proof -
  let ?sd = "do_StateDir opts"
  have rm: "dk_files (snd (os_Remove None p d)) q = (if q = p then None else dk_files d q)" for p q d
    by (auto simp: os_Remove_def split: option.split)
  have save: "q \<noteq> filter_path ?sd \<Longrightarrow> dk_files (snd (SaveDeliveryFilter mk fault ?sd bf d)) q = dk_files d q" for mk fault bf d q
    by (auto simp: SaveDeliveryFilter_def os_WriteFile_def split: option.split)
  show ?thesis
    using state_files_distinct[of ?sd] assms by (simp add: run_stop_def defer_pid_def defer_save_def save rm)
qed

lemma status_running:
  assumes "\<And>p. so_read io p = None" and "in_int64 pid" and "fst (date_of t) \<in> {0..9999}"
    and "dk_files d (pid_path sd) = Some (Itoa pid)" and "dk_files d (started_path sd) = Some (format_RFC3339 t)"
  shows "sr_DaemonRunning (Status io cfg sd d) = so_alive io pid"
    and "so_alive io pid \<Longrightarrow> sr_DaemonPID (Status io cfg sd d) = pid"
    and "sr_Uptime (Status io cfg sd d) = so_now io - (t - t mod second)"
proof -
  have "checkDaemonStatus (so_alive io) None sd d =
      (if so_alive io pid then \<lparr>dh_Checked = True, dh_Running = True, dh_PID = pid\<rparr> else \<lparr>dh_Checked = True, dh_Running = False, dh_PID = 0\<rparr>)"
    using assms(2,4) by (simp add: checkDaemonStatus_def os_ReadFile_def TrimSpace_Itoa)
  then show "sr_DaemonRunning (Status io cfg sd d) = so_alive io pid"
    and "so_alive io pid \<Longrightarrow> sr_DaemonPID (Status io cfg sd d) = pid" by (simp_all add: Status_def Let_def assms(1))
  have "uptime io sd d = so_now io - (t - t mod second)"
    using assms(5) parse_format_RFC3339[OF assms(3)] by (simp add: uptime_def os_ReadFile_def TrimSpace_RFC3339 assms(1))
  then show "sr_Uptime (Status io cfg sd d) = so_now io - (t - t mod second)" by (simp add: Status_def Let_def)
qed

lemma status_stopped:
  assumes "rn_removePid rio = None" and "rn_removeStarted rio = None"
  shows "\<not> sr_DaemonRunning (Status io cfg (do_StateDir opts) (pl_disk (dm_pipe (run_stop opts rio s)))) \<and>
    sr_Uptime (Status io cfg (do_StateDir opts) (pl_disk (dm_pipe (run_stop opts rio s)))) = 0"
proof -
  have "dk_files (pl_disk (dm_pipe (run_stop opts rio s))) (pid_path (do_StateDir opts)) = None"
    "dk_files (pl_disk (dm_pipe (run_stop opts rio s))) (started_path (do_StateDir opts)) = None" using stopped_files[OF assms, of opts s] by blast+
  then show ?thesis
    by (simp add: Status_def Let_def checkDaemonStatus_def uptime_def os_ReadFile_def not_exist_def split: option.split)
qed

text \<open>C26: The status follows the daemon. Once \<open>Run\<close> has started, and for as long as nobody touches the two files it wrote about itself,
  \<open>phonewave status\<close> shows the daemon as running exactly when its process is alive, with the process id it started with and the time since
  its start, to the second. After the end of a run in any state of the daemon, with both removals done, it is shown as stopped. The number
  of watched outboxes is the number of directories the daemon is given to watch. (The files can be read, the process id is an \<open>int\<close>, and the
  start is in a year of four digits; the startup scan sees file names in the outboxes, and what is staged are D-Mails.)\<close>

theorem status_follows_daemon:
  assumes "run_start yaml opts rio old d0 = Started ls w idle" and "scan_ok rio d0"
    and "\<And>p. so_read io p = None" and "in_int64 (rn_pid rio)" and "fst (date_of (rn_now rio)) \<in> {0..9999}"
    and "rn_removePid rio = None" and "rn_removeStarted rio = None"
  shows "(\<forall>d. (\<forall>p \<in> {pid_path (do_StateDir opts), started_path (do_StateDir opts)}. dk_files d p = dk_files (pl_disk (dm_pipe (ls_daemon ls))) p) \<longrightarrow>
       sr_DaemonRunning (Status io cfg (do_StateDir opts) d) = so_alive io (rn_pid rio) \<and>
       (so_alive io (rn_pid rio) \<longrightarrow> sr_DaemonPID (Status io cfg (do_StateDir opts) d) = rn_pid rio) \<and>
       sr_Uptime (Status io cfg (do_StateDir opts) d) = so_now io - (rn_now rio - rn_now rio mod second)) \<and>
    (\<forall>s. \<not> sr_DaemonRunning (Status io cfg (do_StateDir opts) (pl_disk (dm_pipe (run_stop opts rio s)))) \<and>
       sr_Uptime (Status io cfg (do_StateDir opts) (pl_disk (dm_pipe (run_stop opts rio s)))) = 0) \<and>
    (\<forall>d. sr_OutboxCount (Status io cfg (do_StateDir opts) d) = length (CollectOutboxDirs cfg))"
proof (intro conjI allI impI)
  fix d :: disk
  assume same: "\<forall>p \<in> {pid_path (do_StateDir opts), started_path (do_StateDir opts)}. dk_files d p = dk_files (pl_disk (dm_pipe (ls_daemon ls))) p"
  note run = status_running[OF assms(3-5), of d "do_StateDir opts" cfg]
  have files: "dk_files d (pid_path (do_StateDir opts)) = Some (Itoa (rn_pid rio))" "dk_files d (started_path (do_StateDir opts)) = Some (format_RFC3339 (rn_now rio))"
    using run_start_files[OF assms(1,2)] same by simp_all
  show "sr_DaemonRunning (Status io cfg (do_StateDir opts) d) = so_alive io (rn_pid rio)" by (rule run(1)[OF files])
  show "sr_DaemonPID (Status io cfg (do_StateDir opts) d) = rn_pid rio" if "so_alive io (rn_pid rio)" by (rule run(2)[OF files that])
  show "sr_Uptime (Status io cfg (do_StateDir opts) d) = so_now io - (rn_now rio - rn_now rio mod second)" by (rule run(3)[OF files])
next
  fix s
  show "\<not> sr_DaemonRunning (Status io cfg (do_StateDir opts) (pl_disk (dm_pipe (run_stop opts rio s))))"
    and "sr_Uptime (Status io cfg (do_StateDir opts) (pl_disk (dm_pipe (run_stop opts rio s)))) = 0" using status_stopped[OF assms(6,7)] by blast+
next
  fix d :: disk
  show "sr_OutboxCount (Status io cfg (do_StateDir opts) d) = length (CollectOutboxDirs cfg)" by (simp add: Status_def Let_def outbox_count_eq)
qed

definition sample_status_io :: status_io where
  "sample_status_io = \<lparr>so_alive = (\<lambda>p. p = 1), so_read = (\<lambda>_. None), so_now = 7000000000, so_queue = Some [], so_count = None, so_snapshot = None,
     so_tempDir = ''/tmp'', so_lookPath = (\<lambda>_. None), so_skillsRefDir = []\<rparr>"

lemma sample_scan_ok: "scan_ok sample_run_io sample_daemon"
proof -
  have "suffixes_ok all_writes_ok" "suffixes_ok (di_flush sample_io)" by (simp_all add: suffixes_ok_def all_writes_ok_def sample_io_def write_ok_def)
  moreover have "mail_targets (pl_staged sample_pipeline)" by (simp add: mail_targets_def sample_pipeline_def)
  moreover have "file_name ''a.md''" by (simp add: file_name_def plain_comp_def)
  ultimately show ?thesis
    by (simp add: scan_ok_def sample_run_io_def sample_daemon_def sample_hio_def handler_ok_def listing_ok_def)
qed

lemma sample_starts: "\<exists>ls w idle. run_start sample_yaml sample_opts sample_run_io ActiveProviderState sample_daemon = Started ls w idle"
proof -
  have "run_start sample_yaml sample_opts sample_run_io ActiveProviderState sample_daemon \<noteq> StartPanicked"
    using run_start_ok[OF sample_start_ok] by blast
  moreover have "run_start sample_yaml sample_opts sample_run_io ActiveProviderState sample_daemon \<noteq> StartFailed e d" for e d
    by (auto simp: run_start_def sample_run_io_def sample_opts_def Let_def os_WriteFile_def split: option.splits prod.splits)
  ultimately show ?thesis by (cases "run_start sample_yaml sample_opts sample_run_io ActiveProviderState sample_daemon") auto
qed

theorem status_follows_daemon_witness:
  "(\<exists>ls w idle. run_start sample_yaml sample_opts sample_run_io ActiveProviderState sample_daemon = Started ls w idle \<and>
     sr_DaemonPID (Status sample_status_io sample_config ''/r/.phonewave'' (pl_disk (dm_pipe (ls_daemon ls)))) = 1) \<and>
   \<not> sr_DaemonRunning (Status sample_status_io sample_config ''/r/.phonewave'' (pl_disk (dm_pipe (run_stop sample_opts sample_run_io sample_daemon))))"
proof -
  obtain ls w idle where start: "run_start sample_yaml sample_opts sample_run_io ActiveProviderState sample_daemon = Started ls w idle"
    using sample_starts by blast
  have "0 \<le> fst (date_of 0)" "fst (date_of 0) \<le> 9999" by code_simp+
  then have year: "fst (date_of (rn_now sample_run_io)) \<in> {0..9999}" by (simp add: sample_run_io_def)
  have reads: "so_read sample_status_io p = None" for p by (simp add: sample_status_io_def)
  have pid: "in_int64 (rn_pid sample_run_io)" by (simp add: in_int64_def sample_run_io_def)
  have io: "rn_removePid sample_run_io = None" "rn_removeStarted sample_run_io = None" "do_StateDir sample_opts = ''/r/.phonewave''"
    "so_alive sample_status_io (rn_pid sample_run_io)" "rn_pid sample_run_io = 1"
    by (simp_all add: sample_run_io_def sample_opts_def sample_status_io_def)
  note status = status_follows_daemon[OF start sample_scan_ok, where io = sample_status_io and cfg = sample_config, OF reads pid year io(1,2), unfolded io(3)]
  have "sr_DaemonPID (Status sample_status_io sample_config ''/r/.phonewave'' (pl_disk (dm_pipe (ls_daemon ls)))) = 1" using status io(4,5) by simp
  then show ?thesis using start status by blast
qed

end
