(* ===== verification/Maintenance.thy ===== *)
theory Maintenance
  imports ArchiveIndex Doctor
begin

text \<open>
  The commands that delete: \<open>phonewave dead-letters purge\<close> (\<open>src/internal/cmd/dead_letters.go\<close>), \<open>phonewave archive-prune\<close>
  (\<open>archive_prune.go\<close>) and \<open>phonewave clean\<close> (\<open>clean.go\<close>). Flags, what the user types and errors of the system are arguments;
  what the commands print is kept as a list, line by line and without the line ends.
\<close>

section \<open>Talking to the user\<close>

datatype printed = Out string | Err string

text \<open>The answer to a question: a line, the end of the input, or an error.\<close>

datatype answer = AnswerLine string | AnswerEOF | AnswerError go_error

text \<open>The confirmation of the first two commands: go on, or stop with a result and what was printed.\<close>

definition confirm :: "bool \<Rightarrow> string \<Rightarrow> answer \<Rightarrow> printed list \<times> unit result option" where
  "confirm yes question a =
     (if yes then ([], None)
      else case a of
             AnswerError e \<Rightarrow> ([Err question], Some (Inl (wrapf ''read confirmation: '' e)))
           | AnswerEOF \<Rightarrow> ([Err question, Err ''Cancelled.''], Some (Inr ()))
           | AnswerLine l \<Rightarrow>
               let answer = TrimSpace l
               in if answer \<noteq> ''y'' \<and> answer \<noteq> ''Y'' then ([Err question, Err ''Cancelled.''], Some (Inr ()))
                  else ([Err question], None))"

definition confirmed :: "bool \<Rightarrow> answer \<Rightarrow> bool" where
  "confirmed yes a \<longleftrightarrow> yes \<or> (case a of AnswerLine l \<Rightarrow> TrimSpace l \<in> {''y'', ''Y''} | _ \<Rightarrow> False)"

lemma confirm_iff: "snd (confirm yes question a) = None \<longleftrightarrow> confirmed yes a"
  by (auto simp: confirm_def confirmed_def Let_def split: answer.split)

definition quoted :: "string \<Rightarrow> string" where
  "quoted s = CHR 0x22 # s @ [CHR 0x22]"

section \<open>Dead letters\<close>

record purge_io =
  pg_stat :: bool
  pg_open :: "go_error option"
  pg_count :: "go_error option"
  pg_exec :: "go_error option"
  pg_rows :: "go_error option"

definition purge_json :: "int \<Rightarrow> int \<Rightarrow> string" where
  "purge_json found purged = ''{'' @ quoted ''dead_letters'' @ '':'' @ Itoa found @ '','' @ quoted ''purged'' @ '':'' @ Itoa purged @ ''}''"

definition purge :: "purge_io \<Rightarrow> bool \<Rightarrow> bool \<Rightarrow> bool \<Rightarrow> answer \<Rightarrow> staged_table \<Rightarrow> unit result \<times> printed list \<times> staged_table" where
  "purge io jsonOut execute yes a t =
     (if \<not> pg_stat io then (Inr (), [Err ''No delivery database found.''], t)
      else case pg_open io of Some e \<Rightarrow> (Inl (wrapf ''open delivery store: '' e), [], t) | None \<Rightarrow>
           case DeadLetterCount (pg_count io) t of Inl e \<Rightarrow> (Inl (wrapf ''count dead letters: '' e), [], t) | Inr n \<Rightarrow>
           if n = 0 then (Inr (), [if jsonOut then Out (purge_json 0 0) else Err ''No dead-lettered items.''], t)
           else if \<not> execute
           then (Inr (), [if jsonOut then Out (purge_json n 0)
                          else Err (Itoa n @ '' dead-lettered item(s) would be purged (use --execute to delete)'')], t)
           else case confirm yes (''Delete '' @ Itoa n @ '' dead-lettered item(s)? [y/N] '') a of
                  (out, Some r) \<Rightarrow> (r, out, t)
                | (out, None) \<Rightarrow>
                    (case PurgeDeadLetters (pg_exec io) (pg_rows io) t of
                       (Inl e, t) \<Rightarrow> (Inl (wrapf ''purge dead letters: '' e), out, t)
                     | (Inr purged, t) \<Rightarrow>
                         (Inr (), out @ [if jsonOut then Out (purge_json n purged) else Err (''Purged '' @ Itoa purged @ '' dead-lettered item(s).'')], t)))"

section \<open>Event files\<close>

record prune_io =
  pn_now :: time
  pn_listing :: "event_entry list result"
  pn_remove :: "string \<Rightarrow> go_error option"
  pn_index :: index_io

record prune_flags =
  pf_execute :: bool
  pf_dryRun :: bool
  pf_yes :: bool
  pf_json :: bool
  pf_rebuild :: bool
  pf_days :: int

text \<open>\<open>json\<close> of the candidates; a list that is nil prints as \<open>null\<close>.\<close>

definition prune_json :: "string list \<Rightarrow> int \<Rightarrow> string" where
  "prune_json files deleted =
     ''{'' @ quoted ''candidates'' @ '':'' @ Itoa (int (length files)) @ '','' @ quoted ''deleted'' @ '':'' @ Itoa deleted @ '','' @ quoted ''files'' @ '':'' @
     (if files = [] then ''null'' else ''['' @ Join '','' (map json_string files) @ '']'') @ ''}''"

text \<open>The world: the event files, and the disk with the index of the archive.\<close>

definition archive_prune ::
  "prune_io \<Rightarrow> prune_flags \<Rightarrow> answer \<Rightarrow> path result \<Rightarrow> event_dir \<times> disk \<Rightarrow> unit result \<times> printed list \<times> event_dir \<times> disk" where
  "archive_prune io fl a base = (\<lambda>(dir, d).
     if pf_execute fl \<and> pf_dryRun fl then (Inl (errorf ''--execute and --dry-run are mutually exclusive''), [], dir, d)
     else case base of Inl e \<Rightarrow> (Inl e, [], dir, d) | Inr base \<Rightarrow>
     let stateDir = path_Join [base, StateDir]
     in if pf_rebuild fl
        then if pf_execute fl then (Inl (errorf ''--rebuild-index cannot be combined with --execute''), [], dir, d)
             else let indexPath = path_Join [stateDir, ''archive'', ''index.jsonl'']
                  in (case Rebuild (pn_index io) indexPath stateDir ''phonewave'' d of
                        (Inl e, d) \<Rightarrow> (Inl (wrapf ''rebuild index: '' e), [], dir, d)
                      | (Inr n, d) \<Rightarrow> (Inr (), [Err (''Rebuilt index: '' @ Itoa n @ '' entries '' @ [CHR 0xE2, CHR 0x86, CHR 0x92] @ '' '' @ indexPath)], dir, d))
        else case ListExpiredEventFiles (pn_now io) (pn_listing io) (pf_days fl) of
               Inl e \<Rightarrow> (Inl (wrapf ''failed to list expired events: '' e), [], dir, d)
             | Inr files \<Rightarrow>
                 if pf_json fl
                 then if pf_execute fl \<and> files \<noteq> []
                      then (case PruneEventFiles (pn_remove io) files dir of
                              ((_, Some e), dir) \<Rightarrow> (Inl (wrapf ''event prune failed: '' e), [], dir, d)
                            | ((deleted, None), dir) \<Rightarrow> (Inr (), [Out (prune_json files (int (length deleted)))], dir, d))
                      else (Inr (), [Out (prune_json files 0)], dir, d)
                 else if files = []
                 then (Inr (), [Err (''No expired event files (threshold: '' @ Itoa (pf_days fl) @ '' days).'')], dir, d)
                 else let n = Itoa (int (length files));
                          out = Err ''Expired event files:'' # map (\<lambda>f. Err (''  '' @ f)) files @ [Err (n @ '' event file(s) older than '' @ Itoa (pf_days fl) @ '' days.'')]
                      in if \<not> pf_execute fl
                         then (Inr (), out @ [Err (''(dry-run '' @ [CHR 0xE2, CHR 0x80, CHR 0x94] @ '' pass --execute to delete)'')], dir, d)
                         else case confirm (pf_yes fl) (CHR 0x0A # ''Delete these '' @ n @ '' file(s)? [y/N] '') a of
                                (reply, Some r) \<Rightarrow> (r, out @ reply, dir, d)
                              | (reply, None) \<Rightarrow>
                                  (case PruneEventFiles (pn_remove io) files dir of
                                     ((_, Some e), dir) \<Rightarrow> (Inl (wrapf ''event prune failed: '' e), out @ reply, dir, d)
                                   | ((deleted, None), dir) \<Rightarrow>
                                       (Inr (), out @ reply @ [Err (''Pruned '' @ Itoa (int (length deleted)) @ '' event file(s).'')], dir, d)))"

section \<open>Runtime state\<close>

text \<open>Files below a path, and \<open>os.RemoveAll\<close>, which may fail before it has removed anything or in between: \<open>rest\<close> says which files it
  left then.\<close>

definition below :: "path \<Rightarrow> path \<Rightarrow> bool" where
  "below t p \<longleftrightarrow> p = t \<or> HasPrefix p (t @ ''/'')"

definition RemoveAll :: "(go_error \<times> (path \<Rightarrow> bool)) option \<Rightarrow> path \<Rightarrow> disk \<Rightarrow> unit result \<times> disk" where
  "RemoveAll fault t d =
     (case fault of
        None \<Rightarrow> (Inr (), d\<lparr>dk_files := (\<lambda>p. if below t p then None else dk_files d p)\<rparr>)
      | Some (e, rest) \<Rightarrow> (Inl e, d\<lparr>dk_files := (\<lambda>p. if below t p \<and> \<not> rest p then None else dk_files d p)\<rparr>))"

record clean_io =
  cn_isDir :: "path \<Rightarrow> bool"
  cn_stat :: "path \<Rightarrow> bool"
  cn_read :: "go_error option"
  cn_signal :: "int \<Rightarrow> bool"
  cn_tempDir :: path
  cn_remove :: "path \<Rightarrow> (go_error \<times> (path \<Rightarrow> bool)) option"

definition clean_candidates :: "string list" where
  "clean_candidates = [''delivery.log'', ''.run'', ''watch.pid'', ''watch.started'', ''events'']"

definition collectCleanTargets :: "clean_io \<Rightarrow> path \<Rightarrow> path list" where
  "collectCleanTargets io stateDir = filter (cn_stat io) (map (\<lambda>name. path_Join [stateDir, name]) clean_candidates)"

definition daemonRunning :: "clean_io \<Rightarrow> path \<Rightarrow> disk \<Rightarrow> bool" where
  "daemonRunning io stateDir d =
     (case os_ReadFile (cn_read io) (path_Join [stateDir, ''watch.pid'']) d of
        Inl _ \<Rightarrow> False
      | Inr data \<Rightarrow> (case Atoi data of None \<Rightarrow> False | Some pid \<Rightarrow> pid > 0 \<and> cn_signal io pid))"

fun remove_targets :: "clean_io \<Rightarrow> path list \<Rightarrow> int \<times> printed list \<times> disk \<Rightarrow> int \<times> printed list \<times> disk" where
  "remove_targets io [] s = s"
| "remove_targets io (t # ts) (removed, out, d) =
     remove_targets io ts
       (case RemoveAll (cn_remove io t) t d of
          (Inl e, d) \<Rightarrow> (removed, out @ [Err (''  failed to remove '' @ t @ '': '' @ err_msg e)], d)
        | (Inr _, d) \<Rightarrow> (removed + 1, out, d))"

text \<open>\<open>typed\<close> is the word read by \<open>Fscanln\<close>, empty if there is none.\<close>

definition clean :: "clean_io \<Rightarrow> bool \<Rightarrow> string \<Rightarrow> path result \<Rightarrow> disk \<Rightarrow> unit result \<times> printed list \<times> disk" where
  "clean io yes typed base d =
     (case base of Inl e \<Rightarrow> (Inl e, [], d) | Inr base \<Rightarrow>
      let stateDir = path_Join [base, StateDir]
      in if \<not> cn_isDir io stateDir then (Inr (), [Err (''Nothing to clean at '' @ stateDir)], d)
         else let warn = (if daemonRunning io stateDir d
                          then [Err ''Warning: daemon appears to be running. Stop it first for a clean reset.''] else []);
                  venvDir = path_Join [cn_tempDir io, SkillsRefVenvName];
                  targets = collectCleanTargets io stateDir @ (if cn_stat io venvDir then [venvDir] else [])
              in if targets = [] then (Inr (), warn @ [Err ''Nothing to clean.''], d)
                 else let ask = (if yes then []
                                 else Err ''The following will be deleted:'' # map (\<lambda>t. Err (''  '' @ t)) targets @ [Err (CHR 0x0A # ''Delete? [y/N]: '')])
                      in if \<not> yes \<and> typed \<noteq> ''y'' \<and> typed \<noteq> ''Y'' then (Inr (), warn @ ask @ [Err ''Aborted.''], d)
                         else (case remove_targets io targets (0, [], d) of
                                 (removed, out, d) \<Rightarrow>
                                   (Inr (), warn @ ask @ out @ [Err (''Cleaned '' @ Itoa removed @ '' item(s) from '' @ stateDir)], d)))"

section \<open>Nothing is deleted unasked\<close>

lemma purge_table:
  "snd (snd (purge io jsonOut execute yes a t)) =
     (if execute \<and> confirmed yes a \<and> pg_stat io \<and> pg_open io = None \<and> pg_count io = None \<and> pg_exec io = None
      then filter (\<lambda>r. \<not> is_dead_letter r) t else t)"
proof (cases "pg_stat io \<and> pg_open io = None \<and> pg_count io = None")
  case True
  let ?n = "int (length (filter is_dead_letter t))"
  have n: "DeadLetterCount (pg_count io) t = Inr ?n" using True by (simp add: DeadLetterCount_def query_def)
  have keep: "filter (\<lambda>r. \<not> is_dead_letter r) t = t" if "?n = 0" using that by (simp add: filter_empty_conv)
  obtain out r where c: "confirm yes (''Delete '' @ Itoa ?n @ '' dead-lettered item(s)? [y/N] '') a = (out, r)" by (rule prod.exhaust)
  have r: "r = None \<longleftrightarrow> confirmed yes a" using confirm_iff[of yes "''Delete '' @ Itoa ?n @ '' dead-lettered item(s)? [y/N] ''" a] c by simp
  have run: "snd (snd (purge io jsonOut execute yes a t)) =
      (if ?n = 0 \<or> \<not> execute then t else case r of Some _ \<Rightarrow> t | None \<Rightarrow> snd (PurgeDeadLetters (pg_exec io) (pg_rows io) t))"
    using True c unfolding purge_def n by (auto split: option.split sum.split prod.split)
  have p: "snd (PurgeDeadLetters (pg_exec io) (pg_rows io) t) = (if pg_exec io = None then filter (\<lambda>r. \<not> is_dead_letter r) t else t)"
    by (simp add: PurgeDeadLetters_def Let_def split: option.split)
  show ?thesis unfolding run p using True r keep by (cases r) auto
next
  case False
  then show ?thesis by (auto simp: purge_def DeadLetterCount_def query_def split: option.split)
qed

text \<open>What pruning removes is among the files it was given.\<close>

lemma PruneEventFiles_removes: "name \<notin> set files \<Longrightarrow> map_of (snd (PruneEventFiles err files dir)) name = map_of dir name"
proof (induction files arbitrary: dir)
  case (Cons f fs)
  have del: "map_of (AList.delete f dir) name = map_of dir name" using Cons.prems by (simp add: delete_conv')
  have rest: "map_of dir'' name = map_of dir' name" if "PruneEventFiles err fs dir' = (r, dir'')" for r dir' dir''
    using Cons.IH[of dir'] Cons.prems that by simp
  show ?case using del by (auto simp: Let_def rest split: option.split prod.split)
qed simp

lemma archive_prune_dir:
  assumes "map_of (fst (snd (snd (archive_prune io fl a base (dir, d))))) name \<noteq> map_of dir name"
  shows "pf_execute fl \<and> \<not> pf_dryRun fl \<and> (pf_json fl \<or> confirmed (pf_yes fl) a) \<and>
         (\<exists>files. ListExpiredEventFiles (pn_now io) (pn_listing io) (pf_days fl) = Inr files \<and> name \<in> set files)"
proof (rule ccontr)
  assume no: "\<not> ?thesis"
  have keep: "map_of dir' name = map_of dir name"
    if "PruneEventFiles err files dir = (r, dir')" "name \<notin> set files" for err files r dir'
    using PruneEventFiles_removes[OF that(2), of err dir] that(1) by simp
  have asked: "confirmed yes a" if "confirm yes q a = (out, None)" for yes q out
    using confirm_iff[of yes q a] that by simp
  show False
    using assms no
    by (auto simp: archive_prune_def Let_def dest: asked keep split: if_splits sum.splits prod.splits option.splits)
qed

lemma RemoveAll_outside: "\<not> below t p \<Longrightarrow> dk_files (snd (RemoveAll fault t d)) p = dk_files d p"
  by (simp add: RemoveAll_def split: option.split prod.split)

lemma remove_targets_outside:
  "\<forall>t \<in> set ts. \<not> below t p \<Longrightarrow> dk_files (snd (snd (remove_targets io ts (removed, out, d)))) p = dk_files d p"
proof (induction ts arbitrary: removed out d)
  case (Cons t ts)
  obtain r d' where r: "RemoveAll (cn_remove io t) t d = (r, d')" by (rule prod.exhaust)
  have d': "dk_files d' p = dk_files d p" using RemoveAll_outside[of t p "cn_remove io t" d] Cons.prems r by simp
  show ?case using Cons r d' by (cases r) simp_all
qed simp

text \<open>Files of one directory are not below each other.\<close>

lemma below_sibling:
  assumes "file_name f" "file_name g" "f \<noteq> g"
  shows "\<not> below (path_Join [d, f]) (path_Join [d, g])"
proof -
  obtain r cs where f: "canon r cs" "Clean d = render r cs" "path_Join [d, f] = render r (cs @ [f])" using path_Join_file[OF assms(1)] by blast
  obtain r' cs' where g: "canon r' cs'" "Clean d = render r' cs'" "path_Join [d, g] = render r' (cs' @ [g])"
    using path_Join_file[OF assms(2)] by blast
  have same: "r' = r" "cs' = cs" using render_inject[OF f(1) g(1)] f(2) g(2) by simp_all
  have slash: "g \<noteq> f @ CHR ''/'' # u" for u using assms(2) by (auto simp: file_name_def plain_comp_def)
  show ?thesis unfolding below_def HasPrefix_iff f(3) g(3) same using assms(3) slash by (auto simp: render_snoc)
qed

definition clean_targets :: "clean_io \<Rightarrow> path \<Rightarrow> path list" where
  "clean_targets io base =
     collectCleanTargets io (path_Join [base, StateDir]) @
     filter (cn_stat io) [path_Join [cn_tempDir io, SkillsRefVenvName]]"

definition clean_asked :: "bool \<Rightarrow> string \<Rightarrow> bool" where
  "clean_asked yes typed \<longleftrightarrow> yes \<or> typed = ''y'' \<or> typed = ''Y''"

lemma clean_disk:
  "snd (snd (clean io yes typed (Inr base) d)) =
     (if cn_isDir io (path_Join [base, StateDir]) \<and> clean_asked yes typed
      then snd (snd (remove_targets io (clean_targets io base) (0, [], d))) else d)"
proof -
  have t: "clean_targets io base = collectCleanTargets io (path_Join [base, StateDir]) @
      (if cn_stat io (path_Join [cn_tempDir io, SkillsRefVenvName]) then [path_Join [cn_tempDir io, SkillsRefVenvName]] else [])"
    by (simp add: clean_targets_def)
  show ?thesis
    unfolding clean_def Let_def sum.case t[symmetric] clean_asked_def
    by (cases "clean_targets io base = []") (auto split: prod.split)
qed

lemma remove_targets_exact:
  assumes "\<And>t. cn_remove io t = None"
  shows "dk_files (snd (snd (remove_targets io ts (removed, out, d)))) p = (if \<exists>t \<in> set ts. below t p then None else dk_files d p)"
  using assms by (induction ts arbitrary: removed out d) (simp_all add: RemoveAll_def)

lemma clean_candidates_file [simp]: "f \<in> set clean_candidates \<Longrightarrow> file_name f"
  by (auto simp: clean_candidates_def file_name_def plain_comp_def)

lemma clean_targets_outside:
  assumes "file_name f" and "f \<notin> set clean_candidates" and "\<not> below (path_Join [cn_tempDir io, SkillsRefVenvName]) (path_Join [path_Join [base, StateDir], f])"
    and "t \<in> set (clean_targets io base)"
  shows "\<not> below t (path_Join [path_Join [base, StateDir], f])"
  using assms below_sibling[OF clean_candidates_file assms(1)]
  by (auto simp: clean_targets_def collectCleanTargets_def split: if_splits)

text \<open>Deleting is done on request only, and deletes what was shown. The table of staged deliveries after \<open>dead-letters purge\<close> is
  the one before without its dead letters if the command ran with \<open>--execute\<close> and the user agreed (by \<open>--yes\<close> or by answering y or Y)
  and the store worked, and the same table otherwise, whatever the flags, the answer and the errors. And an event file whose
  contents \<open>archive-prune\<close> has changed was among the expired files listed before, in a run with \<open>--execute\<close> and without \<open>--dry-run\<close>, in which
  the user agreed or asked for JSON (which skips the question).\<close>

theorem deletes_on_request:
  "snd (snd (purge pio jsonOut execute yes a t)) =
     (if execute \<and> confirmed yes a \<and> pg_stat pio \<and> pg_open pio = None \<and> pg_count pio = None \<and> pg_exec pio = None
      then filter (\<lambda>r. \<not> is_dead_letter r) t else t) \<and>
   (map_of (fst (snd (snd (archive_prune io fl b base (dir, d))))) name \<noteq> map_of dir name \<longrightarrow>
      pf_execute fl \<and> \<not> pf_dryRun fl \<and> (pf_json fl \<or> confirmed (pf_yes fl) b) \<and>
      (\<exists>files. ListExpiredEventFiles (pn_now io) (pn_listing io) (pf_days fl) = Inr files \<and> name \<in> set files))"
  using purge_table archive_prune_dir by blast

definition sample_prune :: prune_io where
  "sample_prune = \<lparr>pn_now = 10, pn_listing = Inr [\<lparr>ee_Name = ''a.jsonl'', ee_IsDir = False, ee_ModTime = Some 5\<rparr>],
     pn_remove = (\<lambda>_. None),
     pn_index = \<lparr>xi_mkdir = None, xi_lockOpen = None, xi_flock = None, xi_open = None, xi_write = None, xi_rename = None,
       xi_stat = (\<lambda>_. False), xi_walk = (\<lambda>_. []), xi_file = (\<lambda>_. \<lparr>fi_open = None, fi_read = None, fi_mtime = None, fi_now = 0\<rparr>)\<rparr>\<rparr>"

definition sample_flags :: prune_flags where
  "sample_flags = \<lparr>pf_execute = True, pf_dryRun = False, pf_yes = True, pf_json = False, pf_rebuild = False, pf_days = 0\<rparr>"

definition dead_row :: staged_row where
  "dead_row = \<lparr>sr_dmail_path = ''/r/.siren/outbox/a.md'', sr_target = ''/r/.gate/inbox/a.md'', sr_data = ''x'', sr_flushed = False, sr_retry_count = 10\<rparr>"

definition sample_purge :: purge_io where
  "sample_purge = \<lparr>pg_stat = True, pg_open = None, pg_count = None, pg_exec = None, pg_rows = None\<rparr>"

theorem deletes_on_request_witness:
  "snd (snd (purge sample_purge False True False (AnswerLine '' y '') [dead_row, dead_row\<lparr>sr_flushed := True\<rparr>])) = [dead_row\<lparr>sr_flushed := True\<rparr>] \<and>
   map_of (fst (snd (snd (archive_prune sample_prune sample_flags AnswerEOF (Inr ''/r'') ([(''a.jsonl'', [])], empty_disk))))) ''a.jsonl'' = None \<and>
   (\<exists>files. ListExpiredEventFiles 10 (pn_listing sample_prune) 0 = Inr files \<and> ''a.jsonl'' \<in> set files)"
proof -
  let ?dir = "[(''a.jsonl'', [])] :: event_dir"
  have l: "ListExpiredEventFiles 10 (pn_listing sample_prune) 0 = Inr [''a.jsonl'']" by code_simp
  have gone: "map_of (fst (snd (snd (archive_prune sample_prune sample_flags AnswerEOF (Inr ''/r'') (?dir, empty_disk))))) ''a.jsonl'' = None"
    using l by (simp add: archive_prune_def sample_flags_def sample_prune_def confirm_def Let_def)
  then have "map_of (fst (snd (snd (archive_prune sample_prune sample_flags AnswerEOF (Inr ''/r'') (?dir, empty_disk))))) ''a.jsonl'' \<noteq> map_of ?dir ''a.jsonl''"
    by simp
  moreover have "confirmed False (AnswerLine '' y '')" by code_simp
  moreover have "is_dead_letter dead_row" "\<not> is_dead_letter (dead_row\<lparr>sr_flushed := True\<rparr>)" by code_simp+
  ultimately show ?thesis
    using gone deletes_on_request[where pio = sample_purge and jsonOut = False and execute = True and yes = False and a = "AnswerLine '' y ''" and
        t = "[dead_row, dead_row\<lparr>sr_flushed := True\<rparr>]" and io = sample_prune and fl = sample_flags and b = AnswerEOF and base = "Inr ''/r''" and
        dir = ?dir and d = empty_disk and name = "''a.jsonl''"]
    by (simp add: sample_purge_def l)
qed

text \<open>C29: \<open>phonewave clean\<close> keeps the configuration: no file of the state directory other than the five runtime entries changes, in particular
  not \<open>config.yaml\<close> and \<open>.gitignore\<close>, as long as the temporary directory of the tool chain does not contain it. And when every removal
  works and the user agreed, what is gone is exactly what lies at or below the entries and the tool chain found.\<close>

theorem clean_keeps_config:
  assumes "file_name f" and "f \<notin> set clean_candidates"
    and "\<not> below (path_Join [cn_tempDir io, SkillsRefVenvName]) (path_Join [path_Join [base, StateDir], f])"
  shows "dk_files (snd (snd (clean io yes typed (Inr base) d))) (path_Join [path_Join [base, StateDir], f]) =
           dk_files d (path_Join [path_Join [base, StateDir], f]) \<and>
         ((\<forall>t. cn_remove io t = None) \<and> cn_isDir io (path_Join [base, StateDir]) \<longrightarrow>
           dk_files (snd (snd (clean io yes typed (Inr base) d))) =
             (\<lambda>p. if clean_asked yes typed \<and> (\<exists>t \<in> set (clean_targets io base). below t p) then None else dk_files d p))"
proof
  show "dk_files (snd (snd (clean io yes typed (Inr base) d))) (path_Join [path_Join [base, StateDir], f]) =
      dk_files d (path_Join [path_Join [base, StateDir], f])"
    using clean_targets_outside[OF assms] by (simp add: clean_disk remove_targets_outside)
qed (auto simp: clean_disk remove_targets_exact)

definition sample_clean :: clean_io where
  "sample_clean = \<lparr>cn_isDir = (\<lambda>_. True), cn_stat = (\<lambda>_. True), cn_read = None, cn_signal = (\<lambda>_. False), cn_tempDir = ''/tmp'',
     cn_remove = (\<lambda>_. None)\<rparr>"

theorem clean_keeps_config_witness:
  "let d = empty_disk\<lparr>dk_files := [''/r/.phonewave/config.yaml'' \<mapsto> ''c'', ''/r/.phonewave/.run/delivery.db'' \<mapsto> ''x'']\<rparr>;
       d' = snd (snd (clean sample_clean False ''y'' (Inr ''/r'') d))
   in dk_files d' ''/r/.phonewave/config.yaml'' = Some ''c'' \<and> dk_files d' ''/r/.phonewave/.run/delivery.db'' = None"
proof -
  let ?d = "empty_disk\<lparr>dk_files := [''/r/.phonewave/config.yaml'' \<mapsto> ''c'', ''/r/.phonewave/.run/delivery.db'' \<mapsto> ''x'']\<rparr>"
  have hyps: "file_name ''config.yaml''" "''config.yaml'' \<notin> set clean_candidates"
    "\<not> below (path_Join [cn_tempDir sample_clean, SkillsRefVenvName]) (path_Join [path_Join [''/r'', StateDir], ''config.yaml''])"
    by code_simp+
  have path: "path_Join [path_Join [''/r'', StateDir], ''config.yaml''] = ''/r/.phonewave/config.yaml''" by code_simp
  have gone: "\<exists>t \<in> set (clean_targets sample_clean ''/r''). below t ''/r/.phonewave/.run/delivery.db''" by code_simp
  have io: "(\<forall>t. cn_remove sample_clean t = None) \<and> cn_isDir sample_clean (path_Join [''/r'', StateDir])" by (simp add: sample_clean_def)
  note result = clean_keeps_config[OF hyps, of False "''y''" ?d]
  have "dk_files (snd (snd (clean sample_clean False ''y'' (Inr ''/r'') ?d))) ''/r/.phonewave/config.yaml'' = Some ''c''"
    using conjunct1[OF result] unfolding path by simp
  moreover have "dk_files (snd (snd (clean sample_clean False ''y'' (Inr ''/r'') ?d))) ''/r/.phonewave/.run/delivery.db'' = None"
    using mp[OF conjunct2[OF result] io] gone by (simp add: clean_asked_def)
  ultimately show ?thesis by (simp only: Let_def)
qed

end
