(* ===== verification/Approval.thy ===== *)
theory Approval
  imports GoStrings
begin

text \<open>
  Talking to the outside: quoting for the shell (\<open>src/internal/session/shell_quote.go\<close>), the desktop and command notifiers
  (\<open>notify.go\<close>) and the approvers (\<open>approve.go\<close>, \<open>src/internal/usecase/port/approver.go\<close>).

  A notifier or approver that starts a program is the command line it builds and what becomes of the outcome of the program, which is an
  argument. How a POSIX shell reads the quoting is written out below as the reference the quoting is measured against.
\<close>

section \<open>Quoting\<close>

text \<open>\<open>strings.ReplaceAll\<close> for a pattern that is not empty.\<close>

function ReplaceAll :: "string \<Rightarrow> string \<Rightarrow> string \<Rightarrow> string" where
  "ReplaceAll [] old new = []"
| "ReplaceAll (c # s) old new =
     (if old \<noteq> [] \<and> HasPrefix (c # s) old then new @ ReplaceAll (drop (length old) (c # s)) old new
      else c # ReplaceAll s old new)"
  by pat_completeness auto
termination
  by (relation "measure (\<lambda>(s, old, new). length s)") auto

definition squote :: char where "squote = CHR 0x27"

definition ShellQuoteUnix :: "string \<Rightarrow> string" where
  "ShellQuoteUnix s = [squote] @ ReplaceAll s [squote] [squote, bslash, squote, squote] @ [squote]"

definition ShellQuoteCmd :: "string \<Rightarrow> string" where
  "ShellQuoteCmd s =
     (let s = ReplaceAll s [CHR 0x22] [CHR 0x22, CHR 0x22];
          s = ReplaceAll s ''%'' ''%%''
      in [CHR 0x22] @ s @ [CHR 0x22])"

definition ShellQuote :: "string \<Rightarrow> string \<Rightarrow> string" where
  "ShellQuote goos s = (if goos = ''windows'' then ShellQuoteCmd s else ShellQuoteUnix s)"

definition psEscapeSingleQuote :: "string \<Rightarrow> string" where
  "psEscapeSingleQuote s = ReplaceAll s [squote] [squote, squote]"

section \<open>Notifications\<close>

text \<open>A command line: the program and its arguments.\<close>

type_synonym command_line = "string \<times> string list"

definition ErrUnsupportedOS :: go_error where
  "ErrUnsupportedOS = errorf ''notify: unsupported OS for local notifications''"

definition powershell_script :: "string \<Rightarrow> string \<Rightarrow> string" where
  "powershell_script title message =
     ''Add-Type -AssemblyName System.Windows.Forms; $n = New-Object System.Windows.Forms.NotifyIcon; '' @
     ''$n.Icon = [System.Drawing.SystemIcons]::Information; $n.BalloonTipTitle = '' @ [squote] @ psEscapeSingleQuote title @ [squote] @
     ''; $n.BalloonTipText = '' @ [squote] @ psEscapeSingleQuote message @ [squote] @
     ''; $n.Visible = $true; $n.ShowBalloonTip(5000)''"

definition LocalNotifier_Notify :: "string \<Rightarrow> string \<Rightarrow> string \<Rightarrow> command_line result" where
  "LocalNotifier_Notify os title message =
     (if os = ''darwin''
      then Inr (''osascript'', [''-e'', ''display notification '' @ Quote message @ '' with title '' @ Quote title @ '' sound name '' @ [CHR 0x22] @ ''Funk'' @ [CHR 0x22]])
      else if os = ''linux'' then Inr (''notify-send'', [title, message])
      else if os = ''windows'' then Inr (''powershell'', [''-NoProfile'', ''-Command'', powershell_script title message])
      else Inl ErrUnsupportedOS)"

definition shellName :: "string \<Rightarrow> string" where
  "shellName goos = (if goos = ''windows'' then ''cmd'' else ''sh'')"

definition shellFlag :: "string \<Rightarrow> string" where
  "shellFlag goos = (if goos = ''windows'' then ''/c'' else ''-c'')"

definition CmdNotifier_Notify :: "string \<Rightarrow> string \<Rightarrow> string \<Rightarrow> string \<Rightarrow> command_line result" where
  "CmdNotifier_Notify goos cmdTemplate title message =
     (if cmdTemplate = [] then Inl (errorf ''notify: empty command template'')
      else let expanded = ReplaceAll cmdTemplate ''{title}'' (ShellQuote goos title);
               expanded = ReplaceAll expanded ''{message}'' (ShellQuote goos message)
           in Inr (shellName goos, [shellFlag goos, expanded]))"

section \<open>Approval\<close>

text \<open>What one \<open>Read\<close> of one byte gives: a byte or none, and an error or none. The reads end when the reader blocks for good.\<close>

type_synonym reads = "(char option \<times> go_error option) list"

fun readLine :: "string \<Rightarrow> reads \<Rightarrow> (string \<times> go_error option) option" where
  "readLine buf [] = None"
| "readLine buf ((b, err) # rs) =
     (if b = Some (CHR 0x0A) then Some (buf, None)
      else let buf = (case b of None \<Rightarrow> buf | Some c \<Rightarrow> buf @ [c])
           in case err of Some e \<Rightarrow> Some (buf, Some e) | None \<Rightarrow> readLine buf rs)"

datatype approver = AutoApprover | CmdApprover string | StdinApprover

definition BuildApprover :: "bool \<Rightarrow> string \<Rightarrow> approver" where
  "BuildApprover autoApprove approveCmd =
     (if autoApprove then AutoApprover else if approveCmd \<noteq> [] then CmdApprover approveCmd else StdinApprover)"

text \<open>What a program that was started comes to: exit code 0, another exit code, or an error of starting or waiting.\<close>

datatype run_outcome = ExitZero | ExitOther | RunError go_error

text \<open>\<open>ap_before\<close> is the error of the context at the start, \<open>ap_during\<close> the one that ends the wait for the answer, if the context is done before
  it. \<open>ap_reader\<close> is \<open>None\<close> when there is no reader.\<close>

record approve_io =
  ap_os :: string
  ap_before :: "go_error option"
  ap_during :: "go_error option"
  ap_reader :: "reads option"
  ap_run :: "command_line \<Rightarrow> run_outcome"

text \<open>\<open>None\<close> as a whole: the call is still waiting for an answer.\<close>

definition Stdin_RequestApproval :: "approve_io \<Rightarrow> string \<Rightarrow> (bool \<times> go_error option) option" where
  "Stdin_RequestApproval io message =
     (case ap_reader io of
        None \<Rightarrow> Some (False, None)
      | Some rs \<Rightarrow>
          (case ap_before io of
             Some e \<Rightarrow> Some (False, Some e)
           | None \<Rightarrow>
               (case ap_during io of
                  Some e \<Rightarrow> Some (False, Some e)
                | None \<Rightarrow>
                    (case readLine [] rs of
                       None \<Rightarrow> None
                     | Some (line, err) \<Rightarrow>
                         let answer = TrimSpace (ToLower line)
                         in if answer = [] \<and> err \<noteq> None then Some (False, None)
                            else Some (answer = ''y'' \<or> answer = ''yes'', None)))))"

definition Cmd_RequestApproval :: "approve_io \<Rightarrow> string \<Rightarrow> string \<Rightarrow> bool \<times> go_error option" where
  "Cmd_RequestApproval io cmdTemplate message =
     (if cmdTemplate = [] then (False, Some (errorf ''approve: empty command template''))
      else let expanded = ReplaceAll cmdTemplate ''{message}'' (ShellQuote (ap_os io) message)
           in case ap_run io (shellName (ap_os io), [shellFlag (ap_os io), expanded]) of
                ExitZero \<Rightarrow> (True, None)
              | ExitOther \<Rightarrow> (False, None)
              | RunError e \<Rightarrow> (False, Some e))"

definition RequestApproval :: "approve_io \<Rightarrow> approver \<Rightarrow> string \<Rightarrow> (bool \<times> go_error option) option" where
  "RequestApproval io a message =
     (case a of
        AutoApprover \<Rightarrow> Some (True, None)
      | CmdApprover cmd \<Rightarrow> Some (Cmd_RequestApproval io cmd message)
      | StdinApprover \<Rightarrow> Stdin_RequestApproval io message)"

section \<open>How a shell reads a word\<close>

text \<open>
  Quote removal by a POSIX shell (Shell Command Language, 2.2) of a text outside double quotes: between single quotes every character stands
  for itself, a backslash outside quotes makes the next character literal and joins lines before a line end. \<open>None\<close> when a quote stays
  open or a character appears outside quotes that the shell may treat specially.
\<close>

definition sh_special :: "char \<Rightarrow> bool" where
  "sh_special c \<longleftrightarrow> c \<in> set ''|&;<>()$` *?[]{}#~=%!^-'' \<or> c \<in> {CHR 0x22, CHR 0x09, CHR 0x0A}"

fun sh_literal :: "bool \<Rightarrow> string \<Rightarrow> string option" where
  "sh_literal quoted [] = (if quoted then None else Some [])"
| "sh_literal True (c # s) = (if c = squote then sh_literal False s else map_option (Cons c) (sh_literal True s))"
| "sh_literal False (c # s) =
     (if c = squote then sh_literal True s
      else if c = bslash
      then (case s of
              [] \<Rightarrow> None
            | d # t \<Rightarrow> if d = CHR 0x0A then sh_literal False t else map_option (Cons d) (sh_literal False t))
      else if sh_special c then None
      else map_option (Cons c) (sh_literal False s))"

lemma ReplaceAll_char: "ReplaceAll s [c] new = concat (map (\<lambda>x. if x = c then new else [x]) s)"
  by (induction s) (simp_all add: HasPrefix_def)

lemma squote_bslash [simp]: "squote \<noteq> bslash" "bslash \<noteq> squote" "squote \<noteq> CHR 0x0A"
  by (simp_all add: squote_def bslash_def)

lemma sh_literal_escaped:
  "sh_literal True (ReplaceAll s [squote] [squote, bslash, squote, squote] @ [squote] @ rest) = map_option (append s) (sh_literal False rest)"
  by (induction s) (auto simp: ReplaceAll_char option.map_comp o_def option.map_ident)

text \<open>C30: Text quoted for the shell arrives unchanged: wherever in a command the quoted text stands outside other quotes, a POSIX shell
  reads exactly the original characters from it and goes on with the rest, whatever the text contains, quotes and backslashes included.\<close>

theorem shell_quote_is_literal:
  "sh_literal False (ShellQuoteUnix s @ rest) = map_option (append s) (sh_literal False rest)"
  by (simp add: ShellQuoteUnix_def sh_literal_escaped[simplified])

text \<open>The two placeholders of a notification are expanded one after the other: a title that contains the second one gets the quoted message
  inside its own quotes, which ends them, so the shell reads the message as part of the command.\<close>

theorem title_unquotes_message:
  "CmdNotifier_Notify ''linux'' ''notify {title}'' ''{message}'' ''x; reboot'' =
     Inr (''sh'', [''-c'', ''notify '' @ [squote, squote] @ ''x; reboot'' @ [squote, squote]]) \<and>
   sh_literal False ([squote, squote] @ ''x; reboot'' @ [squote, squote]) = None"
  by code_simp

text \<open>Nothing is approved without consent: an approval comes from the automatic approver, from a command that exits with code 0, or from a line
  that reads y or yes. An empty answer, the end of the input, a cancelled context and a failing command are all refusals.\<close>

theorem approval_is_explicit:
  "RequestApproval io (BuildApprover auto cmd) message = Some (True, err) \<longleftrightarrow>
     err = None \<and>
     (if auto then True
      else if cmd \<noteq> []
      then ap_run io (shellName (ap_os io), [shellFlag (ap_os io), ReplaceAll cmd ''{message}'' (ShellQuote (ap_os io) message)]) = ExitZero
      else ap_before io = None \<and> ap_during io = None \<and>
           (\<exists>rs line e. ap_reader io = Some rs \<and> readLine [] rs = Some (line, e) \<and> TrimSpace (ToLower line) \<in> {''y'', ''yes''}))"
  by (auto simp: RequestApproval_def BuildApprover_def Cmd_RequestApproval_def Stdin_RequestApproval_def Let_def split: run_outcome.split option.splits)

end
