(* ===== verification/Logger.thy ===== *)
theory Logger
  imports GoTime GoStrings
begin

text \<open>
  The logger (\<open>src/internal/platform/logger.go\<close>, \<open>src/internal/domain/logger_interface.go\<close>): lines with a time, a level and optional
  colours, duplicated in plain text to a second writer. The two writers are the texts written so far. A message is given as formatted; the
  time is the text of the local clock. Writing is under a mutex, so calls are a sequence.
\<close>

section \<open>Colours\<close>

definition ansi :: "string \<Rightarrow> string" where
  "ansi code = [CHR 0x1B, CHR ''[''] @ code @ ''m''"

definition ansiReset :: string where "ansiReset = ansi ''0''"
definition ansiCyan :: string where "ansiCyan = ansi ''36''"
definition ansiBoldBlue :: string where "ansiBoldBlue = ansi ''1;34''"
definition ansiYellow :: string where "ansiYellow = ansi ''33''"
definition ansiBoldRed :: string where "ansiBoldRed = ansi ''1;31''"
definition ansiGray :: string where "ansiGray = ansi ''90''"
definition ansiInvertGreen :: string where "ansiInvertGreen = ansi ''7;32''"
definition ansiInvertCyan :: string where "ansiInvertCyan = ansi ''7;36''"
definition ansiInvertWhite :: string where "ansiInvertWhite = ansi ''7;1''"
definition ansiInvertBlue :: string where "ansiInvertBlue = ansi ''7;34''"

section \<open>The logger\<close>

record logger =
  lg_out :: string
  lg_extra :: "string option"
  lg_verbose :: bool
  lg_noColor :: bool

text \<open>\<open>terminal\<close> is \<open>isTerminal\<close> of the writer.\<close>

definition NewLogger :: "string \<Rightarrow> bool \<Rightarrow> bool \<Rightarrow> logger" where
  "NewLogger NO_COLOR terminal verbose =
     \<lparr>lg_out = [], lg_extra = None, lg_verbose = verbose, lg_noColor = (NO_COLOR \<noteq> [] \<or> \<not> terminal)\<rparr>"

definition SetNoColor :: "bool \<Rightarrow> logger \<Rightarrow> logger" where
  "SetNoColor v l = l\<lparr>lg_noColor := v\<rparr>"

definition SetExtraWriter :: "string option \<Rightarrow> logger \<Rightarrow> logger" where
  "SetExtraWriter w l = l\<lparr>lg_extra := w\<rparr>"

definition Colorize :: "logger \<Rightarrow> string \<Rightarrow> string \<Rightarrow> string" where
  "Colorize l txt color = (if lg_noColor l then txt else color @ txt @ ansiReset)"

text \<open>A text for the first writer and the plain text for the second.\<close>

definition emit_text :: "string \<Rightarrow> string \<Rightarrow> logger \<Rightarrow> logger" where
  "emit_text out plain l = l\<lparr>lg_out := lg_out l @ out, lg_extra := map_option (\<lambda>w. w @ plain) (lg_extra l)\<rparr>"

definition log_text :: "string \<Rightarrow> string \<Rightarrow> string \<Rightarrow> string" where
  "log_text ts prefix msg = ''['' @ ts @ ''] '' @ prefix @ '' '' @ msg @ [CHR 0x0A]"

definition logLine :: "string \<Rightarrow> string \<Rightarrow> string \<Rightarrow> string \<Rightarrow> logger \<Rightarrow> logger" where
  "logLine ts prefix color msg l = emit_text (log_text ts (Colorize l prefix color) msg) (log_text ts prefix msg) l"

definition Info :: "string \<Rightarrow> string \<Rightarrow> logger \<Rightarrow> logger" where
  "Info ts = logLine ts ''INFO'' ansiCyan"

definition LogOK :: "string \<Rightarrow> string \<Rightarrow> logger \<Rightarrow> logger" where
  "LogOK ts = logLine ts '' OK '' ansiBoldBlue"

definition Warn :: "string \<Rightarrow> string \<Rightarrow> logger \<Rightarrow> logger" where
  "Warn ts = logLine ts ''WARN'' ansiYellow"

definition LogError :: "string \<Rightarrow> string \<Rightarrow> logger \<Rightarrow> logger" where
  "LogError ts = logLine ts '' ERR'' ansiBoldRed"

definition Debug :: "string \<Rightarrow> string \<Rightarrow> logger \<Rightarrow> logger" where
  "Debug ts msg l = (if lg_verbose l then logLine ts ''DBUG'' ansiGray msg l else l)"

datatype banner_direction = BannerSend | BannerRecv

text \<open>\<open>q\<close> is the verb \<open>%q\<close>; the description is cut at bytes, so it may end inside a character.\<close>

definition Banner :: "(string \<Rightarrow> string) \<Rightarrow> string \<Rightarrow> banner_direction \<Rightarrow> string \<Rightarrow> string \<Rightarrow> string \<Rightarrow> logger \<Rightarrow> logger" where
  "Banner q ts dir kind name description l =
     (let desc = (if length description > 50 then take 47 description @ ''...'' else description);
          (arrow, lab, color, plainArrow) =
            (case dir of
               BannerSend \<Rightarrow> ([CHR 0xE2, CHR 0x96, CHR 0xB6], ''D-MAIL SEND'', ansiInvertGreen, ''>>>'')
             | BannerRecv \<Rightarrow> ([CHR 0xE2, CHR 0x97, CHR 0x80], ''D-MAIL RECV'', ansiInvertCyan, ''<<<''));
          content = (\<lambda>a. a @ '' '' @ lab @ '' '' @ kind @ '' ('' @ name @ '') '' @ q desc);
          plain = ''['' @ ts @ ''] '' @ content plainArrow @ [CHR 0x0A]
      in emit_text (if lg_noColor l then plain else color @ ''['' @ ts @ ''] '' @ content arrow @ ansiReset @ [CHR 0x0A]) plain l)"

definition Header :: "string \<Rightarrow> string \<Rightarrow> logger \<Rightarrow> logger" where
  "Header toolName version l =
     (let content = '' '' @ toolName @ '' '' @ version @ '' '';
          plain = ''=== '' @ content @ '' ==='' @ [CHR 0x0A]
      in emit_text (if lg_noColor l then plain else ansiInvertWhite @ content @ ansiReset @ [CHR 0x0A]) plain l)"

definition Section :: "string \<Rightarrow> logger \<Rightarrow> logger" where
  "Section title l =
     (let content = '' '' @ title @ '' '';
          plain = ''--- '' @ content @ '' ---'' @ [CHR 0x0A]
      in emit_text (if lg_noColor l then plain else ansiInvertBlue @ content @ ansiReset @ [CHR 0x0A]) plain l)"

section \<open>Calls\<close>

datatype log_call =
    CallInfo string | CallOK string | CallWarn string | CallError string | CallDebug string
  | CallBanner banner_direction string string string | CallHeader string string | CallSection string

fun logged :: "(string \<Rightarrow> string) \<Rightarrow> string \<times> log_call \<Rightarrow> logger \<Rightarrow> logger" where
  "logged q (ts, CallInfo m) = Info ts m"
| "logged q (ts, CallOK m) = LogOK ts m"
| "logged q (ts, CallWarn m) = Warn ts m"
| "logged q (ts, CallError m) = LogError ts m"
| "logged q (ts, CallDebug m) = Debug ts m"
| "logged q (ts, CallBanner d k n desc) = Banner q ts d k n desc"
| "logged q (ts, CallHeader t v) = Header t v"
| "logged q (ts, CallSection t) = Section t"

text \<open>The plain text of a call, if it is printed at the logger's level.\<close>

definition plain_text :: "(string \<Rightarrow> string) \<Rightarrow> bool \<Rightarrow> string \<times> log_call \<Rightarrow> string" where
  "plain_text q verbose c = lg_out (logged q c \<lparr>lg_out = [], lg_extra = None, lg_verbose = verbose, lg_noColor = True\<rparr>)"

lemmas log_defs = Info_def LogOK_def Warn_def LogError_def Debug_def logLine_def Banner_def Header_def Section_def Let_def emit_text_def Colorize_def

lemma logged_writes:
  "\<exists>shown. logged q c l = emit_text shown (plain_text q (lg_verbose l) c) l \<and> (lg_noColor l \<longrightarrow> shown = plain_text q (lg_verbose l) c)"
proof (cases c)
  case (Pair ts k)
  show ?thesis
  proof (cases k)
    case (CallDebug m)
    show ?thesis
    proof (cases "lg_verbose l")
      case False
      then show ?thesis using Pair CallDebug by (intro exI[of _ "[]"]) (simp add: plain_text_def log_defs option.map_ident)
    qed (use Pair CallDebug in \<open>auto simp: plain_text_def log_defs\<close>)
  qed (use Pair in \<open>auto simp: plain_text_def log_defs split: banner_direction.split\<close>)
qed

lemma log_calls_writes:
  "let l' = fold (logged q) cs l; plain = concat (map (plain_text q (lg_verbose l)) cs) in
     lg_extra l' = map_option (\<lambda>w. w @ plain) (lg_extra l) \<and> lg_verbose l' = lg_verbose l \<and> lg_noColor l' = lg_noColor l \<and>
     (lg_noColor l \<longrightarrow> lg_out l' = lg_out l @ plain)"
proof (induction cs arbitrary: l)
  case (Cons c cs)
  obtain shown where c: "logged q c l = emit_text shown (plain_text q (lg_verbose l) c) l"
    and s: "lg_noColor l \<Longrightarrow> shown = plain_text q (lg_verbose l) c" using logged_writes[of q c l] by blast
  show ?case
    using Cons.IH[of "logged q c l"] s by (simp add: c Let_def emit_text_def option.map_comp o_def)
qed (simp add: Let_def option.map_ident)

text \<open>The second writer is a plain copy: whatever is logged, it receives exactly the text that a logger without colours at the same level
  shows, so no colour code ever reaches the log file, and with colours off both writers receive the same.\<close>

theorem extra_log_is_plain:
  assumes "lg_extra l = Some w"
  shows "\<exists>plain. lg_extra (fold (logged q) cs l) = Some (w @ plain) \<and>
    lg_out (fold (logged q) cs (SetNoColor True l)) = lg_out l @ plain"
  using log_calls_writes[of q cs l] log_calls_writes[of q cs "SetNoColor True l"] assms by (auto simp: Let_def SetNoColor_def)

end
