(* ===== verification/Commands.thy ===== *)
theory Commands
  imports Doctor Logger
begin

text \<open>
  The commands that maintain the configuration: \<open>phonewave init\<close>, \<open>add\<close>, \<open>remove\<close> and \<open>sync\<close> (\<open>src/internal/cmd/init.go\<close>, \<open>add.go\<close>,
  \<open>remove.go\<close>, \<open>sync.go\<close>), with the helpers of \<open>helpers.go\<close> and the file of \<open>src/internal/platform/otel_env.go\<close>. Each loads the
  configuration, runs the operation of theory \<open>Setup\<close>, writes the configuration back and logs. What is logged is the list of calls of the
  logger, with their messages.
\<close>

section \<open>Helpers\<close>

definition projectRoot :: "path \<Rightarrow> path" where
  "projectRoot configPath = Dir (Dir configPath)"

text \<open>\<open>absOf\<close> is \<open>filepath.Abs\<close>; \<open>stat\<close> tells the error of \<open>os.Stat\<close> or whether the path is a directory.\<close>

definition resolveBaseDir :: "(path \<Rightarrow> path result) \<Rightarrow> (path \<Rightarrow> bool result) \<Rightarrow> path \<Rightarrow> path list \<Rightarrow> path result" where
  "resolveBaseDir absOf stat configPath args =
     (case args of
        arg # _ \<Rightarrow>
          (case absOf arg of
             Inl e \<Rightarrow> Inl (wrapf ''resolve path: '' e)
           | Inr p \<Rightarrow>
               (case stat p of
                  Inl e \<Rightarrow> Inl (wrapf ''path not found: '' e)
                | Inr isDir \<Rightarrow> if \<not> isDir then Inl (errorf (''not a directory: '' @ p)) else Inr p))
      | [] \<Rightarrow> absOf (projectRoot configPath))"

definition printOrphanWarnings :: "orphan_report \<Rightarrow> log_call list" where
  "printOrphanWarnings orphans =
     map (\<lambda>kind. CallWarn (''Orphaned: kind='' @ Quote kind @ '' is produced but not consumed'')) (or_UnconsumedKinds orphans) @
     map (\<lambda>kind. CallWarn (''Orphaned: kind='' @ Quote kind @ '' is consumed but not produced'')) (or_UnproducedKinds orphans)"

definition OtelEnvContent :: "string \<Rightarrow> string \<Rightarrow> string \<Rightarrow> string result" where
  "OtelEnvContent backend entity project =
     (if backend = ''jaeger'' then Inr (''OTEL_EXPORTER_OTLP_ENDPOINT=http://localhost:4318'' @ [CHR 0x0A])
      else if backend = ''weave''
      then if entity = [] \<or> project = [] then Inl (errorf ''weave requires --otel-entity and --otel-project'')
           else Inr (''OTEL_EXPORTER_OTLP_ENDPOINT=https://trace.wandb.ai/otel'' @ [CHR 0x0A] @
                     ''OTEL_EXPORTER_OTLP_HEADERS=wandb-api-key=${WANDB_API_KEY}'' @ [CHR 0x0A] @
                     ''OTEL_RESOURCE_ATTRIBUTES=wandb.entity='' @ entity @ '',wandb.project='' @ project @ [CHR 0x0A])
      else if backend = [] then Inr []
      else Inl (errorf (''unknown otel backend: '' @ Quote backend @ '' (supported: jaeger, weave)'')))"

section \<open>The commands\<close>

text \<open>\<open>co_stat\<close>: \<open>os.Stat\<close> of a path succeeds.\<close>

record command_io =
  co_setup :: setup_io
  co_yaml :: config_yaml
  co_read :: "go_error option"
  co_resolved :: "go_error option"
  co_config :: config_io
  co_state :: state_io
  co_stat :: "path \<Rightarrow> bool"
  co_otelMkdir :: "go_error option"
  co_otelWrite :: write_fault

definition load_config :: "command_io \<Rightarrow> path \<Rightarrow> disk \<Rightarrow> config result" where
  "load_config io cfgPath = LoadConfig (co_yaml io) (co_read io) (co_resolved io) cfgPath"

definition run_init_first :: log_call where
  "run_init_first = CallInfo (''Run '' @ [CHR 0x27] @ ''phonewave init'' @ [CHR 0x27] @ '' first'')"

definition endpoint_change :: "endpoint_diff \<Rightarrow> log_call list" where
  "endpoint_change d =
     (let what = ed_Repo d @ ''/'' @ ed_Dir d
      in if ed_Change d = ''added'' then [CallOK (''  + endpoint '' @ what)]
         else if ed_Change d = ''removed'' then [CallWarn (''  - endpoint '' @ what)]
         else if ed_Change d = ''changed'' then [CallInfo (''  ~ endpoint '' @ what)]
         else [])"

definition route_change :: "route_diff \<Rightarrow> log_call list" where
  "route_change d =
     (if rd_Change d = ''added'' then [CallOK (''  + route '' @ rd_Kind d @ '' from '' @ rd_From d)]
      else if rd_Change d = ''removed'' then [CallWarn (''  - route '' @ rd_Kind d @ '' from '' @ rd_From d)]
      else [])"

definition synced_line :: "nat \<Rightarrow> nat \<Rightarrow> log_call" where
  "synced_line repos routes = CallOK (''Synced '' @ Itoa (int repos) @ '' repositories, '' @ Itoa (int routes) @ '' routes'')"

definition sync_lines :: "sync_report \<Rightarrow> log_call list" where
  "sync_lines report =
     [synced_line (sy_RepoCount report) (sy_TotalRoutes report)] @
     concat (map endpoint_change (sy_EndpointChanges report)) @ concat (map route_change (sy_RouteChanges report)) @
     printOrphanWarnings (sy_Orphans report) @ map CallWarn (sy_Warnings report)"

text \<open>What the three commands share: load, change, write back. \<open>wrap\<close> is what the command makes of an error of the change.\<close>

definition edit_config ::
  "command_io \<Rightarrow> (config \<Rightarrow> 'r result \<times> config) \<Rightarrow> (go_error \<Rightarrow> go_error) \<Rightarrow> path \<Rightarrow> disk \<Rightarrow> ('r \<times> config) result \<times> log_call list \<times> disk" where
  "edit_config io change wrap cfgPath d =
     (case load_config io cfgPath d of
        Inl e \<Rightarrow> (Inl (wrapf ''load config: '' e), [run_init_first], d)
      | Inr cfg \<Rightarrow>
          (case change cfg of
             (Inl e, _) \<Rightarrow> (Inl (wrap e), [], d)
           | (Inr r, cfg) \<Rightarrow>
               (case WriteConfig (co_yaml io) (co_config io) cfgPath cfg d of
                  (Inl e, d) \<Rightarrow> (Inl (wrapf ''write config: '' e), [], d)
                | (Inr _, d) \<Rightarrow> (Inr (r, cfg), [], d))))"

definition sync_command :: "command_io \<Rightarrow> path \<Rightarrow> disk \<Rightarrow> unit result \<times> log_call list \<times> disk" where
  "sync_command io cfgPath d =
     (case edit_config io (Sync (co_setup io)) (wrapf ''sync: '') cfgPath d of
        (Inl e, out, d) \<Rightarrow> (Inl e, out, d)
      | (Inr (report, _), _, d) \<Rightarrow> (Inr (), sync_lines report, d))"

definition routes_line :: "config \<Rightarrow> string \<Rightarrow> log_call" where
  "routes_line cfg what = CallOK (Itoa (int (length (cfg_Routes cfg))) @ '' routes '' @ what)"

definition add_command :: "command_io \<Rightarrow> path \<Rightarrow> path \<Rightarrow> disk \<Rightarrow> unit result \<times> log_call list \<times> disk" where
  "add_command io cfgPath repo d =
     (case edit_config io (Add (co_setup io) repo) id cfgPath d of
        (Inl e, out, d) \<Rightarrow> (Inl e, out, d)
      | (Inr (result, cfg), _, d) \<Rightarrow>
          (case tr_Abs (su_tree (co_setup io)) repo of
             Inl e \<Rightarrow> (Inl (wrapf ''resolve absolute path: '' e), [], d)
           | Inr absPath \<Rightarrow>
               (Inr (), [CallOK (''Added '' @ absPath), routes_line cfg ''total''] @ printOrphanWarnings (ar_Orphans result) @ map CallWarn (ar_Warnings result), d)))"

definition remove_command :: "command_io \<Rightarrow> path \<Rightarrow> path \<Rightarrow> disk \<Rightarrow> unit result \<times> log_call list \<times> disk" where
  "remove_command io cfgPath repo d =
     (case edit_config io (Remove (co_setup io) repo) id cfgPath d of
        (Inl e, out, d) \<Rightarrow> (Inl e, out, d)
      | (Inr (orphans, cfg), _, d) \<Rightarrow>
          (case tr_Abs (su_tree (co_setup io)) repo of
             Inl e \<Rightarrow> (Inl (wrapf ''resolve absolute path: '' e), [], d)
           | Inr absPath \<Rightarrow> (Inr (), [CallOK (''Removed '' @ absPath), routes_line cfg ''remaining''] @ printOrphanWarnings orphans, d)))"

fun repo_paths :: "string list \<Rightarrow> path list result" where
  "repo_paths [] = Inr []"
| "repo_paths (arg # args) =
     (case NewRepoPath arg of
        Inl e \<Rightarrow> Inl e
      | Inr rp \<Rightarrow> (case repo_paths args of Inl e \<Rightarrow> Inl e | Inr rps \<Rightarrow> Inr (rp # rps)))"

record otel_flags =
  of_backend :: string
  of_entity :: string
  of_project :: string

definition right_arrow :: string where "right_arrow = [CHR 0xE2, CHR 0x86, CHR 0x92]"

definition init_lines :: "path \<Rightarrow> init_result \<Rightarrow> log_call list" where
  "init_lines cfgPath result =
     (let cfg = ir_Config result
      in [CallOK (''Scanned '' @ Itoa (int (ir_RepoCount result)) @ '' repositories'')] @
         concat (map (\<lambda>repo. map (\<lambda>ep. CallOK (''  '' @ Base (rp_Path repo) @ ''/'' @ ep_Dir ep @ ''  produces='' @ show_strings (ep_Produces ep) @
           '' consumes='' @ show_strings (ep_Consumes ep))) (rp_Endpoints repo)) (cfg_Repositories cfg)) @
         [CallOK (''Derived '' @ Itoa (int (length (cfg_Routes cfg))) @ '' routes'')] @
         map (\<lambda>r. CallInfo (''  '' @ rc_Kind r @ '': '' @ rc_From r @ '' '' @ right_arrow @ '' '' @ show_strings (rc_To r))) (cfg_Routes cfg) @
         printOrphanWarnings (ir_Orphans result) @ [CallOK (''Config written to '' @ cfgPath)])"

definition write_otel :: "command_io \<Rightarrow> otel_flags \<Rightarrow> path \<Rightarrow> disk \<Rightarrow> unit result \<times> log_call list \<times> disk" where
  "write_otel io fl cfgPath d =
     (if of_backend fl = [] then (Inr (), [], d)
      else case OtelEnvContent (of_backend fl) (of_entity fl) (of_project fl) of
             Inl e \<Rightarrow> (Inl e, [], d)
           | Inr content \<Rightarrow>
               (case co_otelMkdir io of
                  Some e \<Rightarrow> (Inl (wrapf ''create state dir: '' e), [], d)
                | None \<Rightarrow>
                    let otelPath = path_Join [Dir cfgPath, ''.otel.env'']
                    in case os_WriteFile (co_otelWrite io) otelPath content d of
                         (Inl e, d) \<Rightarrow> (Inl (wrapf ''write .otel.env: '' e), [], d)
                       | (Inr _, d) \<Rightarrow> (Inr (), [CallOK (''OTel backend configured: '' @ of_backend fl @ '' '' @ right_arrow @ '' '' @ otelPath)], d)))"

definition init_command :: "command_io \<Rightarrow> bool \<Rightarrow> otel_flags \<Rightarrow> path \<Rightarrow> string list \<Rightarrow> disk \<Rightarrow> unit result \<times> log_call list \<times> disk" where
  "init_command io force fl cfgPath args d =
     (if \<not> force \<and> co_stat io cfgPath
      then (Inl (errorf (''already initialized: '' @ cfgPath @ '' exists (use --force to overwrite)'')), [], d)
      else case repo_paths args of Inl e \<Rightarrow> (Inl e, [], d) | Inr rps \<Rightarrow>
           case NewNonEmptyRepoPaths rps of Inl e \<Rightarrow> (Inl e, [], d) | Inr _ \<Rightarrow>
           case NewConfigPath cfgPath of Inl e \<Rightarrow> (Inl e, [], d) | Inr _ \<Rightarrow>
           case ScanAndInit (co_setup io) (co_yaml io) (co_state io) (co_config io) rps cfgPath d of
             (Inl e, d) \<Rightarrow> (Inl e, [], d)
           | (Inr result, d) \<Rightarrow>
               (case write_otel io fl cfgPath d of (r, out, d) \<Rightarrow> (r, init_lines cfgPath result @ out, d)))"

section \<open>What a scan puts into the configuration\<close>

definition scanned :: "path \<times> endpoint list \<Rightarrow> repo_config" where
  "scanned = (\<lambda>(p, eps). \<lparr>rp_Path = p, rp_Endpoints = eps\<rparr>)"

lemma add_results_scanned:
  "add_results rs c = Inr c' \<Longrightarrow> \<exists>ps. rs = map Inr ps \<and> cfg_Repositories c' = cfg_Repositories c @ map scanned ps"
proof (induction rs c rule: add_results.induct)
  case (3 p eps rs c)
  then obtain ps where "rs = map Inr ps" "cfg_Repositories c' = cfg_Repositories (AddRepository c p eps) @ map scanned ps" by auto
  then show ?case by (intro exI[of _ "(p, eps) # ps"]) (simp add: AddRepository_def scanned_def)
qed simp_all

lemma Init_scanned:
  assumes "keeps_order (su_initPool io)" and "Init io paths = Inr r"
  shows "\<exists>ps. map (scan_task io) paths = map Inr ps \<and> cfg_Repositories (ir_Config r) = map scanned ps"
proof -
  obtain c where "add_results (map (scan_task io) paths) \<lparr>cfg_LastSynced = su_now io, cfg_Repositories = [], cfg_Routes = []\<rparr> = Inr c"
    and "ir_Config r = UpdateRoutes c"
    using assms(2) by (auto simp: Init_def Let_def split: prod.splits option.splits sum.splits dest: keeps_orderD[OF assms(1)])
  with add_results_scanned show ?thesis by fastforce
qed

lemma scan_task_Inr: "scan_task io path = Inr (p, eps) \<longleftrightarrow> tr_Abs (su_tree io) path = Inr p \<and> ScanRepository (su_yaml io) (su_tree io) p = Inr eps"
  by (auto simp: scan_task_def split: sum.splits)

lemma config_paths_ok:
  assumes "config_ok c" and "\<forall>repo \<in> set (cfg_Repositories c). clean_abs (rp_Path repo)"
  shows "paths_ok c"
proof -
  have "clean_abs (rc_RepoPath r)" if "r \<in> set (cfg_Routes c)" for r
  proof -
    have "r \<in> set (cfg_Routes (UpdateRoutes c))" using that assms(1) by (simp add: config_ok_def)
    then show ?thesis using assms(2) by (auto simp: set_UpdateRoutes route_config_of_def)
  qed
  with assms(2) show ?thesis by (simp add: paths_ok_def)
qed

lemma ResolveRoutes_total: "paths_ok c \<Longrightarrow> \<exists>routes. ResolveRoutes c = Inr routes"
  unfolding ResolveRoutes_def by (rule resolve_all_total) (auto simp: paths_ok_def clean_abs_def IsAbs_def)

lemma repo_paths_Inr: "repo_paths args = Inr rps \<Longrightarrow> rps = args"
  by (induction args arbitrary: rps) (auto simp: NewRepoPath_def split: sum.splits if_splits)

section \<open>From one command to the next\<close>

text \<open>Another file of the state directory does not change what is loaded.\<close>

lemma LoadConfig_other_file:
  assumes "dk_files d' p = dk_files d p" and "dk_files d' (path_Join [Dir p, ''.run'', ResolvedStateFile]) = dk_files d (path_Join [Dir p, ''.run'', ResolvedStateFile])"
  shows "LoadConfig yaml e e' p d' = LoadConfig yaml e e' p d"
  unfolding LoadConfig_def os_ReadFile_def Let_def assms ..

lemma otel_file:
  assumes "Base p \<noteq> ''.otel.env''"
  shows "path_Join [dir, ''.otel.env''] \<noteq> p" "path_Join [dir, ''.otel.env''] \<noteq> path_Join [dir', ''.run'', ResolvedStateFile]"
proof -
  have f: "file_name ''.otel.env''" by (simp add: file_name_def plain_comp_def)
  show "path_Join [dir, ''.otel.env''] \<noteq> p" using assms Base_path_Join_file[OF f] by metis
  have "path_Join [dir', ''.run'', ResolvedStateFile] = path_Join [path_Join [dir', ''.run''], ResolvedStateFile]"
    by (rule path_Join_three) (rule run_file_names)+
  moreover have "''.otel.env'' \<noteq> ResolvedStateFile" by (simp add: ResolvedStateFile_def)
  ultimately show "path_Join [dir, ''.otel.env''] \<noteq> path_Join [dir', ''.run'', ResolvedStateFile]"
    using Base_path_Join_file[OF f, of dir] Base_path_Join_file[OF run_file_names(2)] by metis
qed

lemma write_otel_disk:
  "snd (snd (write_otel io fl p d)) = d \<or> (\<exists>b. snd (snd (write_otel io fl p d)) = snd (os_WriteFile (co_otelWrite io) (path_Join [Dir p, ''.otel.env'']) b d))"
proof (cases "OtelEnvContent (of_backend fl) (of_entity fl) (of_project fl)")
  case (Inr content)
  obtain r d1 where "os_WriteFile (co_otelWrite io) (path_Join [Dir p, ''.otel.env'']) content d = (r, d1)" by (rule prod.exhaust)
  then show ?thesis
    using Inr by (cases r) (auto simp: write_otel_def Let_def split: option.split intro!: exI[of _ content])
qed (simp add: write_otel_def)

lemma write_otel_keeps_config:
  assumes "Base p \<noteq> ''.otel.env''"
  shows "LoadConfig yaml e e' p (snd (snd (write_otel io fl p d))) = LoadConfig yaml e e' p d"
proof -
  have "dk_files (snd (snd (write_otel io fl p d))) q = dk_files d q" if "q \<noteq> path_Join [Dir p, ''.otel.env'']" for q
    using write_otel_disk[of io fl p d] os_WriteFile_other[of q "path_Join [Dir p, ''.otel.env'']"] that by metis
  then show ?thesis using otel_file[OF assms] by (intro LoadConfig_other_file) metis+
qed

text \<open>C20: After \<open>phonewave init\<close> the daemon can start: the configuration that the next command loads from the two files has exactly the
  repositories named on the command line, by their absolute paths and in order, each with the endpoints the scan found there; it is well
  formed, and all its routes resolve.\<close>

theorem init_then_run:
  assumes "yaml_inverse (co_yaml io)" and "keeps_order (su_initPool (co_setup io))" and "Base p \<notin> {ResolvedStateFile, ''.otel.env''}"
    and "\<forall>q r. tr_Abs (su_tree (co_setup io)) q = Inr r \<longrightarrow> clean_abs r"
    and "init_command io force fl p args d = (Inr (), out, d')"
  shows "\<exists>c routes. LoadConfig (co_yaml io) None None p d' = Inr c \<and> config_ok c \<and> ResolveRoutes c = Inr routes \<and>
    map (tr_Abs (su_tree (co_setup io))) args = map (Inr \<circ> rp_Path) (cfg_Repositories c) \<and>
    (\<forall>repo \<in> set (cfg_Repositories c). ScanRepository (su_yaml (co_setup io)) (su_tree (co_setup io)) (rp_Path repo) = Inr (rp_Endpoints repo))"
proof -
  obtain r d1 where init: "ScanAndInit (co_setup io) (co_yaml io) (co_state io) (co_config io) args p d = (Inr r, d1)"
    and d': "d' = snd (snd (write_otel io fl p d1))"
    using assms(5) by (auto simp: init_command_def NewNonEmptyRepoPaths_def NewConfigPath_def dest!: repo_paths_Inr split: if_splits sum.splits prod.splits)
  obtain d0 where I: "Init (co_setup io) args = Inr r" and W: "WriteConfig (co_yaml io) (co_config io) p (ir_Config r) d0 = (Inr (), d1)"
    using init by (auto simp: ScanAndInit_def split: sum.splits prod.splits)
  obtain ps where ps: "map (scan_task (co_setup io)) args = map Inr ps" "cfg_Repositories (ir_Config r) = map scanned ps"
    using Init_scanned[OF assms(2) I] by blast
  have task: "tr_Abs (su_tree (co_setup io)) a = Inr (fst x) \<and> ScanRepository (su_yaml (co_setup io)) (su_tree (co_setup io)) (fst x) = Inr (snd x)"
    if "scan_task (co_setup io) a = Inr x" for a x using that scan_task_Inr[of "co_setup io" a "fst x" "snd x"] by simp
  have all: "list_all2 (\<lambda>a x. scan_task (co_setup io) a = Inr x) args ps" using ps(1) by (simp add: list_all2_conv_all_nth list_eq_iff_nth_eq)
  have origin: "\<exists>a. scan_task (co_setup io) a = Inr x" if "x \<in> set ps" for x using ps(1) that by (metis imageE image_eqI list.set_map)
  have ok: "config_ok (ir_Config r)" by (rule Init_ok[OF assms(2) I])
  have paths: "paths_ok (ir_Config r)"
    by (rule config_paths_ok[OF ok]) (use origin task assms(4) in \<open>fastforce simp: ps(2) scanned_def split: prod.splits\<close>)
  have load: "LoadConfig (co_yaml io) None None p d' = Inr (ir_Config r)"
    unfolding d' using WriteConfig_LoadConfig[OF assms(1) paths ok _ W] write_otel_keeps_config[of p] assms(3) by simp
  have "map (tr_Abs (su_tree (co_setup io))) args = map (Inr \<circ> rp_Path) (cfg_Repositories (ir_Config r))"
    using all task unfolding ps(2) by (induction rule: list_all2_induct) (auto simp: scanned_def split: prod.splits)
  moreover have "\<forall>repo \<in> set (cfg_Repositories (ir_Config r)). ScanRepository (su_yaml (co_setup io)) (su_tree (co_setup io)) (rp_Path repo) = Inr (rp_Endpoints repo)"
    using origin task by (fastforce simp: ps(2) scanned_def split: prod.splits)
  ultimately show ?thesis using load ok ResolveRoutes_total[OF paths] by blast
qed

text \<open>What a successful command that changes the configuration leaves on disk.\<close>

lemma edit_config_run:
  assumes "edit_config io change wrap p d = (Inr (r, c'), out, d')"
  shows "\<exists>c. load_config io p d = Inr c \<and> change c = (Inr r, c') \<and> WriteConfig (co_yaml io) (co_config io) p c' d = (Inr (), d')"
  using assms by (auto simp: edit_config_def split: sum.splits prod.splits)

lemma written_config_loads:
  assumes "yaml_inverse (co_yaml io)" and "Base p \<noteq> ResolvedStateFile" and "edit_config io change wrap p d = (Inr (r, c'), out, d')"
    and "config_ok c'" and "\<forall>repo \<in> set (cfg_Repositories c'). clean_abs (rp_Path repo)"
  shows "LoadConfig (co_yaml io) None None p d' = Inr c'"
  using edit_config_run[OF assms(3)] WriteConfig_LoadConfig[OF assms(1) config_paths_ok[OF assms(4,5)] assms(4,2)] by blast

lemma sync_command_run:
  assumes "sync_command io p d = (Inr (), out, d')"
  shows "\<exists>rep c' out'. edit_config io (Sync (co_setup io)) (wrapf ''sync: '') p d = (Inr (rep, c'), out', d') \<and> out = sync_lines rep"
  using assms by (auto simp: sync_command_def split: sum.splits prod.splits)

lemma paths_of_repos: "map rp_Path xs = map rp_Path ys \<Longrightarrow> (\<forall>r \<in> set xs. P (rp_Path r)) \<longleftrightarrow> (\<forall>r \<in> set ys. P (rp_Path r))"
proof -
  assume "map rp_Path xs = map rp_Path ys"
  then have "rp_Path ` set xs = rp_Path ` set ys" by (metis list.set_map)
  then show ?thesis by (metis (no_types, lifting) ball_imageD image_eqI imageE)
qed

lemma Sync_report:
  assumes "Sync io c = (Inr rep, c')"
  shows "sy_RepoCount rep = length (cfg_Repositories c')" "sy_TotalRoutes rep = length (cfg_Routes c')"
    "sy_Orphans rep = DetectOrphansPerRepo c'" "sy_Warnings rep = su_warnings io c' []"
  using assms by (auto simp: Sync_def Let_def split: prod.splits option.splits sum.splits)

text \<open>C21: \<open>phonewave sync\<close> settles: after a successful run the configuration on disk has the same repositories, with the endpoints found
  by the scan; and a second successful run while nothing has changed logs the numbers and the standing warnings only, no added, removed or
  changed endpoint or route, and leaves a configuration that differs in nothing but the time of the last sync.\<close>

theorem sync_command_settles:
  assumes "yaml_inverse (co_yaml io)" and "keeps_order (su_syncPool (co_setup io))" and "Base p \<noteq> ResolvedStateFile"
    and "load_config io p d = Inr c" and "\<forall>repo \<in> set (cfg_Repositories c). clean_abs (rp_Path repo)"
    and "sync_command io p d = (Inr (), out, d')"
    and "co_yaml io' = co_yaml io" and "co_read io' = None" and "co_resolved io' = None"
    and "\<forall>rs. su_syncPool (co_setup io') rs = (rs, None)"
    and "su_yaml (co_setup io') = su_yaml (co_setup io)" and "su_tree (co_setup io') = su_tree (co_setup io)"
    and "sync_command io' p d' = (Inr (), out', d'')"
  shows "\<exists>c'. LoadConfig (co_yaml io) None None p d' = Inr c' \<and> map rp_Path (cfg_Repositories c') = map rp_Path (cfg_Repositories c) \<and>
    (\<forall>repo \<in> set (cfg_Repositories c'). ScanRepository (su_yaml (co_setup io)) (su_tree (co_setup io)) (rp_Path repo) = Inr (rp_Endpoints repo)) \<and>
    LoadConfig (co_yaml io) None None p d'' = Inr (c'\<lparr>cfg_LastSynced := su_now (co_setup io')\<rparr>) \<and>
    out' = synced_line (length (cfg_Repositories c')) (length (cfg_Routes c')) #
      printOrphanWarnings (DetectOrphansPerRepo (c'\<lparr>cfg_LastSynced := su_now (co_setup io')\<rparr>)) @
      map CallWarn (su_warnings (co_setup io') (c'\<lparr>cfg_LastSynced := su_now (co_setup io')\<rparr>) [])"
proof -
  obtain rep c' out1 where E: "edit_config io (Sync (co_setup io)) (wrapf ''sync: '') p d = (Inr (rep, c'), out1, d')"
    using sync_command_run[OF assms(6)] by blast
  then have S: "Sync (co_setup io) c = (Inr rep, c')" using edit_config_run[OF E] assms(4) by simp
  note settled = Sync_settles[OF assms(2) S assms(10,11,12)]
  have abs: "\<forall>repo \<in> set (cfg_Repositories c'). clean_abs (rp_Path repo)" using assms(5) paths_of_repos[OF settled(1)] by blast
  have load: "LoadConfig (co_yaml io) None None p d' = Inr c'"
    by (rule written_config_loads[OF assms(1,3) E Sync_config_ok[OF assms(2) S] abs])
  then have load': "load_config io' p d' = Inr c'" by (simp add: load_config_def assms(7,8,9))
  let ?c = "c'\<lparr>cfg_LastSynced := su_now (co_setup io')\<rparr>"
  obtain rep' where S': "Sync (co_setup io') c' = (Inr rep', ?c)" "sy_EndpointChanges rep' = []" "sy_RouteChanges rep' = []"
    using settled(3) by blast
  obtain out2 where E': "edit_config io' (Sync (co_setup io')) (wrapf ''sync: '') p d' = (Inr (rep', ?c), out2, d'')" and out': "out' = sync_lines rep'"
    using sync_command_run[OF assms(13)] edit_config_run S'(1) load' by fastforce
  have "keeps_order (su_syncPool (co_setup io'))" using assms(10) by (simp add: keeps_order_def)
  then have "config_ok ?c" using S'(1) by (rule Sync_config_ok)
  then have "LoadConfig (co_yaml io) None None p d'' = Inr ?c"
    using written_config_loads[OF _ assms(3) E'] assms(1,7) abs by simp
  with load settled(1,2) out' S'(2,3) show ?thesis unfolding sync_lines_def Sync_report[OF S'(1)] by (intro exI[of _ c']) simp
qed

text \<open>A project with one repository; the encoder knows its configuration.\<close>

definition sample_repo :: repo_config where
  "sample_repo = \<lparr>rp_Path = ''/r'', rp_Endpoints = [\<lparr>ep_Dir = ''.gate'', ep_Produces = [], ep_Consumes = [''report'']\<rparr>]\<rparr>"

definition project_yaml :: config_yaml where
  "project_yaml = (let repos = [sample_repo\<lparr>rp_Path := ''../r''\<rparr>]; rs = \<lparr>rs_LastSynced = 5, rs_Routes = []\<rparr> in
     \<lparr>cy_marshalManifest = (\<lambda>r. if r = repos then Inr ''m'' else Inl (errorf ''unknown'')),
      cy_marshalResolved = (\<lambda>r. if r = rs then Inr ''r'' else Inl (errorf ''unknown'')),
      cy_config = (\<lambda>b. Inr \<lparr>cfg_LastSynced = 0, cfg_Repositories = repos, cfg_Routes = []\<rparr>),
      cy_resolved = (\<lambda>b. Inr rs)\<rparr>)"

definition project_io :: command_io where
  "project_io = \<lparr>co_setup = sample_setup\<lparr>su_tree := sample_tree\<lparr>tr_Abs := (\<lambda>p. if IsAbs p \<and> Clean p = p then Inr p else Inl (errorf ''relative''))\<rparr>\<rparr>,
     co_yaml = project_yaml, co_read = None, co_resolved = None,
     co_config = \<lparr>ci_manifest = None, ci_mkdir = None, ci_resolved = None\<rparr>,
     co_state = \<lparr>si_dirs = \<lparr>dio_existed = (\<lambda>_. False), dio_mkdir = (\<lambda>_. None)\<rparr>, si_read = None, si_append = None\<rparr>,
     co_stat = (\<lambda>_. False), co_otelMkdir = None, co_otelWrite = None\<rparr>"

definition project_config :: path where
  "project_config = ''/p/.phonewave/config.yaml''"

lemma project_facts:
  "yaml_inverse (co_yaml project_io)" "keeps_order (su_initPool (co_setup project_io))" "keeps_order (su_syncPool (co_setup project_io))"
  "\<forall>rs. su_syncPool (co_setup project_io) rs = (rs, None)" "co_read project_io = None" "co_resolved project_io = None"
  "\<forall>q r. tr_Abs (su_tree (co_setup project_io)) q = Inr r \<longrightarrow> clean_abs r"
  by (auto simp: yaml_inverse_def project_io_def project_yaml_def Let_def keeps_order_def sample_setup_def clean_abs_def split: if_splits)

lemma project_path: "Base project_config \<notin> {ResolvedStateFile, ''.otel.env''}" "Base project_config \<noteq> ResolvedStateFile"
  by code_simp+

lemma project_init: "fst (init_command project_io False \<lparr>of_backend = ''jaeger'', of_entity = [], of_project = []\<rparr> project_config [''/r''] empty_disk) = Inr ()"
  by code_simp

theorem init_then_run_witness:
  "\<exists>c routes. LoadConfig project_yaml None None project_config
       (snd (snd (init_command project_io False \<lparr>of_backend = ''jaeger'', of_entity = [], of_project = []\<rparr> project_config [''/r''] empty_disk))) = Inr c \<and>
     ResolveRoutes c = Inr routes \<and> map rp_Path (cfg_Repositories c) = [''/r'']"
proof -
  let ?fl = "\<lparr>of_backend = ''jaeger'', of_entity = [], of_project = []\<rparr>"
  obtain out d' where run: "init_command project_io False ?fl project_config [''/r''] empty_disk = (Inr (), out, d')"
    using project_init by (metis prod.collapse)
  have yaml: "co_yaml project_io = project_yaml" by (simp add: project_io_def)
  have abs: "tr_Abs (su_tree (co_setup project_io)) ''/r'' = Inr ''/r''" by code_simp
  obtain c routes where "LoadConfig project_yaml None None project_config d' = Inr c" "ResolveRoutes c = Inr routes"
    and "map (tr_Abs (su_tree (co_setup project_io))) [''/r''] = map (Inr \<circ> rp_Path) (cfg_Repositories c)"
    using init_then_run[OF project_facts(1,2) project_path(1) project_facts(7) run] unfolding yaml by blast
  then show ?thesis using run abs by (intro exI[of _ c] exI[of _ routes]) (auto simp: Cons_eq_map_conv)
qed

definition project_disk :: disk where
  "project_disk = empty_disk\<lparr>dk_files := [project_config \<mapsto> ''x'']\<rparr>"

definition synced_disk :: disk where
  "synced_disk = snd (snd (sync_command project_io project_config project_disk))"

lemma project_sync:
  "fst (sync_command project_io project_config project_disk) = Inr ()" "fst (sync_command project_io project_config synced_disk) = Inr ()"
  "map_sum id cfg_Repositories (load_config project_io project_config project_disk) = Inr [sample_repo]"
  by code_simp+

theorem sync_command_settles_witness:
  "fst (snd (sync_command project_io project_config synced_disk)) =
     [synced_line 1 0, CallWarn (''Orphaned: kind='' @ Quote ''report'' @ '' is consumed but not produced'')]"
proof -
  obtain out where run: "sync_command project_io project_config project_disk = (Inr (), out, synced_disk)"
    using project_sync(1) unfolding synced_disk_def by (metis prod.collapse)
  obtain out' d'' where run': "sync_command project_io project_config synced_disk = (Inr (), out', d'')"
    using project_sync(2) by (metis prod.collapse)
  obtain c where c: "load_config project_io project_config project_disk = Inr c" "cfg_Repositories c = [sample_repo]"
    using project_sync(3) by (cases "load_config project_io project_config project_disk") auto
  have "clean_abs (rp_Path sample_repo)" unfolding clean_abs_def by code_simp
  then have abs: "\<forall>repo \<in> set (cfg_Repositories c). clean_abs (rp_Path repo)" by (simp add: c(2))
  obtain c' where c': "LoadConfig (co_yaml project_io) None None project_config synced_disk = Inr c'"
    and out': "out' = synced_line (length (cfg_Repositories c')) (length (cfg_Routes c')) #
      printOrphanWarnings (DetectOrphansPerRepo (c'\<lparr>cfg_LastSynced := su_now (co_setup project_io)\<rparr>)) @
      map CallWarn (su_warnings (co_setup project_io) (c'\<lparr>cfg_LastSynced := su_now (co_setup project_io)\<rparr>) [])"
    using sync_command_settles[OF project_facts(1,3) project_path(2) c(1) abs run refl project_facts(5,6,4) refl refl run'] by blast
  have load: "LoadConfig (co_yaml project_io) None None project_config synced_disk =
      Inr \<lparr>cfg_LastSynced = 5, cfg_Repositories = [sample_repo], cfg_Routes = []\<rparr>" by code_simp
  have eq: "c' = \<lparr>cfg_LastSynced = 5, cfg_Repositories = [sample_repo], cfg_Routes = []\<rparr>" using load c' by simp
  have orphans: "printOrphanWarnings (DetectOrphansPerRepo \<lparr>cfg_LastSynced = 5, cfg_Repositories = [sample_repo], cfg_Routes = []\<rparr>) =
      [CallWarn (''Orphaned: kind='' @ Quote ''report'' @ '' is consumed but not produced'')]" by code_simp
  have io: "su_now (co_setup project_io) = 5" "su_warnings (co_setup project_io) = (\<lambda>_ _. [])" by (simp_all add: project_io_def sample_setup_def)
  show ?thesis unfolding run' prod.sel out' eq io using orphans by simp
qed

section \<open>Adding and removing\<close>

context config_operation
begin

lemma edited_config_loads:
  assumes "yaml_inverse (co_yaml io)" and "Base p \<noteq> ResolvedStateFile" and "load_config io p d = Inr c" and "config_ok c"
    and "edit_config io run wrap p d = (Inr (r, c'), out, d')" and "\<forall>repo \<in> set (cfg_Repositories c'). clean_abs (rp_Path repo)"
  shows "run c = (Inr r, c')" and "config_ok c'" and "LoadConfig (co_yaml io) None None p d' = Inr c'"
proof -
  show run: "run c = (Inr r, c')" using edit_config_run[OF assms(5)] assms(3) by simp
  show ok: "config_ok c'" by (rule success_ok[OF run assms(4)])
  show "LoadConfig (co_yaml io) None None p d' = Inr c'" by (rule written_config_loads[OF assms(1,2,5) ok assms(6)])
qed

end

lemma add_command_run:
  "add_command io p repo d = (Inr (), out, d') \<Longrightarrow> \<exists>res c' out'. edit_config io (Add (co_setup io) repo) id p d = (Inr (res, c'), out', d')"
  by (auto simp: add_command_def split: sum.splits prod.splits)

lemma remove_command_run:
  "remove_command io p repo d = (Inr (), out, d') \<Longrightarrow> \<exists>res c' out'. edit_config io (Remove (co_setup io) repo) id p d = (Inr (res, c'), out', d')"
  by (auto simp: remove_command_def split: sum.splits prod.splits)

lemma remove_first_repo_snoc:
  "\<not> list_ex (\<lambda>r. rp_Path r = p) rs \<Longrightarrow> rp_Path r = p \<Longrightarrow> remove_first_repo p (rs @ [r]) = Some rs"
  by (induction rs) simp_all

lemma Add_Remove:
  assumes "Add io repo c = (Inr res, c1)" and "Remove io' repo c1 = (Inr res', c2)" and "tr_Abs (su_tree io') repo = tr_Abs (su_tree io) repo"
  shows "c2 = (UpdateRoutes c)\<lparr>cfg_LastSynced := su_now io'\<rparr>"
proof -
  obtain p where p: "tr_Abs (su_tree io) repo = Inr p" using assms(1) by (cases "tr_Abs (su_tree io) repo") (simp_all add: Add_def)
  have new: "\<not> list_ex (\<lambda>r. rp_Path r = p) (cfg_Repositories c)" using assms(1) p by (auto simp: Add_def split: if_splits)
  obtain eps where c1: "c1 = (UpdateRoutes (AddRepository c p eps))\<lparr>cfg_LastSynced := su_now io\<rparr>"
    using assms(1) p new by (auto simp: Add_def Let_def split: sum.splits)
  have "remove_first_repo p (cfg_Repositories c1) = Some (cfg_Repositories c)"
    unfolding c1 using remove_first_repo_snoc[OF new] by (simp add: AddRepository_def)
  then have "RemoveRepository c1 p = (True, c1\<lparr>cfg_Repositories := cfg_Repositories c\<rparr>)" by (simp add: RemoveRepository_def)
  then have "c2 = (UpdateRoutes (c1\<lparr>cfg_Repositories := cfg_Repositories c\<rparr>))\<lparr>cfg_LastSynced := su_now io'\<rparr>"
    using assms(2,3) p by (auto simp: Remove_def Let_def)
  then show ?thesis by (simp add: c1 UpdateRoutes_def AddRepository_def)
qed

text \<open>Adding a repository and removing it again restores the configuration: if both commands succeed, the configuration on disk afterwards has the
  repositories and the routes it had before, in the same order, whatever else the repository contained.\<close>

theorem add_then_remove:
  assumes "yaml_inverse (co_yaml io)" and "Base p \<noteq> ResolvedStateFile"
    and "load_config io p d = Inr c" and "config_ok c" and "\<forall>r \<in> set (cfg_Repositories c). clean_abs (rp_Path r)"
    and "\<forall>q r. tr_Abs (su_tree (co_setup io)) q = Inr r \<longrightarrow> clean_abs r"
    and "add_command io p repo d = (Inr (), out, d')"
    and "co_yaml io' = co_yaml io" and "co_read io' = None" and "co_resolved io' = None" and "su_tree (co_setup io') = su_tree (co_setup io)"
    and "remove_command io' p repo d' = (Inr (), out', d'')"
  shows "LoadConfig (co_yaml io) None None p d'' = Inr (c\<lparr>cfg_LastSynced := su_now (co_setup io')\<rparr>)"
proof -
  obtain res c1 out1 where A: "edit_config io (Add (co_setup io) repo) id p d = (Inr (res, c1), out1, d')"
    using add_command_run[OF assms(7)] by blast
  then have add: "Add (co_setup io) repo c = (Inr res, c1)" using edit_config_run[OF A] assms(3) by simp
  then have "\<forall>r \<in> set (cfg_Repositories c1). clean_abs (rp_Path r)"
    using assms(5,6) by (auto simp: Add_def Let_def AddRepository_def split: sum.splits if_splits)
  note loaded = add_op.edited_config_loads[OF assms(1,2,3,4) A this]
  have load1: "load_config io' p d' = Inr c1" using loaded(3) by (simp add: load_config_def assms(8,9,10))
  obtain res' c2 out2 where R: "edit_config io' (Remove (co_setup io') repo) id p d' = (Inr (res', c2), out2, d'')"
    using remove_command_run[OF assms(12)] by blast
  then have rem: "Remove (co_setup io') repo c1 = (Inr res', c2)" using edit_config_run[OF R] load1 by simp
  have "UpdateRoutes c = c" using assms(4) by (cases c) (auto simp: config_ok_def UpdateRoutes_def)
  then have c2: "c2 = c\<lparr>cfg_LastSynced := su_now (co_setup io')\<rparr>" using Add_Remove[OF add rem] assms(11) by simp
  have "LoadConfig (co_yaml io') None None p d'' = Inr c2"
    using remove_op.edited_config_loads(3)[OF _ assms(2) load1 loaded(2) R] assms(1,5,8) c2 by simp
  then show ?thesis using c2 assms(8) by simp
qed

end
