(* ===== verification/DoctorCmd.thy ===== *)
theory DoctorCmd
  imports Doctor Logger
begin

text \<open>
  The command \<open>phonewave doctor\<close> (\<open>src/internal/cmd/doctor.go\<close>): the report on this tool alone, and with \<open>--all\<close> the unified report, for
  which the other tools are started and their JSON is read (\<open>src/internal/session/tool_runner.go\<close>); then how an error of a command
  becomes the exit code of the process (\<open>src/cmd/phonewave/main.go\<close>, \<open>ExitCode\<close> of \<open>src/internal/domain/phonewave.go\<close>) and when the
  command \<open>run\<close> is put in front of the arguments (\<open>src/internal/cmd/default_run.go\<close>).

  The outcome of a started program and what \<open>encoding/json\<close> makes of its output are arguments. The lines printed are kept without line ends.
\<close>

section \<open>Other tools\<close>

text \<open>The report of phonewave itself as JSON: the checks and the daemon.\<close>

record tool_report =
  tr_Checks :: "unified_check list"
  tr_Running :: bool
  tr_PID :: int

text \<open>The three decodings that are tried on the output; the slices are \<open>None\<close> when they stay nil.\<close>

record tool_json =
  tj_wrapped :: "bytes \<Rightarrow> unified_check list option result"
  tj_array :: "bytes \<Rightarrow> unified_check list option result"
  tj_report :: "bytes \<Rightarrow> tool_report result"

type_synonym runner_of_tools = "string \<Rightarrow> string list \<Rightarrow> bytes \<times> go_error option"

definition tool_args :: "string \<Rightarrow> path \<Rightarrow> bool \<Rightarrow> string list option" where
  "tool_args tool repoPath repair =
     (let finish = (\<lambda>args. Some (args @ (if repair then [''--repair''] else []) @ [repoPath]))
      in if tool = ''sightjack'' then finish [''doctor'', ''-j'']
         else if tool = ''paintress'' then finish [''doctor'', ''-o'', ''json'']
         else if tool = ''amadeus'' then finish [''doctor'', ''-j'']
         else None)"

definition runStaticToolDoctor :: "runner_of_tools \<Rightarrow> string \<Rightarrow> path \<Rightarrow> bool \<Rightarrow> bytes \<times> go_error option" where
  "runStaticToolDoctor run tool repoPath repair =
     (case tool_args tool repoPath repair of
        Some args \<Rightarrow> run tool args
      | None \<Rightarrow> ([], Some (errorf (''unknown tool: '' @ tool))))"

definition daemon_message :: "bool \<Rightarrow> int \<Rightarrow> string" where
  "daemon_message running pid = (if running then ''running (PID '' @ Itoa pid @ '')'' else ''not running'')"

definition daemon_check :: "bool \<Rightarrow> int \<Rightarrow> unified_check" where
  "daemon_check running pid = \<lparr>uc_Name = ''daemon'', uc_Status = ''OK'', uc_Message = daemon_message running pid, uc_Hint = []\<rparr>"

definition known_status :: "string \<Rightarrow> bool" where
  "known_status s \<longleftrightarrow> s \<in> {''OK'', ''FAIL'', ''WARN'', ''SKIP'', ''FIX''}"

definition report_check :: "unified_check \<Rightarrow> unified_check" where
  "report_check c = c\<lparr>uc_Name := if uc_Name c = [] then ''-'' else uc_Name c, uc_Status := if known_status (uc_Status c) then uc_Status c else ''WARN''\<rparr>"

definition RunToolDoctor :: "tool_json \<Rightarrow> runner_of_tools \<Rightarrow> string \<Rightarrow> path \<Rightarrow> bool \<Rightarrow> tool_section" where
  "RunToolDoctor json run tool repoPath repair =
     (let section = \<lparr>ts_Tool = tool, ts_Path = repoPath, ts_Checks = [], ts_Error = []\<rparr>;
          (out, err) = runStaticToolDoctor run tool repoPath repair
      in case (err, out) of
           (Some e, []) \<Rightarrow> section\<lparr>ts_Error := ''exec '' @ tool @ '': '' @ err_msg e\<rparr>
         | _ \<Rightarrow>
             (case tj_wrapped json out of
                Inr (Some checks) \<Rightarrow> section\<lparr>ts_Checks := checks\<rparr>
              | _ \<Rightarrow>
                  (case tj_array json out of
                     Inr (Some checks) \<Rightarrow> section\<lparr>ts_Checks := checks\<rparr>
                   | _ \<Rightarrow>
                       (case tj_report json out of
                          Inl _ \<Rightarrow> section\<lparr>ts_Error := ''failed to parse doctor JSON output''\<rparr>
                        | Inr pw \<Rightarrow>
                            if tr_Checks pw = [] then section\<lparr>ts_Error := ''failed to parse doctor JSON output''\<rparr>
                            else section\<lparr>ts_Checks := map report_check (tr_Checks pw) @ [daemon_check (tr_Running pw) (tr_PID pw)]\<rparr>))))"

section \<open>The unified report\<close>

definition own_section :: "doctor_report \<Rightarrow> tool_section" where
  "own_section r =
     \<lparr>ts_Tool = ''phonewave'', ts_Path = [],
      ts_Checks = map (\<lambda>c. \<lparr>uc_Name = ch_Name c, uc_Status = StatusLabel (ch_Status c), uc_Message = ch_Message c, uc_Hint = ch_Hint c\<rparr>) (dr_Checks r) @
        [daemon_check (dh_Running (dr_DaemonStatus r)) (dh_PID (dr_DaemonStatus r))],
      ts_Error = []\<rparr>"

definition toolForDir :: "string \<rightharpoonup> string" where
  "toolForDir = [''.siren'' \<mapsto> ''sightjack'', ''.expedition'' \<mapsto> ''paintress'', ''.gate'' \<mapsto> ''amadeus'']"

definition otherTools :: "string list" where
  "otherTools = [''sightjack'', ''paintress'', ''amadeus'']"

definition add_tool_path :: "path \<Rightarrow> endpoint \<Rightarrow> (string \<rightharpoonup> path) \<Rightarrow> (string \<rightharpoonup> path)" where
  "add_tool_path repoPath ep m = (case toolForDir (ep_Dir ep) of None \<Rightarrow> m | Some tool \<Rightarrow> m(tool \<mapsto> repoPath))"

text \<open>A later endpoint wins; a tool the configuration does not name gets the path of the command line.\<close>

definition toolPaths :: "config option \<Rightarrow> path \<Rightarrow> string \<Rightarrow> path" where
  "toolPaths cfg repoPath tool =
     (let m = (case cfg of
                 None \<Rightarrow> Map.empty
               | Some c \<Rightarrow> fold (\<lambda>repo. fold (add_tool_path (rp_Path repo)) (rp_Endpoints repo)) (cfg_Repositories c) Map.empty)
      in case m tool of Some p \<Rightarrow> p | None \<Rightarrow> repoPath)"

record unified_io =
  ui_doctor :: doctor_io
  ui_cfgRead :: "go_error option"
  ui_resolvedRead :: "go_error option"
  ui_json :: tool_json
  ui_run :: runner_of_tools

text \<open>The report, and the world after the repairs.\<close>

definition unified_report :: "unified_io \<Rightarrow> path \<Rightarrow> path \<Rightarrow> bool \<Rightarrow> doctor_world \<Rightarrow> unified_doctor_report \<times> doctor_world" where
  "unified_report io configPath repoPath repair w =
     (let cfgPath = (if repoPath \<noteq> [] then path_Join [repoPath, StateDir, ''config.yaml''] else configPath);
          stateDir = Dir cfgPath;
          cfg = (case LoadConfig (dc_configYaml (ui_doctor io)) (ui_cfgRead io) (ui_resolvedRead io) cfgPath (dw_disk w) of
                   Inl _ \<Rightarrow> None | Inr c \<Rightarrow> Some c);
          (pwReport, w) =
            (case cfg of
               None \<Rightarrow> (AddWarn ''config'' (''phonewave not initialized ('' @ cfgPath @ '')'')
                          \<lparr>dr_Healthy = True, dr_Checks = [], dr_Endpoints = [], dr_DaemonStatus = \<lparr>dh_Checked = False, dh_Running = False, dh_PID = 0\<rparr>\<rparr>, w)
             | Some c \<Rightarrow> Doctor (ui_doctor io) c stateDir repair w)
      in (\<lparr>ud_Sections = own_section pwReport # map (\<lambda>tool. RunToolDoctor (ui_json io) (ui_run io) tool (toolPaths cfg repoPath tool) repair) otherTools,
           ud_CrossTool = CheckRoutingConsistency cfg\<rparr>, w))"

section \<open>Printing\<close>

text \<open>The verb \<open>%-16s\<close> with its width, on UTF-8 text: the width counts characters.\<close>

definition pad_name :: "nat \<Rightarrow> string \<Rightarrow> string" where
  "pad_name n s = s @ replicate (n - length (filter (\<lambda>c. \<not> (128 \<le> (of_char c :: nat) \<and> (of_char c :: nat) < 192)) s)) CHR '' ''"

definition StatusColor :: "check_status \<Rightarrow> string" where
  "StatusColor s =
     (case s of CheckOK \<Rightarrow> ansiBoldBlue | CheckWarn \<Rightarrow> ansiYellow | CheckFail \<Rightarrow> ansiBoldRed | CheckSkip \<Rightarrow> ansiGray | CheckFixed \<Rightarrow> ansiBoldBlue)"

definition StatusColorFromLabel :: "string \<Rightarrow> string" where
  "StatusColorFromLabel lab =
     (if lab = ''OK'' \<or> lab = ''FIX'' then ansiBoldBlue
      else if lab = ''WARN'' then ansiYellow
      else if lab = ''FAIL'' then ansiBoldRed
      else if lab = ''SKIP'' then ansiGray
      else ansiYellow)"

definition check_line :: "logger \<Rightarrow> string \<Rightarrow> string \<Rightarrow> string \<Rightarrow> string \<Rightarrow> string" where
  "check_line l lab color name msg = ''  ['' @ Colorize l (pad_name 4 lab) color @ ''] '' @ pad_name 16 name @ '' '' @ msg"

definition hint_line :: "string \<Rightarrow> string list" where
  "hint_line hint = (if hint = [] then [] else [''         '' @ pad_name 16 [] @ '' hint: '' @ hint])"

definition check_lines :: "logger \<Rightarrow> unified_check \<Rightarrow> string list" where
  "check_lines l c = check_line l (uc_Status c) (StatusColorFromLabel (uc_Status c)) (uc_Name c) (uc_Message c) # hint_line (uc_Hint c)"

definition section_lines :: "logger \<Rightarrow> tool_section \<Rightarrow> string list" where
  "section_lines l sec =
     (''  ['' @ ts_Tool sec @ (if ts_Path sec = [] then [] else '' '' @ ts_Path sec) @ '']'') #
     (if ts_Error sec \<noteq> [] then [check_line l ''FAIL'' (StatusColorFromLabel ''FAIL'') ''exec'' (ts_Error sec)]
      else concat (map (check_lines l) (ts_Checks sec)) @ [[]])"

definition count_status :: "string \<Rightarrow> unified_check list \<Rightarrow> nat" where
  "count_status s cs = length (filter (\<lambda>c. uc_Status c = s) cs)"

definition section_fails :: "tool_section \<Rightarrow> nat" where
  "section_fails sec = (if ts_Error sec \<noteq> [] then 1 else count_status ''FAIL'' (ts_Checks sec))"

definition section_warns :: "tool_section \<Rightarrow> nat" where
  "section_warns sec = (if ts_Error sec \<noteq> [] then 0 else count_status ''WARN'' (ts_Checks sec))"

definition summary_line :: "nat \<Rightarrow> nat \<Rightarrow> string" where
  "summary_line fails warns =
     Join '', '' ((if fails > 0 then [Itoa (int fails) @ '' error(s)''] else []) @ (if warns > 0 then [Itoa (int warns) @ '' warning(s)''] else [])) @ ''.''"

text \<open>An error of a command: its message has been printed already, or has not.\<close>

datatype command_error = SilentError go_error | PlainError go_error

definition total_fails :: "unified_doctor_report \<Rightarrow> nat" where
  "total_fails r = sum_list (map section_fails (ud_Sections r)) + count_status ''FAIL'' (ud_CrossTool r)"

definition total_warns :: "unified_doctor_report \<Rightarrow> nat" where
  "total_warns r = sum_list (map section_warns (ud_Sections r)) + count_status ''WARN'' (ud_CrossTool r)"

definition em_dash :: string where "em_dash = [CHR 0xE2, CHR 0x80, CHR 0x94]"

definition unified_lines :: "logger \<Rightarrow> unified_doctor_report \<Rightarrow> string list" where
  "unified_lines l r =
     [''phonewave doctor --all '' @ em_dash @ '' TAP ecosystem health check'', []] @ concat (map (section_lines l) (ud_Sections r)) @
     (if ud_CrossTool r = [] then [] else ''  [cross-tool]'' # concat (map (check_lines l) (ud_CrossTool r)) @ [[]]) @
     [if IsHealthy r then ''All checks passed.'' else summary_line (total_fails r) (total_warns r)]"

text \<open>With \<open>jsonOut\<close> the report itself is printed as JSON instead of the lines.\<close>

definition runUnifiedDoctor ::
  "unified_io \<Rightarrow> logger \<Rightarrow> path \<Rightarrow> path \<Rightarrow> bool \<Rightarrow> bool \<Rightarrow> doctor_world \<Rightarrow>
   command_error option \<times> (unified_doctor_report + string list) \<times> doctor_world" where
  "runUnifiedDoctor io l configPath repoPath repair jsonOut w =
     (case unified_report io configPath repoPath repair w of
        (r, w) \<Rightarrow>
          (if IsHealthy r then None else Some (SilentError (errorf ''unified doctor: issues found'')),
           if jsonOut then Inl r else Inr (unified_lines l r), w))"

section \<open>The report on this tool\<close>

definition own_lines :: "logger \<Rightarrow> doctor_report \<Rightarrow> string list" where
  "own_lines l r =
     [''phonewave doctor '' @ em_dash @ '' ecosystem health check'', []] @
     concat (map (\<lambda>c. check_line l (StatusLabel (ch_Status c)) (StatusColor (ch_Status c)) (if ch_Name c = [] then ''-'' else ch_Name c) (ch_Message c) #
       hint_line (ch_Hint c)) (dr_Checks r)) @
     [check_line l ''OK'' (StatusColor CheckOK) ''daemon'' (daemon_message (dh_Running (dr_DaemonStatus r)) (dh_PID (dr_DaemonStatus r))), []] @
     [if dr_Healthy r then ''All checks passed.''
      else summary_line (length (filter (\<lambda>c. ch_Status c = CheckFail) (dr_Checks r))) (length (filter (\<lambda>c. ch_Status c = CheckWarn) (dr_Checks r)))]"

record doctor_flags =
  df_all :: bool
  df_json :: bool
  df_repair :: bool

datatype doctor_output = JsonReport doctor_report | JsonUnified unified_doctor_report | Lines "string list"

definition doctor_command ::
  "unified_io \<Rightarrow> logger \<Rightarrow> doctor_flags \<Rightarrow> path \<Rightarrow> path list \<Rightarrow> doctor_world \<Rightarrow> command_error option \<times> doctor_output \<times> doctor_world" where
  "doctor_command io l fl cfgPath args w =
     (if df_all fl
      then (case runUnifiedDoctor io l cfgPath (case args of [] \<Rightarrow> [] | a # _ \<Rightarrow> a) (df_repair fl) (df_json fl) w of
              (e, Inl r, w) \<Rightarrow> (e, JsonUnified r, w)
            | (e, Inr ls, w) \<Rightarrow> (e, Lines ls, w))
      else if args \<noteq> [] then (Some (PlainError (errorf ''repo-path argument requires --all flag'')), Lines [], w)
      else case LoadConfig (dc_configYaml (ui_doctor io)) (ui_cfgRead io) (ui_resolvedRead io) cfgPath (dw_disk w) of
             Inl e \<Rightarrow>
               (Some (PlainError (wrapf ''load config: '' e)),
                Lines [check_line l ''FAIL'' (StatusColor CheckFail) ''config'' (''Run '' @ [CHR 0x27] @ ''phonewave init'' @ [CHR 0x27] @ '' first'')], w)
           | Inr cfg \<Rightarrow>
               (case Doctor (ui_doctor io) cfg (Dir cfgPath) (df_repair fl) w of
                  (r, w) \<Rightarrow>
                    (if dr_Healthy r then None else Some (SilentError (errorf ''ecosystem has issues'')),
                     if df_json fl then JsonReport r else Lines (own_lines l r), w)))"

section \<open>The process\<close>

definition ExitCode :: "command_error option \<Rightarrow> int" where
  "ExitCode err = (if err = None then 0 else 1)"

text \<open>The end of \<open>run\<close>: the exit code and what goes to the standard error. \<open>cancelled\<close> says that the error wraps \<open>context.Canceled\<close>,
  \<open>signalled\<close> that the context of the process is done.\<close>

definition process_exit :: "bool \<Rightarrow> bool \<Rightarrow> command_error option \<Rightarrow> int \<times> string list" where
  "process_exit cancelled signalled err =
     (if err \<noteq> None \<and> cancelled \<and> signalled then (130, [])
      else (ExitCode err, case err of Some (PlainError e) \<Rightarrow> [''error: '' @ err_msg e] | _ \<Rightarrow> []))"

text \<open>\<open>known\<close> are the names and aliases of the commands with \<open>help\<close> and \<open>completion\<close>, \<open>valueTakers\<close> the flags that take a value.\<close>

fun finds_command :: "string list \<Rightarrow> string list \<Rightarrow> bool \<Rightarrow> string list \<Rightarrow> bool" where
  "finds_command known valueTakers skipNext [] = False"
| "finds_command known valueTakers skipNext (arg # args) =
     (if skipNext then finds_command known valueTakers False args
      else if arg = ''--'' then False
      else if HasPrefix arg ''-'' then finds_command known valueTakers (\<not> Contains arg ''='' \<and> arg \<in> set valueTakers) args
      else if arg \<in> set known then True
      else finds_command known valueTakers False args)"

definition NeedsDefaultRun :: "string list \<Rightarrow> string list \<Rightarrow> string list \<Rightarrow> bool" where
  "NeedsDefaultRun known valueTakers args =
     (if args = [] then True
      else if list_ex (\<lambda>arg. arg = ''--version'' \<or> arg = ''--help'' \<or> arg = ''-h'') args then False
      else \<not> finds_command known valueTakers False args)"

definition process_args :: "string list \<Rightarrow> string list \<Rightarrow> string list \<Rightarrow> string list" where
  "process_args known valueTakers args = (if NeedsDefaultRun known valueTakers args then ''run'' # args else args)"

section \<open>The verdict the user sees\<close>

lemma count_status_zero: "count_status s cs = 0 \<longleftrightarrow> list_all (\<lambda>c. uc_Status c \<noteq> s) cs"
  by (simp add: count_status_def filter_empty_conv list_all_iff)

lemma section_fails_zero: "section_fails sec = 0 \<longleftrightarrow> ts_Error sec = [] \<and> list_all (\<lambda>c. uc_Status c \<noteq> ''FAIL'') (ts_Checks sec)"
  unfolding section_fails_def count_status_zero[symmetric] by simp

lemma total_fails_zero: "total_fails r = 0 \<longleftrightarrow> IsHealthy r"
proof -
  have "sum_list (map section_fails (ud_Sections r)) = 0 \<longleftrightarrow> list_all (\<lambda>sec. section_fails sec = 0) (ud_Sections r)"
    by (simp add: sum_list_eq_0_iff list_all_iff)
  then show ?thesis by (simp add: total_fails_def IsHealthy_def section_fails_zero count_status_zero)
qed

lemma StatusLabel_fail: "StatusLabel s = ''FAIL'' \<longleftrightarrow> s = CheckFail"
  by (cases s) simp_all

lemma own_section_healthy:
  "report_inv r \<Longrightarrow> ts_Error (own_section r) = [] \<and> list_all (\<lambda>c. uc_Status c \<noteq> ''FAIL'') (ts_Checks (own_section r)) \<longleftrightarrow> dr_Healthy r"
  by (simp add: own_section_def report_inv_def list_all_iff StatusLabel_fail daemon_check_def)

text \<open>The routing check only warns.\<close>

lemma CheckRoutingConsistency_warns: "list_all (\<lambda>c. uc_Status c \<noteq> ''FAIL'') (CheckRoutingConsistency cfg)"
  by (auto simp: CheckRoutingConsistency_def orphan_check_def Let_def split: option.split)

lemma Doctor_inv: "report_inv (fst (Doctor io cfg stateDir repair w))"
  using Doctor_sound[where io = io and cfg = cfg and stateDir = stateDir and repair = repair and w = w] by (auto simp: report_inv_def split: prod.splits)

definition target_config :: "unified_io \<Rightarrow> path \<Rightarrow> path \<Rightarrow> disk \<Rightarrow> config option" where
  "target_config io configPath repoPath d =
     (case LoadConfig (dc_configYaml (ui_doctor io)) (ui_cfgRead io) (ui_resolvedRead io)
             (if repoPath \<noteq> [] then path_Join [repoPath, StateDir, ''config.yaml''] else configPath) d of Inl _ \<Rightarrow> None | Inr c \<Rightarrow> Some c)"

definition target_state :: "path \<Rightarrow> path \<Rightarrow> path" where
  "target_state configPath repoPath = Dir (if repoPath \<noteq> [] then path_Join [repoPath, StateDir, ''config.yaml''] else configPath)"

lemma unified_report_sections:
  "\<exists>own. report_inv own \<and>
     (dr_Healthy own \<longleftrightarrow> (\<forall>c. target_config io configPath repoPath (dw_disk w) = Some c \<longrightarrow>
        dr_Healthy (fst (Doctor (ui_doctor io) c (target_state configPath repoPath) repair w)))) \<and>
     fst (unified_report io configPath repoPath repair w) =
       \<lparr>ud_Sections = own_section own #
          map (\<lambda>tool. RunToolDoctor (ui_json io) (ui_run io) tool (toolPaths (target_config io configPath repoPath (dw_disk w)) repoPath tool) repair) otherTools,
        ud_CrossTool = CheckRoutingConsistency (target_config io configPath repoPath (dw_disk w))\<rparr>"
proof (cases "target_config io configPath repoPath (dw_disk w)")
  case None
  let ?own = "AddWarn ''config'' (''phonewave not initialized ('' @ (if repoPath \<noteq> [] then path_Join [repoPath, StateDir, ''config.yaml''] else configPath) @ '')'')
    \<lparr>dr_Healthy = True, dr_Checks = [], dr_Endpoints = [], dr_DaemonStatus = \<lparr>dh_Checked = False, dh_Running = False, dh_PID = 0\<rparr>\<rparr>"
  have inv: "report_inv ?own" "dr_Healthy ?own" by (simp_all add: AddWarn_def add_check_def report_inv_def)
  have "fst (unified_report io configPath repoPath repair w) =
      \<lparr>ud_Sections = own_section ?own # map (\<lambda>tool. RunToolDoctor (ui_json io) (ui_run io) tool (toolPaths None repoPath tool) repair) otherTools,
       ud_CrossTool = CheckRoutingConsistency None\<rparr>"
    unfolding unified_report_def Let_def target_config_def[symmetric] None option.case prod.case fst_conv ..
  then show ?thesis unfolding None using inv by (intro exI[of _ ?own]) simp
next
  case (Some c)
  obtain r w' where "Doctor (ui_doctor io) c (target_state configPath repoPath) repair w = (r, w')" by (rule prod.exhaust)
  then show ?thesis
    using Some Doctor_inv[of "ui_doctor io" c "target_state configPath repoPath" repair w]
    unfolding unified_report_def Let_def target_config_def[symmetric] target_state_def[symmetric] by (intro exI[of _ r]) simp
qed

text \<open>C25: The exit of \<open>phonewave doctor --all\<close> is the conjunction of all verdicts: the command succeeds exactly if the doctor of this
  tool is healthy (or there is no configuration to check) and each of the three other tools could be run, gave output that could be
  read, and reported no failure, whether the report is printed as text or as JSON; routing orphans never fail it. The process then exits
  with 0, otherwise with 1 and without a second error message; and the last line printed says that all checks passed, or counts at
  least one error.\<close>

theorem unified_verdict:
  "case runUnifiedDoctor io l configPath repoPath repair jsonOut w of (err, out, w') \<Rightarrow>
     (let cfg = target_config io configPath repoPath (dw_disk w);
          others = map (\<lambda>tool. RunToolDoctor (ui_json io) (ui_run io) tool (toolPaths cfg repoPath tool) repair) otherTools;
          healthy = (case cfg of None \<Rightarrow> True | Some c \<Rightarrow> dr_Healthy (fst (Doctor (ui_doctor io) c (target_state configPath repoPath) repair w))) \<and>
                    list_all (\<lambda>sec. ts_Error sec = [] \<and> list_all (\<lambda>c. uc_Status c \<noteq> ''FAIL'') (ts_Checks sec)) others
      in process_exit False signalled err = (if healthy then 0 else 1, []) \<and>
         (case out of
            Inl r \<Rightarrow> jsonOut \<and> IsHealthy r = healthy \<and> tl (ud_Sections r) = others
          | Inr ls \<Rightarrow> \<not> jsonOut \<and> (if healthy then last ls = ''All checks passed.'' else \<exists>fails warns. fails > 0 \<and> last ls = summary_line fails warns)))"
proof -
  obtain own where inv: "report_inv own"
    and own: "dr_Healthy own \<longleftrightarrow> (\<forall>c. target_config io configPath repoPath (dw_disk w) = Some c \<longrightarrow>
        dr_Healthy (fst (Doctor (ui_doctor io) c (target_state configPath repoPath) repair w)))"
    and r: "fst (unified_report io configPath repoPath repair w) =
       \<lparr>ud_Sections = own_section own #
          map (\<lambda>tool. RunToolDoctor (ui_json io) (ui_run io) tool (toolPaths (target_config io configPath repoPath (dw_disk w)) repoPath tool) repair) otherTools,
        ud_CrossTool = CheckRoutingConsistency (target_config io configPath repoPath (dw_disk w))\<rparr>" (is "_ = ?r")
    using unified_report_sections[of io configPath repoPath w repair] by blast
  obtain w' where run: "unified_report io configPath repoPath repair w = (?r, w')" using r by (metis prod.collapse)
  let ?others = "map (\<lambda>tool. RunToolDoctor (ui_json io) (ui_run io) tool (toolPaths (target_config io configPath repoPath (dw_disk w)) repoPath tool) repair) otherTools"
  let ?ok = "\<lambda>sec. ts_Error sec = [] \<and> list_all (\<lambda>c. uc_Status c \<noteq> ''FAIL'') (ts_Checks sec)"
  have healthy: "IsHealthy ?r \<longleftrightarrow> (case target_config io configPath repoPath (dw_disk w) of None \<Rightarrow> True
      | Some c \<Rightarrow> dr_Healthy (fst (Doctor (ui_doctor io) c (target_state configPath repoPath) repair w))) \<and> list_all ?ok ?others"
    using own_section_healthy[OF inv] own CheckRoutingConsistency_warns
    unfolding IsHealthy_def unified_doctor_report.select_convs list.pred_inject(2) by (auto split: option.split)
  have sections: "tl (ud_Sections ?r) = ?others" by simp
  have last_line: "last (unified_lines l ?r) = (if IsHealthy ?r then ''All checks passed.'' else summary_line (total_fails ?r) (total_warns ?r))"
    unfolding unified_lines_def by simp
  have fails: "\<not> IsHealthy ?r \<Longrightarrow> total_fails ?r > 0" using total_fails_zero[of ?r] by simp
  show ?thesis
    unfolding runUnifiedDoctor_def run prod.case Let_def healthy[symmetric]
    using last_line fails sections by (cases jsonOut; cases "IsHealthy ?r") (auto simp: process_exit_def ExitCode_def)
qed

text \<open>The first decoding ignores the members it does not know, so every report with checks that the third one could read has been taken
  by the first: names and statuses are never normalised, and a status the report does not know passes as no failure.\<close>

theorem report_format_unreachable:
  assumes "\<And>b pw. tj_report json b = Inr pw \<Longrightarrow> tr_Checks pw \<noteq> [] \<Longrightarrow> \<exists>cs. tj_wrapped json b = Inr (Some cs)"
    and "ts_Error (RunToolDoctor json run tool repoPath repair) = []"
  shows "\<exists>out. Inr (Some (ts_Checks (RunToolDoctor json run tool repoPath repair))) \<in> {tj_wrapped json out, tj_array json out}"
proof -
  obtain out err where run: "runStaticToolDoctor run tool repoPath repair = (out, err)" by (rule prod.exhaust)
  note D = RunToolDoctor_def[of json run tool repoPath repair, unfolded run Let_def prod.case]
  consider (failed) e where "err = Some e" "out = []" | (wrapped) cs where "tj_wrapped json out = Inr (Some cs)" "\<not> (err \<noteq> None \<and> out = [])"
    | (array) cs where "tj_array json out = Inr (Some cs)" "\<nexists>cs. tj_wrapped json out = Inr (Some cs)" "\<not> (err \<noteq> None \<and> out = [])"
    | (other) "\<nexists>cs. tj_array json out = Inr (Some cs)" "\<nexists>cs. tj_wrapped json out = Inr (Some cs)" "\<not> (err \<noteq> None \<and> out = [])"
    by (cases err; cases "tj_wrapped json out"; cases "tj_array json out"; blast)
  then show ?thesis
  proof cases
    case failed
    then show ?thesis using assms(2) unfolding D by simp
  next
    case wrapped
    then show ?thesis unfolding D by (intro exI[of _ out]) (auto split: option.splits list.splits)
  next
    case array
    then show ?thesis unfolding D by (intro exI[of _ out]) (auto split: option.splits list.splits sum.splits)
  next
    case other
    have none: "tr_Checks pw = []" if "tj_report json out = Inr pw" for pw using other(2) assms(1)[OF that] by blast
    show ?thesis using other assms(2) none unfolding D by (auto split: option.splits list.splits sum.splits if_splits)
  qed
qed

end
