(* ===== verification/CommandLine.thy ===== *)
theory CommandLine
  imports DoctorCmd Commands Metrics Mcp
begin

text \<open>
  What happens around the commands: the preparation every command shares (\<open>PersistentPreRunE\<close> of \<open>src/internal/cmd/root.go\<close>) with the
  environment for the telemetry SDK (\<open>src/internal/cmd/otelenv.go\<close>, with Go's \<open>os.ExpandEnv\<close> written out), the commands that print a report
  (\<open>metrics.go\<close>, \<open>status.go\<close>, \<open>version.go\<close>, \<open>mcp.go\<close>), the file with the state of the provider
  (\<open>src/internal/session/provider_state_file.go\<close>) and the command line of the external validator (\<open>src/internal/session/validate.go\<close>).

  The parsed value of a duration flag, the encoding to JSON and errors of the system are arguments.
\<close>

section \<open>The environment\<close>

type_synonym environ = "string \<rightharpoonup> string"

definition Getenv :: "environ \<Rightarrow> string \<Rightarrow> string" where
  "Getenv env key = (case env key of None \<Rightarrow> [] | Some v \<Rightarrow> v)"

text \<open>\<open>os.Setenv\<close> refuses an empty key, a key with an equals sign, and zero bytes; the callers ignore the error.\<close>

definition Setenv :: "string \<Rightarrow> string \<Rightarrow> environ \<Rightarrow> environ" where
  "Setenv key val env =
     (if key = [] \<or> CHR ''='' \<in> set key \<or> CHR 0x00 \<in> set key \<or> CHR 0x00 \<in> set val then env else env(key \<mapsto> val))"

definition isShellSpecialVar :: "char \<Rightarrow> bool" where
  "isShellSpecialVar c \<longleftrightarrow> c \<in> set ''*#$@!?-0123456789''"

definition isAlphaNum :: "char \<Rightarrow> bool" where
  "isAlphaNum c \<longleftrightarrow>
     (let n = of_char c :: nat in n = 95 \<or> 48 \<le> n \<and> n \<le> 57 \<or> 97 \<le> n \<and> n \<le> 122 \<or> 65 \<le> n \<and> n \<le> 90)"

text \<open>The name after a dollar sign and the number of bytes it takes; the text is not empty.\<close>

definition getShellName :: "string \<Rightarrow> string \<times> nat" where
  "getShellName s =
     (if hd s = CHR ''{''
      then if length s > 2 \<and> isShellSpecialVar (s ! 1) \<and> s ! 2 = CHR ''}'' then ([s ! 1], 3)
           else let body = takeWhile (\<lambda>c. c \<noteq> CHR ''}'') (tl s)
                in if length body = length (tl s) then ([], 1)
                   else if body = [] then ([], 2)
                   else (body, length body + 2)
      else if isShellSpecialVar (hd s) then ([hd s], 1)
      else let name = takeWhile isAlphaNum s in (name, length name))"

function Expand :: "(string \<Rightarrow> string) \<Rightarrow> string \<Rightarrow> string" where
  "Expand mapping [] = []"
| "Expand mapping (c # s) =
     (if c = CHR ''$'' \<and> s \<noteq> []
      then (case getShellName s of (name, w) \<Rightarrow>
              (if name = [] \<and> w > 0 then [] else if name = [] then [c] else mapping name) @ Expand mapping (drop w s))
      else c # Expand mapping s)"
  by pat_completeness auto
termination by (relation "measure (\<lambda>(m, s). length s)") (auto simp: less_Suc_eq_le)

definition ExpandEnv :: "environ \<Rightarrow> string \<Rightarrow> string" where
  "ExpandEnv env s = Expand (Getenv env) s"

definition Cut :: "char \<Rightarrow> string \<Rightarrow> (string \<times> string) option" where
  "Cut sep s = (let before = takeWhile (\<lambda>c. c \<noteq> sep) s
                in if length before = length s then None else Some (before, drop (length before + 1) s))"

definition apply_line :: "string \<Rightarrow> environ \<Rightarrow> environ" where
  "apply_line line env =
     (let line = TrimSpace line
      in if line = [] \<or> HasPrefix line ''#'' then env
         else case Cut CHR ''='' line of
                None \<Rightarrow> env
              | Some (key, val) \<Rightarrow>
                  let key = TrimSpace key; val = ExpandEnv env (TrimSpace val)
                  in if Getenv env key = [] then Setenv key val env else env)"

definition applyOtelEnv :: "go_error option \<Rightarrow> path \<Rightarrow> disk \<Rightarrow> environ \<Rightarrow> environ" where
  "applyOtelEnv err stateDir d env =
     (case os_ReadFile err (path_Join [stateDir, ''.otel.env'']) d of
        Inl _ \<Rightarrow> env
      | Inr data \<Rightarrow> fold apply_line (Split CHR 0x0A data) env)"

section \<open>Before every command\<close>

definition configBase :: "path \<Rightarrow> path" where
  "configBase configPath = Dir configPath"

record root_flags =
  rf_noColor :: bool
  rf_quiet :: bool
  rf_output :: string
  rf_config :: path

text \<open>The logger writes nowhere with \<open>--quiet\<close>; the warning of the migration goes to the standard error output in any case.\<close>

definition pre_run :: "migrate_io \<Rightarrow> go_error option \<Rightarrow> string \<Rightarrow> root_flags \<Rightarrow> string \<Rightarrow> environ \<times> disk \<Rightarrow> log_call list \<times> string list \<times> environ \<times> disk" where
  "pre_run mio rerr version fl name = (\<lambda>(env, d).
     let env = (if rf_noColor fl then Setenv ''NO_COLOR'' ''1'' env else env);
         calls = (if rf_quiet fl \<or> rf_output fl = ''json'' then [] else [CallHeader ''phonewave'' version, CallSection name])
     in case MigrateConfigIfNeeded mio (projectRoot (rf_config fl)) d of
          (r, d) \<Rightarrow>
            (calls, (case r of Inl e \<Rightarrow> [''warning: config migration: '' @ err_msg e] | Inr _ \<Rightarrow> []),
             applyOtelEnv rerr (configBase (rf_config fl)) d env, d))"

definition root_command :: "unit result" where
  "root_command = Inl (errorf (''no subcommand specified. Run '' @ [CHR 0x27] @ ''phonewave help'' @ [CHR 0x27] @ '' for usage''))"

section \<open>Commands that print\<close>

text \<open>The outcome of \<open>phonewave metrics\<close>; \<open>None\<close> is a panic of the aggregation. \<open>hts_Window\<close> is overwritten with the flag.\<close>

definition metrics_command ::
  "load_io \<Rightarrow> (payload \<Rightarrow> int option) \<Rightarrow> time \<Rightarrow> duration result \<Rightarrow> duration result \<Rightarrow> event_dir \<Rightarrow> (health_time_series result \<times> log_call list) option" where
  "metrics_command io latency now window bucket dir =
     (case window of Inl e \<Rightarrow> Some (Inl (wrapf ''invalid --window: '' e), []) | Inr windowDur \<Rightarrow>
      case bucket of Inl e \<Rightarrow> Some (Inl (wrapf ''invalid --bucket: '' e), []) | Inr bucketDur \<Rightarrow>
      if bucketDur \<le> 0 then Some (Inl (errorf ''--bucket must be positive''), [])
      else let windowStart = now + wrap64 (- windowDur)
           in case LoadSince io windowStart dir of
                Inl e \<Rightarrow> Some (Inl (wrapf ''load events: '' e), [])
              | Inr (events, res) \<Rightarrow>
                  (case AggregateHealthTimeSeries latency events windowStart bucketDur now of
                     None \<Rightarrow> None
                   | Some ts \<Rightarrow>
                       Some (Inr (ts\<lparr>hts_Window := Duration_String windowDur\<rparr>),
                             if lr_CorruptLineCount res > 0
                             then [CallWarn (''event store: '' @ Itoa (lr_CorruptLineCount res) @ '' corrupt line(s) skipped'')] else [])))"

text \<open>\<open>base\<close> is the result of \<open>resolveBaseDir\<close>, \<open>pct\<close> the printed percentage and \<open>json\<close> the encoding of a report.\<close>

definition status_command ::
  "config_yaml \<Rightarrow> go_error option \<Rightarrow> go_error option \<Rightarrow> status_io \<Rightarrow> string \<Rightarrow> (status_report \<Rightarrow> string result) \<Rightarrow> string \<Rightarrow> path result \<Rightarrow> disk \<Rightarrow> string result" where
  "status_command yaml rerr reserr io pct json outputFmt base d =
     (case base of Inl e \<Rightarrow> Inl e | Inr base \<Rightarrow>
      let cfgPath = path_Join [base, StateDir, ConfigFile]; stateDir = path_Join [base, StateDir]
      in case LoadConfig yaml rerr reserr cfgPath d of
           Inl e \<Rightarrow> Inl \<lparr>err_msg = ''load config: '' @ err_msg e @ '' (run '' @ [CHR 0x27] @ ''phonewave init'' @ [CHR 0x27] @ '' first)'', err_chain = err_chain e\<rparr>
         | Inr cfg \<Rightarrow>
             let status = Status io cfg stateDir d
             in if outputFmt = ''json''
                then (case json status of Inl e \<Rightarrow> Inl (wrapf ''marshal status: '' e) | Inr data \<Rightarrow> Inr (data @ [CHR 0x0A]))
                else Inr (FormatText pct status))"

definition version_line :: "string \<Rightarrow> string \<Rightarrow> string \<Rightarrow> string \<Rightarrow> string" where
  "version_line version commit date go =
     ''phonewave v'' @ (if HasPrefix version ''v'' then drop 1 version else version) @ '' (commit: '' @ commit @ '', date: '' @ date @ '', go: '' @ go @ '')'' @ [CHR 0x0A]"

definition mcp_command :: "path result \<Rightarrow> go_error option \<Rightarrow> served_line list \<Rightarrow> mcp_out \<Rightarrow> unit result \<times> mcp_out" where
  "mcp_command cwd err input out =
     (case cwd of Inl e \<Rightarrow> (Inl e, out) | Inr cwd \<Rightarrow> Serve (path_Join [cwd, StateDir, ConfigFile]) err input out)"

section \<open>The state of the provider\<close>

definition providerStateFileName :: string where "providerStateFileName = ''provider-state.json''"

definition writeProviderStateSnapshot ::
  "(provider_state_snapshot \<Rightarrow> bytes result) \<Rightarrow> write_fault \<Rightarrow> path \<Rightarrow> provider_state_snapshot \<Rightarrow> disk \<Rightarrow> unit result \<times> disk" where
  "writeProviderStateSnapshot json fault stateDir snapshot d =
     (case json snapshot of
        Inl e \<Rightarrow> (Inl e, d)
      | Inr data \<Rightarrow> os_WriteFile fault (path_Join [stateDir, providerStateFileName]) data d)"

definition loadProviderStateSnapshot ::
  "(bytes \<Rightarrow> provider_state_snapshot result) \<Rightarrow> go_error option \<Rightarrow> path \<Rightarrow> disk \<Rightarrow> provider_state_snapshot option" where
  "loadProviderStateSnapshot unjson err stateDir d =
     (case os_ReadFile err (path_Join [stateDir, providerStateFileName]) d of
        Inl _ \<Rightarrow> None
      | Inr data \<Rightarrow> (case unjson data of Inl _ \<Rightarrow> None | Inr snapshot \<Rightarrow> Some snapshot))"

section \<open>The command line of the validator\<close>

text \<open>The program, its arguments and what is added to the environment; \<open>subDir\<close> is the result of \<open>findSkillsRefDir\<close>.\<close>

record tool_command =
  tc_path :: path
  tc_args :: "string list"
  tc_env :: "string list"

definition skillsRefCommand :: "(string \<Rightarrow> path option) \<Rightarrow> path \<Rightarrow> path \<Rightarrow> path \<Rightarrow> tool_command result" where
  "skillsRefCommand lookPath subDir tempDir skillDir =
     (let missing = Inl (errorf (''skills-ref not found (install via '' @ [CHR 0x27] @ ''uv tool install skills-ref'' @ [CHR 0x27] @
                                 '' or ensure submodule is present)''))
      in case lookPath ''skills-ref'' of
           Some path \<Rightarrow> Inr \<lparr>tc_path = path, tc_args = [''validate'', skillDir], tc_env = []\<rparr>
         | None \<Rightarrow>
             (case lookPath ''uv'' of
                None \<Rightarrow> missing
              | Some uvPath \<Rightarrow>
                  if subDir \<noteq> []
                  then Inr \<lparr>tc_path = uvPath, tc_args = [''run'', ''--project'', subDir, ''skills-ref'', ''validate'', skillDir],
                            tc_env = [''UV_PROJECT_ENVIRONMENT='' @ path_Join [tempDir, SkillsRefVenvName]]\<rparr>
                  else missing))"

definition run_validator :: "(tool_command \<Rightarrow> tool_run) \<Rightarrow> (string \<Rightarrow> path option) \<Rightarrow> path \<Rightarrow> path \<Rightarrow> path \<Rightarrow> tool_run" where
  "run_validator exec lookPath subDir tempDir skillDir =
     (case skillsRefCommand lookPath subDir tempDir skillDir of Inl _ \<Rightarrow> ToolMissing | Inr cmd \<Rightarrow> exec cmd)"

section \<open>What the environment ends up with\<close>

text \<open>A variable that is set by the caller keeps its value, whatever the file holds.\<close>

lemma Getenv_Setenv_other: "k \<noteq> k' \<Longrightarrow> Getenv (Setenv k v env) k' = Getenv env k'"
  by (simp add: Getenv_def Setenv_def)

lemma apply_line_keeps: "Getenv env k \<noteq> [] \<Longrightarrow> Getenv (apply_line line env) k = Getenv env k"
  by (auto simp: apply_line_def Let_def Getenv_Setenv_other split: option.splits) (metis Getenv_Setenv_other)

lemma apply_lines_keep: "Getenv env k \<noteq> [] \<Longrightarrow> Getenv (fold apply_line ls env) k = Getenv env k"
  by (induction ls arbitrary: env) (simp_all add: apply_line_keeps)

theorem explicit_env_wins: "Getenv env k \<noteq> [] \<Longrightarrow> Getenv (applyOtelEnv err stateDir d env) k = Getenv env k"
  by (auto simp: applyOtelEnv_def apply_lines_keep split: sum.splits)

lemma Expand_plain: "CHR ''$'' \<notin> set p \<Longrightarrow> Expand m (p @ s) = p @ Expand m s"
  by (induction p) auto

definition printable :: "char \<Rightarrow> bool" where
  "printable c \<longleftrightarrow> 33 \<le> (of_char c :: nat) \<and> (of_char c :: nat) < 127"

lemma TrimSpace_printable: "list_all printable s \<Longrightarrow> TrimSpace s = s"
  by (cases "s = []") (auto simp: list_all_iff printable_def intro!: TrimSpace_clean)

lemma Cut_at: "c \<notin> set k \<Longrightarrow> Cut c (k @ c # t) = Some (k, t)"
proof -
  assume "c \<notin> set k"
  then have "takeWhile (\<lambda>x. x \<noteq> c) (k @ c # t) = k" by (subst takeWhile_append2) auto
  then show ?thesis by (simp add: Cut_def Let_def)
qed

text \<open>A line \<open>KEY=value\<close>.\<close>

definition env_key :: "string \<Rightarrow> bool" where
  "env_key k \<longleftrightarrow> k \<noteq> [] \<and> list_all isAlphaNum k"

lemma env_keyD:
  assumes "env_key k"
  shows "k \<noteq> []" "list_all printable k" "CHR ''='' \<notin> set k" "CHR ''#'' \<notin> set k" "CHR 0x00 \<notin> set k"
  using assms by (auto simp: env_key_def list_all_iff isAlphaNum_def printable_def Let_def)

lemma apply_assignment:
  assumes "env_key k" and "list_all printable t"
  shows "apply_line (k @ CHR ''='' # t) env = (if Getenv env k = [] then Setenv k (ExpandEnv env t) env else env)"
proof -
  have "list_all printable (k @ CHR ''='' # t)" using env_keyD(2)[OF assms(1)] assms(2) by (simp add: printable_def)
  then have trim: "TrimSpace (k @ CHR ''='' # t) = k @ CHR ''='' # t" by (rule TrimSpace_printable)
  have "\<not> HasPrefix (k @ CHR ''='' # t) ''#''"
    using env_keyD(1,4)[OF assms(1)] by (cases k) (auto simp: HasPrefix_iff)
  then show ?thesis
    by (simp add: apply_line_def trim Cut_at[OF env_keyD(3)[OF assms(1)]] TrimSpace_printable env_keyD(2)[OF assms(1)] assms(2))
qed

text \<open>The settings that \<open>init\<close> writes for a backend, and the values the SDK is to see.\<close>

definition otel_settings :: "otel_flags \<Rightarrow> (string \<times> string) list" where
  "otel_settings fl =
     (if of_backend fl = ''jaeger'' then [(''OTEL_EXPORTER_OTLP_ENDPOINT'', ''http://localhost:4318'')]
      else [(''OTEL_EXPORTER_OTLP_ENDPOINT'', ''https://trace.wandb.ai/otel''),
            (''OTEL_EXPORTER_OTLP_HEADERS'', ''wandb-api-key=${WANDB_API_KEY}''),
            (''OTEL_RESOURCE_ATTRIBUTES'', ''wandb.entity='' @ of_entity fl @ '',wandb.project='' @ of_project fl)])"

definition setting_line :: "string \<times> string \<Rightarrow> string" where
  "setting_line = (\<lambda>(k, t). k @ CHR ''='' # t)"

lemma OtelEnvContent_settings:
  assumes "OtelEnvContent (of_backend fl) (of_entity fl) (of_project fl) = Inr content" and "of_backend fl \<noteq> []"
  shows "content = concat (map (\<lambda>s. setting_line s @ [CHR 0x0A]) (otel_settings fl))"
  using assms by (auto simp: OtelEnvContent_def otel_settings_def setting_line_def split: if_splits)

definition apply_setting :: "string \<times> string \<Rightarrow> environ \<Rightarrow> environ" where
  "apply_setting = (\<lambda>(k, t) env. if Getenv env k = [] then Setenv k (ExpandEnv env t) env else env)"

lemma apply_settings:
  assumes "\<forall>(k, t) \<in> set ss. env_key k \<and> list_all printable t"
  shows "fold apply_line (Split CHR 0x0A (concat (map (\<lambda>s. setting_line s @ [CHR 0x0A]) ss))) env =
    fold apply_setting ss env"
proof -
  have "CHR 0x0A \<notin> set (setting_line s)" if "s \<in> set ss" for s
    using that assms env_keyD(2) by (fastforce simp: setting_line_def list_all_iff printable_def)
  then have "Split CHR 0x0A (concat (map (\<lambda>l. l @ [CHR 0x0A]) (map setting_line ss))) = map setting_line ss @ [[]]"
    by (intro Split_lines) auto
  moreover have "apply_line [] = id" by (simp add: apply_line_def fun_eq_iff)
  moreover have "fold apply_line (map setting_line ss) env =
    fold apply_setting ss env"
    using assms by (induction ss arbitrary: env) (auto simp: setting_line_def apply_setting_def apply_assignment)
  ultimately show ?thesis by (simp add: o_def)
qed

lemma settings_printable:
  assumes "list_all printable (of_entity fl)" and "list_all printable (of_project fl)"
  shows "\<forall>(k, t) \<in> set (otel_settings fl). env_key k \<and> list_all printable t"
proof -
  have keys: "env_key ''OTEL_EXPORTER_OTLP_ENDPOINT''" "env_key ''OTEL_EXPORTER_OTLP_HEADERS''" "env_key ''OTEL_RESOURCE_ATTRIBUTES''"
    by code_simp+
  have vals: "list_all printable ''http://localhost:4318''" "list_all printable ''https://trace.wandb.ai/otel''"
    "list_all printable ''wandb-api-key=${WANDB_API_KEY}''" "list_all printable ''wandb.entity=''" "list_all printable '',wandb.project=''"
    by code_simp+
  have "list_all printable (''wandb.entity='' @ of_entity fl @ '',wandb.project='' @ of_project fl)"
    using vals(4,5) assms by (simp only: list_all_append)
  then show ?thesis unfolding otel_settings_def using keys vals by (simp only: list.set prod.case ball_simps split: if_split) blast
qed

lemma ExpandEnv_values:
  "CHR ''$'' \<notin> set t \<Longrightarrow> ExpandEnv env t = t"
  "ExpandEnv env ''wandb-api-key=${WANDB_API_KEY}'' = ''wandb-api-key='' @ Getenv env ''WANDB_API_KEY''"
proof -
  show "CHR ''$'' \<notin> set t \<Longrightarrow> ExpandEnv env t = t" using Expand_plain[of t _ "[]"] by (simp add: ExpandEnv_def)
  have "Expand m ''${WANDB_API_KEY}'' = m ''WANDB_API_KEY''" for m by (simp add: getShellName_def isShellSpecialVar_def)
  then show "ExpandEnv env ''wandb-api-key=${WANDB_API_KEY}'' = ''wandb-api-key='' @ Getenv env ''WANDB_API_KEY''"
    using Expand_plain[of "''wandb-api-key=''" "Getenv env" "''${WANDB_API_KEY}''"] by (simp add: ExpandEnv_def)
qed

text \<open>Setting a variable unless it has a value.\<close>

definition set_default :: "string \<Rightarrow> string \<Rightarrow> environ \<Rightarrow> environ" where
  "set_default k v env = (if Getenv env k = [] then env(k \<mapsto> v) else env)"

lemma set_default_same: "set_default k v env k = (if Getenv env k = [] then Some v else env k)"
  by (simp add: set_default_def)

lemma set_default_other: "k \<noteq> k' \<Longrightarrow> set_default k v env k' = env k'"
  by (simp add: set_default_def)

lemma Getenv_set_default: "k \<noteq> k' \<Longrightarrow> Getenv (set_default k v env) k' = Getenv env k'"
  by (simp add: Getenv_def set_default_def)

lemma Setenv_key: "env_key k \<Longrightarrow> CHR 0x00 \<notin> set v \<Longrightarrow> (if Getenv env k = [] then Setenv k v env else env) = set_default k v env"
  using env_keyD by (simp add: Setenv_def set_default_def)

definition environ_ok :: "environ \<Rightarrow> bool" where
  "environ_ok env \<longleftrightarrow> (\<forall>v \<in> ran env. CHR 0x00 \<notin> set v)"

lemma Getenv_ok: "environ_ok env \<Longrightarrow> CHR 0x00 \<notin> set (Getenv env k)"
  by (auto simp: environ_ok_def Getenv_def ranI split: option.splits)

definition otel_visible :: "environ \<Rightarrow> otel_flags \<Rightarrow> (string \<times> string) list" where
  "otel_visible env fl =
     (if of_backend fl = ''jaeger'' then [(''OTEL_EXPORTER_OTLP_ENDPOINT'', ''http://localhost:4318'')]
      else [(''OTEL_EXPORTER_OTLP_ENDPOINT'', ''https://trace.wandb.ai/otel''),
            (''OTEL_EXPORTER_OTLP_HEADERS'', ''wandb-api-key='' @ Getenv env ''WANDB_API_KEY''),
            (''OTEL_RESOURCE_ATTRIBUTES'', ''wandb.entity='' @ of_entity fl @ '',wandb.project='' @ of_project fl)])"

lemma printable_zero: "list_all printable t \<Longrightarrow> CHR 0x00 \<notin> set t"
  by (auto simp: list_all_iff printable_def)

lemma apply_setting_default: "env_key k \<Longrightarrow> ExpandEnv env t = v \<Longrightarrow> CHR 0x00 \<notin> set v \<Longrightarrow> apply_setting (k, t) env = set_default k v env"
  by (simp add: apply_setting_def Setenv_key)

lemma apply_plain_setting:
  "env_key k \<Longrightarrow> list_all printable t \<Longrightarrow> CHR ''$'' \<notin> set t \<Longrightarrow> apply_setting (k, t) env = set_default k t env"
  by (intro apply_setting_default ExpandEnv_values(1) printable_zero)

lemma settings_applied:
  assumes "environ_ok env"
    and "list_all printable (of_entity fl)" and "list_all printable (of_project fl)"
    and "CHR ''$'' \<notin> set (of_entity fl)" and "CHR ''$'' \<notin> set (of_project fl)"
  shows "fold apply_setting (otel_settings fl) env = fold (\<lambda>(k, v). set_default k v) (otel_visible env fl) env"
proof -
  have keys: "env_key ''OTEL_EXPORTER_OTLP_ENDPOINT''" "env_key ''OTEL_EXPORTER_OTLP_HEADERS''" "env_key ''OTEL_RESOURCE_ATTRIBUTES''"
    by code_simp+
  have urls: "list_all printable ''http://localhost:4318''" "CHR ''$'' \<notin> set ''http://localhost:4318''"
    "list_all printable ''https://trace.wandb.ai/otel''" "CHR ''$'' \<notin> set ''https://trace.wandb.ai/otel''"
    by code_simp+
  let ?t = "''wandb.entity='' @ of_entity fl @ '',wandb.project='' @ of_project fl"
  have "list_all printable ''wandb.entity=''" "list_all printable '',wandb.project=''" by code_simp+
  then have attrs: "list_all printable ?t" using assms(2,3) by (simp only: list_all_append simp_thms)
  have "CHR ''$'' \<notin> set ''wandb.entity=''" "CHR ''$'' \<notin> set '',wandb.project=''" by simp_all
  then have dollar: "CHR ''$'' \<notin> set ?t" using assms(4,5) by (simp only: set_append Un_iff simp_thms)
  have header: "apply_setting (''OTEL_EXPORTER_OTLP_HEADERS'', ''wandb-api-key=${WANDB_API_KEY}'') (set_default ''OTEL_EXPORTER_OTLP_ENDPOINT'' u env) =
      set_default ''OTEL_EXPORTER_OTLP_HEADERS'' (''wandb-api-key='' @ Getenv env ''WANDB_API_KEY'') (set_default ''OTEL_EXPORTER_OTLP_ENDPOINT'' u env)" for u
  proof (rule apply_setting_default[OF keys(2)])
    have "Getenv (set_default ''OTEL_EXPORTER_OTLP_ENDPOINT'' u env) ''WANDB_API_KEY'' = Getenv env ''WANDB_API_KEY''"
      by (rule Getenv_set_default) simp
    then show "ExpandEnv (set_default ''OTEL_EXPORTER_OTLP_ENDPOINT'' u env) ''wandb-api-key=${WANDB_API_KEY}'' = ''wandb-api-key='' @ Getenv env ''WANDB_API_KEY''"
      by (simp only: ExpandEnv_values(2))
    show "CHR 0x00 \<notin> set (''wandb-api-key='' @ Getenv env ''WANDB_API_KEY'')" using Getenv_ok[OF assms(1)] by simp
  qed
  show ?thesis
    by (simp only: otel_settings_def otel_visible_def fold_simps prod.case header apply_plain_setting[OF keys(1) urls(1,2)]
        apply_plain_setting[OF keys(1) urls(3,4)] apply_plain_setting[OF keys(3) attrs dollar] split: if_split) blast
qed

lemma fold_set_default:
  "distinct (map fst vs) \<Longrightarrow> fold (\<lambda>(k, v). set_default k v) vs env k =
     (case map_of vs k of Some v \<Rightarrow> if Getenv env k = [] then Some v else env k | None \<Rightarrow> env k)"
proof (induction vs arbitrary: env)
  case (Cons kv vs)
  obtain k' v where kv: "kv = (k', v)" by (cases kv)
  have fresh: "map_of vs k' = None" using Cons.prems by (simp add: kv map_of_eq_None_iff)
  have step: "fold (\<lambda>(k, v). set_default k v) (kv # vs) env k =
      (case map_of vs k of Some w \<Rightarrow> if Getenv (set_default k' v env) k = [] then Some w else set_default k' v env k | None \<Rightarrow> set_default k' v env k)"
    using Cons.IH[where env = "set_default k' v env"] Cons.prems by (simp add: kv)
  show ?case
    unfolding step using fresh by (cases "k = k'") (simp_all add: kv set_default_same set_default_other Getenv_set_default split: option.splits)
qed simp

lemma otel_visible_distinct: "distinct (map fst (otel_visible env fl))"
  by (simp add: otel_visible_def)

lemma write_otel_file:
  assumes "write_otel io fl cfgPath d = (Inr (), out, d')" and "of_backend fl \<noteq> []"
  shows "os_ReadFile None (path_Join [configBase cfgPath, ''.otel.env'']) d' = Inr (concat (map (\<lambda>s. setting_line s @ [CHR 0x0A]) (otel_settings fl)))"
proof -
  obtain content where content: "OtelEnvContent (of_backend fl) (of_entity fl) (of_project fl) = Inr content"
    using assms by (cases "OtelEnvContent (of_backend fl) (of_entity fl) (of_project fl)") (simp_all add: write_otel_def)
  have "os_WriteFile (co_otelWrite io) (path_Join [Dir cfgPath, ''.otel.env'']) content d = (Inr (), d')"
    using assms unfolding write_otel_def content
    by (cases "os_WriteFile (co_otelWrite io) (path_Join [Dir cfgPath, ''.otel.env'']) content d") (auto simp: Let_def split: option.splits sum.splits)
  then have "dk_files d' (path_Join [Dir cfgPath, ''.otel.env'']) = Some content"
    by (auto simp: os_WriteFile_def split: option.splits prod.splits)
  then show ?thesis using OtelEnvContent_settings[OF content assms(2)] by (simp add: os_ReadFile_def configBase_def)
qed

text \<open>What \<open>init\<close> configures for the telemetry reaches the SDK of the later commands: after the backend was written, the preparation of a
  command changes exactly the variables of that backend, each to the configured value with the key of the account filled in from the
  environment, and leaves those alone that the caller has set. The entity and the project are printable and without dollar signs.\<close>

theorem otel_env_reaches_sdk:
  assumes "write_otel io fl cfgPath d = (Inr (), out, d')" and "of_backend fl \<noteq> []" and "environ_ok env"
    and "list_all printable (of_entity fl)" and "list_all printable (of_project fl)"
    and "CHR ''$'' \<notin> set (of_entity fl)" and "CHR ''$'' \<notin> set (of_project fl)"
  shows "applyOtelEnv None (configBase cfgPath) d' env k =
    (case map_of (otel_visible env fl) k of Some v \<Rightarrow> if Getenv env k = [] then Some v else env k | None \<Rightarrow> env k)"
  unfolding applyOtelEnv_def write_otel_file[OF assms(1,2)] sum.case apply_settings[OF settings_printable[OF assms(4,5)]]
    settings_applied[OF assms(3-7)] by (rule fold_set_default[OF otel_visible_distinct])

section \<open>What the metrics command counts\<close>

lemma count_filtered: "int (length (filter P (filter Q xs))) = int (size (filter_mset (\<lambda>x. P x \<and> Q x) (mset xs)))"
  by (simp flip: mset_filter add: conj_commute)

text \<open>The series printed by \<open>phonewave metrics\<close> covers what is stored: for a positive bucket size and a window inside recorded time, when the
  event files can be read, the command does not fail or panic, and its totals are the numbers of completed, failed and retried
  deliveries among all stored events that are younger than the window and not in the future; a warning appears exactly if lines were
  corrupt, with their number.\<close>

theorem metrics_command_counts:
  assumes "0 < bsz" and "0 \<le> w" and "w < 2 ^ 63" and "w < now"
  shows "\<exists>ts out. metrics_command (load_ok u) lat now (Inr w) (Inr bsz) dir = Some (Inr ts, out) \<and>
    hts_GeneratedAt ts = now \<and> hts_Window ts = Duration_String w \<and>
    (let stored = (\<lambda>t. int (size {#ev \<in># dir_events u dir. evt_Type ev = t \<and> now - w < evt_Timestamp ev \<and> evt_Timestamp ev \<le> now#})) in
     dmt_Delivered (hts_Totals ts) = stored EventDeliveryCompleted \<and> dmt_Failed (hts_Totals ts) = stored EventDeliveryFailed \<and>
     dmt_Retried (hts_Totals ts) = stored EventErrorRetried) \<and>
    out = (if dir_corrupt u dir = 0 then [] else [CallWarn (''event store: '' @ Itoa (int (dir_corrupt u dir)) @ '' corrupt line(s) skipped'')])"
proof -
  have start: "now + wrap64 (- w) = now - w" using assms(2,3) by (simp add: wrap64_id in_int64_def)
  let ?evs = "filter (recent (now - w)) (all_events u dir)"
  have window: "0 < bsz" "now - w \<le> now" "now - (now - w) < 2 ^ 63" using assms(1-3) by simp_all
  obtain bs m where run: "AggregateHealthTimeSeries lat ?evs (now - w) bsz now =
      Some \<lparr>hts_GeneratedAt = now, hts_Window = Duration_String (wrap64 (bsz * num_buckets (now - w) bsz now)),
            hts_BucketSize = Duration_String bsz, hts_Buckets = map2 (bucket_of (now - w) bsz) [0..<length bs] bs, hts_Totals = m\<rparr>"
    and tot: "\<And>t. t \<in> delivery_types \<Longrightarrow> total_of m t = count (\<lambda>ev. evt_Type ev = t \<and> in_window (now - w) now ev) ?evs"
    using AggregateHealthTimeSeries_tallies[OF window, of lat ?evs] by blast
  have "(\<lambda>ev. (evt_Type ev = t \<and> in_window (now - w) now ev) \<and> recent (now - w) ev) =
      (\<lambda>ev. evt_Type ev = t \<and> now - w < evt_Timestamp ev \<and> evt_Timestamp ev \<le> now)" for t
    using assms(4) by (auto simp: in_window_def recent_def IsZero_def fun_eq_iff)
  then have stored: "total_of m t = int (size {#ev \<in># dir_events u dir. evt_Type ev = t \<and> now - w < evt_Timestamp ev \<and> evt_Timestamp ev \<le> now#})"
    if "t \<in> delivery_types" for t using tot[OF that] unfolding count_filtered mset_all_events by (simp only:)
  show ?thesis
    using assms(1) stored[of EventDeliveryCompleted] stored[of EventDeliveryFailed] stored[of EventErrorRetried]
    by (simp add: metrics_command_def start LoadSince_def loadEvents_eq run Let_def tally_simps)
qed

section \<open>Status and validator agree\<close>

text \<open>The status shows the validator as ready exactly if its command line can be built, and it names the environment that is used.\<close>

theorem skills_ref_ready:
  "sr_SkillsRefReady (Status io cfg stateDir d) \<longleftrightarrow> (\<exists>cmd. skillsRefCommand (so_lookPath io) (so_skillsRefDir io) (so_tempDir io) skillDir = Inr cmd)"
  "skillsRefCommand (so_lookPath io) (so_skillsRefDir io) (so_tempDir io) skillDir = Inr cmd \<Longrightarrow>
     tc_env cmd \<in> {[], [''UV_PROJECT_ENVIRONMENT='' @ sr_SkillsRefVenv (Status io cfg stateDir d)]}"
  by (auto simp: Status_def skillsRefCommand_def Let_def split: option.splits if_splits)

text \<open>The state the daemon publishes is the one the status reads.\<close>

theorem published_state_is_read:
  assumes "\<And>s b. json s = Inr b \<Longrightarrow> unjson b = Inr s" and "writeProviderStateSnapshot json fault stateDir snapshot d = (Inr (), d')"
    and "so_snapshot io = loadProviderStateSnapshot unjson None stateDir d'"
  shows "sr_ProviderState (Status io cfg stateDir d') = ps_State snapshot \<and> sr_ProviderResumeAt (Status io cfg stateDir d') = ps_ResumeAt snapshot"
proof -
  obtain b where b: "json snapshot = Inr b" and f: "dk_files d' (path_Join [stateDir, providerStateFileName]) = Some b"
    using assms(2) by (auto simp: writeProviderStateSnapshot_def os_WriteFile_def split: sum.splits option.splits prod.splits)
  then have "so_snapshot io = Some snapshot" using assms(1)[OF b] by (simp add: assms(3) loadProviderStateSnapshot_def os_ReadFile_def)
  then show ?thesis by (simp add: Status_def Let_def provider_snapshot_def)
qed

end
