(* ===== verification/Spec2Isabelle.thy ===== *)
theory Spec2Isabelle
  imports DaemonCorrect Emitter Metrics Policy Runner Mcp Maintenance Approval Commands DoctorCmd CommandLine
begin

text \<open>
  \<^bold>\<open>phonewave\<close> is a courier daemon. Tools write D-Mails, Markdown files with a YAML frontmatter, into the \<open>outbox\<close> of a
  dot-directory of a repository; phonewave copies each to the \<open>inbox\<close> of every endpoint that consumes its kind and then removes it
  from the outbox. This development is a shallow embedding of the Go program under \<open>src/\<close>, with the theorems that make it correct. Definitions
  keep the names of the code where Isabelle allows it; a method \<open>Close\<close> of a type \<open>Runner\<close> is \<open>Runner_Close\<close>.

  \<^bold>\<open>The program and its flow.\<close> \<open>phonewave init\<close> scans repositories for endpoints, derives the routes and writes the configuration; \<open>add\<close>,
  \<open>remove\<close> and \<open>sync\<close> maintain it. \<open>phonewave run\<close> takes a lock, builds the daemon and starts it: it recovers staged deliveries of an
  earlier run, scans the outboxes, and then handles file events, retries and ticks. One delivery parses the D-Mail, stages one row per inbox in
  an SQLite table in one transaction, flushes the rows by temporary file and rename, records the content in a second table, and removes the
  source. A delivery that fails goes into the error queue, a third table, from which the daemons claim it again with a backoff; a circuit breaker
  pauses deliveries. What happens is recorded as events with global sequence numbers in daily files, and policies react to the events with
  notifications, metrics and an insight ledger. \<open>doctor\<close>, \<open>status\<close>, \<open>metrics\<close> and an MCP server look at the state; \<open>clean\<close>,
  \<open>dead-letters purge\<close> and \<open>archive-prune\<close> delete parts of it.

  \<^bold>\<open>How the code is rendered.\<close> Structs are records, enums and tagged values datatypes, a function with a result and an error returns
  \<open>'a result\<close>, which is \<open>go_error + 'a\<close>. A function with effects takes the state it touches (a \<open>disk\<close>, the rows of a table, the record of
  a component) and returns it changed, also next to an error. Whatever the operating system, the database driver, the clock, the random source or
  the user decides is an argument, mostly a field of a record \<open>..._io\<close>; a theorem over such an argument holds for every failure it can
  describe. A Go panic is the value \<open>None\<close>; running out of memory is not
  considered. Durations and counters are kept at 64 bits where they can overflow (\<open>wrap64\<close>,
  \<open>64 word\<close> in the Bloom filter, \<open>32 word\<close> in SHA-256); elsewhere \<open>int\<close> and \<open>nat\<close> are used because the values are lengths of
  lists. Loops over data are recursive functions; there is no fuel. The loop of \<open>CircuitBreaker.Allow\<close>, which can wait for ever, runs over
  the list of what it observes each time it wakes up, and the theorem on it says when it is still blocked and when it returns. Going up the
  ancestors of a directory is a \<open>partial_function\<close>, and a theorem says that it returns for every directory.

  \<^bold>\<open>Foundations.\<close>
  \<^item> \<open>Prelude\<close>: the basic types, errors as values with \<open>errors.Is\<close>, 64-bit wrap-around, generic list facts, and the locale \<open>stepping\<close>.
  \<^item> \<open>GoStrings\<close>, \<open>GoPath\<close>, \<open>GoTime\<close>: the functions of Go's \<open>strings\<close>, \<open>strconv\<close>, \<open>path/filepath\<close> and \<open>time\<close> the program
    uses, written out, with the round trips \<open>Split\<close>/\<open>Join\<close>, \<open>Itoa\<close>/\<open>Atoi\<close>, \<open>Join\<close>/\<open>Dir\<close>/\<open>Base\<close>, and formatting and parsing of times.
  \<^item> \<open>FileSys\<close>: the files on disk and the calls of package \<open>os\<close>, with a history of the renames that put a D-Mail in place.
  \<^item> \<open>Sql\<close>: tables as lists of their committed rows, transactions, and the locale \<open>insert_or_ignore\<close>.
  \<^item> \<open>JsonText\<close>: the strings and the nesting of JSON text, and why an object behind a torn one is not JSON.
  \<^item> \<open>Sha256\<close>: FIPS 180-4 and the idempotency key of \<open>domain/idempotency_key.go\<close>.

  \<^bold>\<open>Domain\<close> (\<open>src/internal/domain\<close>, \<open>src/internal/platform\<close>).
  \<^item> \<open>DMail\<close>: kinds, frontmatter, validation, file names (\<open>delivery.go\<close>, \<open>dmail_filter.go\<close>).
  \<^item> \<open>Routing\<close>: \<open>config.go\<close>; resolved routes start in watched outboxes and have inboxes.
  \<^item> \<open>Improvement\<close>: improvement metadata, provider state, routing policy and the choice of inboxes (\<open>improvement.go\<close>,
    \<open>provider_state.go\<close>, \<open>routing_policy.go\<close>).
  \<^item> \<open>CircuitBreaker\<close>, \<open>Backoff\<close>: \<open>circuit_breaker.go\<close>, \<open>delivery_error.go\<close>, \<open>retry_backoff.go\<close>; an invariant of all reachable
    states, the exact backoff after \<open>n\<close> errors, blocking and release of \<open>Allow\<close>.
  \<^item> \<open>Bloom\<close>: \<open>bloom_filter.go\<close>; no false negatives, no panic, the binary form.

  \<^bold>\<open>Delivery\<close> (\<open>src/internal/session\<close>).
  \<^item> \<open>DeliveryStore\<close>, \<open>DedupStore\<close>, \<open>ErrorQueue\<close>: the three tables with every operation and every error of the driver. Staging refines an
    abstract map from D-Mail and target to data and state (locale \<open>staging_store\<close>); a flush does exactly what it should; entries of the queue
    are never lost and claims exclude one another.
  \<^item> \<open>Deliver\<close>: \<open>deliver.go\<close>, the whole handler. A source file disappears only after delivery to every selected inbox; delivery succeeds
    when nothing fails; content on record is not delivered twice; errors change nothing; the invariant of the pipeline.
  \<^item> \<open>Daemon\<close>, \<open>DaemonCorrect\<close>: \<open>daemon_deliver.go\<close>, \<open>scan_deliver.go\<close>, \<open>daemon_runner.go\<close>, \<open>delivery_log.go\<close>. The event loop is the
    inductive step relation \<open>daemon_step\<close>, an interpretation of \<open>stepping\<close>; runs keep the invariant, never panic and never lose a
    D-Mail, a path that was delivered stays skipped in this run and the next, and a retry round settles what it claims.
  \<^item> \<open>DaemonFiles\<close>: the two files the daemon writes about itself are still there when its start is over.
  \<^item> \<open>Runner\<close>: \<open>daemon_runner_adapter.go\<close>, \<open>daemon_lock_unix.go\<close>, \<open>store_factory.go\<close>, \<open>cmd/run.go\<close>; at most one daemon holds a state
    directory while its lock file keeps its name. The lock is on the file (inode) behind the name, so that what follows from removing
    the name is part of the theorem.

  \<^bold>\<open>Events\<close> (\<open>src/internal/eventsource\<close>, \<open>src/internal/usecase\<close>).
  \<^item> \<open>EventStore\<close>: envelope, aggregate, counter and daily files, kept as bytes; what is appended is replayed, except after a torn write.
  \<^item> \<open>Emitter\<close>: emission, snapshots and cutover; calls one after the other give one causation chain with increasing numbers, overlapping
    calls do not; the cutover happens once.
  \<^item> \<open>Metrics\<close>: the time series partitions its window without a panic; counts from the delivery log.
  \<^item> \<open>Insight\<close>, \<open>Policy\<close>: the Markdown ledger (locale \<open>insight_store\<close>) and the handlers; a failed delivery leaves exactly its entry.

  \<^bold>\<open>Configuration\<close>.
  \<^item> \<open>Scanner\<close>, \<open>Setup\<close>, \<open>ConfigFile\<close>: \<open>scanner.go\<close>, \<open>setup.go\<close>, \<open>config.go\<close> and the state directory. The contract of the operations is
    the locale \<open>config_operation\<close>, interpreted for \<open>Add\<close>, \<open>Remove\<close> and \<open>Sync\<close>; well-formedness, convergence of \<open>Sync\<close>, and the round
    trip through the two files.
  \<^item> \<open>Commands\<close>: \<open>cmd/init.go\<close>, \<open>add.go\<close>, \<open>remove.go\<close>, \<open>sync.go\<close>, composed over the files. After \<open>init\<close> the daemon can resolve its
    routes, \<open>sync\<close> settles, \<open>add\<close> is undone by \<open>remove\<close>.

  \<^bold>\<open>Operations and tools\<close>.
  \<^item> \<open>Doctor\<close>, \<open>DoctorCmd\<close>: the checks and repairs, the status, the report over all tools and the exit code of the process; with a healthy
    verdict no path of an endpoint is missing, where a path counts as missing only if \<open>os.Stat\<close> says that it does not exist; the status follows
    the start and the end of a daemon; the unified verdict is the conjunction of all.
  \<^item> \<open>Mcp\<close>: \<open>mcp_server.go\<close>; every request with an id but one is answered once and in order, and the numbers reported are those of the
    watched outboxes.
  \<^item> \<open>ArchiveIndex\<close>, \<open>Maintenance\<close>: the archive index and the commands that delete; \<open>clean\<close> keeps the configuration.
  \<^item> \<open>Logger\<close>, \<open>Approval\<close>: log lines, notifiers, approvers and shell quoting, measured against how a POSIX shell reads quotes.
  \<^item> \<open>CommandLine\<close>: \<open>cmd/root.go\<close>, \<open>otelenv.go\<close>, \<open>metrics.go\<close>, \<open>status.go\<close>, \<open>session/provider_state_file.go\<close> and the command line of the
    validator. What \<open>init\<close> configured for the telemetry is what the SDK sees, unless the caller has set it; the totals of \<open>metrics\<close> are
    the stored events of the window; \<open>status\<close> and validator agree.

  \<^bold>\<open>Parameters and hypotheses.\<close> Code outside the repository is a parameter: the YAML package (a decoder per type; the round trips assume
  \<open>yaml_inverse\<close> or its counterpart, that decoding undoes encoding), \<open>encoding/json\<close> (encoder and decoder of events with \<open>encodes\<close> and
  \<open>decoder_ok\<close>; requests to the MCP server and reports of other tools are kept as what decoding makes of them), the worker pool \<open>pond\<close>
  (\<open>keeps_order\<close>: results in the order of the tasks, or an error), the external validator \<open>skills-ref\<close>, the other tools the doctor starts,
  SQLite (a transaction without commit changes nothing; a \<open>ROLLBACK\<close> has effect, although the code ignores its error), and \<open>filepath.Abs\<close>
  and \<open>os.Stat\<close>. Every property with such a hypothesis has a witness that instantiates it.

  \<^bold>\<open>Concurrency.\<close> The event loop takes its steps in any order and any number, between foreign changes of the files; within a step, jobs of the
  worker pool run one after the other, and so do the calls of the emitter, which has no lock of its own; the theory \<open>Emitter\<close> says what two
  overlapping calls do. Operations of two daemons on the error queue are interleaved as sequences of transactions.

  \<^bold>\<open>Not modelled\<close>, because it has no behaviour of the program's own: telemetry (spans, exporters, attributes); the declaration of commands and
  flags for \<open>cobra\<close>, the JSON form of the version and the call of the updater; interfaces without operations; Windows variants and the system
  calls behind the file locks; the lint fixtures and the documentation generator. Opening the SQLite databases (directories, pragmas, schema) is
  left out of the three stores. The sizes \<open>NewBloomFilter\<close> computes in floating point are arguments, as are the rates and ages that are
  printed from \<open>float64\<close>; \<open>Metrics\<close> states rates as exact fractions.
\<close>

end
